(* ===== verification/Fix_Prelude.thy ===== *)
theory Fix_Prelude
  imports Main "HOL-Library.Sublist" "HOL-Library.Code_Target_Nat"
begin

text \<open>
  Shared vocabulary of the development: byte strings, the fixed-width integer conversions of the
  Rust sources, decimal printing and parsing as \<^verbatim>\<open>to_string\<close> and \<^verbatim>\<open>str::parse\<close> do it, UTF-8
  validity as \<^verbatim>\<open>core::str::from_utf8\<close> checks it, byte search and splitting, and the generic
  list lemmas the components use.

  A byte (\<^verbatim>\<open>u8\<close>) is a \<^typ>\<open>char\<close> (256 values); \<^verbatim>\<open>Vec<u8>\<close>, \<^verbatim>\<open>&[u8]\<close>, \<^verbatim>\<open>String\<close> and \<^verbatim>\<open>&str\<close> are all
  \<^typ>\<open>char list\<close>, the latter two under the UTF-8 check. Unsigned integers are \<^typ>\<open>nat\<close> and
  \<^verbatim>\<open>i64\<close> is \<^typ>\<open>int\<close>, with bounds, saturation and wrap-around written out where the code has them.
\<close>

type_synonym bytes = "char list"
type_synonym tag = nat

named_theorems codec_simps \<open>rewriting rules of the wire codec\<close>
named_theorems inv_intros \<open>preservation lemmas of session invariants\<close>

section \<open>Integers\<close>

abbreviation u32_size :: nat where "u32_size \<equiv> 2 ^ 32"
abbreviation u64_size :: nat where "u64_size \<equiv> 2 ^ 64"

text \<open>\<^verbatim>\<open>u64::saturating_add\<close>, \<^verbatim>\<open>u32::saturating_add\<close>.\<close>

definition sat_add64 :: "nat \<Rightarrow> nat \<Rightarrow> nat" where
  "sat_add64 a b = min (a + b) (u64_size - 1)"

definition sat_add32 :: "nat \<Rightarrow> nat \<Rightarrow> nat" where
  "sat_add32 a b = min (a + b) (u32_size - 1)"

text \<open>The cast \<^verbatim>\<open>x as i64\<close> of a \<^verbatim>\<open>u64\<close> reinterprets the two's complement bits.\<close>

definition as_i64 :: "nat \<Rightarrow> int" where
  "as_i64 n = (if n < 2 ^ 63 then int n else int n - 2 ^ 64)"

lemma sat_add64_bound [simp]: "sat_add64 a b < u64_size"
  by (simp add: sat_add64_def)

lemma sat_add64_bound_numeral [simp]: "sat_add64 a b < 18446744073709551616"
  by (simp add: sat_add64_def)

lemma sat_add64_small: "a + b < u64_size \<Longrightarrow> sat_add64 a b = a + b"
  by (simp add: sat_add64_def)

lemma sat_add64_ge: "a < u64_size \<Longrightarrow> a \<le> sat_add64 a b"
  by (simp add: sat_add64_def)

lemma sat_add64_pos [simp]: "0 < b \<Longrightarrow> 0 < sat_add64 a b"
  by (simp add: sat_add64_def)

lemma as_i64_small [simp]: "n < 2 ^ 63 \<Longrightarrow> as_i64 n = int n"
  by (simp add: as_i64_def)

text \<open>The cast \<^verbatim>\<open>x as usize\<close> of an \<^verbatim>\<open>i64\<close> on a 64-bit target.\<close>

definition as_usize :: "int \<Rightarrow> nat" where
  "as_usize i = (if i < 0 then nat (i + 2 ^ 64) else nat i)"

section \<open>Decimal digits\<close>

definition is_digit :: "char \<Rightarrow> bool" where
  "is_digit c \<longleftrightarrow> 48 \<le> (of_char c :: nat) \<and> (of_char c :: nat) \<le> 57"

definition digit_val :: "char \<Rightarrow> nat" where
  "digit_val c = of_char c - 48"

definition digit_char :: "nat \<Rightarrow> char" where
  "digit_char d = char_of (48 + d)"

lemma of_digit_char [simp]: "d < 10 \<Longrightarrow> (of_char (digit_char d) :: nat) = 48 + d"
  by (simp add: digit_char_def)

lemma is_digit_digit_char [simp]: "d < 10 \<Longrightarrow> is_digit (digit_char d)"
  by (simp add: is_digit_def)

lemma digit_val_digit_char [simp]: "d < 10 \<Longrightarrow> digit_val (digit_char d) = d"
  by (simp add: digit_val_def)

lemma is_digit_neq:
  "is_digit c \<Longrightarrow> c \<noteq> CHR 0x01" "is_digit c \<Longrightarrow> c \<noteq> CHR ''=''"
  "is_digit c \<Longrightarrow> c \<noteq> CHR ''+''" "is_digit c \<Longrightarrow> c \<noteq> CHR ''-''"
  "is_digit c \<Longrightarrow> c \<noteq> CHR ''.''"
  by (auto simp: is_digit_def)

text \<open>\<^verbatim>\<open>n.to_string()\<close> of an unsigned and of a signed integer.\<close>

fun show_nat :: "nat \<Rightarrow> bytes" where
  "show_nat n = (if n < 10 then [digit_char n] else show_nat (n div 10) @ [digit_char (n mod 10)])"

declare show_nat.simps [simp del]

definition show_int :: "int \<Rightarrow> bytes" where
  "show_int i = (if i < 0 then CHR ''-'' # show_nat (nat (- i)) else show_nat (nat i))"

text \<open>
  \<^verbatim>\<open>format!("{n:0w$}")\<close>: decimal digits, zero-padded on the left to width \<open>w\<close>.
\<close>

definition show_pad :: "nat \<Rightarrow> nat \<Rightarrow> bytes" where
  "show_pad w n = replicate (w - length (show_nat n)) (CHR ''0'') @ show_nat n"

lemma show_nat_nonempty [simp]: "show_nat n \<noteq> []"
  by (subst show_nat.simps) simp

lemma show_nat_digits: "c \<in> set (show_nat n) \<Longrightarrow> is_digit c"
proof (induction n rule: show_nat.induct)
  case (1 n)
  show ?case
  proof (cases "n < 10")
    case True
    then show ?thesis using "1.prems" by (simp add: show_nat.simps [of n])
  next
    case False
    then have "c \<in> set (show_nat (n div 10)) \<or> c = digit_char (n mod 10)"
      using "1.prems" by (auto simp: show_nat.simps [of n])
    then show ?thesis using "1.IH" [OF False] by auto
  qed
qed

lemma show_nat_hd_digit: "is_digit (hd (show_nat n))"
  using show_nat_digits [of "hd (show_nat n)" n] by simp

section \<open>Parsing integers as \<^verbatim>\<open>FromStr\<close> does\<close>

text \<open>
  The digit loop of \<^verbatim>\<open>from_str_radix\<close>: every step multiplies by ten, adds the digit and fails on
  overflow of the type (\<open>bd\<close> is the first value that does not fit) or on a non-digit.
\<close>

fun parse_digits :: "nat \<Rightarrow> nat \<Rightarrow> bytes \<Rightarrow> nat option" where
  "parse_digits bd acc [] = Some acc"
| "parse_digits bd acc (c # cs) =
     (if is_digit c then
        (let a = acc * 10 + digit_val c in if a < bd then parse_digits bd a cs else None)
      else None)"

text \<open>
  Unsigned parsing: the empty string and a lone sign fail, a leading \<open>+\<close> is accepted, a leading
  \<open>-\<close> is an invalid digit.
\<close>

definition parse_unsigned :: "nat \<Rightarrow> bytes \<Rightarrow> nat option" where
  "parse_unsigned bd s =
     (case s of [] \<Rightarrow> None
      | c # cs \<Rightarrow> if c = CHR ''+'' then (if cs = [] then None else parse_digits bd 0 cs)
                  else parse_digits bd 0 s)"

definition parse_i64 :: "bytes \<Rightarrow> int option" where
  "parse_i64 s =
     (case s of [] \<Rightarrow> None
      | c # cs \<Rightarrow>
          if c = CHR ''+'' then (if cs = [] then None else map_option int (parse_digits (2 ^ 63) 0 cs))
          else if c = CHR ''-'' then
            (if cs = [] then None
             else map_option (\<lambda>n. - int n) (parse_digits (2 ^ 63 + 1) 0 cs))
          else map_option int (parse_digits (2 ^ 63) 0 s))"

lemma parse_digits_append:
  "parse_digits bd acc (xs @ ys) = Option.bind (parse_digits bd acc xs) (\<lambda>a. parse_digits bd a ys)"
  by (induction bd acc xs rule: parse_digits.induct) (auto simp: Let_def)

lemma parse_digits_show_nat: "n < bd \<Longrightarrow> parse_digits bd 0 (show_nat n) = Some n"
proof (induction n rule: show_nat.induct)
  case (1 n)
  show ?case
  proof (cases "n < 10")
    case True
    then show ?thesis using "1.prems" by (simp add: show_nat.simps [of n] Let_def)
  next
    case False
    have "n div 10 < bd" using "1.prems" by simp
    with "1.IH" [OF False] have "parse_digits bd 0 (show_nat (n div 10)) = Some (n div 10)" by simp
    moreover have "n div 10 * 10 + n mod 10 = n" by simp
    ultimately show ?thesis using False "1.prems"
      by (simp add: show_nat.simps [of n] parse_digits_append Let_def)
  qed
qed

lemma parse_digits_bound: "parse_digits bd acc s = Some n \<Longrightarrow> acc < bd \<Longrightarrow> n < bd"
  by (induction bd acc s rule: parse_digits.induct) (auto simp: Let_def split: if_splits)

lemma parse_digits_isdigit: "parse_digits bd acc s = Some n \<Longrightarrow> \<forall>c\<in>set s. is_digit c"
  by (induction bd acc s rule: parse_digits.induct) (auto simp: Let_def split: if_splits)

text \<open>A digit string without a leading zero is the one \<^verbatim>\<open>to_string\<close> prints.\<close>

lemma digit_char_digit_val: "is_digit c \<Longrightarrow> digit_char (digit_val c) = c"
  by (simp add: is_digit_def digit_val_def digit_char_def)

lemma digit_char_0: "digit_char 0 = CHR ''0''"
  by code_simp

lemma digit_val_less: "is_digit c \<Longrightarrow> digit_val c < 10"
  by (auto simp: is_digit_def digit_val_def)

lemma show_nat_snoc: "d < 10 \<Longrightarrow> 0 < n \<Longrightarrow> show_nat (n * 10 + d) = show_nat n @ [digit_char d]"
  by (simp add: show_nat.simps [of "n * 10 + d"])

lemma show_nat_parse:
  "parse_digits bd 0 s = Some n \<Longrightarrow> s \<noteq> [] \<Longrightarrow> hd s \<noteq> CHR ''0'' \<Longrightarrow> show_nat n = s \<and> 0 < n"
proof (induction s arbitrary: n rule: rev_induct)
  case (snoc c s)
  then obtain a where a: "parse_digits bd 0 s = Some a" and c: "is_digit c" and n: "n = a * 10 + digit_val c"
    by (auto simp: parse_digits_append Let_def bind_eq_Some_conv split: if_splits)
  show ?case
  proof (cases "s = []")
    case True
    then have "digit_val c \<noteq> 0"
      using snoc.prems(3) digit_char_digit_val [OF c] digit_char_0 by (metis append_Nil list.sel(1))
    then show ?thesis using True a n digit_val_less [OF c] digit_char_digit_val [OF c]
      by (simp add: show_nat.simps [of "digit_val c"])
  next
    case False
    then have "show_nat a = s \<and> 0 < a" using snoc.IH [OF a] snoc.prems(3) by simp
    then show ?thesis
      using n digit_val_less [OF c] digit_char_digit_val [OF c] by (simp add: show_nat_snoc)
  qed
qed simp

lemma show_nat_Cons:
  obtains c cs where "show_nat n = c # cs" "is_digit c" "c \<noteq> CHR ''+''" "c \<noteq> CHR ''-''"
proof -
  obtain c cs where *: "show_nat n = c # cs" by (cases "show_nat n") auto
  then have "is_digit c" using show_nat_hd_digit [of n] by simp
  with * that is_digit_neq show ?thesis by blast
qed

lemma parse_unsigned_show_nat [simp]:
  assumes "n < bd"
  shows "parse_unsigned bd (show_nat n) = Some n"
proof -
  obtain c cs where *: "show_nat n = c # cs" "c \<noteq> CHR ''+''" by (rule show_nat_Cons)
  from parse_digits_show_nat [OF assms] * show ?thesis
    by (simp add: parse_unsigned_def del: parse_digits.simps)
qed

lemma parse_unsigned_bound: "parse_unsigned bd s = Some n \<Longrightarrow> 0 < bd \<Longrightarrow> n < bd"
  by (auto simp: parse_unsigned_def simp del: parse_digits.simps
           split: list.splits if_splits dest: parse_digits_bound)

lemma parse_i64_show_nat:
  assumes "n < 2 ^ 63"
  shows "parse_i64 (show_nat n) = Some (int n)"
proof -
  obtain c cs where *: "show_nat n = c # cs" "c \<noteq> CHR ''+''" "c \<noteq> CHR ''-''" by (rule show_nat_Cons)
  from parse_digits_show_nat [OF assms] * show ?thesis
    by (simp add: parse_i64_def del: parse_digits.simps)
qed

lemma parse_i64_show_int [simp]:
  assumes "- (2 ^ 63) \<le> i" "i < 2 ^ 63"
  shows "parse_i64 (show_int i) = Some i"
proof (cases "i < 0")
  case True
  have "nat (- i) < 2 ^ 63 + 1" using assms by simp
  from parse_digits_show_nat [OF this] True show ?thesis
    by (simp add: show_int_def parse_i64_def)
next
  case False
  then have "nat i < 2 ^ 63" using assms by simp
  from parse_i64_show_nat [OF this] False show ?thesis by (simp add: show_int_def)
qed

lemma parse_i64_range: "parse_i64 s = Some i \<Longrightarrow> - (2 ^ 63) \<le> i \<and> i < 2 ^ 63"
  by (auto simp: parse_i64_def simp del: parse_digits.simps
           split: list.splits if_splits dest!: parse_digits_bound)

lemma show_int_chars: "c \<in> set (show_int i) \<Longrightarrow> is_digit c \<or> c = CHR ''-''"
  by (auto simp: show_int_def split: if_splits dest: show_nat_digits)

section \<open>UTF-8\<close>

text \<open>
  \<^verbatim>\<open>core::str::from_utf8\<close> accepts exactly the well-formed sequences of the Unicode standard
  (no surrogates, no overlong forms, at most U+10FFFF).
\<close>

definition in_range :: "nat \<Rightarrow> nat \<Rightarrow> char \<Rightarrow> bool" where
  "in_range lo hi c \<longleftrightarrow> lo \<le> (of_char c :: nat) \<and> (of_char c :: nat) \<le> hi"

abbreviation is_cont :: "char \<Rightarrow> bool" where
  "is_cont \<equiv> in_range 128 191"

fun utf8_valid :: "bytes \<Rightarrow> bool" where
  "utf8_valid [] = True"
| "utf8_valid (a # r) =
     (if in_range 0 127 a then utf8_valid r
      else case r of [] \<Rightarrow> False
      | b # r1 \<Rightarrow>
         if in_range 194 223 a then is_cont b \<and> utf8_valid r1
         else case r1 of [] \<Rightarrow> False
         | c # r2 \<Rightarrow>
            if in_range 224 224 a then in_range 160 191 b \<and> is_cont c \<and> utf8_valid r2
            else if in_range 237 237 a then in_range 128 159 b \<and> is_cont c \<and> utf8_valid r2
            else if in_range 225 239 a then is_cont b \<and> is_cont c \<and> utf8_valid r2
            else case r2 of [] \<Rightarrow> False
            | d # r3 \<Rightarrow>
               if in_range 240 240 a then in_range 144 191 b \<and> is_cont c \<and> is_cont d \<and> utf8_valid r3
               else if in_range 241 243 a then is_cont b \<and> is_cont c \<and> is_cont d \<and> utf8_valid r3
               else if in_range 244 244 a then in_range 128 143 b \<and> is_cont c \<and> is_cont d \<and> utf8_valid r3
               else False)"

declare utf8_valid.simps(2) [simp del]

text \<open>\<^verbatim>\<open>s.chars().count()\<close> on a valid string: every byte but a continuation byte starts a character.\<close>

definition char_count :: "bytes \<Rightarrow> nat" where
  "char_count s = length (filter (\<lambda>c. \<not> is_cont c) s)"

definition is_ascii :: "bytes \<Rightarrow> bool" where
  "is_ascii s \<longleftrightarrow> list_all (in_range 0 127) s"

lemma utf8_valid_ascii: "is_ascii s \<Longrightarrow> utf8_valid s"
  by (induction s) (simp_all add: is_ascii_def utf8_valid.simps(2))

lemma is_digit_ascii: "is_digit c \<Longrightarrow> in_range 0 127 c"
  by (simp add: is_digit_def in_range_def)

lemma is_ascii_show_nat [simp]: "is_ascii (show_nat n)"
  unfolding is_ascii_def list_all_iff by (blast intro: is_digit_ascii show_nat_digits)

lemma is_ascii_show_int [simp]: "is_ascii (show_int i)"
  using is_ascii_show_nat by (simp add: show_int_def is_ascii_def in_range_def)

lemma utf8_show_nat [simp]: "utf8_valid (show_nat n)"
  by (simp add: utf8_valid_ascii)

lemma utf8_show_int [simp]: "utf8_valid (show_int i)"
  by (simp add: utf8_valid_ascii)

section \<open>Searching and splitting byte strings\<close>

text \<open>\<^verbatim>\<open>memchr::memchr(needle, haystack)\<close>: the position of the first occurrence.\<close>

fun find_byte :: "char \<Rightarrow> bytes \<Rightarrow> nat option" where
  "find_byte c [] = None"
| "find_byte c (x # xs) = (if x = c then Some 0 else map_option Suc (find_byte c xs))"

lemma find_byte_append: "c \<notin> set xs \<Longrightarrow> find_byte c (xs @ c # ys) = Some (length xs)"
  by (induction xs) auto

lemma find_byte_None_iff: "find_byte c xs = None \<longleftrightarrow> c \<notin> set xs"
  by (induction xs) auto

lemma find_byte_SomeD:
  "find_byte c xs = Some i \<Longrightarrow> i < length xs \<and> xs ! i = c \<and> c \<notin> set (take i xs)"
  by (induction xs arbitrary: i) (auto split: if_splits)

lemma find_byte_prefix:
  "find_byte c xs = Some i \<Longrightarrow> find_byte c (xs @ ys) = Some i"
  by (induction xs arbitrary: i) (auto split: if_splits)

lemma find_byte_split:
  "find_byte c xs = Some i \<Longrightarrow> xs = take i xs @ c # drop (Suc i) xs"
  using find_byte_SomeD id_take_nth_drop by metis

text \<open>\<^verbatim>\<open>s.split_once(c)\<close> and \<^verbatim>\<open>s.split(c)\<close> for a one-byte separator.\<close>

definition split_once :: "char \<Rightarrow> bytes \<Rightarrow> (bytes \<times> bytes) option" where
  "split_once c s = map_option (\<lambda>i. (take i s, drop (Suc i) s)) (find_byte c s)"

fun split_all :: "char \<Rightarrow> bytes \<Rightarrow> bytes list" where
  "split_all c [] = [[]]"
| "split_all c (x # xs) =
     (if x = c then [] # split_all c xs
      else case split_all c xs of [] \<Rightarrow> [[x]] | w # ws \<Rightarrow> (x # w) # ws)"

text \<open>\<^verbatim>\<open>s.strip_prefix(p)\<close>.\<close>

definition strip_pfx :: "bytes \<Rightarrow> bytes \<Rightarrow> bytes option" where
  "strip_pfx p s = (if prefix p s then Some (drop (length p) s) else None)"

lemma strip_pfx_append [simp]: "strip_pfx p (p @ s) = Some s"
  by (simp add: strip_pfx_def)

text \<open>\<^verbatim>\<open>slice.get(a..b)\<close>: \<open>None\<close> when the range is not inside the slice.\<close>

definition get_range :: "'a list \<Rightarrow> nat \<Rightarrow> nat \<Rightarrow> 'a list option" where
  "get_range xs a b = (if a \<le> b \<and> b \<le> length xs then Some (take (b - a) (drop a xs)) else None)"

definition get_at :: "'a list \<Rightarrow> nat \<Rightarrow> 'a option" where
  "get_at xs i = (if i < length xs then Some (xs ! i) else None)"

lemma get_range_append [simp]:
  "get_range (xs @ ys) 0 (length xs) = Some xs"
  by (simp add: get_range_def)

text \<open>\<^verbatim>\<open>xs.iter().position(|y| y == x)\<close>.\<close>

fun position :: "'a \<Rightarrow> 'a list \<Rightarrow> nat option" where
  "position x [] = None"
| "position x (y # ys) = (if y = x then Some 0 else map_option Suc (position x ys))"

lemma position_None_iff: "position x xs = None \<longleftrightarrow> x \<notin> set xs"
  by (induction xs) auto

lemma position_Some: "position x xs = Some i \<Longrightarrow> i < length xs \<and> xs ! i = x"
  by (induction xs arbitrary: i) (auto split: if_splits)

section \<open>Byte sums\<close>

definition byte_sum :: "bytes \<Rightarrow> nat" where
  "byte_sum bs = sum_list (map of_char bs)"

lemma byte_sum_append [simp]: "byte_sum (xs @ ys) = byte_sum xs + byte_sum ys"
  by (simp add: byte_sum_def)

lemma byte_sum_Nil [simp]: "byte_sum [] = 0"
  by (simp add: byte_sum_def)

lemma byte_sum_bound: "byte_sum bs \<le> 255 * length bs"
proof (induction bs)
  case (Cons b bs)
  have "(of_char b :: nat) mod 256 < 256" by (rule mod_less_divisor) simp
  then have "(of_char b :: nat) < 256" by (simp only: of_char_mod_256)
  moreover have "\<And>x y n :: nat. x < 256 \<Longrightarrow> y \<le> 255 * n \<Longrightarrow> x + y \<le> 255 * (n + Suc 0)" by simp
  ultimately show ?case using Cons unfolding byte_sum_def list.map sum_list.Cons list.size by blast
qed simp

section \<open>Zero-padded numbers\<close>

lemma parse_digits_zeros:
  "0 < bd \<Longrightarrow> parse_digits bd 0 (replicate k (CHR ''0'') @ s) = parse_digits bd 0 s"
  by (induction k) (auto simp: is_digit_def digit_val_def)

lemma parse_unsigned_show_pad: "n < bd \<Longrightarrow> parse_unsigned bd (show_pad w n) = Some n"
proof -
  assume n: "n < bd"
  have "parse_digits bd 0 (show_pad w n) = Some n"
    using n by (simp add: show_pad_def parse_digits_zeros parse_digits_show_nat)
  moreover obtain c cs where "show_pad w n = c # cs" "c \<noteq> CHR ''+''"
    by (rule show_nat_Cons [of n], cases "w - length (show_nat n)") (auto simp: show_pad_def)
  ultimately show ?thesis by (simp add: parse_unsigned_def del: parse_digits.simps)
qed

lemma utf8_show_pad [simp]: "utf8_valid (show_pad w n)"
proof (rule utf8_valid_ascii)
  show "is_ascii (show_pad w n)"
    using is_ascii_show_nat [of n] by (auto simp: show_pad_def is_ascii_def list_all_iff in_range_def)
qed

lemma show_nat_length: "n < 10 ^ Suc k \<Longrightarrow> length (show_nat n) \<le> Suc k"
proof (induction k arbitrary: n)
  case (Suc k)
  then have "n div 10 < 10 ^ Suc k" by (simp add: div_less_iff_less_mult mult.commute)
  then show ?case using Suc.IH [of "n div 10"] by (simp add: show_nat.simps [of n])
qed (simp add: show_nat.simps)

lemma show_pad_length: "n < 10 ^ w \<Longrightarrow> 0 < w \<Longrightarrow> length (show_pad w n) = w"
  using show_nat_length [of n "w - 1"] by (simp add: show_pad_def)

lemma show_pad_digits: "c \<in> set (show_pad w n) \<Longrightarrow> is_digit c"
  by (auto simp: show_pad_def is_digit_def dest: show_nat_digits [unfolded is_digit_def])

lemma show_pad_nonempty [simp]: "show_pad w n \<noteq> []"
  by (simp add: show_pad_def)

lemma parse_digits_show_pad: "n < bd \<Longrightarrow> parse_digits bd 0 (show_pad w n) = Some n"
  by (simp add: show_pad_def parse_digits_zeros parse_digits_show_nat)

text \<open>Trailing zeros scale the number.\<close>

lemma parse_digits_scale:
  "acc * 10 ^ k < bd \<Longrightarrow> parse_digits bd acc (replicate k (CHR ''0'')) = Some (acc * 10 ^ k)"
proof (induction k arbitrary: acc)
  case (Suc k)
  have "acc * 10 \<le> acc * 10 * 10 ^ k" by simp
  moreover have "acc * 10 * 10 ^ k < bd" using Suc.prems by (simp only: power_Suc mult.assoc)
  ultimately have "acc * 10 < bd" by (rule le_less_trans)
  then show ?case using Suc by (simp add: is_digit_def digit_val_def mult.assoc)
qed simp

end
