(* ===== verification/Fix_Maps.thy ===== *)
theory Fix_Maps
  imports Fix_Prelude
begin

text \<open>
  Ordered maps (\<^verbatim>\<open>std::collections::BTreeMap\<close>) as strictly key-sorted association lists: iteration
  visits the list from left to right. The interface \<open>key_map\<close> states what a client may rely on; the
  session's sent-message store and inbound gap queue and the dictionary's tables are clients of it.
\<close>

type_synonym ('k, 'v) btree = "('k \<times> 'v) list"

fun bt_insert :: "'k::linorder \<Rightarrow> 'v \<Rightarrow> ('k, 'v) btree \<Rightarrow> ('k, 'v) btree" where
  "bt_insert k v [] = [(k, v)]"
| "bt_insert k v ((a, b) # m) =
     (if k < a then (k, v) # (a, b) # m
      else if k = a then (k, v) # m
      else (a, b) # bt_insert k v m)"

definition bt_remove :: "'k \<Rightarrow> ('k, 'v) btree \<Rightarrow> ('k, 'v) btree" where
  "bt_remove k m = filter (\<lambda>(a, b). a \<noteq> k) m"

text \<open>\<^verbatim>\<open>m.entry(k).or_insert(v)\<close>: an existing entry is kept.\<close>

definition bt_or_insert :: "'k::linorder \<Rightarrow> 'v \<Rightarrow> ('k, 'v) btree \<Rightarrow> ('k, 'v) btree" where
  "bt_or_insert k v m = (case map_of m k of None \<Rightarrow> bt_insert k v m | Some _ \<Rightarrow> m)"

text \<open>\<^verbatim>\<open>m.retain(|&k, _| p(k))\<close>.\<close>

definition bt_retain :: "('k \<Rightarrow> bool) \<Rightarrow> ('k, 'v) btree \<Rightarrow> ('k, 'v) btree" where
  "bt_retain P m = filter (\<lambda>(a, b). P a) m"

abbreviation bt_get :: "('k, 'v) btree \<Rightarrow> 'k \<Rightarrow> 'v option" where
  "bt_get \<equiv> map_of"

definition bt_sorted :: "('k::linorder, 'v) btree \<Rightarrow> bool" where
  "bt_sorted m \<longleftrightarrow> sorted_wrt (<) (map fst m)"

text \<open>The interface a client of a key-value table relies on.\<close>

locale key_map =
  fixes lookup :: "'m \<Rightarrow> 'k::linorder \<Rightarrow> 'v option"
    and update :: "'k \<Rightarrow> 'v \<Rightarrow> 'm \<Rightarrow> 'm"
    and delete :: "'k \<Rightarrow> 'm \<Rightarrow> 'm"
    and retain :: "('k \<Rightarrow> bool) \<Rightarrow> 'm \<Rightarrow> 'm"
    and card_of :: "'m \<Rightarrow> nat"
    and invar :: "'m \<Rightarrow> bool"
  assumes lookup_update: "lookup (update k v m) k' = (if k' = k then Some v else lookup m k')"
    and lookup_delete: "lookup (delete k m) k' = (if k' = k then None else lookup m k')"
    and lookup_retain: "lookup (retain P m) k' = (if P k' then lookup m k' else None)"
    and card_delete: "lookup m k = Some v \<Longrightarrow> card_of (delete k m) < card_of m"
    and card_retain: "card_of (retain P m) \<le> card_of m"
    and invar_update: "invar m \<Longrightarrow> invar (update k v m)"
    and invar_delete: "invar m \<Longrightarrow> invar (delete k m)"
    and invar_retain: "invar m \<Longrightarrow> invar (retain P m)"
begin

text \<open>All keys of a table lie at or above a mark: the shape of the session's gap queue.\<close>

definition above :: "'k \<Rightarrow> 'm \<Rightarrow> bool" where
  "above n m \<longleftrightarrow> (\<forall>k. lookup m k \<noteq> None \<longrightarrow> n \<le> k)"

lemma above_update: "above n m \<Longrightarrow> n \<le> k \<Longrightarrow> above n (update k v m)"
  by (simp add: above_def lookup_update)

lemma above_delete: "above n m \<Longrightarrow> above n (delete k m)"
  by (simp add: above_def lookup_delete)

lemma above_retain: "above n' (retain (\<lambda>k. n' \<le> k) m)"
  by (simp add: above_def lookup_retain)

lemma above_mono: "above n m \<Longrightarrow> n' \<le> n \<Longrightarrow> above n' m"
  by (meson above_def order_trans)

lemma card_delete_retain: "lookup m k = Some v \<Longrightarrow> card_of (retain P (delete k m)) < card_of m"
  using card_delete [of m k v] card_retain [of P "delete k m"] by simp

end

lemma map_of_bt_insert: "map_of (bt_insert k v m) k' = (if k' = k then Some v else map_of m k')"
  by (induction k v m rule: bt_insert.induct) auto

lemma map_of_bt_remove: "map_of (bt_remove k m) k' = (if k' = k then None else map_of m k')"
  by (induction m) (auto simp: bt_remove_def)

lemma map_of_bt_retain: "map_of (bt_retain P m) k' = (if P k' then map_of m k' else None)"
  by (induction m) (auto simp: bt_retain_def)

lemma length_bt_remove: "map_of m k = Some v \<Longrightarrow> length (bt_remove k m) < length m"
  by (induction m) (auto simp: bt_remove_def less_Suc_eq_le)

lemma length_bt_retain: "length (bt_retain P m) \<le> length m"
  by (simp add: bt_retain_def)

lemma set_bt_insert: "fst ` set (bt_insert k v m) = insert k (fst ` set m)"
  by (induction k v m rule: bt_insert.induct) auto

lemma bt_sorted_Nil [simp]: "bt_sorted []"
  by (simp add: bt_sorted_def)

lemma bt_sorted_Cons: "bt_sorted ((a, b) # m) \<longleftrightarrow> (\<forall>k \<in> fst ` set m. a < k) \<and> bt_sorted m"
  by (auto simp: bt_sorted_def)

lemma bt_sorted_insert: "bt_sorted m \<Longrightarrow> bt_sorted (bt_insert k v m)"
  by (induction k v m rule: bt_insert.induct) (auto simp: bt_sorted_Cons set_bt_insert bt_sorted_def)

lemma bt_sorted_filter: "bt_sorted m \<Longrightarrow> bt_sorted (filter P m)"
proof (induction m)
  case (Cons x m)
  then show ?case by (cases x) (auto simp: bt_sorted_Cons)
qed simp

lemma bt_sorted_remove: "bt_sorted m \<Longrightarrow> bt_sorted (bt_remove k m)"
  by (simp add: bt_remove_def bt_sorted_filter)

lemma bt_sorted_retain: "bt_sorted m \<Longrightarrow> bt_sorted (bt_retain P m)"
  by (simp add: bt_retain_def bt_sorted_filter)

interpretation bt: key_map map_of bt_insert bt_remove bt_retain length bt_sorted
  by unfold_locales
     (simp_all add: map_of_bt_insert map_of_bt_remove map_of_bt_retain length_bt_remove
        length_bt_retain bt_sorted_insert bt_sorted_remove bt_sorted_retain)

lemma bt_above_Nil [simp]: "bt.above n []"
  by (simp add: bt.above_def)

lemma bt_above_code: "bt.above n m \<longleftrightarrow> (\<forall>k \<in> fst ` set m. n \<le> k)"
  by (auto simp: bt.above_def map_of_eq_None_iff)

end
