(* ===== verification/Fix_Text.thy ===== *)
theory Fix_Text
  imports Fix_Maps
begin

text \<open>
  The string and byte-order operations of the Rust standard library that the stores and the text
  formats use: \<^verbatim>\<open>str::trim\<close>, \<^verbatim>\<open>str::lines\<close> and \<^verbatim>\<open>to_le_bytes\<close>.
\<close>

section \<open>Trimming\<close>

text \<open>The UTF-8 encodings of the characters with the Unicode property White_Space.\<close>

definition whitespace :: "bytes list" where
  "whitespace =
     [[CHR 0x09], [CHR 0x0A], [CHR 0x0B], [CHR 0x0C], [CHR 0x0D], [CHR 0x20], [CHR 0xC2, CHR 0x85], [CHR 0xC2, CHR 0xA0],
      [CHR 0xE1, CHR 0x9A, CHR 0x80]]
     @ map (\<lambda>i. [CHR 0xE2, CHR 0x80, char_of i]) [0x80..<0x8B]
     @ [[CHR 0xE2, CHR 0x80, CHR 0xA8], [CHR 0xE2, CHR 0x80, CHR 0xA9], [CHR 0xE2, CHR 0x80, CHR 0xAF],
        [CHR 0xE2, CHR 0x81, CHR 0x9F], [CHR 0xE3, CHR 0x80, CHR 0x80]]"

function strip_while :: "bytes list \<Rightarrow> bytes \<Rightarrow> bytes" where
  "strip_while ws s =
     (case find (\<lambda>w. w \<noteq> [] \<and> prefix w s) ws of
        None \<Rightarrow> s
      | Some w \<Rightarrow> strip_while ws (drop (length w) s))"
  by pat_completeness auto
termination
  by (relation "measure (\<lambda>(ws, s). length s)")
     (auto simp: find_Some_iff prefix_def)

declare strip_while.simps [simp del]

definition trim_start :: "bytes \<Rightarrow> bytes" where
  "trim_start s = strip_while whitespace s"

definition trim_end :: "bytes \<Rightarrow> bytes" where
  "trim_end s = rev (strip_while (map rev whitespace) (rev s))"

definition trim :: "bytes \<Rightarrow> bytes" where
  "trim s = trim_end (trim_start s)"

text \<open>A string that starts and ends with a visible character is left as it is.\<close>

definition visible :: "char \<Rightarrow> bool" where
  "visible c \<longleftrightarrow> 0x21 \<le> (of_char c :: nat) \<and> (of_char c :: nat) < 0x7F"

lemma whitespace_visible:
  "w \<in> set whitespace \<Longrightarrow> w \<noteq> [] \<and> \<not> visible (hd w) \<and> \<not> visible (last w)"
proof -
  have "list_all (\<lambda>w. w \<noteq> [] \<and> \<not> visible (hd w) \<and> \<not> visible (last w)) whitespace" by code_simp
  then show "w \<in> set whitespace \<Longrightarrow> w \<noteq> [] \<and> \<not> visible (hd w) \<and> \<not> visible (last w)"
    by (auto simp: list_all_iff)
qed

lemma strip_while_stop: "(\<And>w. w \<in> set ws \<Longrightarrow> w = [] \<or> \<not> prefix w s) \<Longrightarrow> strip_while ws s = s"
  by (subst strip_while.simps) (auto simp: find_None_iff split: option.splits dest!: find_Some_iff [THEN iffD1] nth_mem)

lemma trim_start_visible: "s = [] \<or> visible (hd s) \<Longrightarrow> trim_start s = s"
  unfolding trim_start_def
  by (rule strip_while_stop) (use whitespace_visible in \<open>force simp: prefix_def\<close>)

lemma trim_end_visible:
  assumes "s = [] \<or> visible (last s)"
  shows "trim_end s = s"
proof -
  have "\<not> prefix (rev w) (rev s)" if "w \<in> set whitespace" for w
    using whitespace_visible [OF that] assms by (cases w rule: rev_cases; cases s rule: rev_cases) auto
  then have "strip_while (map rev whitespace) (rev s) = rev s" by (intro strip_while_stop) auto
  then show ?thesis by (simp add: trim_end_def)
qed

lemma trim_visible: "s = [] \<or> (visible (hd s) \<and> visible (last s)) \<Longrightarrow> trim s = s"
  using trim_start_visible [of s] trim_end_visible [of s] by (auto simp: trim_def)

lemma digit_visible: "is_digit c \<Longrightarrow> visible c"
  by (auto simp: is_digit_def visible_def)

lemma trim_show_nat [simp]: "trim (show_nat n) = show_nat n"
  by (rule trim_visible) (use show_nat_digits [of _ n] digit_visible in auto)

text \<open>A final newline is trimmed away.\<close>

lemma trim_newline:
  assumes "s \<noteq> []" "visible (hd s)" "visible (last s)"
  shows "trim (s @ [CHR 0x0A]) = s"
proof -
  have a: "trim_start (s @ [CHR 0x0A]) = s @ [CHR 0x0A]" using assms by (intro trim_start_visible) simp
  have "strip_while (map rev whitespace) (CHR 0x0A # rev s) = strip_while (map rev whitespace) (rev s)"
  proof (subst strip_while.simps)
    have "find (\<lambda>w. w \<noteq> [] \<and> prefix w (CHR 0x0A # rev s)) (map rev whitespace) = Some [CHR 0x0A]"
      by (simp add: whitespace_def)
    then show "(case find (\<lambda>w. w \<noteq> [] \<and> prefix w (CHR 0x0A # rev s)) (map rev whitespace) of None \<Rightarrow> CHR 0x0A # rev s
        | Some w \<Rightarrow> strip_while (map rev whitespace) (drop (length w) (CHR 0x0A # rev s)))
      = strip_while (map rev whitespace) (rev s)" by simp
  qed
  then have "trim_end (s @ [CHR 0x0A]) = trim_end s" by (simp add: trim_end_def)
  then show ?thesis using a trim_end_visible [of s] assms by (simp add: trim_def)
qed

lemma trim_show_nat_newline [simp]: "trim (show_nat n @ [CHR 0x0A]) = show_nat n"
  by (rule trim_newline) (use show_nat_digits [of _ n] digit_visible in auto)

section \<open>Lines\<close>

text \<open>\<^verbatim>\<open>str::lines\<close>: split at newlines, no line after a final newline, a carriage return before it dropped.\<close>

definition drop_cr :: "bytes \<Rightarrow> bytes" where
  "drop_cr l = (if l \<noteq> [] \<and> last l = CHR 0x0D then butlast l else l)"

definition text_lines :: "bytes \<Rightarrow> bytes list" where
  "text_lines s =
     (let ls = split_all (CHR 0x0A) s
      in map drop_cr (butlast ls) @ (if last ls = [] then [] else [last ls]))"

section \<open>Splitting\<close>

text \<open>Splitting at every occurrence of one of several separators, and the non-empty pieces.\<close>

function split_any :: "bytes list \<Rightarrow> bytes \<Rightarrow> bytes \<Rightarrow> bytes list" where
  "split_any seps cur s =
     (case find (\<lambda>w. w \<noteq> [] \<and> prefix w s) seps of
        Some w \<Rightarrow> rev cur # split_any seps [] (drop (length w) s)
      | None \<Rightarrow> (case s of [] \<Rightarrow> [rev cur] | c # cs \<Rightarrow> split_any seps (c # cur) cs))"
  by pat_completeness auto
termination
  by (relation "measure (\<lambda>(seps, cur, s). length s)") (auto simp: find_Some_iff prefix_def)

declare split_any.simps [simp del]

definition split_whitespace :: "bytes \<Rightarrow> bytes list" where
  "split_whitespace s = filter (\<lambda>w. w \<noteq> []) (split_any whitespace [] s)"

text \<open>\<^verbatim>\<open>str::splitn\<close>: at most \<open>n\<close> pieces, the last one is the rest.\<close>

fun splitn :: "nat \<Rightarrow> char \<Rightarrow> bytes \<Rightarrow> bytes list" where
  "splitn 0 c s = []"
| "splitn (Suc 0) c s = [s]"
| "splitn (Suc (Suc n)) c s = (case split_once c s of None \<Rightarrow> [s] | Some (a, b) \<Rightarrow> a # splitn (Suc n) c b)"

text \<open>\<^verbatim>\<open>str::replace\<close>: every non-overlapping occurrence from the left.\<close>

function replace_all :: "bytes \<Rightarrow> bytes \<Rightarrow> bytes \<Rightarrow> bytes" where
  "replace_all pat rep s =
     (if pat \<noteq> [] \<and> prefix pat s then rep @ replace_all pat rep (drop (length pat) s)
      else (case s of [] \<Rightarrow> [] | c # cs \<Rightarrow> c # replace_all pat rep cs))"
  by pat_completeness auto
termination
  by (relation "measure (\<lambda>(pat, rep, s). length s)") (auto simp: prefix_def)

declare replace_all.simps [simp del]

definition bt_of_list :: "('k::linorder \<times> 'v) list \<Rightarrow> ('k, 'v) btree" where
  "bt_of_list xs = fold (\<lambda>(k, v). bt_insert k v) xs []"

section \<open>ASCII case\<close>

definition ascii_lower :: "char \<Rightarrow> char" where
  "ascii_lower c = (if 65 \<le> (of_char c :: nat) \<and> (of_char c :: nat) \<le> 90 then char_of (of_char c + 32 :: nat) else c)"

definition ascii_upper :: "char \<Rightarrow> char" where
  "ascii_upper c = (if 97 \<le> (of_char c :: nat) \<and> (of_char c :: nat) \<le> 122 then char_of (of_char c - 32 :: nat) else c)"

definition to_ascii_lowercase :: "bytes \<Rightarrow> bytes" where
  "to_ascii_lowercase s = map ascii_lower s"

definition to_ascii_uppercase :: "bytes \<Rightarrow> bytes" where
  "to_ascii_uppercase s = map ascii_upper s"

definition eq_ignore_ascii_case :: "bytes \<Rightarrow> bytes \<Rightarrow> bool" where
  "eq_ignore_ascii_case a b \<longleftrightarrow> map ascii_lower a = map ascii_lower b"

section \<open>Little-endian integers\<close>

fun to_le :: "nat \<Rightarrow> nat \<Rightarrow> bytes" where
  "to_le 0 n = []"
| "to_le (Suc k) n = char_of (n mod 256) # to_le k (n div 256)"

fun from_le :: "bytes \<Rightarrow> nat" where
  "from_le [] = 0"
| "from_le (c # cs) = of_char c + 256 * from_le cs"

lemma length_to_le [simp]: "length (to_le k n) = k"
  by (induction k arbitrary: n) auto

lemma from_le_to_le: "n < 256 ^ k \<Longrightarrow> from_le (to_le k n) = n"
proof (induction k arbitrary: n)
  case (Suc k)
  then have "n div 256 < 256 ^ k" by (simp add: div_less_iff_less_mult mult.commute)
  then show ?case using Suc.IH [of "n div 256"] by simp
qed simp

lemma from_le_bound: "from_le cs < 256 ^ length cs"
proof (induction cs)
  case (Cons c cs)
  have "(of_char c :: nat) < 256" by (metis mod_less_divisor of_char_mod_256 zero_less_numeral)
  moreover have "256 * Suc (from_le cs) \<le> 256 * 256 ^ length cs" using Cons.IH by (intro mult_le_mono2 Suc_leI)
  moreover have "\<And>x y n :: nat. x < 256 \<Longrightarrow> 256 * Suc y \<le> n \<Longrightarrow> x + 256 * y < n" by simp
  ultimately show ?case unfolding from_le.simps list.size power_Suc add_0_right add_Suc_right by blast
qed simp

lemma take_to_le: "k \<le> n \<Longrightarrow> take k (to_le n x) = to_le k x"
  by (induction n x arbitrary: k rule: to_le.induct) (auto simp: take_Cons' gr0_conv_Suc)

lemma from_le_to_le_mod: "from_le (to_le k n) = n mod 256 ^ k"
proof (induction k arbitrary: n)
  case (Suc k)
  have "n mod (256 * 256 ^ k) = 256 * (n div 256 mod 256 ^ k) + n mod 256" by (rule mod_mult2_eq)
  then show ?case using Suc.IH [of "n div 256"] by simp
qed simp

lemma from_le_zeros [simp]: "from_le (replicate k (CHR 0x00)) = 0"
  by (induction k) auto

section \<open>Results\<close>

text \<open>The question-mark operator: go on with the value or return the error.\<close>

definition try_then :: "'e + 'a \<Rightarrow> ('a \<Rightarrow> 'e + 'b) \<Rightarrow> 'e + 'b" where
  "try_then r f = (case r of Inl e \<Rightarrow> Inl e | Inr x \<Rightarrow> f x)"

definition ok_or :: "'a option \<Rightarrow> 'e \<Rightarrow> 'e + 'a" where
  "ok_or r e = (case r of None \<Rightarrow> Inl e | Some x \<Rightarrow> Inr x)"

lemma try_then_simps [simp]: "try_then (Inl e) f = Inl e" "try_then (Inr x) f = f x"
  by (simp_all add: try_then_def)

lemma ok_or_simps [simp]: "ok_or None e = Inl e" "ok_or (Some x) e = Inr x"
  by (simp_all add: ok_or_def)

lemma try_then_Inr: "try_then r f = Inr y \<longleftrightarrow> (\<exists>x. r = Inr x \<and> f x = Inr y)"
  by (auto simp: try_then_def split: sum.splits)

lemma try_then_Inl: "try_then r f = Inl e \<longleftrightarrow> r = Inl e \<or> (\<exists>x. r = Inr x \<and> f x = Inl e)"
  by (auto simp: try_then_def split: sum.splits)

lemma try_then_cong [fundef_cong]: "r = r' \<Longrightarrow> (\<And>x. r' = Inr x \<Longrightarrow> f x = f' x) \<Longrightarrow> try_then r f = try_then r' f'"
  by (auto simp: try_then_def split: sum.splits)

text \<open>Collecting the results of a function over a list up to the first error.\<close>

fun try_map :: "('a \<Rightarrow> 'e + 'b) \<Rightarrow> 'a list \<Rightarrow> 'e + 'b list" where
  "try_map f [] = Inr []"
| "try_map f (x # xs) = try_then (f x) (\<lambda>y. try_then (try_map f xs) (\<lambda>ys. Inr (y # ys)))"

lemma try_map_Inr: "try_map f xs = Inr ys \<longleftrightarrow> list_all2 (\<lambda>x y. f x = Inr y) xs ys"
  by (induction xs arbitrary: ys) (auto simp: try_then_Inr list_all2_Cons1)

lemma ok_or_Inr: "ok_or r e = Inr x \<longleftrightarrow> r = Some x"
  by (auto simp: ok_or_def split: option.splits)

end
