(* ===== verification/Fix_Message.thy ===== *)
theory Fix_Message
  imports Fix_Prelude
begin

text \<open>
  The message model of \<^verbatim>\<open>truefix-core\<close>: tag constants and classification (\<^verbatim>\<open>tags.rs\<close>), fields and
  their converters (\<^verbatim>\<open>field.rs\<close>), ordered field maps with nested repeating groups
  (\<^verbatim>\<open>field_map.rs\<close>, \<^verbatim>\<open>group.rs\<close>) and messages (\<^verbatim>\<open>message.rs\<close>), with the errors of \<^verbatim>\<open>error.rs\<close>.
\<close>

section \<open>Tags\<close>

definition SOH :: char where "SOH = CHR 0x01"
definition BEGIN_STRING :: tag where "BEGIN_STRING = 8"
definition BODY_LENGTH :: tag where "BODY_LENGTH = 9"
definition MSG_TYPE :: tag where "MSG_TYPE = 35"
definition CHECK_SUM :: tag where "CHECK_SUM = 10"

lemmas tag_defs = BEGIN_STRING_def BODY_LENGTH_def MSG_TYPE_def CHECK_SUM_def

definition is_header :: "tag \<Rightarrow> bool" where
  "is_header t \<longleftrightarrow> t \<in> set [8, 9, 35, 49, 56, 115, 128, 90, 91, 34, 50, 142, 57, 143, 116, 144, 129,
     145, 43, 97, 52, 122, 212, 213, 347, 369, 370, 627, 628, 629, 630, 1128, 1129, 1130, 1156,
     1351, 1352, 1353, 1354, 1355]"

definition is_trailer :: "tag \<Rightarrow> bool" where
  "is_trailer t \<longleftrightarrow> t \<in> set [93, 89, 10]"

definition data_field_for_length :: "tag \<Rightarrow> tag option" where
  "data_field_for_length t = map_of
     [(90, 91), (95, 96), (212, 213), (348, 349), (350, 351), (352, 353), (354, 355), (356, 357),
      (358, 359), (360, 361), (362, 363), (364, 365), (93, 89), (445, 446), (618, 619), (621, 622),
      (1359, 1360), (1397, 1398), (1468, 1469)] t"

section \<open>Errors\<close>

datatype field_error =
    NotUtf8 tag
  | NotInt tag bytes
  | NotDecimal tag bytes
  | NotChar tag bytes
  | NotBool tag bytes
  | NotTimestamp tag bytes
  | NotDateOnly tag bytes
  | NotTimeOnly tag bytes

datatype decode_error =
    EmptyInput
  | MissingBeginString
  | InvalidBodyLength
  | ZeroBodyLength
  | BodyLengthTooLarge nat nat
  | GroupNestingTooDeep nat
  | BodyLengthMismatch nat nat
  | MissingMsgType
  | MissingChecksum
  | ChecksumMismatch nat nat
  | GarbledField nat string
  | Truncated nat
  | InvalidTag nat

text \<open>Session-level and business-level rejections returned by callbacks.\<close>

record reject =
  rj_reason :: nat
  rj_ref_tag :: "tag option"
  rj_text :: "bytes option"
  rj_session_status :: "nat option"

record business_reject =
  br_reason :: nat
  br_ref_tag :: "tag option"
  br_text :: "bytes option"

section \<open>Fields\<close>

record field =
  f_tag :: tag
  f_value :: bytes

definition mk_field :: "tag \<Rightarrow> bytes \<Rightarrow> field" where
  "mk_field t v = \<lparr>f_tag = t, f_value = v\<rparr>"

definition field_int :: "tag \<Rightarrow> int \<Rightarrow> field" where
  "field_int t i = mk_field t (show_int i)"

definition as_str :: "field \<Rightarrow> field_error + bytes" where
  "as_str f = (if utf8_valid (f_value f) then Inr (f_value f) else Inl (NotUtf8 (f_tag f)))"

definition as_int :: "field \<Rightarrow> field_error + int" where
  "as_int f = (case as_str f of Inl e \<Rightarrow> Inl e
     | Inr s \<Rightarrow> (case parse_i64 s of Some i \<Rightarrow> Inr i | None \<Rightarrow> Inl (NotInt (f_tag f) s)))"

definition as_char :: "field \<Rightarrow> field_error + bytes" where
  "as_char f = (case as_str f of Inl e \<Rightarrow> Inl e
     | Inr s \<Rightarrow> (if char_count s = 1 then Inr s else Inl (NotChar (f_tag f) s)))"

fun hex_digit :: "nat \<Rightarrow> char" where
  "hex_digit d = (if d < 10 then char_of (48 + d) else char_of (87 + d))"

definition hex_encode :: "bytes \<Rightarrow> bytes" where
  "hex_encode bs = concat (map (\<lambda>b. [hex_digit (of_char b div 16), hex_digit (of_char b mod 16)]) bs)"

definition as_bool :: "field \<Rightarrow> field_error + bool" where
  "as_bool f =
     (if f_value f = ''Y'' then Inr True
      else if f_value f = ''N'' then Inr False
      else Inl (NotBool (f_tag f)
        (if utf8_valid (f_value f) then f_value f else ''0x'' @ hex_encode (f_value f))))"

definition ok :: "'e + 'a \<Rightarrow> 'a option" where
  "ok r = (case r of Inl _ \<Rightarrow> None | Inr x \<Rightarrow> Some x)"

definition is_ok :: "'e + 'a \<Rightarrow> bool" where
  "is_ok r = (case r of Inl _ \<Rightarrow> False | Inr _ \<Rightarrow> True)"

lemma ok_simps [simp]: "ok (Inl e) = None" "ok (Inr x) = Some x"
  by (simp_all add: ok_def)

lemma is_ok_simps [simp]: "\<not> is_ok (Inl e)" "is_ok (Inr x)"
  by (simp_all add: is_ok_def)

lemma mk_field_simps [simp]: "f_tag (mk_field t v) = t" "f_value (mk_field t v) = v"
  by (simp_all add: mk_field_def)

lemma field_int_tag [simp]: "f_tag (field_int t i) = t"
  by (simp add: field_int_def)

lemma as_int_field_int [simp]:
  "- (2 ^ 63) \<le> i \<Longrightarrow> i < 2 ^ 63 \<Longrightarrow> as_int (field_int t i) = Inr i"
  by (simp add: as_int_def as_str_def field_int_def)

lemma as_str_mk_field [simp]: "utf8_valid s \<Longrightarrow> as_str (mk_field t s) = Inr s"
  by (simp add: as_str_def)

section \<open>Field maps\<close>

datatype member =
    MField field
  | MGroup tag "member list list" "int option"

type_synonym field_map = "member list"

record group =
  g_count_tag :: tag
  g_entries :: "field_map list"
  g_declared_count :: "int option"

definition new_group :: "tag \<Rightarrow> group" where
  "new_group t = \<lparr>g_count_tag = t, g_entries = [], g_declared_count = None\<rparr>"

definition add_entry :: "field_map \<Rightarrow> group \<Rightarrow> group" where
  "add_entry e g = g\<lparr>g_entries := g_entries g @ [e]\<rparr>"

definition set_declared_count :: "int \<Rightarrow> group \<Rightarrow> group" where
  "set_declared_count n g = g\<lparr>g_declared_count := Some n\<rparr>"

definition add_field :: "field \<Rightarrow> field_map \<Rightarrow> field_map" where
  "add_field f m = m @ [MField f]"

definition add_group :: "group \<Rightarrow> field_map \<Rightarrow> field_map" where
  "add_group g m = m @ [MGroup (g_count_tag g) (g_entries g) (g_declared_count g)]"

text \<open>
  \<^verbatim>\<open>FieldMap::set\<close>: one \<^verbatim>\<open>retain_mut\<close> pass that overwrites the first field with the tag and drops
  every later one; the flag says whether a field was overwritten.
\<close>

fun set_retain :: "field \<Rightarrow> bool \<Rightarrow> field_map \<Rightarrow> field_map \<times> bool" where
  "set_retain f replaced [] = ([], replaced)"
| "set_retain f replaced (MGroup t es d # ms) =
     (let (ms', r) = set_retain f replaced ms in (MGroup t es d # ms', r))"
| "set_retain f replaced (MField g # ms) =
     (if f_tag g \<noteq> f_tag f then (let (ms', r) = set_retain f replaced ms in (MField g # ms', r))
      else if replaced then set_retain f replaced ms
      else (let (ms', r) = set_retain f True ms in (MField f # ms', r)))"

definition fm_set :: "field \<Rightarrow> field_map \<Rightarrow> field_map" where
  "fm_set f m = (let (ms, r) = set_retain f False m in if r then ms else ms @ [MField f])"

fun fm_get :: "field_map \<Rightarrow> tag \<Rightarrow> field option" where
  "fm_get [] t = None"
| "fm_get (MField f # ms) t = (if f_tag f = t then Some f else fm_get ms t)"
| "fm_get (MGroup _ _ _ # ms) t = fm_get ms t"

definition fm_contains :: "field_map \<Rightarrow> tag \<Rightarrow> bool" where
  "fm_contains m t \<longleftrightarrow> fm_get m t \<noteq> None"

fun fm_group :: "field_map \<Rightarrow> tag \<Rightarrow> field_map list option" where
  "fm_group [] t = None"
| "fm_group (MField f # ms) t = fm_group ms t"
| "fm_group (MGroup ct es d # ms) t = (if ct = t then Some es else fm_group ms t)"

definition get_group :: "field_map \<Rightarrow> tag \<Rightarrow> nat \<Rightarrow> field_map option" where
  "get_group m t i = Option.bind (fm_group m t) (\<lambda>es. get_at es i)"

fun replace_group :: "tag \<Rightarrow> nat \<Rightarrow> field_map \<Rightarrow> field_map \<Rightarrow> field_map" where
  "replace_group t i e [] = []"
| "replace_group t i e (MField f # ms) = MField f # replace_group t i e ms"
| "replace_group t i e (MGroup ct es d # ms) =
     (if ct = t then MGroup ct (if i < length es then es[i := e] else es) d # ms
      else MGroup ct es d # replace_group t i e ms)"

fun remove_group :: "tag \<Rightarrow> nat \<Rightarrow> field_map \<Rightarrow> field_map" where
  "remove_group t i [] = []"
| "remove_group t i (MField f # ms) = MField f # remove_group t i ms"
| "remove_group t i (MGroup ct es d # ms) =
     (if ct = t then
        (if i < length es then MGroup ct (take i es @ drop (Suc i) es) None # ms
         else MGroup ct es d # ms)
      else MGroup ct es d # remove_group t i ms)"

fun fm_fields :: "field_map \<Rightarrow> field list" where
  "fm_fields [] = []"
| "fm_fields (MField f # ms) = f # fm_fields ms"
| "fm_fields (MGroup _ _ _ # ms) = fm_fields ms"

fun member_tag :: "member \<Rightarrow> tag" where
  "member_tag (MField f) = f_tag f"
| "member_tag (MGroup t _ _) = t"

section \<open>Messages\<close>

record message =
  m_header :: field_map
  m_body :: field_map
  m_trailer :: field_map
  m_out_of_order :: bool

definition new_message :: message where
  "new_message = \<lparr>m_header = [], m_body = [], m_trailer = [], m_out_of_order = False\<rparr>"

text \<open>\<^verbatim>\<open>map.get(tag).and_then(|f| f.as_str().ok())\<close> and the integer counterpart.\<close>

definition get_str :: "field_map \<Rightarrow> tag \<Rightarrow> bytes option" where
  "get_str m t = Option.bind (fm_get m t) (\<lambda>f. ok (as_str f))"

definition get_int :: "field_map \<Rightarrow> tag \<Rightarrow> int option" where
  "get_int m t = Option.bind (fm_get m t) (\<lambda>f. ok (as_int f))"

definition begin_string :: "message \<Rightarrow> bytes option" where
  "begin_string m = get_str (m_header m) BEGIN_STRING"

definition msg_type :: "message \<Rightarrow> bytes option" where
  "msg_type m = get_str (m_header m) MSG_TYPE"

definition set_header :: "field \<Rightarrow> message \<Rightarrow> message" where
  "set_header f m = m\<lparr>m_header := fm_set f (m_header m)\<rparr>"

definition set_body :: "field \<Rightarrow> message \<Rightarrow> message" where
  "set_body f m = m\<lparr>m_body := fm_set f (m_body m)\<rparr>"

text \<open>One half of \<^verbatim>\<open>Message::reverse_route\<close>: copy the original's tag \<open>src\<close> to \<open>dst\<close> when present.\<close>

definition copy_route :: "tag \<Rightarrow> tag \<Rightarrow> message \<Rightarrow> message \<Rightarrow> message" where
  "copy_route src dst orig m =
     (case fm_get (m_header orig) src of None \<Rightarrow> m
      | Some f \<Rightarrow> set_header (mk_field dst (f_value f)) m)"

definition reverse_route :: "message \<Rightarrow> message \<Rightarrow> message" where
  "reverse_route orig m =
     fold (\<lambda>(a, b) m. copy_route b a orig (copy_route a b orig m)) [(115, 128), (116, 129), (144, 145)] m"

section \<open>Laws of field maps\<close>

lemma set_retain_flag: "snd (set_retain f r m) \<longleftrightarrow> r \<or> fm_get m (f_tag f) \<noteq> None"
  by (induction f r m rule: set_retain.induct) (auto simp: split_def Let_def)

lemma set_retain_get_other:
  "t \<noteq> f_tag f \<Longrightarrow> fm_get (fst (set_retain f r m)) t = fm_get m t"
  by (induction f r m rule: set_retain.induct) (auto simp: split_def Let_def)

lemma set_retain_get_same:
  "fm_get (fst (set_retain f r m)) (f_tag f) =
     (if r \<or> fm_get m (f_tag f) = None then None else Some f)"
  by (induction f r m rule: set_retain.induct) (auto simp: split_def Let_def)

lemma fm_get_append: "fm_get (xs @ ys) t = (case fm_get xs t of None \<Rightarrow> fm_get ys t | Some f \<Rightarrow> Some f)"
  by (induction xs t rule: fm_get.induct) auto

lemma fm_get_set: "fm_get (fm_set f m) t = (if t = f_tag f then Some f else fm_get m t)"
  using set_retain_get_other [of t f False m] set_retain_get_same [of f False m]
    set_retain_flag [of f False m]
  by (auto simp: fm_set_def split_def Let_def fm_get_append split: option.splits)

lemma fm_get_tag: "fm_get m t = Some f \<Longrightarrow> f_tag f = t"
  by (induction m t rule: fm_get.induct) (auto split: if_splits)

lemma fm_get_add_field:
  "fm_get (add_field f m) t = (case fm_get m t of None \<Rightarrow> if f_tag f = t then Some f else None | Some g \<Rightarrow> Some g)"
  by (simp add: add_field_def fm_get_append split: option.splits)

text \<open>Setting a field whose tag is absent appends it.\<close>

lemma set_retain_fresh: "fm_get b (f_tag f) = None \<Longrightarrow> set_retain f r b = (b, r)"
  by (induction f r b rule: set_retain.induct) (auto split: if_splits)

lemma fm_set_fresh: "fm_get b (f_tag f) = None \<Longrightarrow> fm_set f b = b @ [MField f]"
  by (simp add: fm_set_def set_retain_fresh)

lemma fm_get_append_field: "fm_get (b @ [MField f]) t = (case fm_get b t of None \<Rightarrow> if f_tag f = t then Some f else None | Some g \<Rightarrow> Some g)"
  by (simp add: fm_get_append split: option.splits)

text \<open>
  The interface the session layer's message builders rely on: a section in which setting a field
  makes exactly that field visible under its tag. Stamping a list of fields is last-write-wins.
\<close>

locale field_section =
  fixes get :: "'s \<Rightarrow> tag \<Rightarrow> field option"
    and set_field :: "field \<Rightarrow> 's \<Rightarrow> 's"
  assumes get_set: "get (set_field f s) t = (if t = f_tag f then Some f else get s t)"
begin

lemma get_fold_set:
  "get (fold set_field fs s) t =
     (case find (\<lambda>f. f_tag f = t) (rev fs) of None \<Rightarrow> get s t | Some f \<Rightarrow> Some f)"
proof (induction fs rule: rev_induct)
  case (snoc f fs)
  then show ?case by (auto simp: get_set)
qed simp

lemma get_fold_other: "\<forall>f \<in> set fs. f_tag f \<noteq> t \<Longrightarrow> get (fold set_field fs s) t = get s t"
  by (induction fs arbitrary: s) (auto simp: get_set)

end

interpretation fms: field_section fm_get fm_set
  by unfold_locales (rule fm_get_set)

interpretation hdr: field_section "\<lambda>m. fm_get (m_header m)" set_header
  by unfold_locales (simp add: set_header_def fm_get_set)

interpretation bdy: field_section "\<lambda>m. fm_get (m_body m)" set_body
  by unfold_locales (simp add: set_body_def fm_get_set)

lemma get_str_set: "get_str (fm_set f m) t = (if t = f_tag f then ok (as_str f) else get_str m t)"
  by (simp add: get_str_def fm_get_set)

lemma get_int_set: "get_int (fm_set f m) t = (if t = f_tag f then ok (as_int f) else get_int m t)"
  by (simp add: get_int_def fm_get_set)

lemma set_header_simps [simp]:
  "m_header (set_header f m) = fm_set f (m_header m)" "m_body (set_header f m) = m_body m"
  "m_trailer (set_header f m) = m_trailer m"
  by (simp_all add: set_header_def)

lemma set_body_simps [simp]:
  "m_header (set_body f m) = m_header m" "m_body (set_body f m) = fm_set f (m_body m)"
  "m_trailer (set_body f m) = m_trailer m"
  by (simp_all add: set_body_def)

end
