(* ===== verification/Fix_Encode.thy ===== *)
theory Fix_Encode
  imports Fix_Message
begin

text \<open>
  The wire encoder (\<^verbatim>\<open>codec/encode.rs\<close>). The Rust functions append to an output vector; here each
  returns the bytes it appends. \<open>render_toks\<close> is the reference rendering of a flat list of
  tag/value pairs, and the lemmas of this theory reduce the encoder to it.
\<close>

section \<open>The encoder\<close>

text \<open>
  \<^verbatim>\<open>write_tag\<close> fills a ten-byte buffer from the right; \<open>i\<close> is the write index before the step and
  \<open>acc\<close> the digits written so far.
\<close>

fun write_tag_loop :: "nat \<Rightarrow> nat \<Rightarrow> bytes \<Rightarrow> bytes" where
  "write_tag_loop 0 n acc = acc"
| "write_tag_loop (Suc i) n acc =
     (let acc' = digit_char (n mod 10) # acc; n' = n div 10
      in if n' = 0 \<or> i = 0 then acc' else write_tag_loop i n' acc')"

definition write_tag :: "tag \<Rightarrow> bytes" where
  "write_tag t = write_tag_loop 10 t []"

definition render_raw :: "tag \<Rightarrow> bytes \<Rightarrow> bytes" where
  "render_raw t v = write_tag t @ CHR ''='' # v @ [SOH]"

definition group_count_to_emit :: "field_map list \<Rightarrow> int option \<Rightarrow> bytes" where
  "group_count_to_emit entries declared =
     (case declared of None \<Rightarrow> show_nat (length entries) | Some n \<Rightarrow> show_int n)"

text \<open>\<^verbatim>\<open>render_members\<close>: \<open>skip\<close> suppresses plain fields only, and only at this level.\<close>

fun render_members :: "tag list \<Rightarrow> field_map \<Rightarrow> bytes" where
  "render_members skip [] = []"
| "render_members skip (MField f # ms) =
     (if f_tag f \<in> set skip then [] else render_raw (f_tag f) (f_value f)) @ render_members skip ms"
| "render_members skip (MGroup t es d # ms) =
     render_raw t (group_count_to_emit es d) @ concat (map (render_members []) es) @ render_members skip ms"

fun render_one_member :: "member \<Rightarrow> bytes" where
  "render_one_member (MField f) = render_raw (f_tag f) (f_value f)"
| "render_one_member (MGroup t es d) =
     render_raw t (group_count_to_emit es d) @ concat (map (render_members []) es)"

text \<open>
  The first loop of \<^verbatim>\<open>render_members_ordered\<close>: for every wanted tag not seen before, all members
  with that tag. Returns the bytes and the set of emitted tags (as a list).
\<close>

fun render_wanted :: "field_map \<Rightarrow> tag list \<Rightarrow> tag list \<Rightarrow> bytes \<times> tag list" where
  "render_wanted ms emitted [] = ([], emitted)"
| "render_wanted ms emitted (w # ws) =
     (if w \<in> set emitted then render_wanted ms emitted ws
      else (let (out, em) = render_wanted ms (w # emitted) ws
            in (concat (map render_one_member (filter (\<lambda>m. member_tag m = w) ms)) @ out, em)))"

definition render_members_ordered :: "field_map \<Rightarrow> tag list \<Rightarrow> bytes" where
  "render_members_ordered ms order =
     (let (out, emitted) = render_wanted ms [] order
      in out @ concat (map render_one_member (filter (\<lambda>m. member_tag m \<notin> set emitted) ms)))"

definition value_or_default :: "field_map \<Rightarrow> tag \<Rightarrow> bytes" where
  "value_or_default m t = (case fm_get m t of None \<Rightarrow> [] | Some f \<Rightarrow> f_value f)"

definition encode_middle :: "message \<Rightarrow> tag list option \<Rightarrow> bytes" where
  "encode_middle msg field_order =
     render_raw MSG_TYPE (value_or_default (m_header msg) MSG_TYPE)
     @ render_members [BEGIN_STRING, BODY_LENGTH, MSG_TYPE] (m_header msg)
     @ (case field_order of Some order \<Rightarrow> render_members_ordered (m_body msg) order
        | None \<Rightarrow> render_members [] (m_body msg))
     @ render_members [CHECK_SUM] (m_trailer msg)"

text \<open>The checksum of a byte string: the sum of its bytes \<^verbatim>\<open>& 0xFF\<close>, accumulated in a \<^verbatim>\<open>u64\<close>.\<close>

definition checksum :: "bytes \<Rightarrow> nat" where
  "checksum bs = (byte_sum bs mod u64_size) mod 256"

definition encode_with_order :: "message \<Rightarrow> tag list option \<Rightarrow> bytes" where
  "encode_with_order msg field_order =
     (let middle = encode_middle msg field_order;
          out = render_raw BEGIN_STRING (value_or_default (m_header msg) BEGIN_STRING)
                @ render_raw BODY_LENGTH (show_nat (length middle)) @ middle
      in out @ render_raw CHECK_SUM (show_pad 3 (checksum out)))"

definition encode :: "message \<Rightarrow> bytes" where
  "encode msg = encode_with_order msg None"

section \<open>Tag digits\<close>

lemma write_tag_loop_eq:
  "n < 10 ^ Suc i \<Longrightarrow> write_tag_loop (Suc i) n acc = show_nat n @ acc"
proof (induction i arbitrary: n acc)
  case 0
  then show ?case by (simp add: show_nat.simps [of n])
next
  case (Suc i)
  show ?case
  proof (cases "n < 10")
    case True
    then show ?thesis by (simp add: show_nat.simps [of n])
  next
    case False
    then have nz: "n div 10 \<noteq> 0" by simp
    have "n div 10 < 10 ^ Suc i" using Suc.prems by (simp add: div_less_iff_less_mult mult.commute)
    from Suc.IH [OF this] nz False show ?thesis
      by (simp add: show_nat.simps [of n] Let_def del: power_Suc)
  qed
qed

lemma write_tag_show [codec_simps]: "t < u32_size \<Longrightarrow> write_tag t = show_nat t"
proof -
  assume "t < u32_size"
  then have "t < 10 ^ Suc 9" by simp
  then have "write_tag_loop (Suc 9) t [] = show_nat t" by (simp only: write_tag_loop_eq append_Nil2)
  moreover have "Suc 9 = 10" by simp
  ultimately show ?thesis by (simp only: write_tag_def)
qed

section \<open>Flat renderings\<close>

type_synonym tok = "tag \<times> bytes"

definition render_toks :: "tok list \<Rightarrow> bytes" where
  "render_toks ts = concat (map (\<lambda>(t, v). render_raw t v) ts)"

lemma render_toks_simps [simp]:
  "render_toks [] = []" "render_toks ((t, v) # ts) = render_raw t v @ render_toks ts"
  "render_toks (xs @ ys) = render_toks xs @ render_toks ys"
  by (simp_all add: render_toks_def)

text \<open>The tokens a field map stands for on the wire; the encoder prints exactly these.\<close>

fun wire_toks :: "field_map \<Rightarrow> tok list" where
  "wire_toks [] = []"
| "wire_toks (MField f # ms) = (f_tag f, f_value f) # wire_toks ms"
| "wire_toks (MGroup t es d # ms) =
     (t, group_count_to_emit es d) # concat (map wire_toks es) @ wire_toks ms"

definition drop_fields :: "tag list \<Rightarrow> field_map \<Rightarrow> field_map" where
  "drop_fields skip ms = filter (\<lambda>m. case m of MField f \<Rightarrow> f_tag f \<notin> set skip | _ \<Rightarrow> True) ms"

lemma drop_fields_Nil [simp]: "drop_fields [] ms = ms"
  unfolding drop_fields_def by (rule filter_True) (auto split: member.splits)

lemma render_toks_concat: "render_toks (concat (map f xs)) = concat (map (\<lambda>x. render_toks (f x)) xs)"
  by (induction xs) auto

lemma render_members_toks [codec_simps]:
  "render_members skip ms = render_toks (wire_toks (drop_fields skip ms))"
proof (induction skip ms rule: render_members.induct)
  case (3 skip t es d ms)
  have "concat (map (render_members []) es) = render_toks (concat (map wire_toks es))"
    using 3(1) by (simp add: render_toks_concat cong: map_cong)
  with 3(2) show ?case by (simp add: drop_fields_def)
qed (simp_all add: drop_fields_def)

definition encode_toks :: "message \<Rightarrow> tok list" where
  "encode_toks msg =
     (MSG_TYPE, value_or_default (m_header msg) MSG_TYPE)
     # wire_toks (drop_fields [BEGIN_STRING, BODY_LENGTH, MSG_TYPE] (m_header msg))
     @ wire_toks (m_body msg)
     @ wire_toks (drop_fields [CHECK_SUM] (m_trailer msg))"

lemma encode_middle_toks: "encode_middle msg None = render_toks (encode_toks msg)"
  by (simp add: encode_middle_def encode_toks_def render_members_toks)

lemma checksum_mod: "checksum bs = byte_sum bs mod 256"
proof -
  have "(256 :: nat) dvd u64_size" by simp
  then show ?thesis unfolding checksum_def by (rule mod_mod_cancel)
qed

lemma checksum_less [simp]: "checksum bs < 256"
  by (simp add: checksum_mod)

lemma show_pad_checksum:
  "n < 256 \<Longrightarrow> length (show_pad 3 n) = 3 \<and> (\<forall>c \<in> set (show_pad 3 n). is_digit c)"
proof -
  assume n: "n < 256"
  have "length (show_nat n) \<le> 3"
    using n by (simp add: show_nat.simps [of n] show_nat.simps [of "n div 10"] show_nat.simps [of "n div 10 div 10"])
  then show ?thesis
    by (auto simp: show_pad_def is_digit_def dest: show_nat_digits [unfolded is_digit_def])
qed

end
