(* ===== verification/Fix_Decode.thy ===== *)
theory Fix_Decode
  imports Fix_Encode
begin

text \<open>
  The wire decoder (\<^verbatim>\<open>codec/decode.rs\<close>): tokenising \<open>tag=value<SOH>\<close> fields with length-prefixed
  data fields, validation of BeginString, BodyLength, MsgType and CheckSum, flat decoding, and
  dictionary-driven structuring of repeating groups. The Rust loops keep an index into the input;
  here a loop keeps the suffix from that index on together with the index itself.
\<close>

type_synonym token = "tag \<times> bytes \<times> nat"
type_synonym group_spec = "tag \<Rightarrow> (tag \<times> tag list) option"

definition MAX_BODY_LEN :: nat where "MAX_BODY_LEN = 16 * 1024 * 1024"
definition MAX_GROUP_NESTING_DEPTH :: nat where "MAX_GROUP_NESTING_DEPTH = 32"

section \<open>Tokenising\<close>

definition parse_u32 :: "bytes \<Rightarrow> nat option" where
  "parse_u32 bs = (if utf8_valid bs then parse_unsigned u32_size bs else None)"

definition parse_usize :: "bytes \<Rightarrow> nat option" where
  "parse_usize bs = (if utf8_valid bs then parse_unsigned u64_size bs else None)"

text \<open>
  The value of the field whose \<open>=\<close> has just been read: \<open>after\<close> are the bytes from \<open>val_start\<close> on.
  Returns the value and the number of bytes consumed, the terminating SOH included.
\<close>

definition read_value ::
  "(tag \<times> nat) option \<Rightarrow> tag \<Rightarrow> nat \<Rightarrow> nat \<Rightarrow> bytes \<Rightarrow> decode_error + (bytes \<times> nat)" where
  "read_value pending t start val_start after =
     (case pending of
        Some (expected, len) \<Rightarrow>
          if expected \<noteq> t then
            Inl (GarbledField start ''data field does not match its declared length field's partner tag'')
          else if u64_size \<le> val_start + len then Inl (GarbledField start ''data length overflow'')
          else if length after < len then Inl (Truncated val_start)
          else (case get_at after len of
                  Some b \<Rightarrow> if b = SOH then Inr (take len after, len + 1)
                    else Inl (GarbledField (val_start + len) ''data field not terminated by SOH'')
                | None \<Rightarrow> Inl (GarbledField (val_start + len) ''data field not terminated by SOH''))
      | None \<Rightarrow>
          (case find_byte SOH after of
             None \<Rightarrow> Inl (GarbledField val_start ''field not terminated by SOH'')
           | Some i \<Rightarrow> Inr (take i after, i + 1)))"

text \<open>The length a data-length field announces for its partner.\<close>

definition next_pending :: "tag \<Rightarrow> bytes \<Rightarrow> nat \<Rightarrow> decode_error + (tag \<times> nat) option" where
  "next_pending t value start =
     (case data_field_for_length t of
        None \<Rightarrow> Inr None
      | Some expected \<Rightarrow>
          (case parse_usize value of
             None \<Rightarrow> Inl (GarbledField start
                       ''data-length field value is not a valid non-negative integer'')
           | Some len \<Rightarrow> Inr (Some (expected, len))))"

lemma read_value_pos: "read_value pd t s vs after = Inr (v, k) \<Longrightarrow> 0 < k"
  by (auto simp: read_value_def split: option.splits if_splits prod.splits)

function tok_loop :: "bytes \<Rightarrow> nat \<Rightarrow> (tag \<times> nat) option \<Rightarrow> decode_error + token list" where
  "tok_loop rest pos pending =
     (if rest = [] then Inr []
      else case find_byte (CHR ''='') rest of
        None \<Rightarrow> Inl (GarbledField pos ''missing '=' in field'')
      | Some e \<Rightarrow>
         (case parse_u32 (take e rest) of
            None \<Rightarrow> Inl (InvalidTag pos)
          | Some t \<Rightarrow>
             if t = 0 then Inl (InvalidTag pos)
             else (let val_start = pos + e + 1; after = drop (e + 1) rest in
               case read_value pending t pos val_start after of
                 Inl err \<Rightarrow> Inl err
               | Inr (value, k) \<Rightarrow>
                  (case next_pending t value pos of
                     Inl err \<Rightarrow> Inl err
                   | Inr pending' \<Rightarrow>
                      (case tok_loop (drop k after) (val_start + k) pending' of
                         Inl err \<Rightarrow> Inl err
                       | Inr ts \<Rightarrow> Inr ((t, value, pos) # ts))))))"
  by pat_completeness auto
termination
  by (relation "measure (\<lambda>(rest, pos, pending). length rest)") auto

declare tok_loop.simps [simp del]

definition tokenize :: "bytes \<Rightarrow> decode_error + token list" where
  "tokenize input = tok_loop input 0 None"

definition tok_tag :: "token \<Rightarrow> tag" where "tok_tag = fst"
definition tok_val :: "token \<Rightarrow> bytes" where "tok_val tk = fst (snd tk)"
definition tok_off :: "token \<Rightarrow> nat" where "tok_off tk = snd (snd tk)"

lemma tok_simps [simp]: "tok_tag (t, v, p) = t" "tok_val (t, v, p) = v" "tok_off (t, v, p) = p"
  by (simp_all add: tok_tag_def tok_val_def tok_off_def)

definition tokenize_validated :: "bytes \<Rightarrow> decode_error + token list" where
  "tokenize_validated input =
     (if input = [] then Inl EmptyInput
      else case tokenize input of Inl e \<Rightarrow> Inl e
      | Inr toks \<Rightarrow>
      (case toks of [] \<Rightarrow> Inl EmptyInput
       | first # rest1 \<Rightarrow>
        if tok_tag first \<noteq> BEGIN_STRING then Inl MissingBeginString
        else (case rest1 of [] \<Rightarrow> Inl InvalidBodyLength
         | second # rest2 \<Rightarrow>
          if tok_tag second \<noteq> BODY_LENGTH then Inl InvalidBodyLength
          else (case parse_usize (tok_val second) of None \<Rightarrow> Inl InvalidBodyLength
           | Some declared_bl \<Rightarrow>
            if MAX_BODY_LEN < declared_bl then Inl (BodyLengthTooLarge declared_bl MAX_BODY_LEN)
            else if \<not> list_ex (\<lambda>f. tok_tag f = MSG_TYPE) toks then Inl MissingMsgType
            else (let lst = last toks in
              if tok_tag lst \<noteq> CHECK_SUM then Inl MissingChecksum
              else if length (tok_val lst) \<noteq> 3 \<or> \<not> list_all is_digit (tok_val lst) then Inl MissingChecksum
              else (case parse_u32 (tok_val lst) of None \<Rightarrow> Inl MissingChecksum
               | Some declared_cs \<Rightarrow>
                (let cs_offset = tok_off lst;
                     body_start = (case rest2 of [] \<Rightarrow> cs_offset | third # _ \<Rightarrow> tok_off third) in
                 if cs_offset < body_start then Inl InvalidBodyLength
                 else if cs_offset - body_start \<noteq> declared_bl
                   then Inl (BodyLengthMismatch declared_bl (cs_offset - body_start))
                 else if length input < cs_offset then Inl MissingChecksum
                 else (let computed = checksum (take cs_offset input) in
                   if computed \<noteq> declared_cs then Inl (ChecksumMismatch declared_cs computed)
                   else Inr toks))))))))"

section \<open>Flat decoding\<close>

definition section_of :: "tag \<Rightarrow> nat" where
  "section_of t = (if is_trailer t then 2 else if is_header t then 0 else 1)"

fun decode_loop :: "nat \<Rightarrow> nat \<Rightarrow> token list \<Rightarrow> message \<Rightarrow> message" where
  "decode_loop i max_seen [] msg = msg"
| "decode_loop i max_seen ((t, v, p) # ts) msg =
     (let s = section_of t;
          msg1 = (if s < max_seen then msg\<lparr>m_out_of_order := True\<rparr> else msg);
          max' = (if s < max_seen then max_seen else s);
          msg2 = (if i = 2 \<and> t \<noteq> MSG_TYPE then msg1\<lparr>m_out_of_order := True\<rparr> else msg1);
          f = mk_field t v;
          msg3 = (if is_trailer t then msg2\<lparr>m_trailer := add_field f (m_trailer msg2)\<rparr>
                  else if is_header t then msg2\<lparr>m_header := add_field f (m_header msg2)\<rparr>
                  else msg2\<lparr>m_body := add_field f (m_body msg2)\<rparr>)
      in decode_loop (i + 1) max' ts msg3)"

definition decode :: "bytes \<Rightarrow> decode_error + message" where
  "decode input = (case tokenize_validated input of Inl e \<Rightarrow> Inl e
     | Inr toks \<Rightarrow> Inr (decode_loop 0 0 toks new_message))"

section \<open>Repeating groups\<close>

text \<open>
  \<^verbatim>\<open>build_group\<close> with its two nested loops: \<open>group_entries\<close> is the loop over entries and
  \<open>group_entry\<close> the loop over the members of one entry. Each takes the remaining tokens and returns
  what it did not consume.
\<close>

definition declared_count_of :: "token list \<Rightarrow> int option" where
  "declared_count_of ts =
     (case ts of [] \<Rightarrow> None
      | tk # _ \<Rightarrow> if utf8_valid (tok_val tk) then parse_i64 (tok_val tk) else None)"

definition with_declared :: "int option \<Rightarrow> group \<Rightarrow> group" where
  "with_declared d g = (case d of None \<Rightarrow> g | Some n \<Rightarrow> set_declared_count n g)"

function (sequential)
  build_group :: "group_spec \<Rightarrow> tag \<Rightarrow> tag \<Rightarrow> tag list \<Rightarrow> nat \<Rightarrow> token list
    \<Rightarrow> decode_error + group \<times> token list" and
  group_entries :: "group_spec \<Rightarrow> tag \<Rightarrow> tag list \<Rightarrow> nat \<Rightarrow> token list \<Rightarrow> group
    \<Rightarrow> decode_error + group \<times> token list" and
  group_entry :: "group_spec \<Rightarrow> tag \<Rightarrow> tag list \<Rightarrow> nat \<Rightarrow> token list \<Rightarrow> field_map
    \<Rightarrow> decode_error + field_map \<times> token list" where
  "build_group spec count_tag delimiter members depth tokens =
     (if MAX_GROUP_NESTING_DEPTH \<le> depth then Inl (GroupNestingTooDeep MAX_GROUP_NESTING_DEPTH)
      else case group_entries spec delimiter members depth (tl tokens) (new_group count_tag) of
        Inl e \<Rightarrow> Inl e
      | Inr (g, rest) \<Rightarrow> Inr (with_declared (declared_count_of tokens) g, rest))"
| "group_entries spec delimiter members depth [] g = Inr (g, [])"
| "group_entries spec delimiter members depth ((t, v, p) # ts) g =
     (if t \<noteq> delimiter then Inr (g, (t, v, p) # ts)
      else case group_entry spec delimiter members depth ts (add_field (mk_field delimiter v) []) of
        Inl e \<Rightarrow> Inl e
      | Inr (entry, rest) \<Rightarrow> group_entries spec delimiter members depth rest (add_entry entry g))"
| "group_entry spec delimiter members depth [] entry = Inr (entry, [])"
| "group_entry spec delimiter members depth ((t, v, p) # ts) entry =
     (if t = delimiter \<or> t \<notin> set members then Inr (entry, (t, v, p) # ts)
      else case spec t of
        Some (d2, m2) \<Rightarrow>
          (case build_group spec t d2 m2 (depth + 1) ((t, v, p) # ts) of
             Inl e \<Rightarrow> Inl e
           | Inr (sub, rest) \<Rightarrow> group_entry spec delimiter members depth rest (add_group sub entry))
      | None \<Rightarrow> group_entry spec delimiter members depth ts (add_field (mk_field t v) entry))"
  by pat_completeness auto

lemma group_rest_length:
  "build_group_group_entries_group_entry_dom (Inl (spec, ct, d, ms, dep, ts)) \<Longrightarrow>
     build_group spec ct d ms dep ts = Inr (g, r) \<Longrightarrow> length r \<le> length (tl ts)"
  "build_group_group_entries_group_entry_dom (Inr (Inl (spec, d, ms, dep, ts, g0))) \<Longrightarrow>
     group_entries spec d ms dep ts g0 = Inr (g, r) \<Longrightarrow> length r \<le> length ts"
  "build_group_group_entries_group_entry_dom (Inr (Inr (spec, d, ms, dep, ts, e0))) \<Longrightarrow>
     group_entry spec d ms dep ts e0 = Inr (e, r) \<Longrightarrow> length r \<le> length ts"
proof (induction spec ct d ms dep ts and spec d ms dep ts g0 and spec d ms dep ts e0
    arbitrary: g r and g r and e r rule: build_group_group_entries_group_entry.pinduct)
  case (1 spec ct d ms dep ts)
  then show ?case by (auto simp: build_group.psimps split: if_splits sum.splits prod.splits)
next
  case (2 spec d ms dep g0)
  then show ?case by (simp add: group_entries.psimps)
next
  case (3 spec d ms dep t v p ts g0)
  then show ?case by (fastforce simp: group_entries.psimps split: if_splits sum.splits prod.splits)
next
  case (4 spec d ms dep e0)
  then show ?case by (simp add: group_entry.psimps)
next
  case (5 spec d ms dep t v p ts e0)
  then show ?case
    by (fastforce simp: group_entry.psimps split: if_splits sum.splits prod.splits option.splits)
qed

termination build_group
proof (relation "measure (\<lambda>x. case x of
      Inl (spec, ct, d, ms, dep, ts) \<Rightarrow> 3 * length ts + 1
    | Inr (Inl (spec, d, ms, dep, ts, g)) \<Rightarrow> 3 * length ts
    | Inr (Inr (spec, d, ms, dep, ts, e)) \<Rightarrow> 3 * length ts + 2)", goal_cases)
qed (auto dest!: group_rest_length)

declare build_group.simps [simp del]

lemma group_shrinks:
  "build_group spec ct d ms dep ts = Inr (g, r) \<Longrightarrow> length r \<le> length (tl ts)"
  "group_entries spec d ms dep ts g0 = Inr (g, r) \<Longrightarrow> length r \<le> length ts"
  "group_entry spec d ms dep ts e0 = Inr (e, r) \<Longrightarrow> length r \<le> length ts"
  by (induction spec ct d ms dep ts and spec d ms dep ts g0 and spec d ms dep ts e0
      arbitrary: g r and g r and e r rule: build_group_group_entries_group_entry.induct)
     (fastforce simp: build_group.simps split: if_splits sum.splits prod.splits option.splits)+

lemma build_group_shrinks:
  "build_group spec ct d ms dep ((t, v, p) # ts) = Inr (g, r) \<Longrightarrow> length r \<le> length ts"
  using group_shrinks(1) by fastforce

function decode_section_with_groups ::
  "group_spec \<Rightarrow> token list \<Rightarrow> field_map \<Rightarrow> decode_error + field_map" where
  "decode_section_with_groups spec [] out = Inr out"
| "decode_section_with_groups spec ((t, v, p) # ts) out =
     (case spec t of
        Some (delimiter, members) \<Rightarrow>
          (case build_group spec t delimiter members 0 ((t, v, p) # ts) of
             Inl e \<Rightarrow> Inl e
           | Inr (g, rest) \<Rightarrow> decode_section_with_groups spec rest (add_group g out))
      | None \<Rightarrow> decode_section_with_groups spec ts (add_field (mk_field t v) out))"
  by pat_completeness auto
termination
  by (relation "measure (\<lambda>(spec, ts, out). length ts)") (auto dest: build_group_shrinks)

text \<open>The out-of-order scan that \<^verbatim>\<open>decode_with_groups\<close> runs before it splits the sections.\<close>

fun order_scan :: "nat \<Rightarrow> nat \<Rightarrow> bool \<Rightarrow> token list \<Rightarrow> bool" where
  "order_scan i max_seen ooo [] = ooo"
| "order_scan i max_seen ooo (tk # ts) =
     (let s = section_of (tok_tag tk)
      in order_scan (i + 1) (if s < max_seen then max_seen else s)
           (ooo \<or> s < max_seen \<or> (i = 2 \<and> tok_tag tk \<noteq> MSG_TYPE)) ts)"

definition header_toks :: "token list \<Rightarrow> token list" where
  "header_toks = filter (\<lambda>tk. \<not> is_trailer (tok_tag tk) \<and> is_header (tok_tag tk))"

definition body_toks :: "token list \<Rightarrow> token list" where
  "body_toks = filter (\<lambda>tk. \<not> is_trailer (tok_tag tk) \<and> \<not> is_header (tok_tag tk))"

definition trailer_toks :: "token list \<Rightarrow> token list" where
  "trailer_toks = filter (\<lambda>tk. is_trailer (tok_tag tk))"

definition decode_with_groups :: "bytes \<Rightarrow> group_spec \<Rightarrow> decode_error + message" where
  "decode_with_groups input spec =
     (case tokenize_validated input of Inl e \<Rightarrow> Inl e
      | Inr toks \<Rightarrow>
         (case decode_section_with_groups spec (header_toks toks) [] of Inl e \<Rightarrow> Inl e
          | Inr h \<Rightarrow>
            (case decode_section_with_groups spec (body_toks toks) [] of Inl e \<Rightarrow> Inl e
             | Inr b \<Rightarrow>
               (case decode_section_with_groups spec (trailer_toks toks) [] of Inl e \<Rightarrow> Inl e
                | Inr tr \<Rightarrow> Inr \<lparr>m_header = h, m_body = b, m_trailer = tr,
                     m_out_of_order = order_scan 0 0 False toks\<rparr>))))"

fun flatten_to_tokens :: "field_map \<Rightarrow> token list" where
  "flatten_to_tokens [] = []"
| "flatten_to_tokens (MField f # ms) = (f_tag f, f_value f, 0) # flatten_to_tokens ms"
| "flatten_to_tokens (MGroup t es d # ms) =
     (t, (case d of None \<Rightarrow> show_nat (length es) | Some n \<Rightarrow> show_int n), 0)
     # concat (map flatten_to_tokens es) @ flatten_to_tokens ms"

text \<open>On failure the caller's map is left as it was.\<close>

definition restructure_groups :: "field_map \<Rightarrow> group_spec \<Rightarrow> decode_error + field_map" where
  "restructure_groups m spec = decode_section_with_groups spec (flatten_to_tokens m) []"

section \<open>Group structure and the wire\<close>

definition strip :: "token list \<Rightarrow> tok list" where
  "strip = map (\<lambda>(t, v, p). (t, v))"

definition unplace :: "token list \<Rightarrow> token list" where
  "unplace = map (\<lambda>(t, v, p). (t, v, 0))"

lemma strip_simps [simp]:
  "strip [] = []" "strip ((t, v, p) # ts) = (t, v) # strip ts" "strip (xs @ ys) = strip xs @ strip ys"
  by (simp_all add: strip_def)

lemma unplace_simps [simp]:
  "unplace [] = []" "unplace ((t, v, p) # ts) = (t, v, 0) # unplace ts"
  "unplace (xs @ ys) = unplace xs @ unplace ys" "unplace (tl ts) = tl (unplace ts)"
  by (simp_all add: unplace_def map_tl)

lemma declared_unplace: "declared_count_of (unplace ts) = declared_count_of ts"
  by (cases ts) (auto simp: declared_count_of_def)

text \<open>Structuring never looks at the byte offsets.\<close>

lemma group_unplace:
  "build_group spec ct d ms dep (unplace ts) =
     map_sum id (map_prod id unplace) (build_group spec ct d ms dep ts)"
  "group_entries spec d ms dep (unplace ts) g0 =
     map_sum id (map_prod id unplace) (group_entries spec d ms dep ts g0)"
  "group_entry spec d ms dep (unplace ts) e0 =
     map_sum id (map_prod id unplace) (group_entry spec d ms dep ts e0)"
proof (induction spec ct d ms dep ts and spec d ms dep ts g0 and spec d ms dep ts e0
    rule: build_group_group_entries_group_entry.induct)
  case (1 spec ct d ms dep ts)
  then show ?case by (auto simp: build_group.simps declared_unplace split: sum.splits)
next
  case (3 spec d ms dep t v p ts g0)
  then show ?case by (auto split: sum.splits)
next
  case (5 spec d ms dep t v p ts e0)
  then show ?case by (auto split: sum.splits option.splits)
qed simp_all

lemma section_unplace:
  "decode_section_with_groups spec (unplace ts) out = decode_section_with_groups spec ts out"
proof (induction spec ts out rule: decode_section_with_groups.induct)
  case (2 spec t v p ts out)
  then show ?case
    using group_unplace(1) [of spec t _ _ 0 "(t, v, p) # ts"]
    by (auto split: sum.splits option.splits)
qed simp

lemma wire_toks_append [simp]: "wire_toks (xs @ ys) = wire_toks xs @ wire_toks ys"
  by (induction xs rule: wire_toks.induct) auto

lemma flatten_wire: "flatten_to_tokens m = map (\<lambda>(t, v). (t, v, 0)) (wire_toks m)"
proof (induction m rule: flatten_to_tokens.induct)
  case (3 t es d ms)
  then show ?case by (simp add: group_count_to_emit_def map_concat cong: map_cong split: option.splits)
qed simp_all

lemma strip_flatten [simp]: "strip (flatten_to_tokens m) = wire_toks m"
  by (simp add: flatten_wire strip_def comp_def split_def)

text \<open>
  A count value is canonical when it is the text \<^verbatim>\<open>i64::to_string\<close> prints. Grouping keeps every tag
  in place and every value, except that a count that is not canonical is printed anew.
\<close>

definition canonical_count :: "bytes \<Rightarrow> bool" where
  "canonical_count v = (case parse_i64 v of None \<Rightarrow> False | Some n \<Rightarrow> show_int n = v)"

definition same_wire :: "group_spec \<Rightarrow> tok \<Rightarrow> tok \<Rightarrow> bool" where
  "same_wire spec a b \<longleftrightarrow>
     fst a = fst b \<and> (spec (fst b) = None \<or> canonical_count (snd b) \<longrightarrow> snd a = snd b)"

lemma same_wire_refl [simp]: "same_wire spec a a"
  by (simp add: same_wire_def)

lemma same_wire_refl_list [simp]: "list_all2 (same_wire spec) xs xs"
  by (simp add: list_all2_refl)

lemma canonical_count_utf8: "canonical_count v \<Longrightarrow> utf8_valid v"
  by (auto simp: canonical_count_def split: option.splits)

lemma same_wire_trans: "same_wire spec a b \<Longrightarrow> same_wire spec b c \<Longrightarrow> same_wire spec a c"
  by (auto simp: same_wire_def)

lemma same_wires_trans:
  "list_all2 (same_wire spec) xs ys \<Longrightarrow> list_all2 (same_wire spec) ys zs \<Longrightarrow>
   list_all2 (same_wire spec) xs zs"
  by (rule list_all2_trans [where ?P1.0 = "same_wire spec" and ?P2.0 = "same_wire spec"])
     (auto intro: same_wire_trans)

lemma same_wires_append:
  "list_all2 (same_wire spec) xs ys \<Longrightarrow> list_all2 (same_wire spec) (ws @ xs) (ws @ ys)"
  by (simp add: list_all2_appendI)

lemma wire_add_group:
  "wire_toks (add_group g m) =
     wire_toks m @ (g_count_tag g, group_count_to_emit (g_entries g) (g_declared_count g))
     # concat (map wire_toks (g_entries g))"
  by (simp add: add_group_def)

lemma wire_add_field [simp]: "wire_toks (add_field f m) = wire_toks m @ [(f_tag f, f_value f)]"
  by (simp add: add_field_def)

lemma with_declared_simps [simp]:
  "g_entries (with_declared d g) = g_entries g" "g_count_tag (with_declared d g) = g_count_tag g"
  "g_declared_count (with_declared d g) = (case d of None \<Rightarrow> g_declared_count g | Some n \<Rightarrow> Some n)"
  by (simp_all add: with_declared_def set_declared_count_def split: option.splits)

lemma canonical_declared:
  "canonical_count v \<Longrightarrow> \<exists>n. declared_count_of ((t, v, p) # ts) = Some n \<and> show_int n = v"
  using canonical_count_utf8 [of v]
  by (auto simp: canonical_count_def declared_count_of_def split: option.splits)

lemma count_same_wire:
  "spec t \<noteq> None \<Longrightarrow>
   same_wire spec (t, group_count_to_emit es (declared_count_of ((t, v, p) # ts))) (t, v)"
  using canonical_declared [of v t p ts] by (auto simp: same_wire_def group_count_to_emit_def)

lemma group_wire:
  "build_group spec ct d ms dep ts = Inr (g, r) \<Longrightarrow> ts \<noteq> [] \<Longrightarrow> tok_tag (hd ts) = ct \<Longrightarrow> spec ct \<noteq> None \<Longrightarrow>
     list_all2 (same_wire spec) (wire_toks (add_group g []) @ strip r) (strip ts)"
  "group_entries spec d ms dep ts g0 = Inr (g, r) \<Longrightarrow>
     list_all2 (same_wire spec) (concat (map wire_toks (g_entries g)) @ strip r)
        (concat (map wire_toks (g_entries g0)) @ strip ts)
     \<and> g_count_tag g = g_count_tag g0 \<and> g_declared_count g = g_declared_count g0"
  "group_entry spec d ms dep ts e0 = Inr (e, r) \<Longrightarrow>
     list_all2 (same_wire spec) (wire_toks e @ strip r) (wire_toks e0 @ strip ts)"
proof (induction spec ct d ms dep ts and spec d ms dep ts g0 and spec d ms dep ts e0
    arbitrary: g r and g r and e r rule: build_group_group_entries_group_entry.induct)
  case (1 spec ct d ms dep ts)
  obtain v p ts' where ts: "ts = (ct, v, p) # ts'" using 1(3,4) by (cases ts) auto
  obtain g1 where g1: "group_entries spec d ms dep ts' (new_group ct) = Inr (g1, r)"
    and g: "g = with_declared (declared_count_of ts) g1" and dep: "\<not> MAX_GROUP_NESTING_DEPTH \<le> dep"
    using 1(2) ts by (auto simp: build_group.simps split: if_splits sum.splits)
  have "g_declared_count g1 = None \<and> g_count_tag g1 = ct \<and>
      list_all2 (same_wire spec) (concat (map wire_toks (g_entries g1)) @ strip r) (strip ts')"
    using 1(1) [OF dep] g1 by (force simp: ts new_group_def)
  moreover have "g_declared_count g = declared_count_of ts" "g_entries g = g_entries g1"
      "g_count_tag g = g_count_tag g1"
    using g calculation by (auto split: option.splits)
  ultimately show ?case
    using count_same_wire [of spec ct "g_entries g1" v p ts'] 1(5) ts by (auto simp: wire_add_group)
next
  case (3 spec d ms dep t v p ts g0)
  show ?case
  proof (cases "t = d")
    case True
    then obtain en rest where en: "group_entry spec d ms dep ts (add_field (mk_field d v) []) = Inr (en, rest)"
      and es: "group_entries spec d ms dep rest (add_entry en g0) = Inr (g, r)"
      using 3(3) by (auto split: sum.splits)
    have "list_all2 (same_wire spec) (wire_toks en @ strip rest) ((d, v) # strip ts)"
      using 3(1) [of en rest] True en by simp
    from same_wires_append [OF this, of "concat (map wire_toks (g_entries g0))"]
    show ?thesis using 3(2) [of "(en, rest)" en rest g r] True en es
      by (auto simp: add_entry_def elim!: same_wires_trans)
  qed (use 3(3) in auto)
next
  case (5 spec d ms dep t v p ts e0)
  show ?case
  proof (cases "t = d \<or> t \<notin> set ms")
    case False
    show ?thesis
    proof (cases "spec t")
      case None
      then show ?thesis using 5(1) [of e r] 5(4) False by simp
    next
      case (Some dm)
      then obtain d2 m2 where sp: "spec t = Some (d2, m2)" by (cases dm) simp
      obtain sub rest where sub: "build_group spec t d2 m2 (dep + 1) ((t, v, p) # ts) = Inr (sub, rest)"
        and en: "group_entry spec d ms dep rest (add_group sub e0) = Inr (e, r)"
        using 5(4) False sp by (auto split: sum.splits)
      have "list_all2 (same_wire spec) (wire_toks (add_group sub []) @ strip rest) ((t, v) # strip ts)"
        using 5(2) [of "(d2, m2)" d2 m2 sub rest] False sp sub by simp
      from same_wires_append [OF this, of "wire_toks e0"]
      have "list_all2 (same_wire spec) (wire_toks (add_group sub e0) @ strip rest)
          (wire_toks e0 @ (t, v) # strip ts)" by (simp add: wire_add_group)
      moreover have "list_all2 (same_wire spec) (wire_toks e @ strip r)
          (wire_toks (add_group sub e0) @ strip rest)"
        using 5(3) [of "(d2, m2)" d2 m2 "(sub, rest)" sub rest e r] False sp sub en by simp
      ultimately show ?thesis unfolding strip_simps by (rule same_wires_trans [rotated])
    qed
  qed (use 5(4) in auto)
qed simp_all

lemma section_wire:
  "decode_section_with_groups spec ts out = Inr m \<Longrightarrow>
   list_all2 (same_wire spec) (wire_toks m) (wire_toks out @ strip ts)"
proof (induction spec ts out rule: decode_section_with_groups.induct)
  case (2 spec t v p ts out)
  show ?case
  proof (cases "spec t")
    case None
    then show ?thesis using 2(1,3) by simp
  next
    case (Some dm)
    then obtain d ms where sp: "spec t = Some (d, ms)" by (cases dm) simp
    obtain g rest where g: "build_group spec t d ms 0 ((t, v, p) # ts) = Inr (g, rest)"
      and m: "decode_section_with_groups spec rest (add_group g out) = Inr m"
      using 2(3) sp by (auto split: sum.splits)
    have "list_all2 (same_wire spec) (wire_toks (add_group g []) @ strip rest) ((t, v) # strip ts)"
      using group_wire(1) [OF g] sp by simp
    from same_wires_append [OF this, of "wire_toks out"]
    have "list_all2 (same_wire spec) (wire_toks (add_group g out) @ strip rest)
        (wire_toks out @ (t, v) # strip ts)" by (simp add: wire_add_group)
    moreover have "list_all2 (same_wire spec) (wire_toks m) (wire_toks (add_group g out) @ strip rest)"
      using 2(2) [of "(d, ms)" d ms "(g, rest)" g rest] sp g m by simp
    ultimately show ?thesis unfolding strip_simps by (rule same_wires_trans [rotated])
  qed
qed simp

lemma same_wire_canonical:
  assumes "list_all2 (same_wire spec) xs ys"
    and "\<forall>(t, v) \<in> set ys. spec t = None \<or> canonical_count v"
  shows "xs = ys"
  using assms by (induction rule: list_all2_induct) (auto simp: same_wire_def split: prod.splits)

end
