(* ===== verification/Fix_Framing.thy ===== *)
theory Fix_Framing
  imports Fix_Decode
begin

text \<open>
  Extraction of complete frames from a byte stream (\<^verbatim>\<open>framing.rs\<close>). \<open>frame_length\<close> answers with
  the length of the first complete message, with \<open>None\<close> when more bytes are needed, or with an
  error when the start of the buffer cannot be framed.
\<close>

definition looks_like_fix_begin_string :: "bytes \<Rightarrow> bool" where
  "looks_like_fix_begin_string value =
     (utf8_valid value \<and>
      (case (case strip_pfx ''FIXT.'' value of None \<Rightarrow> strip_pfx ''FIX.'' value | Some r \<Rightarrow> Some r) of
         None \<Rightarrow> False
       | Some rest \<Rightarrow>
          (case get_range rest 0 3 of
             Some [d1, dot, d2] \<Rightarrow> dot = CHR ''.'' \<and> is_digit d1 \<and> is_digit d2
           | _ \<Rightarrow> False)))"

definition unwrap_or_nil :: "'a list option \<Rightarrow> 'a list" where
  "unwrap_or_nil x = (case x of None \<Rightarrow> [] | Some xs \<Rightarrow> xs)"

definition frame_length :: "bytes \<Rightarrow> decode_error + nat option" where
  "frame_length buf =
     (case find_byte SOH buf of
        None \<Rightarrow> Inr None
      | Some soh1 \<Rightarrow>
        if get_range buf 0 2 \<noteq> Some ''8='' then Inl MissingBeginString
        else if \<not> looks_like_fix_begin_string (unwrap_or_nil (get_range buf 2 soh1))
          then Inl MissingBeginString
        else (let after8 = drop (soh1 + 1) buf in
          case find_byte SOH after8 of
            None \<Rightarrow> Inr None
          | Some soh2_rel \<Rightarrow>
            (let bl_field = take soh2_rel after8 in
             if get_range bl_field 0 2 \<noteq> Some ''9='' then Inl InvalidBodyLength
             else (case parse_usize (drop 2 bl_field) of
                None \<Rightarrow> Inl InvalidBodyLength
              | Some body_len \<Rightarrow>
                if body_len = 0 then Inl ZeroBodyLength
                else if MAX_BODY_LEN < body_len then Inl (BodyLengthTooLarge body_len MAX_BODY_LEN)
                else (let total = soh1 + 1 + soh2_rel + 1 + body_len + 7 in
                  if u64_size \<le> total then Inl (BodyLengthTooLarge body_len MAX_BODY_LEN)
                  else if total \<le> length buf then
                    (if get_range buf (total - 7) (total - 4) \<noteq> Some ''10='' then Inl InvalidBodyLength
                     else if get_at buf (total - 1) \<noteq> Some SOH then Inl InvalidBodyLength
                     else Inr (Some total))
                  else Inr None)))))"

section \<open>Extending the buffer\<close>

lemma get_range_append_le: "b \<le> length xs \<Longrightarrow> get_range (xs @ ys) a b = get_range xs a b"
  by (auto simp: get_range_def)

lemma get_at_append: "i < length xs \<Longrightarrow> get_at (xs @ ys) i = get_at xs i"
  by (simp add: get_at_def nth_append)

lemma frame_length_bound: "frame_length buf = Inr (Some n) \<Longrightarrow> n \<le> length buf"
  by (auto simp: frame_length_def Let_def split: option.splits if_splits)

lemma get_range_Some_length: "get_range xs 0 2 = Some ys \<Longrightarrow> 2 \<le> length xs"
  by (auto simp: get_range_def split: if_splits)

lemma frame_length_append:
  assumes "frame_length buf = Inr (Some n)"
  shows "frame_length (buf @ xs) = Inr (Some n)"
proof -
  obtain soh1 where s1: "find_byte SOH buf = Some soh1"
    and b8: "get_range buf 0 2 = Some ''8=''"
    and bs: "looks_like_fix_begin_string (unwrap_or_nil (get_range buf 2 soh1))"
    using assms by (auto simp: frame_length_def split: option.splits if_splits)
  then obtain soh2 where s2: "find_byte SOH (drop (soh1 + 1) buf) = Some soh2"
    using assms by (auto simp: frame_length_def Let_def split: option.splits if_splits)
  have l1: "soh1 < length buf" using find_byte_SomeD [OF s1] by simp
  have l2: "soh2 < length buf - (soh1 + 1)" using find_byte_SomeD [OF s2] by simp
  have d: "drop (soh1 + 1) (buf @ xs) = drop (soh1 + 1) buf @ xs" using l1 by simp
  have s2': "find_byte SOH (drop (soh1 + 1) (buf @ xs)) = Some soh2"
    unfolding d by (rule find_byte_prefix [OF s2])
  have t2: "take soh2 (drop (soh1 + 1) (buf @ xs)) = take soh2 (drop (soh1 + 1) buf)"
    unfolding d using l2 by simp
  have r: "get_range (buf @ xs) 0 2 = get_range buf 0 2" "get_range (buf @ xs) 2 soh1 = get_range buf 2 soh1"
    using get_range_Some_length [OF b8] l1 by (auto intro: get_range_append_le)
  have n: "n \<le> length buf" by (rule frame_length_bound [OF assms])
  from assms show ?thesis
    unfolding frame_length_def Let_def find_byte_prefix [OF s1] s1 option.case r s2' s2 t2
    using n by (auto simp: get_range_append_le get_at_append split: if_splits option.splits)
qed

lemma find_byte_take:
  "find_byte c (take k xs) = (case find_byte c xs of None \<Rightarrow> None | Some i \<Rightarrow> if i < k then Some i else None)"
proof (induction xs arbitrary: k)
  case (Cons x xs)
  then show ?case by (cases k) (auto split: option.splits)
qed simp

lemma get_range_take: "b \<le> k \<Longrightarrow> get_range (take k xs) a b = get_range xs a b"
  by (auto simp: get_range_def min_def drop_take)

text \<open>A strict prefix of a frame is an incomplete frame, never an error.\<close>

lemma frame_length_prefix:
  assumes "frame_length buf = Inr (Some n)" "k < n"
  shows "frame_length (take k buf) = Inr None"
proof -
  obtain soh1 where s1: "find_byte SOH buf = Some soh1"
    and b8: "get_range buf 0 2 = Some ''8=''"
    and bs: "looks_like_fix_begin_string (unwrap_or_nil (get_range buf 2 soh1))"
    using assms by (auto simp: frame_length_def split: option.splits if_splits)
  then obtain soh2 where s2: "find_byte SOH (drop (soh1 + 1) buf) = Some soh2"
    using assms by (auto simp: frame_length_def Let_def split: option.splits if_splits)
  have nl: "n \<le> length buf" by (rule frame_length_bound [OF assms(1)])
  show ?thesis
  proof (cases "soh1 < k")
    case False
    then show ?thesis by (simp add: frame_length_def find_byte_take s1)
  next
    case True
    have f1: "find_byte SOH (take k buf) = Some soh1" using True by (simp add: find_byte_take s1)
    have "buf ! 0 \<noteq> SOH" "buf ! 1 \<noteq> SOH"
      using b8 by (cases buf; cases "tl buf"; auto simp: get_range_def SOH_def split: if_splits)+
    then have "2 \<le> soh1" using find_byte_SomeD [OF s1]
      by (metis One_nat_def less_2_cases not_le)
    then have r: "get_range (take k buf) 0 2 = get_range buf 0 2"
        "get_range (take k buf) 2 soh1 = get_range buf 2 soh1"
      using True by (auto intro: get_range_take)
    have d: "drop (soh1 + 1) (take k buf) = take (k - (soh1 + 1)) (drop (soh1 + 1) buf)"
      by (simp add: drop_take)
    show ?thesis
    proof (cases "soh2 < k - (soh1 + 1)")
      case False
      then have f2: "find_byte SOH (drop (soh1 + 1) (take k buf)) = None"
        unfolding d find_byte_take s2 by simp
      show ?thesis using b8 bs unfolding frame_length_def Let_def f1 option.case r f2 by simp
    next
      case True
      have f2: "find_byte SOH (drop (soh1 + 1) (take k buf)) = Some soh2"
        using True unfolding d find_byte_take s2 by simp
      have t2: "take soh2 (drop (soh1 + 1) (take k buf)) = take soh2 (drop (soh1 + 1) buf)"
        using True unfolding d by simp
      have len: "length (take k buf) = k" using assms(2) nl by simp
      from assms show ?thesis
        unfolding frame_length_def Let_def f1 s1 option.case r f2 s2 t2 len
        by (auto split: if_splits option.splits)
    qed
  qed
qed

end
