(* ===== verification/Fix_Codec.thy ===== *)
theory Fix_Codec
  imports Fix_Framing
begin

text \<open>
  Encoder, decoder and framing together: the decoder reads back exactly the tokens the encoder
  prints, the flat decoder is characterised by its sections, group-aware decoding is flat decoding
  followed by restructuring, and an encoded message is framed at its own length.
\<close>

section \<open>Tokenising a rendering\<close>

fun place :: "nat \<Rightarrow> tok list \<Rightarrow> token list" where
  "place pos [] = []"
| "place pos ((t, v) # ts) = (t, v, pos) # place (pos + length (render_raw t v)) ts"

text \<open>
  Token sequences the tokeniser can read: positive 32-bit tags, no SOH in a value, except in a
  data field that directly follows its length field and has the announced length.
\<close>

fun wf_toks :: "(tag \<times> nat) option \<Rightarrow> tok list \<Rightarrow> bool" where
  "wf_toks pending [] = True"
| "wf_toks pending ((t, v) # ts) =
     (0 < t \<and> t < u32_size
      \<and> (case pending of None \<Rightarrow> SOH \<notin> set v | Some (d, len) \<Rightarrow> t = d \<and> length v = len)
      \<and> (case data_field_for_length t of None \<Rightarrow> wf_toks None ts
         | Some d \<Rightarrow> (case parse_usize v of None \<Rightarrow> False | Some len \<Rightarrow> wf_toks (Some (d, len)) ts)))"

lemma place_append:
  "place pos (xs @ ys) = place pos xs @ place (pos + length (render_toks xs)) ys"
  by (induction xs arbitrary: pos) (auto simp: add.assoc)

lemma strip_place [simp]: "strip (place pos ts) = ts"
  by (induction pos ts rule: place.induct) auto

lemma read_value_render:
  assumes "case pending of None \<Rightarrow> SOH \<notin> set v | Some (d, len) \<Rightarrow> t = d \<and> length v = len"
    and "vs + length v < u64_size"
  shows "read_value pending t st vs (v @ SOH # rest) = Inr (v, length v + 1)"
  using assms by (auto simp: read_value_def find_byte_append get_at_def split: option.splits)

lemma parse_u32_show [simp]: "t < u32_size \<Longrightarrow> parse_u32 (show_nat t) = Some t"
  by (simp add: parse_u32_def)

lemma parse_usize_show [simp]: "n < u64_size \<Longrightarrow> parse_usize (show_nat n) = Some n"
  by (simp add: parse_usize_def)

lemma eq_notin_show_nat: "CHR ''='' \<notin> set (show_nat t)"
  using is_digit_neq show_nat_digits by blast

lemma soh_notin_show_nat: "SOH \<notin> set (show_nat t)"
  using is_digit_neq show_nat_digits unfolding SOH_def by blast

lemma tok_loop_render:
  "wf_toks pending ts \<Longrightarrow> pos + length (render_toks ts) < u64_size \<Longrightarrow>
   tok_loop (render_toks ts) pos pending = Inr (place pos ts)"
proof (induction pending ts arbitrary: pos rule: wf_toks.induct)
  case (1 pending)
  then show ?case by (simp add: tok_loop.simps)
next
  case (2 pending t v ts)
  let ?rest = "render_toks ts"
  let ?k = "length v + 1" and ?vs = "pos + length (show_nat t) + 1"
  have t: "0 < t" "t < u32_size" using 2(3) by simp_all
  have in_eq: "render_toks ((t, v) # ts) = show_nat t @ CHR ''='' # v @ SOH # ?rest"
    by (simp add: render_raw_def write_tag_show [OF t(2)])
  have len: "length (render_raw t v) = length (show_nat t) + 1 + ?k"
    by (simp add: render_raw_def write_tag_show [OF t(2)])
  have rv: "read_value pending t pos ?vs (v @ SOH # ?rest) = Inr (v, ?k)"
    using 2(3,4) len by (intro read_value_render) (auto split: option.splits)
  obtain pd where np: "next_pending t v pos = Inr pd" and "wf_toks pd ts"
    using 2(3) by (auto simp: next_pending_def split: option.splits)
  then have "tok_loop ?rest (?vs + ?k) pd = Inr (place (?vs + ?k) ts)"
    using 2(1) [of "?vs + ?k"] 2(2) [of _ _ "?vs + ?k"] 2(3,4) len
    by (auto simp: next_pending_def split: option.splits)
  with rv np t len show ?case unfolding in_eq
    by (simp add: tok_loop.simps [of "show_nat t @ _"] find_byte_append eq_notin_show_nat Let_def
          add.assoc)
qed

section \<open>The flat decoder by sections\<close>

definition fields_of :: "tok list \<Rightarrow> field_map" where
  "fields_of = map (\<lambda>(t, v). MField (mk_field t v))"

lemma fields_of_simps [simp]:
  "fields_of [] = []" "fields_of ((t, v) # ts) = MField (mk_field t v) # fields_of ts"
  "fields_of (xs @ ys) = fields_of xs @ fields_of ys"
  by (simp_all add: fields_of_def)

lemma wire_fields_of [simp]: "wire_toks (fields_of ts) = ts"
  by (induction ts) auto

lemma decode_loop_sections:
  "decode_loop i mx ts msg =
     msg\<lparr>m_header := m_header msg @ fields_of (strip (header_toks ts)),
         m_body := m_body msg @ fields_of (strip (body_toks ts)),
         m_trailer := m_trailer msg @ fields_of (strip (trailer_toks ts)),
         m_out_of_order := order_scan i mx (m_out_of_order msg) ts\<rparr>"
  by (induction i mx ts msg rule: decode_loop.induct)
     (auto simp: Let_def add_field_def header_toks_def body_toks_def trailer_toks_def)

lemma decode_sections:
  "decode input = (case tokenize_validated input of Inl e \<Rightarrow> Inl e
     | Inr ts \<Rightarrow> Inr \<lparr>m_header = fields_of (strip (header_toks ts)), m_body = fields_of (strip (body_toks ts)),
         m_trailer = fields_of (strip (trailer_toks ts)), m_out_of_order = order_scan 0 0 False ts\<rparr>)"
  by (simp add: decode_def decode_loop_sections new_message_def split: sum.splits)

lemma flatten_fields_of: "flatten_to_tokens (fields_of (strip ts)) = unplace ts"
  by (induction ts) auto

lemma restructure_fields_of:
  "restructure_groups (fields_of (strip ts)) spec = decode_section_with_groups spec ts []"
  by (simp add: restructure_groups_def flatten_fields_of section_unplace)

section \<open>The encoder's token sequence\<close>

definition full_toks :: "message \<Rightarrow> tok list" where
  "full_toks msg =
     (let pre = (BEGIN_STRING, value_or_default (m_header msg) BEGIN_STRING)
            # (BODY_LENGTH, show_nat (length (render_toks (encode_toks msg)))) # encode_toks msg
      in pre @ [(CHECK_SUM, show_pad 3 (checksum (render_toks pre)))])"

lemma encode_full: "encode msg = render_toks (full_toks msg)"
  by (simp add: encode_def encode_with_order_def full_toks_def encode_middle_toks Let_def)

text \<open>
  Messages whose encoding is a well-formed frame: every printed value fits its place on the wire,
  every field sits in the section its tag belongs to, and the body does not exceed the frame limit.
\<close>

definition wire_ready :: "message \<Rightarrow> bool" where
  "wire_ready msg \<longleftrightarrow>
     wf_toks None (full_toks msg)
     \<and> (\<forall>(t, v) \<in> set (wire_toks (drop_fields [BEGIN_STRING, BODY_LENGTH, MSG_TYPE] (m_header msg))).
          is_header t \<and> \<not> is_trailer t)
     \<and> (\<forall>(t, v) \<in> set (wire_toks (m_body msg)). \<not> is_header t \<and> \<not> is_trailer t)
     \<and> (\<forall>(t, v) \<in> set (wire_toks (drop_fields [CHECK_SUM] (m_trailer msg))). is_trailer t)
     \<and> length (render_toks (encode_toks msg)) \<le> MAX_BODY_LEN
     \<and> length (encode msg) < u64_size"

text \<open>What a decoder sees of a message: the envelope fields in their fixed positions.\<close>

definition normal_form :: "message \<Rightarrow> message" where
  "normal_form msg =
     \<lparr>m_header = fields_of
        ((BEGIN_STRING, value_or_default (m_header msg) BEGIN_STRING)
         # (BODY_LENGTH, show_nat (length (render_toks (encode_toks msg))))
         # (MSG_TYPE, value_or_default (m_header msg) MSG_TYPE)
         # wire_toks (drop_fields [BEGIN_STRING, BODY_LENGTH, MSG_TYPE] (m_header msg))),
      m_body = fields_of (wire_toks (m_body msg)),
      m_trailer = fields_of (wire_toks (drop_fields [CHECK_SUM] (m_trailer msg)) @ [last (full_toks msg)]),
      m_out_of_order = False\<rparr>"

lemma place_filter:
  "strip (filter (\<lambda>tk. P (tok_tag tk)) (place pos ts)) = filter (\<lambda>(t, v). P t) ts"
  by (induction pos ts rule: place.induct) auto

lemma section_place:
  "strip (header_toks (place pos ts)) = filter (\<lambda>(t, v). \<not> is_trailer t \<and> is_header t) ts"
  "strip (body_toks (place pos ts)) = filter (\<lambda>(t, v). \<not> is_trailer t \<and> \<not> is_header t) ts"
  "strip (trailer_toks (place pos ts)) = filter (\<lambda>(t, v). is_trailer t) ts"
  unfolding header_toks_def body_toks_def trailer_toks_def by (rule place_filter)+

lemma order_scan_sorted:
  "sorted (mx # map (\<lambda>tk. section_of (tok_tag tk)) ts) \<Longrightarrow> 3 \<le> i \<Longrightarrow> order_scan i mx ooo ts = ooo"
  by (induction ts arbitrary: i mx) auto

lemma place_sections: "map (\<lambda>tk. section_of (tok_tag tk)) (place pos ts) = map (\<lambda>(t, v). section_of t) ts"
  by (induction pos ts rule: place.induct) auto

lemma sorted_const: "\<forall>x \<in> set xs. f x = c \<Longrightarrow> sorted (map f xs)"
  by (induction xs) auto

lemma section_of_envelope [simp]:
  "section_of BEGIN_STRING = 0" "section_of BODY_LENGTH = 0" "section_of MSG_TYPE = 0"
  "section_of CHECK_SUM = 2"
  by (simp_all add: section_of_def tag_defs is_header_def is_trailer_def)

lemma order_scan_full:
  assumes "wire_ready msg"
  shows "order_scan 0 0 False (place 0 (full_toks msg)) = False"
proof -
  let ?sec = "\<lambda>(t, v). section_of t"
  let ?h = "wire_toks (drop_fields [BEGIN_STRING, BODY_LENGTH, MSG_TYPE] (m_header msg))"
  let ?b = "wire_toks (m_body msg)"
  let ?t = "wire_toks (drop_fields [CHECK_SUM] (m_trailer msg))"
  have h: "\<forall>tv \<in> set ?h. ?sec tv = 0" and b: "\<forall>tv \<in> set ?b. ?sec tv = 1" and tr: "\<forall>tv \<in> set ?t. ?sec tv = 2"
    using assms by (auto simp: wire_ready_def section_of_def)
  define tl3 where "tl3 = ?h @ ?b @ ?t @ [last (full_toks msg)]"
  have l: "?sec (last (full_toks msg)) = 2" by (simp add: full_toks_def Let_def)
  have "sorted (0 # map ?sec tl3)"
    using h b tr l sorted_const [OF h] sorted_const [OF b] sorted_const [OF tr]
    by (auto simp: tl3_def sorted_append)
  then have "\<And>p. order_scan 3 0 False (place p tl3) = False"
    by (intro order_scan_sorted) (simp_all add: place_sections)
  then show ?thesis
    by (simp add: full_toks_def encode_toks_def Let_def tl3_def numeral_3_eq_3)
qed

section \<open>Decoding an encoded message\<close>

lemma length_show_pad_cs: "length (show_pad 3 (checksum bs)) = 3"
  using show_pad_checksum by simp

lemma digits_show_pad_cs: "list_all is_digit (show_pad 3 (checksum bs))"
  using show_pad_checksum [of "checksum bs"] by (simp add: list_all_iff)

lemma parse_u32_show_pad [simp]: "n < u32_size \<Longrightarrow> parse_u32 (show_pad w n) = Some n"
  by (simp add: parse_u32_def parse_unsigned_show_pad)

lemma tokenize_validated_accept:
  assumes "input \<noteq> []"
    and "tokenize input =
      Inr ((BEGIN_STRING, b, p0) # (BODY_LENGTH, l, p1) # (MSG_TYPE, v, p2) # us @ [(CHECK_SUM, c, off)])"
    and "parse_usize l = Some n" "n \<le> MAX_BODY_LEN"
    and "length c = 3" "list_all is_digit c" "parse_u32 c = Some k"
    and "off = p2 + n" "off \<le> length input" "checksum (take off input) = k"
  shows "tokenize_validated input =
      Inr ((BEGIN_STRING, b, p0) # (BODY_LENGTH, l, p1) # (MSG_TYPE, v, p2) # us @ [(CHECK_SUM, c, off)])"
  using assms by (simp add: tokenize_validated_def Let_def)

lemma tokenize_validated_encode:
  assumes "wire_ready msg"
  shows "tokenize_validated (encode msg) = Inr (place 0 (full_toks msg))"
proof -
  let ?mid = "render_toks (encode_toks msg)"
  let ?bs = "(BEGIN_STRING, value_or_default (m_header msg) BEGIN_STRING)"
  let ?bl = "(BODY_LENGTH, show_nat (length ?mid))"
  let ?pre = "?bs # ?bl # encode_toks msg"
  let ?cs = "checksum (render_toks ?pre)"
  have full: "full_toks msg = ?pre @ [(CHECK_SUM, show_pad 3 ?cs)]"
    by (simp add: full_toks_def Let_def)
  have tk: "tokenize (encode msg) = Inr (place 0 (full_toks msg))"
    unfolding tokenize_def encode_full
    using assms by (intro tok_loop_render) (simp_all add: wire_ready_def encode_full)
  have ne: "encode msg \<noteq> []" by (simp add: encode_full full render_raw_def)
  have small: "length ?mid \<le> MAX_BODY_LEN" using assms by (simp add: wire_ready_def)
  then have small': "length ?mid < u64_size" by (simp add: MAX_BODY_LEN_def)
  obtain v3 ts3 where ts: "encode_toks msg = (MSG_TYPE, v3) # ts3" by (simp add: encode_toks_def)
  let ?p1 = "length (render_raw BEGIN_STRING (snd ?bs))"
  let ?p2 = "?p1 + length (render_raw BODY_LENGTH (snd ?bl))"
  let ?us = "place (?p2 + length (render_raw MSG_TYPE v3)) ts3"
  let ?off = "?p2 + length ?mid"
  have pl: "place 0 (full_toks msg) = (BEGIN_STRING, snd ?bs, 0) # (BODY_LENGTH, snd ?bl, ?p1)
      # (MSG_TYPE, v3, ?p2) # ?us @ [(CHECK_SUM, show_pad 3 ?cs, ?off)]"
    unfolding full by (simp add: place_append ts add.assoc)
  have tak: "take ?off (encode msg) = render_toks ?pre" and len: "?off \<le> length (encode msg)"
    by (simp_all add: encode_full full)
  show ?thesis unfolding pl
  proof (rule tokenize_validated_accept [OF ne, where n = "length ?mid" and k = ?cs])
    show "tokenize (encode msg) = Inr ((BEGIN_STRING, snd ?bs, 0) # (BODY_LENGTH, snd ?bl, ?p1)
      # (MSG_TYPE, v3, ?p2) # ?us @ [(CHECK_SUM, show_pad 3 ?cs, ?off)])" using tk pl by simp
    show "parse_u32 (show_pad 3 ?cs) = Some ?cs"
      by (rule parse_u32_show_pad) (simp add: less_trans [OF checksum_less])
    show "checksum (take ?off (encode msg)) = ?cs" unfolding tak ..
  qed (use small small' len in \<open>simp_all add: length_show_pad_cs digits_show_pad_cs\<close>)
qed

lemma filter_all: "\<forall>x \<in> set xs. P x \<Longrightarrow> filter P xs = xs"
  by (induction xs) auto

lemma filter_none: "\<forall>x \<in> set xs. \<not> P x \<Longrightarrow> filter P xs = []"
  by (induction xs) auto

lemma section_full:
  assumes "wire_ready msg"
  shows "fields_of (filter (\<lambda>(t, v). \<not> is_trailer t \<and> is_header t) (full_toks msg)) = m_header (normal_form msg)"
    and "fields_of (filter (\<lambda>(t, v). \<not> is_trailer t \<and> \<not> is_header t) (full_toks msg)) = m_body (normal_form msg)"
    and "fields_of (filter (\<lambda>(t, v). is_trailer t) (full_toks msg)) = m_trailer (normal_form msg)"
proof -
  have env: "is_header 8" "is_header 9" "is_header 35" "\<not> is_trailer 8" "\<not> is_trailer 9"
      "\<not> is_trailer 35" "is_trailer 10"
    by (simp_all add: is_header_def is_trailer_def)
  let ?h = "wire_toks (drop_fields [BEGIN_STRING, BODY_LENGTH, MSG_TYPE] (m_header msg))"
  let ?b = "wire_toks (m_body msg)"
  let ?t = "wire_toks (drop_fields [CHECK_SUM] (m_trailer msg))"
  have h: "filter (\<lambda>(t, v). \<not> is_trailer t \<and> is_header t) ?h = ?h"
      "filter (\<lambda>(t, v). \<not> is_trailer t \<and> \<not> is_header t) ?h = []" "filter (\<lambda>(t, v). is_trailer t) ?h = []"
    using assms unfolding wire_ready_def
    by (force intro!: filter_all filter_none)+
  have b: "filter (\<lambda>(t, v). \<not> is_trailer t \<and> is_header t) ?b = []"
      "filter (\<lambda>(t, v). \<not> is_trailer t \<and> \<not> is_header t) ?b = ?b" "filter (\<lambda>(t, v). is_trailer t) ?b = []"
    using assms unfolding wire_ready_def by (force intro!: filter_all filter_none)+
  have t: "filter (\<lambda>(t, v). \<not> is_trailer t \<and> is_header t) ?t = []"
      "filter (\<lambda>(t, v). \<not> is_trailer t \<and> \<not> is_header t) ?t = []" "filter (\<lambda>(t, v). is_trailer t) ?t = ?t"
    using assms unfolding wire_ready_def by (force intro!: filter_all filter_none)+
  note tagd = tag_defs
  show "fields_of (filter (\<lambda>(t, v). \<not> is_trailer t \<and> is_header t) (full_toks msg)) = m_header (normal_form msg)"
    using env h b t by (simp add: full_toks_def normal_form_def encode_toks_def Let_def tag_defs)
  show "fields_of (filter (\<lambda>(t, v). \<not> is_trailer t \<and> \<not> is_header t) (full_toks msg)) = m_body (normal_form msg)"
    using env h b t by (simp add: full_toks_def normal_form_def encode_toks_def Let_def tag_defs)
  show "fields_of (filter (\<lambda>(t, v). is_trailer t) (full_toks msg)) = m_trailer (normal_form msg)"
    using env h b t by (simp add: full_toks_def normal_form_def encode_toks_def Let_def tag_defs)
qed

lemma decode_encode_normal: "wire_ready msg \<Longrightarrow> decode (encode msg) = Inr (normal_form msg)"
  by (simp add: decode_sections tokenize_validated_encode section_place section_full order_scan_full)
     (simp add: normal_form_def)

section \<open>Framing an encoded message\<close>

lemma frame_length_encode:
  assumes "wire_ready msg"
    and "looks_like_fix_begin_string (value_or_default (m_header msg) BEGIN_STRING)"
  shows "frame_length (encode msg) = Inr (Some (length (encode msg)))"
proof -
  let ?b = "value_or_default (m_header msg) BEGIN_STRING"
  let ?mid = "render_toks (encode_toks msg)" and ?n = "length (render_toks (encode_toks msg))"
  obtain cs where enc: "encode msg =
      ''8='' @ ?b @ SOH # ''9='' @ show_nat ?n @ SOH # ?mid @ ''10='' @ cs @ [SOH]" and cs: "length cs = 3"
  proof -
    have "write_tag BEGIN_STRING = ''8''" "write_tag BODY_LENGTH = ''9''" "write_tag CHECK_SUM = ''10''"
      unfolding tag_defs by code_simp+
    then show ?thesis
      using that length_show_pad_cs by (simp add: encode_full full_toks_def Let_def render_raw_def)
  qed
  have sb: "SOH \<notin> set ?b"
  proof -
    have "data_field_for_length BEGIN_STRING = None" by (simp add: data_field_for_length_def tag_defs)
    then show ?thesis using assms(1) by (simp add: wire_ready_def full_toks_def Let_def)
  qed
  have pos: "0 < ?n" by (simp add: encode_toks_def render_raw_def)
  have small: "?n \<le> MAX_BODY_LEN" "length (encode msg) < u64_size" using assms(1) by (simp_all add: wire_ready_def)
  then have small': "?n < u64_size" by (simp add: MAX_BODY_LEN_def)
  let ?r2 = "''9='' @ show_nat ?n @ SOH # ?mid @ ''10='' @ cs @ [SOH]"
  have f1: "find_byte SOH (encode msg) = Some (2 + length ?b)"
    using find_byte_append [of SOH "''8='' @ ?b" ?r2] sb unfolding enc by (simp add: SOH_def)
  have d1: "drop (2 + length ?b + 1) (encode msg) = ?r2" unfolding enc by simp
  have f2: "find_byte SOH ?r2 = Some (2 + length (show_nat ?n))"
    using find_byte_append [of SOH "''9='' @ show_nat ?n" "?mid @ ''10='' @ cs @ [SOH]"] soh_notin_show_nat
    by (simp add: SOH_def)
  have t2: "take (2 + length (show_nat ?n)) ?r2 = ''9='' @ show_nat ?n" by simp
  have r4: "get_range (''9='' @ show_nat ?n) 0 2 = Some ''9=''" by (simp add: get_range_def)
  have r1: "get_range (encode msg) 0 2 = Some ''8=''" "get_range (encode msg) 2 (2 + length ?b) = Some ?b"
    unfolding enc by (simp_all add: get_range_def)
  let ?tot = "2 + length ?b + 1 + (2 + length (show_nat ?n)) + 1 + ?n + 7"
  have len: "length (encode msg) = ?tot" unfolding enc by (simp add: cs)
  define P where "P = ''8='' @ ?b @ SOH # ''9='' @ show_nat ?n @ SOH # ?mid"
  have pre: "encode msg = P @ ''10='' @ cs @ [SOH]" unfolding enc P_def by simp
  have lP: "?tot - 7 = length P" "?tot - 4 = length P + 3" "?tot - 1 = length P + 6"
    by (simp_all add: P_def)
  have r3: "get_range (encode msg) (?tot - 7) (?tot - 4) = Some ''10=''" "get_at (encode msg) (?tot - 1) = Some SOH"
    unfolding lP unfolding pre by (simp_all add: get_range_def get_at_def cs nth_append)
  show ?thesis
    using assms(2) pos small small' len
    unfolding frame_length_def f1 option.case r1 Let_def d1 f2 t2 r4 r3
    by (simp add: unwrap_or_nil_def r3 [simplified])
qed

end
