(* ===== verification/Fix_Wire.thy ===== *)
theory Fix_Wire
  imports Fix_Codec
begin

text \<open>
  What an accepted input looks like: the tokens tile it without gaps, the envelope checks hold of
  it, and re-encoding the decoded message gives the input back when the input is spelled
  canonically and in order.
\<close>

section \<open>Tokens tile the input\<close>

fun tiles :: "bytes \<Rightarrow> nat \<Rightarrow> token list \<Rightarrow> bool" where
  "tiles rest pos [] \<longleftrightarrow> rest = []"
| "tiles rest pos ((t, v, p) # ts) \<longleftrightarrow>
     p = pos \<and> 0 < t \<and> (\<exists>tb rest'. rest = tb @ CHR ''='' # v @ SOH # rest' \<and> CHR ''='' \<notin> set tb
        \<and> parse_u32 tb = Some t \<and> tiles rest' (pos + length tb + length v + 2) ts)"

lemma tiles_ConsI:
  "rest = tb @ CHR ''='' # v @ SOH # rest' \<Longrightarrow> CHR ''='' \<notin> set tb \<Longrightarrow> parse_u32 tb = Some t \<Longrightarrow> 0 < t \<Longrightarrow>
   tiles rest' (pos + length tb + length v + 2) ts \<Longrightarrow> tiles rest pos ((t, v, pos) # ts)"
  by auto

lemma read_value_split:
  assumes "read_value pd t s vs after = Inr (v, k)"
  shows "after = v @ SOH # drop k after \<and> k = length v + 1"
proof (cases pd)
  case None
  then obtain i where i: "find_byte SOH after = Some i" and v: "v = take i after" "k = i + 1"
    using assms by (auto simp: read_value_def split: option.splits)
  from find_byte_SomeD [OF i] find_byte_split [OF i] v show ?thesis by simp
next
  case (Some dl)
  then obtain len where "len < length after" "after ! len = SOH" "v = take len after" "k = len + 1"
    using assms by (auto simp: read_value_def get_at_def split: option.splits if_splits prod.splits)
  then show ?thesis using id_take_nth_drop [of len after] by simp
qed

lemma tok_loop_tiles: "tok_loop rest pos pd = Inr ts \<Longrightarrow> tiles rest pos ts"
proof (induction rest pos pd arbitrary: ts rule: tok_loop.induct)
  case (1 rest pos pd)
  show ?case
  proof (cases "rest = []")
    case True
    then show ?thesis using "1.prems" by (simp add: tok_loop.simps)
  next
    case False
    obtain e t v k pd' us where e: "find_byte (CHR ''='') rest = Some e"
      and t: "parse_u32 (take e rest) = Some t" "t \<noteq> 0"
      and rv: "read_value pd t pos (pos + e + 1) (drop (e + 1) rest) = Inr (v, k)"
      and np: "next_pending t v pos = Inr pd'"
      and us: "tok_loop (drop k (drop (e + 1) rest)) (pos + e + 1 + k) pd' = Inr us"
      and ts: "ts = (t, v, pos) # us"
      using "1.prems" False
      by (auto simp: tok_loop.simps [of rest] Let_def split: option.splits if_splits sum.splits prod.splits)
    note ee = find_byte_SomeD [OF e] find_byte_split [OF e]
    have "tiles (drop k (drop (e + 1) rest)) (pos + e + 1 + k) us"
      using "1.IH" [OF False e t _ _ rv _ np] t us by simp
    then have "tiles (drop k (drop (e + 1) rest)) (pos + length (take e rest) + length v + 2) us"
      using ee read_value_split [OF rv] by simp
    moreover have "rest = take e rest @ CHR ''='' # v @ SOH # drop k (drop (e + 1) rest)"
      using ee read_value_split [OF rv] by simp
    ultimately show ?thesis unfolding ts using t ee(1) by (intro tiles_ConsI) auto
  qed
qed

text \<open>Canonical spelling: no tag starts with a zero or a plus sign.\<close>

definition canonical_tags :: "bytes \<Rightarrow> token list \<Rightarrow> bool" where
  "canonical_tags input ts \<longleftrightarrow>
     (\<forall>tk \<in> set ts. get_at input (tok_off tk) \<noteq> Some (CHR ''0'') \<and> get_at input (tok_off tk) \<noteq> Some (CHR ''+''))"

lemma parse_u32_canonical:
  "parse_u32 tb = Some t \<Longrightarrow> hd tb \<noteq> CHR ''0'' \<Longrightarrow> hd tb \<noteq> CHR ''+'' \<Longrightarrow> tb = show_nat t \<and> tb \<noteq> []"
  using show_nat_parse [of u32_size tb t]
  by (cases tb) (auto simp: parse_u32_def parse_unsigned_def simp del: parse_digits.simps split: if_splits)

lemma parse_u32_nonempty: "parse_u32 tb = Some t \<Longrightarrow> tb \<noteq> []"
  by (auto simp: parse_u32_def parse_unsigned_def)

lemma parse_u32_bound: "parse_u32 tb = Some t \<Longrightarrow> t < u32_size"
  by (auto simp: parse_u32_def split: if_splits dest: parse_unsigned_bound)

lemma tiles_canonical:
  "tiles rest pos ts \<Longrightarrow> input = pre @ rest \<Longrightarrow> length pre = pos \<Longrightarrow> canonical_tags input ts \<Longrightarrow>
   rest = render_toks (strip ts) \<and> ts = place pos (strip ts)"
proof (induction rest pos ts arbitrary: pre rule: tiles.induct)
  case (1 rest pos)
  then show ?case by simp
next
  case (2 rest pos t v p ts)
  obtain tb rest' where r: "rest = tb @ CHR ''='' # v @ SOH # rest'" and tb: "parse_u32 tb = Some t"
    and til: "tiles rest' (pos + length tb + length v + 2) ts" and p: "p = pos"
    using 2(2) by auto
  have ne: "tb \<noteq> []" by (rule parse_u32_nonempty [OF tb])
  have "get_at input pos = Some (hd tb)"
    using 2(3,4) r ne by (simp add: get_at_def nth_append hd_conv_nth)
  then have "hd tb \<noteq> CHR ''0''" "hd tb \<noteq> CHR ''+''"
    using 2(5) p by (auto simp: canonical_tags_def)
  with tb have s: "tb = show_nat t" using parse_u32_canonical by blast
  have rr: "render_raw t v = tb @ CHR ''='' # v @ [SOH]"
    using s parse_u32_bound [OF tb] by (simp add: render_raw_def write_tag_show)
  have "rest' = render_toks (strip ts) \<and> ts = place (pos + length tb + length v + 2) (strip ts)"
    using 2(1) [of rest' tb "pre @ tb @ CHR ''='' # v @ [SOH]"] til 2(3,4,5) r
    by (simp add: canonical_tags_def add.assoc)
  then show ?case using r rr p by (simp add: add.assoc)
qed

lemma tokenize_canonical:
  assumes "tokenize input = Inr ts" "canonical_tags input ts"
  shows "input = render_toks (strip ts)" "ts = place 0 (strip ts)"
  using tiles_canonical [OF tok_loop_tiles [OF assms(1) [unfolded tokenize_def]], of input "[]"] assms(2)
  by simp_all

section \<open>Envelope checks\<close>

lemma tokenize_validatedD:
  assumes "tokenize_validated input = Inr ts"
  shows "tokenize input = Inr ts"
    and "2 \<le> length ts" "tok_tag (ts ! 0) = BEGIN_STRING" "tok_tag (ts ! 1) = BODY_LENGTH"
    and "tok_tag (last ts) = CHECK_SUM" "\<exists>tk \<in> set ts. tok_tag tk = MSG_TYPE"
    and "parse_usize (tok_val (ts ! 1)) =
          Some (tok_off (last ts) - tok_off (if 2 < length ts then ts ! 2 else last ts))"
    and "tok_off (if 2 < length ts then ts ! 2 else last ts) \<le> tok_off (last ts)"
    and "length (tok_val (last ts)) = 3" "\<forall>c \<in> set (tok_val (last ts)). is_digit c"
    and "parse_u32 (tok_val (last ts)) = Some (checksum (take (tok_off (last ts)) input))"
    and "tok_off (last ts) \<le> length input"
    and "tok_off (last ts) - tok_off (if 2 < length ts then ts ! 2 else last ts) \<le> MAX_BODY_LEN"
proof -
  obtain a b us where ts: "ts = a # b # us"
    using assms by (auto simp: tokenize_validated_def Let_def split: sum.splits list.splits if_splits option.splits)
  show "tokenize input = Inr ts"
    using assms by (auto simp: tokenize_validated_def Let_def split: sum.splits list.splits if_splits option.splits)
  then have tk: "tokenize input = Inr (a # b # us)" using ts by simp
  have third: "(if 2 < length ts then ts ! 2 else last ts) = (case us of [] \<Rightarrow> last ts | c # _ \<Rightarrow> c)"
    by (cases us) (simp_all add: ts)
  note A = assms [unfolded ts tokenize_validated_def tk Let_def]
  show "2 \<le> length ts" by (simp add: ts)
  show "tok_tag (ts ! 0) = BEGIN_STRING" "tok_tag (ts ! 1) = BODY_LENGTH" "tok_tag (last ts) = CHECK_SUM"
    "length (tok_val (last ts)) = 3" "tok_off (last ts) \<le> length input"
    "parse_u32 (tok_val (last ts)) = Some (checksum (take (tok_off (last ts)) input))"
    using A by (simp_all add: ts not_less split: if_splits option.splits)
  show "\<exists>tk \<in> set ts. tok_tag tk = MSG_TYPE" "\<forall>c \<in> set (tok_val (last ts)). is_digit c"
    using A by (simp_all add: ts list_ex_iff list_all_iff split: if_splits option.splits)
  show "parse_usize (tok_val (ts ! 1)) =
          Some (tok_off (last ts) - tok_off (if 2 < length ts then ts ! 2 else last ts))"
    "tok_off (if 2 < length ts then ts ! 2 else last ts) \<le> tok_off (last ts)"
    "tok_off (last ts) - tok_off (if 2 < length ts then ts ! 2 else last ts) \<le> MAX_BODY_LEN"
    unfolding third using A by (auto simp: ts not_less split: if_splits option.splits list.splits)
qed

section \<open>Re-encoding\<close>

lemma show_pad_parse:
  assumes "parse_digits bd 0 c = Some k" "length c = w" "0 < w" "0 < bd"
  shows "show_pad w k = c"
proof -
  let ?z = "takeWhile (\<lambda>x. x = CHR ''0'') c" and ?r = "dropWhile (\<lambda>x. x = CHR ''0'') c"
  have z: "?z = replicate (length ?z) (CHR ''0'')"
    by (metis (full_types) replicate_length_same set_takeWhileD)
  have c: "c = replicate (length ?z) (CHR ''0'') @ ?r" using z takeWhile_dropWhile_id [of _ c] by metis
  have p: "parse_digits bd 0 ?r = Some k"
    using assms(1) parse_digits_zeros [OF assms(4)] c by metis
  show ?thesis
  proof (cases "?r = []")
    case True
    then have k: "k = 0" using p unfolding True by simp
    have lz: "length ?z = w" using c True assms(2) by (metis append_Nil2 length_replicate)
    have "show_nat 0 = [CHR ''0'']" by (simp add: show_nat.simps [of 0] digit_char_0)
    then have "show_pad w 0 = replicate (w - 1) (CHR ''0'') @ [CHR ''0'']" by (simp add: show_pad_def)
    also have "\<dots> = replicate w (CHR ''0'')" using assms(3) by (metis Suc_diff_1 replicate_Suc replicate_append_same)
    also have "\<dots> = c" using c True lz by (metis append_Nil2)
    finally show ?thesis using k by simp
  next
    case False
    have "hd ?r \<noteq> CHR ''0''" using hd_dropWhile [OF False] by simp
    then have r: "show_nat k = ?r" using show_nat_parse [OF p False] by simp
    have "length ?z + length ?r = w"
      using assms(2) c by (metis length_append length_replicate)
    then have "show_pad w k = replicate (length ?z) (CHR ''0'') @ ?r"
      unfolding show_pad_def r by (metis add_diff_cancel_right')
    then show ?thesis using c by simp
  qed
qed

lemma order_scan_True: "order_scan i mx True ts"
  by (induction ts arbitrary: i mx) (simp_all add: Let_def)

lemma order_scan_False:
  "\<not> order_scan i mx False ts \<Longrightarrow>
     sorted (mx # map (\<lambda>tk. section_of (tok_tag tk)) ts)
     \<and> (i \<le> 2 \<and> 2 - i < length ts \<longrightarrow> tok_tag (ts ! (2 - i)) = MSG_TYPE)"
proof (induction ts arbitrary: i mx)
  case (Cons tk ts)
  let ?s = "section_of (tok_tag tk)"
  have ok: "(?s < mx \<or> (i = 2 \<and> tok_tag tk \<noteq> MSG_TYPE)) = False"
  proof (rule ccontr)
    assume "(?s < mx \<or> (i = 2 \<and> tok_tag tk \<noteq> MSG_TYPE)) \<noteq> False"
    then have "(False \<or> ?s < mx \<or> (i = 2 \<and> tok_tag tk \<noteq> MSG_TYPE)) = True" by blast
    then show False using Cons.prems by (simp only: order_scan.simps Let_def order_scan_True not_True_eq_False)
  qed
  then have c: "\<not> ?s < mx" "i = 2 \<longrightarrow> tok_tag tk = MSG_TYPE" by blast+
  have c3: "\<not> order_scan (i + 1) ?s False ts"
    using Cons.prems ok by (simp add: Let_def)
  from Cons.IH [OF c3] c show ?case
    by (auto simp: nth_Cons' Suc_diff_Suc numeral_2_eq_2)
qed simp

lemma filter_sorted3:
  "sorted (map f xs) \<Longrightarrow> \<forall>x \<in> set xs. f x \<le> (2::nat) \<Longrightarrow>
   xs = filter (\<lambda>x. f x = 0) xs @ filter (\<lambda>x. f x = 1) xs @ filter (\<lambda>x. f x = 2) xs"
proof (induction xs)
  case (Cons x xs)
  consider "f x = 0" | "f x = 1" | "f x = 2" using Cons.prems(2) by fastforce
  then show ?case
  proof cases
    case 2
    then have "filter (\<lambda>x. f x = 0) xs = []" using Cons.prems(1) by (auto simp: filter_empty_conv)
    then show ?thesis using Cons 2 by simp
  next
    case 3
    then have "filter (\<lambda>x. f x = 0) xs = []" "filter (\<lambda>x. f x = 1) xs = []"
      using Cons.prems(1) by (auto simp: filter_empty_conv)
    then show ?thesis using Cons 3 by simp
  qed (use Cons in auto)
qed simp

lemma drop_fields_of: "drop_fields skip (fields_of ts) = fields_of (filter (\<lambda>(t, v). t \<notin> set skip) ts)"
  by (induction ts) (auto simp: drop_fields_def)

text \<open>An in-order stream whose envelope tags occur once has the encoder's own shape.\<close>

definition envelope_once :: "token list \<Rightarrow> bool" where
  "envelope_once ts \<longleftrightarrow>
     distinct (filter (\<lambda>t. t \<in> {BEGIN_STRING, BODY_LENGTH, MSG_TYPE, CHECK_SUM}) (map tok_tag ts))"

lemma accepted_shape:
  assumes "tokenize_validated input = Inr ts" "\<not> order_scan 0 0 False ts" "envelope_once ts"
  obtains b l v ws c where
    "strip ts = (BEGIN_STRING, b) # (BODY_LENGTH, l) # (MSG_TYPE, v) # ws @ [(CHECK_SUM, c)]"
    "\<forall>(t, x) \<in> set ws. t \<notin> {BEGIN_STRING, BODY_LENGTH, MSG_TYPE, CHECK_SUM}"
    "sorted (map (\<lambda>(t, x). section_of t) ws)"
proof -
  note D = tokenize_validatedD [OF assms(1)]
  obtain x0 x1 r where ts: "ts = x0 # x1 # r" using D(2) by (cases ts; cases "tl ts") auto
  have tags: "tok_tag x0 = 8" "tok_tag x1 = 9" "tok_tag (last ts) = 10"
    using D(3,4,5) by (simp_all add: ts tag_defs)
  obtain z where z: "z \<in> set r" "tok_tag z = 35" using D(6) tags by (auto simp: ts tag_defs)
  then have rne: "r \<noteq> []" by auto
  with ts tags have lr: "tok_tag (last r) = 10" by simp
  have sc: "sorted (0 # map (\<lambda>tk. section_of (tok_tag tk)) ts)" "tok_tag (ts ! 2) = MSG_TYPE"
    using order_scan_False [OF assms(2)] rne by (auto simp: ts)
  obtain x2 r2 where r: "r = x2 # r2" using rne by (cases r) auto
  have t2: "tok_tag x2 = 35" using sc(2) by (simp add: ts r tag_defs)
  with lr have r2: "r2 \<noteq> []" by (auto simp: r)
  let ?w = "butlast r2"
  have r2e: "r2 = ?w @ [last r2]" using r2 by simp
  have tsw: "ts = x0 # x1 # x2 # ?w @ [last r2]" using ts r r2e by simp
  have l10: "tok_tag (last r2) = 10" using lr r r2 by simp
  have st: "strip ts = (8, tok_val x0) # (9, tok_val x1) # (35, tok_val x2) # strip ?w @ [(10, tok_val (last r2))]"
    using tags t2 l10 by (subst tsw) (cases x0; cases x1; cases x2; cases "last r2"; simp)
  have once: "\<forall>tk \<in> set ?w. tok_tag tk \<notin> {8, 9, 35, 10}"
  proof
    fix tk assume tk: "tk \<in> set ?w"
    show "tok_tag tk \<notin> {8, 9, 35, 10}"
    proof
      assume a: "tok_tag tk \<in> {8, 9, 35, 10}"
      obtain p q where pq: "?w = p @ tk # q" using tk by (meson split_list)
      show False using assms(3) a tags t2 l10 unfolding envelope_once_def tag_defs
        by (subst (asm) tsw, unfold pq) auto
    qed
  qed
  have sw: "sorted (map (\<lambda>tk. section_of (tok_tag tk)) ?w)"
    using sc(1) by (subst (asm) tsw) (simp add: sorted_append)
  show ?thesis
  proof (rule that [of "tok_val x0" "tok_val x1" "tok_val x2" "strip ?w" "tok_val (last r2)"])
    show "\<forall>(t, x) \<in> set (strip ?w). t \<notin> {BEGIN_STRING, BODY_LENGTH, MSG_TYPE, CHECK_SUM}"
      using once by (auto simp: strip_def tag_defs)
    have "map (\<lambda>(t, x). section_of t) (strip ?w) = map (\<lambda>tk. section_of (tok_tag tk)) ?w"
      by (auto simp: strip_def)
    then show "sorted (map (\<lambda>(t, x). section_of t) (strip ?w))" using sw by simp
  qed (simp add: st tag_defs)
qed

lemma section_le2: "section_of t \<le> 2"
  by (simp add: section_of_def)

lemma section_filters:
  "(\<lambda>(t, v). \<not> is_trailer t \<and> is_header t) = (\<lambda>x. section_of (fst x) = 0)"
  "(\<lambda>(t, v). \<not> is_trailer t \<and> \<not> is_header t) = (\<lambda>x. section_of (fst x) = 1)"
  "(\<lambda>(t, v). is_trailer t) = (\<lambda>x. section_of (fst x) = 2)"
  by (auto simp: section_of_def fun_eq_iff)

lemma strip_filter:
  "strip (filter (\<lambda>tk. P (tok_tag tk)) ts) = filter (\<lambda>(t, v). P t) (strip ts)"
  by (induction ts) auto

lemma section_strip:
  "strip (header_toks ts) = filter (\<lambda>x. section_of (fst x) = 0) (strip ts)"
  "strip (body_toks ts) = filter (\<lambda>x. section_of (fst x) = 1) (strip ts)"
  "strip (trailer_toks ts) = filter (\<lambda>x. section_of (fst x) = 2) (strip ts)"
  unfolding header_toks_def body_toks_def trailer_toks_def section_filters [symmetric]
  by (rule strip_filter)+

text \<open>Re-encoding such a message prints the same token sequence, envelope values aside.\<close>

lemma encode_toks_shape:
  assumes "\<forall>(t, x) \<in> set ws. t \<notin> {BEGIN_STRING, BODY_LENGTH, MSG_TYPE, CHECK_SUM}"
    and "sorted (map (\<lambda>(t, x). section_of t) ws)"
    and us: "us = (BEGIN_STRING, b) # (BODY_LENGTH, l) # (MSG_TYPE, v) # ws @ [(CHECK_SUM, c)]"
    and m: "m_header m = fields_of (filter (\<lambda>x. section_of (fst x) = 0) us)"
      "m_body m = fields_of (filter (\<lambda>x. section_of (fst x) = 1) us)"
      "m_trailer m = fields_of (filter (\<lambda>x. section_of (fst x) = 2) us)"
  shows "encode_toks m = (MSG_TYPE, v) # ws" "value_or_default (m_header m) BEGIN_STRING = b"
proof -
  let ?h = "filter (\<lambda>x. section_of (fst x) = 0) ws" and ?b = "filter (\<lambda>x. section_of (fst x) = 1) ws"
    and ?t = "filter (\<lambda>x. section_of (fst x) = 2) ws"
  have ws: "ws = ?h @ ?b @ ?t"
    by (rule filter_sorted3) (use assms(2) section_le2 in \<open>auto simp: split_def\<close>)
  have keep: "filter (\<lambda>(t, x). t \<notin> set [BEGIN_STRING, BODY_LENGTH, MSG_TYPE]) ?h = ?h"
      "filter (\<lambda>(t, x). t \<notin> set [CHECK_SUM]) ?t = ?t"
    by (rule filter_all, use assms(1) in force)+
  have h: "m_header m = fields_of ((BEGIN_STRING, b) # (BODY_LENGTH, l) # (MSG_TYPE, v) # ?h)"
    and bd: "m_body m = fields_of ?b" and tr: "m_trailer m = fields_of (?t @ [(CHECK_SUM, c)])"
    unfolding m us by simp_all
  show vb: "value_or_default (m_header m) BEGIN_STRING = b"
    unfolding h by (simp add: value_or_default_def)
  have "value_or_default (m_header m) MSG_TYPE = v"
    unfolding h by (simp add: value_or_default_def tag_defs)
  moreover have "drop_fields [BEGIN_STRING, BODY_LENGTH, MSG_TYPE] (m_header m) = fields_of ?h"
    unfolding h drop_fields_of using keep(1) by (simp del: filter_filter set_simps) simp
  moreover have "drop_fields [CHECK_SUM] (m_trailer m) = fields_of ?t"
    unfolding tr drop_fields_of filter_append keep(2) by simp
  ultimately show "encode_toks m = (MSG_TYPE, v) # ws"
    unfolding encode_toks_def bd using arg_cong [OF ws, of "\<lambda>x. (MSG_TYPE, v) # x"] by simp
qed

lemma reencode:
  assumes "tokenize_validated input = Inr ts" "\<not> order_scan 0 0 False ts" "envelope_once ts"
    and "canonical_tags input ts"
    and bl: "hd (tok_val (ts ! 1)) \<noteq> CHR ''0''" "hd (tok_val (ts ! 1)) \<noteq> CHR ''+''"
    and "decode input = Inr m"
  shows "encode m = input"
proof -
  obtain b l v ws c where us: "strip ts = (BEGIN_STRING, b) # (BODY_LENGTH, l) # (MSG_TYPE, v) # ws @ [(CHECK_SUM, c)]"
    and ws: "\<forall>(t, x) \<in> set ws. t \<notin> {BEGIN_STRING, BODY_LENGTH, MSG_TYPE, CHECK_SUM}"
      "sorted (map (\<lambda>(t, x). section_of t) ws)"
    using accepted_shape [OF assms(1-3)] .
  note D = tokenize_validatedD [OF assms(1)]
  have inp: "input = render_toks (strip ts)" and pl: "ts = place 0 (strip ts)"
    using tokenize_canonical [OF D(1) assms(4)] .
  have m: "m_header m = fields_of (filter (\<lambda>x. section_of (fst x) = 0) (strip ts))"
      "m_body m = fields_of (filter (\<lambda>x. section_of (fst x) = 1) (strip ts))"
      "m_trailer m = fields_of (filter (\<lambda>x. section_of (fst x) = 2) (strip ts))"
    using assms(1,7) by (auto simp: decode_sections section_strip)
  note E = encode_toks_shape [OF ws us m]
  let ?pre = "(BEGIN_STRING, b) # (BODY_LENGTH, l) # (MSG_TYPE, v) # ws"
  have pl': "ts = place 0 (?pre @ [(CHECK_SUM, c)])" using pl us by simp
  have lst: "last ts = (CHECK_SUM, c, length (render_toks ?pre))"
    unfolding pl' place_append by simp
  have len2: "2 < length ts" and t1: "tok_val (ts ! 1) = l"
      and t2: "tok_off (ts ! 2) = length (render_raw BEGIN_STRING b) + length (render_raw BODY_LENGTH l)"
    unfolding pl' by simp_all
  have n: "parse_usize l = Some (length (render_toks ((MSG_TYPE, v) # ws)))"
    using D(7) len2 t1 t2 lst by simp
  then have "l = show_nat (length (render_toks ((MSG_TYPE, v) # ws)))"
    using bl t1 show_nat_parse [of u64_size l]
    by (cases l) (auto simp: parse_usize_def parse_unsigned_def simp del: parse_digits.simps split: if_splits)
  moreover have "c = show_pad 3 (checksum (render_toks ?pre))"
  proof -
    have k: "parse_u32 c = Some (checksum (render_toks ?pre))" "length c = 3" "\<forall>x \<in> set c. is_digit x"
      using D(9,10,11) lst inp us by simp_all
    then have "hd c \<noteq> CHR ''+''" by (cases c) (auto simp: is_digit_def)
    then have "parse_digits u32_size 0 c = Some (checksum (render_toks ?pre))"
      using k(1,2) by (cases c) (auto simp: parse_u32_def parse_unsigned_def simp del: parse_digits.simps split: if_splits)
    from show_pad_parse [OF this k(2)] show ?thesis by simp
  qed
  ultimately have "full_toks m = strip ts"
    unfolding full_toks_def E us by (simp add: Let_def)
  then show ?thesis using encode_full inp by simp
qed

end
