(* ===== verification/Fix_Codec_Props.thy ===== *)
theory Fix_Codec_Props
  imports Fix_Wire
begin

text \<open>
  The codec's properties: round trips, integrity of accepted frames, group structuring, framing of
  a byte stream, and ordered rendering, each with a witness on a concrete message.
\<close>

section \<open>A sample message\<close>

text \<open>A NewOrderSingle with a party group (453/448/447/452) and a length-prefixed data field.\<close>

definition party :: "bytes \<Rightarrow> bytes \<Rightarrow> field_map" where
  "party pid role = [MField (mk_field 448 pid), MField (mk_field 447 ''D''), MField (mk_field 452 role)]"

definition sample_order :: message where
  "sample_order =
     \<lparr>m_header = [MField (mk_field 8 ''FIX.4.4''), MField (mk_field 35 ''D''), MField (mk_field 49 ''BUY''),
                   MField (mk_field 56 ''SELL''), MField (mk_field 34 ''7'')],
      m_body = [MField (mk_field 55 ''MSFT''), MGroup 453 [party ''A'' ''1'', party ''B'' ''3''] None,
                MField (mk_field 95 ''3''), MField (mk_field 96 (''x'' @ [SOH] @ ''y''))],
      m_trailer = [], m_out_of_order = False\<rparr>"

definition party_spec :: group_spec where
  "party_spec = (\<lambda>t. if t = 453 then Some (448, [448, 447, 452]) else None)"

lemma sample_ready: "wire_ready sample_order"
  by code_simp

lemma sample_begin: "looks_like_fix_begin_string (value_or_default (m_header sample_order) BEGIN_STRING)"
  by code_simp

section \<open>Round trips\<close>

text \<open>
  C1. Every message whose fields sit in their sections and whose values fit the wire is decoded
  from its encoding into its normal form: no error is raised, every field and group member comes
  back as a field with its tag and bytes in the same order, data fields with embedded SOH included,
  and BodyLength and CheckSum are the ones the encoder computed.
\<close>

theorem decode_encode:
  assumes "wire_ready msg"
  shows "decode (encode msg) = Inr (normal_form msg)"
  using assms by (rule decode_encode_normal)

theorem decode_encode_witness:
  "wire_ready sample_order \<and> decode (encode sample_order) = Inr (normal_form sample_order)"
  using sample_ready decode_encode [OF sample_ready] by simp

text \<open>
  C2. A received frame that decodes without the out-of-order flag, whose envelope tags (8, 9, 35, 10)
  occur once and whose tags and BodyLength are spelled canonically is reproduced byte for byte by
  encoding the decoded message.
\<close>

theorem encode_decode:
  assumes "tokenize_validated input = Inr ts" "decode input = Inr m" "\<not> m_out_of_order m"
    and "envelope_once ts" "canonical_tags input ts"
    and "hd (tok_val (ts ! 1)) \<noteq> CHR ''0''" "hd (tok_val (ts ! 1)) \<noteq> CHR ''+''"
  shows "encode m = input"
  using reencode [OF assms(1) _ assms(4-7,2)] assms(1-3) by (auto simp: decode_sections)

text \<open>The tokens of an encoded message, with their offsets.\<close>

definition sample_toks :: "token list" where
  "sample_toks = place 0 (full_toks sample_order)"

lemma sample_validated: "tokenize_validated (encode sample_order) = Inr sample_toks"
  unfolding sample_toks_def by (rule tokenize_validated_encode [OF sample_ready])

lemma sample_canonical:
  "envelope_once sample_toks" "canonical_tags (encode sample_order) sample_toks"
  "hd (tok_val (sample_toks ! 1)) \<noteq> CHR ''0'' \<and> hd (tok_val (sample_toks ! 1)) \<noteq> CHR ''+''"
  by code_simp+

theorem encode_decode_witness:
  "\<not> m_out_of_order (normal_form sample_order) \<and> encode (normal_form sample_order) = encode sample_order"
  using encode_decode [OF sample_validated decode_encode_normal [OF sample_ready] _ sample_canonical(1,2)]
    sample_canonical(3) by (simp add: normal_form_def)

section \<open>Accepted frames\<close>

text \<open>
  C3. Integrity of every accepted frame. The input tokenises; the first two tags are BeginString and
  BodyLength and the last is CheckSum; some token is MsgType; the declared body length is exactly the
  number of bytes between the second field and the CheckSum field and is at most 16 MiB; the
  three-digit checksum equals the byte sum modulo 256 of everything before it; and the sections of the
  message hold exactly the input's fields, each in its section and in wire order.
\<close>

theorem decode_integrity:
  assumes "decode input = Inr m"
  shows "\<exists>ts. tokenize input = Inr ts \<and> 2 \<le> length ts
     \<and> tok_tag (ts ! 0) = BEGIN_STRING \<and> tok_tag (ts ! 1) = BODY_LENGTH \<and> tok_tag (last ts) = CHECK_SUM
     \<and> (\<exists>tk \<in> set ts. tok_tag tk = MSG_TYPE)
     \<and> (\<exists>n. parse_usize (tok_val (ts ! 1)) = Some n \<and> n \<le> MAX_BODY_LEN
          \<and> tok_off (if 2 < length ts then ts ! 2 else last ts) + n = tok_off (last ts))
     \<and> length (tok_val (last ts)) = 3
     \<and> parse_u32 (tok_val (last ts)) = Some (byte_sum (take (tok_off (last ts)) input) mod 256)
     \<and> m_header m = fields_of (filter (\<lambda>(t, v). section_of t = 0) (strip ts))
     \<and> m_body m = fields_of (filter (\<lambda>(t, v). section_of t = 1) (strip ts))
     \<and> m_trailer m = fields_of (filter (\<lambda>(t, v). section_of t = 2) (strip ts))"
proof -
  obtain ts where ts: "tokenize_validated input = Inr ts"
    using assms by (auto simp: decode_def split: sum.splits)
  note D = tokenize_validatedD [OF ts]
  from D(7,8,13) have bl: "\<exists>n. parse_usize (tok_val (ts ! 1)) = Some n \<and> n \<le> MAX_BODY_LEN
      \<and> tok_off (if 2 < length ts then ts ! 2 else last ts) + n = tok_off (last ts)" by auto
  have secs: "m_header m = fields_of (filter (\<lambda>(t, v). section_of t = 0) (strip ts))"
      "m_body m = fields_of (filter (\<lambda>(t, v). section_of t = 1) (strip ts))"
      "m_trailer m = fields_of (filter (\<lambda>(t, v). section_of t = 2) (strip ts))"
    using assms ts by (auto simp: decode_sections section_strip split_def)
  show ?thesis
    using D(1-6,9,11) bl secs by (intro exI [of _ ts] conjI) (simp_all add: checksum_mod)
qed

theorem decode_integrity_witness:
  "\<exists>ts. tokenize (encode sample_order) = Inr ts
     \<and> parse_u32 (tok_val (last ts)) = Some (byte_sum (take (tok_off (last ts)) (encode sample_order)) mod 256)"
  using decode_integrity [OF decode_encode_normal [OF sample_ready]] by blast

section \<open>Repeating groups\<close>

text \<open>
  Group-aware decoding is flat decoding followed by restructuring each section, in the order
  header, body, trailer, with the first failing section's error; in particular it accepts no frame
  the flat decoder rejects and agrees with it on the out-of-order flag.
\<close>

theorem decode_with_groups_restructures:
  "decode_with_groups input spec =
     (case decode input of Inl e \<Rightarrow> Inl e
      | Inr m \<Rightarrow>
        (case restructure_groups (m_header m) spec of Inl e \<Rightarrow> Inl e | Inr h \<Rightarrow>
        (case restructure_groups (m_body m) spec of Inl e \<Rightarrow> Inl e | Inr b \<Rightarrow>
        (case restructure_groups (m_trailer m) spec of Inl e \<Rightarrow> Inl e | Inr t \<Rightarrow>
           Inr (m\<lparr>m_header := h, m_body := b, m_trailer := t\<rparr>)))))"
  by (simp add: decode_sections decode_with_groups_def restructure_fields_of split: sum.splits)

text \<open>
  Structuring groups never changes what is on the wire: when every group count in a section is a
  canonical integer, the restructured section renders to the same bytes, whatever the group
  specification and however far the declared counts are from the real number of entries.
\<close>

theorem restructure_same_bytes:
  assumes "restructure_groups m spec = Inr m'"
    and "\<forall>(t, v) \<in> set (wire_toks m). spec t = None \<or> canonical_count v"
  shows "render_members [] m' = render_members [] m"
proof -
  have "list_all2 (same_wire spec) (wire_toks m') (wire_toks m)"
    using section_wire [OF assms(1) [unfolded restructure_groups_def]] by simp
  then have "wire_toks m' = wire_toks m" using assms(2) by (rule same_wire_canonical)
  then show ?thesis by (simp add: render_members_toks)
qed

definition flat_parties :: field_map where
  "flat_parties = fields_of [(55, ''MSFT''), (453, ''3''), (448, ''A''), (452, ''1''), (448, ''B''), (54, ''1'')]"

definition grouped_parties :: field_map where
  "grouped_parties = [MField (mk_field 55 ''MSFT''),
     MGroup 453 [[MField (mk_field 448 ''A''), MField (mk_field 452 ''1'')], [MField (mk_field 448 ''B'')]] (Some 3),
     MField (mk_field 54 ''1'')]"

theorem restructure_same_bytes_witness:
  "restructure_groups flat_parties party_spec = Inr grouped_parties
   \<and> render_members [] grouped_parties = render_members [] flat_parties"
proof -
  have r: "restructure_groups flat_parties party_spec = Inr grouped_parties" by code_simp
  have c: "\<forall>(t, v) \<in> set (wire_toks flat_parties). party_spec t = None \<or> canonical_count v" by code_simp
  show ?thesis using r restructure_same_bytes [OF r c] by simp
qed

section \<open>Framing a stream\<close>

text \<open>
  Framing an encoded message out of a stream: with the whole message at the front of the buffer
  the answer is its exact length, whatever follows; with any strict prefix of it the answer is that
  more bytes are needed, never an error and never a shorter frame.
\<close>

theorem frame_length_stream:
  assumes "wire_ready msg"
    and "looks_like_fix_begin_string (value_or_default (m_header msg) BEGIN_STRING)"
  shows "frame_length (encode msg @ rest) = Inr (Some (length (encode msg)))
     \<and> (k < length (encode msg) \<longrightarrow> frame_length (take k (encode msg)) = Inr None)"
  using frame_length_append [OF frame_length_encode [OF assms]] frame_length_prefix [OF frame_length_encode [OF assms]]
  by blast

theorem frame_length_stream_witness:
  "frame_length (encode sample_order @ ''8=FIX'') = Inr (Some (length (encode sample_order)))
   \<and> frame_length (take 20 (encode sample_order)) = Inr None"
proof -
  have "20 < length (encode sample_order)" by code_simp
  then show ?thesis using frame_length_stream [OF sample_ready sample_begin, of _ 20] by blast
qed

text \<open>
  On an arbitrary buffer a framing answer is stable: a frame length never exceeds the buffer and
  stays the same when more bytes arrive.
\<close>

theorem frame_length_stable:
  assumes "frame_length buf = Inr (Some n)"
  shows "n \<le> length buf \<and> frame_length (buf @ later) = Inr (Some n)"
  using frame_length_bound [OF assms] frame_length_append [OF assms] by blast

theorem frame_length_stable_witness:
  "frame_length ((encode sample_order @ ''8='') @ ''FIX.4.4'') = Inr (Some (length (encode sample_order)))"
  using frame_length_stable [OF frame_length_append [OF frame_length_encode [OF sample_ready sample_begin]]] by blast

section \<open>Ordered rendering\<close>

text \<open>The reference order: members of each listed tag at its first occurrence, the rest after them.\<close>

fun first_occurrences :: "tag list \<Rightarrow> tag list" where
  "first_occurrences [] = []"
| "first_occurrences (x # xs) = x # filter (\<lambda>y. y \<noteq> x) (first_occurrences xs)"

definition reorder_members :: "tag list \<Rightarrow> field_map \<Rightarrow> field_map" where
  "reorder_members order ms =
     concat (map (\<lambda>w. filter (\<lambda>m. member_tag m = w) ms) (first_occurrences order))
     @ filter (\<lambda>m. member_tag m \<notin> set order) ms"

lemma set_first_occurrences [simp]: "set (first_occurrences xs) = set xs"
  by (induction xs) auto

lemma distinct_first_occurrences: "distinct (first_occurrences xs)"
  by (induction xs) auto

lemma render_members_one: "render_members [] ms = concat (map render_one_member ms)"
proof (induction ms)
  case (Cons m ms)
  then show ?case by (cases m) simp_all
qed simp

lemma render_wanted_concat:
  "render_wanted ms em ws =
     (concat (map render_one_member (concat (map (\<lambda>w. filter (\<lambda>m. member_tag m = w) ms)
        (filter (\<lambda>w. w \<notin> set em) (first_occurrences ws))))),
      rev (filter (\<lambda>w. w \<notin> set em) (first_occurrences ws)) @ em)"
proof (induction ws arbitrary: em)
  case (Cons w ws)
  show ?case
  proof (cases "w \<in> set em")
    case True
    then have "filter (\<lambda>x. x \<notin> set em) (filter (\<lambda>x. x \<noteq> w) (first_occurrences ws))
        = filter (\<lambda>x. x \<notin> set em) (first_occurrences ws)"
      by (auto simp: filter_filter intro!: filter_cong)
    then show ?thesis using Cons True by (simp del: filter_filter)
  next
    case False
    then show ?thesis using Cons [of "w # em"]
      by (simp add: split_def Let_def filter_filter conj_commute)
  qed
qed simp

lemma ordered_reorder: "render_members_ordered ms order = render_members [] (reorder_members order ms)"
  by (simp add: render_members_ordered_def render_wanted_concat reorder_members_def render_members_one)

lemma filter_buckets:
  "distinct ws \<Longrightarrow> filter (\<lambda>m. member_tag m = t) (concat (map (\<lambda>w. filter (\<lambda>m. member_tag m = w) ms) ws))
     = (if t \<in> set ws then filter (\<lambda>m. member_tag m = t) ms else [])"
proof (induction ws)
  case (Cons w ws)
  have "filter (\<lambda>m. member_tag m = t \<and> member_tag m = w) ms
      = (if w = t then filter (\<lambda>m. member_tag m = t) ms else [])"
    by (auto simp: filter_empty_conv intro: filter_cong)
  then show ?case using Cons by (auto simp: filter_filter conj_commute)
qed simp

text \<open>
  Encoding with a configured body field order is encoding the message with its body reordered:
  the listed tags come first in the order of the list, the rest follow in their own order, and per tag
  the members keep their order, so that nothing is lost, duplicated or changed. BodyLength and CheckSum
  are those of the reordered message.
\<close>

theorem encode_with_order_reorders:
  "encode_with_order msg (Some order) = encode (msg\<lparr>m_body := reorder_members order (m_body msg)\<rparr>)
   \<and> filter (\<lambda>m. member_tag m = t) (reorder_members order (m_body msg)) = filter (\<lambda>m. member_tag m = t) (m_body msg)
   \<and> map member_tag (reorder_members order ms) =
       concat (map (\<lambda>w. replicate (length (filter (\<lambda>m. member_tag m = w) ms)) w) (first_occurrences order))
       @ filter (\<lambda>w. w \<notin> set order) (map member_tag ms)"
proof (intro conjI)
  show "encode_with_order msg (Some order) = encode (msg\<lparr>m_body := reorder_members order (m_body msg)\<rparr>)"
    by (simp add: encode_def encode_with_order_def encode_middle_def ordered_reorder Let_def)
  show "filter (\<lambda>m. member_tag m = t) (reorder_members order (m_body msg)) = filter (\<lambda>m. member_tag m = t) (m_body msg)"
    using filter_buckets [OF distinct_first_occurrences, of t "m_body msg" order]
    by (auto simp: reorder_members_def filter_filter conj_commute cong: conj_cong)
  have "map member_tag (filter (\<lambda>m. member_tag m = w) ms) = replicate (length (filter (\<lambda>m. member_tag m = w) ms)) w" for w
    by (induction ms) auto
  then show "map member_tag (reorder_members order ms) =
       concat (map (\<lambda>w. replicate (length (filter (\<lambda>m. member_tag m = w) ms)) w) (first_occurrences order))
       @ filter (\<lambda>w. w \<notin> set order) (map member_tag ms)"
    by (simp add: reorder_members_def map_concat comp_def filter_map)
qed

section \<open>Tags and counts on the wire\<close>

text \<open>
  The tag writer prints exactly the decimal digits of every 32-bit tag: its ten-byte buffer never
  runs short, and the tokeniser reads the printed tag back.
\<close>

theorem write_tag_exact:
  assumes "t < u32_size"
  shows "write_tag t = show_nat t \<and> length (write_tag t) \<le> 10 \<and> parse_u32 (write_tag t) = Some t"
proof -
  have "length (show_nat t) \<le> Suc 9" using assms by (intro show_nat_length) simp
  then show ?thesis using assms by (simp add: write_tag_show)
qed

theorem write_tag_exact_witness:
  "write_tag 4294967295 = ''4294967295'' \<and> parse_u32 ''4294967295'' = Some 4294967295"
proof -
  have "show_nat 4294967295 = ''4294967295''" by code_simp
  then show ?thesis using write_tag_exact [of 4294967295] by auto
qed

end
