(* ===== verification/Fix_Time.thy ===== *)
theory Fix_Time
  imports Fix_Message "HOL-Library.Monad_Syntax"
begin

text \<open>
  Dates, times and timestamps: the UTC conversions of \<^verbatim>\<open>field.rs\<close> and of \<^verbatim>\<open>time_util.rs\<close>. The
  \<^verbatim>\<open>time\<close>, \<^verbatim>\<open>time_tz\<close> and \<^verbatim>\<open>rust_decimal\<close> crates are third-party code, so what the sources call of
  them is the record \<open>ext\<close>, a parameter of every definition that uses it: whether a calendar date
  or a time of day exists, whether a decimal parses, the distance of two instants, weekdays and
  time-zone offsets. A date, a time and an instant are kept as the components their constructors
  take and their accessors return.
\<close>

record date =
  d_year :: int
  d_month :: nat
  d_day :: nat

record tod =
  t_hour :: nat
  t_min :: nat
  t_sec :: nat
  t_nano :: nat

record datetime =
  dt_date :: date
  dt_time :: tod

record ext =
  ext_date_ok :: "int \<Rightarrow> nat \<Rightarrow> nat \<Rightarrow> bool"
  ext_time_ok :: "nat \<Rightarrow> nat \<Rightarrow> nat \<Rightarrow> nat \<Rightarrow> bool"
  ext_decimal_ok :: "bytes \<Rightarrow> bool"
  ext_whole_seconds :: "datetime \<Rightarrow> datetime \<Rightarrow> int"
  ext_weekday :: "datetime \<Rightarrow> nat"
  ext_to_offset :: "datetime \<Rightarrow> int \<Rightarrow> datetime"
  ext_offset_ok :: "int \<Rightarrow> bool"
  ext_tz_offset :: "bytes \<Rightarrow> datetime \<Rightarrow> int"

text \<open>
  What the crate documents of its constructors: years have at most four digits, months and days
  are in the Gregorian ranges, and \<^verbatim>\<open>from_hms_nano\<close> accepts exactly the times of a day.
\<close>

definition calendar_documented :: "ext \<Rightarrow> bool" where
  "calendar_documented E \<longleftrightarrow>
     (\<forall>y m d. ext_date_ok E y m d \<longrightarrow> - 9999 \<le> y \<and> y \<le> 9999 \<and> 1 \<le> m \<and> m \<le> 12 \<and> 1 \<le> d \<and> d \<le> 31)
     \<and> (\<forall>h m s n. ext_time_ok E h m s n \<longleftrightarrow> h < 24 \<and> m < 60 \<and> s < 60 \<and> n < 1000000000)"

definition valid_datetime :: "ext \<Rightarrow> datetime \<Rightarrow> bool" where
  "valid_datetime E dt \<longleftrightarrow>
     ext_date_ok E (d_year (dt_date dt)) (d_month (dt_date dt)) (d_day (dt_date dt))
     \<and> ext_time_ok E (t_hour (dt_time dt)) (t_min (dt_time dt)) (t_sec (dt_time dt)) (t_nano (dt_time dt))"

definition from_calendar_date :: "ext \<Rightarrow> int \<Rightarrow> nat \<Rightarrow> nat \<Rightarrow> date option" where
  "from_calendar_date E y m d =
     (if ext_date_ok E y m d then Some \<lparr>d_year = y, d_month = m, d_day = d\<rparr> else None)"

definition from_hms_nano :: "ext \<Rightarrow> nat \<Rightarrow> nat \<Rightarrow> nat \<Rightarrow> nat \<Rightarrow> tod option" where
  "from_hms_nano E h m s n =
     (if ext_time_ok E h m s n then Some \<lparr>t_hour = h, t_min = m, t_sec = s, t_nano = n\<rparr> else None)"

section \<open>Number formats\<close>

text \<open>\<^verbatim>\<open>str::parse::<i32>\<close> and \<^verbatim>\<open>str::parse::<u8>\<close>; \<^verbatim>\<open>{:0w$}\<close> of a signed integer counts its sign.\<close>

definition parse_i32 :: "bytes \<Rightarrow> int option" where
  "parse_i32 s = (case parse_i64 s of None \<Rightarrow> None
     | Some i \<Rightarrow> if - (2 ^ 31) \<le> i \<and> i < 2 ^ 31 then Some i else None)"

definition parse_u8 :: "bytes \<Rightarrow> nat option" where
  "parse_u8 s = parse_unsigned 256 s"

definition show_pad_int :: "nat \<Rightarrow> int \<Rightarrow> bytes" where
  "show_pad_int w i = (if i < 0 then CHR ''-'' # show_pad (w - 1) (nat (- i)) else show_pad w (nat i))"

section \<open>Parsing\<close>

text \<open>
  \<^verbatim>\<open>split_once('.')\<close> on the time part, then at most nine fraction digits padded with zeros on the
  right; a fraction has exactly 3, 6 or 9 digits.
\<close>

definition split_frac :: "bytes \<Rightarrow> bytes \<times> bytes option" where
  "split_frac s = (case split_once (CHR ''.'') s of Some (h, f) \<Rightarrow> (h, Some f) | None \<Rightarrow> (s, None))"

definition parse_frac :: "bytes option \<Rightarrow> nat option" where
  "parse_frac frac =
     (case frac of None \<Rightarrow> Some 0
      | Some f \<Rightarrow>
          if length f \<in> {3, 6, 9} \<and> list_all is_digit f
          then parse_unsigned u32_size (f @ replicate (9 - length f) (CHR ''0''))
          else None)"

text \<open>
  Hour, minute and second out of \<open>split(':')\<close>: exactly three parts. The seconds and the nanoseconds
  are returned as read; the leap second is folded by \<open>fold_leap\<close>.
\<close>

definition parse_hms :: "bytes \<Rightarrow> (nat \<times> nat \<times> nat) option" where
  "parse_hms hms =
     (case split_all (CHR '':'') hms of
        [h, m, s] \<Rightarrow> do { hour \<leftarrow> parse_u8 h; mi \<leftarrow> parse_u8 m; sec \<leftarrow> parse_u8 s; Some (hour, mi, sec) }
      | _ \<Rightarrow> None)"

definition fold_leap :: "nat \<Rightarrow> nat \<Rightarrow> nat \<times> nat" where
  "fold_leap sec nanos = (if sec = 60 then (59, 999999999) else (sec, nanos))"

definition parse_utc_timestamp :: "ext \<Rightarrow> bytes \<Rightarrow> datetime option" where
  "parse_utc_timestamp E s =
     do { (date, time_part) \<leftarrow> split_once (CHR ''-'') s;
          if length date \<noteq> 8 then None else
          do { year \<leftarrow> Option.bind (get_range date 0 4) parse_i32;
               month \<leftarrow> Option.bind (get_range date 4 6) parse_u8;
               day \<leftarrow> Option.bind (get_range date 6 8) parse_u8;
               let (hms, frac) = split_frac time_part;
               (hour, mi, sec) \<leftarrow> parse_hms hms;
               nanos \<leftarrow> parse_frac frac;
               d \<leftarrow> from_calendar_date E year month day;
               let (sec', nanos') = fold_leap sec nanos;
               t \<leftarrow> from_hms_nano E hour mi sec' nanos';
               Some \<lparr>dt_date = d, dt_time = t\<rparr> } }"

definition parse_utc_date_only :: "ext \<Rightarrow> bytes \<Rightarrow> date option" where
  "parse_utc_date_only E s =
     (if length s \<noteq> 8 \<or> \<not> list_all is_digit s then None
      else do { year \<leftarrow> Option.bind (get_range s 0 4) parse_i32;
                month \<leftarrow> Option.bind (get_range s 4 6) parse_u8;
                day \<leftarrow> Option.bind (get_range s 6 8) parse_u8;
                from_calendar_date E year month day })"

definition parse_utc_time_only :: "ext \<Rightarrow> bytes \<Rightarrow> tod option" where
  "parse_utc_time_only E s =
     do { let (hms, frac) = split_frac s;
          (hour, mi, sec) \<leftarrow> parse_hms hms;
          nanos \<leftarrow> parse_frac frac;
          let (sec', nanos') = fold_leap sec nanos;
          from_hms_nano E hour mi sec' nanos' }"

section \<open>Formatting\<close>

datatype timestamp_precision = Seconds | Milliseconds | Microseconds | Nanoseconds

definition format_date :: "date \<Rightarrow> bytes" where
  "format_date d = show_pad_int 4 (d_year d) @ show_pad 2 (d_month d) @ show_pad 2 (d_day d)"

definition format_hms :: "tod \<Rightarrow> bytes" where
  "format_hms t = show_pad 2 (t_hour t) @ '':'' @ show_pad 2 (t_min t) @ '':'' @ show_pad 2 (t_sec t)"

definition format_frac :: "timestamp_precision \<Rightarrow> nat \<Rightarrow> bytes" where
  "format_frac p nanos =
     (case p of Seconds \<Rightarrow> []
      | Milliseconds \<Rightarrow> ''.'' @ show_pad 3 (nanos div 1000000)
      | Microseconds \<Rightarrow> ''.'' @ show_pad 6 (nanos div 1000)
      | Nanoseconds \<Rightarrow> ''.'' @ show_pad 9 nanos)"

definition format_utc_timestamp :: "datetime \<Rightarrow> timestamp_precision \<Rightarrow> bytes" where
  "format_utc_timestamp dt p =
     format_date (dt_date dt) @ ''-'' @ format_hms (dt_time dt) @ format_frac p (t_nano (dt_time dt))"

definition format_utc_timestamp_millis :: "datetime \<Rightarrow> bytes" where
  "format_utc_timestamp_millis dt =
     format_date (dt_date dt) @ ''-'' @ format_hms (dt_time dt) @ ''.'' @ show_pad 3 (t_nano (dt_time dt) div 1000000)"

definition format_utc_date_only :: "date \<Rightarrow> bytes" where
  "format_utc_date_only d = format_date d"

definition format_utc_time_only_millis :: "tod \<Rightarrow> bytes" where
  "format_utc_time_only_millis t = format_hms t @ ''.'' @ show_pad 3 (t_nano t div 1000000)"

section \<open>Typed accessors and constructors of fields\<close>

definition utc_timestamp :: "tag \<Rightarrow> datetime \<Rightarrow> field" where
  "utc_timestamp t dt = mk_field t (format_utc_timestamp_millis dt)"

definition utc_date_only :: "tag \<Rightarrow> date \<Rightarrow> field" where
  "utc_date_only t d = mk_field t (format_utc_date_only d)"

definition utc_time_only :: "tag \<Rightarrow> tod \<Rightarrow> field" where
  "utc_time_only t v = mk_field t (format_utc_time_only_millis v)"

definition as_utc_timestamp :: "ext \<Rightarrow> field \<Rightarrow> field_error + datetime" where
  "as_utc_timestamp E f = (case as_str f of Inl e \<Rightarrow> Inl e
     | Inr s \<Rightarrow> (case parse_utc_timestamp E s of Some dt \<Rightarrow> Inr dt | None \<Rightarrow> Inl (NotTimestamp (f_tag f) s)))"

definition as_utc_date_only :: "ext \<Rightarrow> field \<Rightarrow> field_error + date" where
  "as_utc_date_only E f = (case as_str f of Inl e \<Rightarrow> Inl e
     | Inr s \<Rightarrow> (case parse_utc_date_only E s of Some d \<Rightarrow> Inr d | None \<Rightarrow> Inl (NotDateOnly (f_tag f) s)))"

definition as_utc_time_only :: "ext \<Rightarrow> field \<Rightarrow> field_error + tod" where
  "as_utc_time_only E f = (case as_str f of Inl e \<Rightarrow> Inl e
     | Inr s \<Rightarrow> (case parse_utc_time_only E s of Some t \<Rightarrow> Inr t | None \<Rightarrow> Inl (NotTimeOnly (f_tag f) s)))"

text \<open>Only the success of a decimal parse is observed by the modelled code.\<close>

definition as_decimal_ok :: "ext \<Rightarrow> field \<Rightarrow> bool" where
  "as_decimal_ok E f = (case as_str f of Inl e \<Rightarrow> False | Inr s \<Rightarrow> ext_decimal_ok E s)"

section \<open>Reading back what was printed\<close>

text \<open>The instant with its sub-second part cut to the printed precision.\<close>

definition trunc_nanos :: "timestamp_precision \<Rightarrow> nat \<Rightarrow> nat" where
  "trunc_nanos p n =
     (case p of Seconds \<Rightarrow> 0 | Milliseconds \<Rightarrow> n div 1000000 * 1000000
      | Microseconds \<Rightarrow> n div 1000 * 1000 | Nanoseconds \<Rightarrow> n)"

definition truncate_to :: "timestamp_precision \<Rightarrow> datetime \<Rightarrow> datetime" where
  "truncate_to p dt = dt\<lparr>dt_time := (dt_time dt)\<lparr>t_nano := trunc_nanos p (t_nano (dt_time dt))\<rparr>\<rparr>"

lemma parse_u8_show_pad: "n < 100 \<Longrightarrow> parse_u8 (show_pad 2 n) = Some n"
  by (simp add: parse_u8_def parse_unsigned_show_pad)

lemma parse_i32_show_pad: "n < 10000 \<Longrightarrow> parse_i32 (show_pad 4 n) = Some (int n)"
proof -
  assume n: "n < 10000"
  have d: "parse_digits (2 ^ 63) 0 (show_pad 4 n) = Some n" using n by (simp add: parse_digits_show_pad)
  have "hd (show_pad 4 n) \<in> set (show_pad 4 n)" by simp
  then have "is_digit (hd (show_pad 4 n))" by (rule show_pad_digits)
  then have "parse_i64 (show_pad 4 n) = Some (int n)"
    using d by (cases "show_pad 4 n") (auto simp: parse_i64_def is_digit_def simp del: parse_digits.simps)
  then show ?thesis using n by (simp add: parse_i32_def)
qed

lemma split_all_no_sep: "c \<notin> set xs \<Longrightarrow> split_all c xs = [xs]"
  by (induction xs) auto

lemma split_all_sep: "c \<notin> set xs \<Longrightarrow> split_all c (xs @ c # ys) = xs # split_all c ys"
  by (induction xs) auto

lemma split_once_sep: "c \<notin> set xs \<Longrightarrow> split_once c (xs @ c # ys) = Some (xs, ys)"
  by (simp add: split_once_def find_byte_append)

lemma split_once_none: "c \<notin> set xs \<Longrightarrow> split_once c xs = None"
  by (simp add: split_once_def find_byte_None_iff)

lemma pad_sep [simp]:
  "CHR '':'' \<notin> set (show_pad w n)" "CHR ''.'' \<notin> set (show_pad w n)" "CHR ''-'' \<notin> set (show_pad w n)"
  by (auto dest!: show_pad_digits simp: is_digit_def)

lemma parse_hms_format:
  "t_hour t < 24 \<Longrightarrow> t_min t < 60 \<Longrightarrow> t_sec t < 60 \<Longrightarrow>
   parse_hms (format_hms t) = Some (t_hour t, t_min t, t_sec t)"
  by (simp add: parse_hms_def format_hms_def split_all_sep split_all_no_sep parse_u8_show_pad)

lemma parse_frac_pad:
  assumes "n < 10 ^ w" "w \<in> {3, 6, 9}"
  shows "parse_frac (Some (show_pad w n)) = Some (n * 10 ^ (9 - w))"
proof -
  have w: "0 < w" "w \<le> 9" using assms(2) by auto
  have len: "length (show_pad w n) = w" using show_pad_length assms(1) w by blast
  have "n * 10 ^ (9 - w) < 10 ^ w * 10 ^ (9 - w)" using assms(1) by simp
  also have "\<dots> = 10 ^ 9" using w by (simp flip: power_add)
  finally have small: "n * 10 ^ (9 - w) < u32_size" by simp
  have "n \<le> n * 10 ^ (9 - w)" by simp
  then have n: "n < u32_size" using small by linarith
  have "parse_digits u32_size 0 (show_pad w n @ replicate (9 - w) (CHR ''0'')) = Some (n * 10 ^ (9 - w))"
    using parse_digits_show_pad [OF n, of w] parse_digits_scale [OF small] by (simp add: parse_digits_append)
  moreover have "is_digit (hd (show_pad w n))" using show_pad_digits [of "hd (show_pad w n)" w n] by simp
  ultimately have "parse_unsigned u32_size (show_pad w n @ replicate (9 - w) (CHR ''0'')) = Some (n * 10 ^ (9 - w))"
    by (cases "show_pad w n") (auto simp: parse_unsigned_def is_digit_def simp del: parse_digits.simps dest: arg_cong [of _ _ length])
  moreover have "list_all is_digit (show_pad w n)" by (auto simp: list_all_iff dest: show_pad_digits)
  ultimately show ?thesis using assms(2) by (auto simp: parse_frac_def len)
qed

lemma split_frac_format:
  "split_frac (format_hms t @ format_frac p n) =
     (format_hms t, case p of Seconds \<Rightarrow> None | Milliseconds \<Rightarrow> Some (show_pad 3 (n div 1000000))
        | Microseconds \<Rightarrow> Some (show_pad 6 (n div 1000)) | Nanoseconds \<Rightarrow> Some (show_pad 9 n))"
proof -
  have "CHR ''.'' \<notin> set (format_hms t)" by (simp add: format_hms_def)
  then show ?thesis
    by (cases p) (simp_all add: split_frac_def format_frac_def split_once_sep split_once_none)
qed

lemma parse_frac_format:
  "n < 1000000000 \<Longrightarrow> parse_frac (snd (split_frac (format_hms t @ format_frac p n))) = Some (trunc_nanos p n)"
  using parse_frac_pad [of "n div 1000000" 3] parse_frac_pad [of "n div 1000" 6] parse_frac_pad [of n 9]
  by (cases p) (simp_all add: split_frac_format trunc_nanos_def parse_frac_def div_less_iff_less_mult)

lemma format_date_parts:
  assumes "0 \<le> d_year d" "d_year d \<le> 9999" "d_month d < 100" "d_day d < 100"
  shows "length (format_date d) = 8"
    and "Option.bind (get_range (format_date d) 0 4) parse_i32 = Some (d_year d)"
    and "Option.bind (get_range (format_date d) 4 6) parse_u8 = Some (d_month d)"
    and "Option.bind (get_range (format_date d) 6 8) parse_u8 = Some (d_day d)"
    and "CHR ''-'' \<notin> set (format_date d)"
    and "list_all is_digit (format_date d)"
proof -
  let ?y = "show_pad 4 (nat (d_year d))" and ?m = "show_pad 2 (d_month d)" and ?d = "show_pad 2 (d_day d)"
  have f: "format_date d = ?y @ ?m @ ?d" using assms(1) by (simp add: format_date_def show_pad_int_def)
  have l: "length ?y = 4" "length ?m = 2" "length ?d = 2" using assms by (simp_all add: show_pad_length)
  show "length (format_date d) = 8" by (simp add: f l)
  have g: "get_range (format_date d) 0 4 = Some ?y" "get_range (format_date d) 4 6 = Some ?m"
      "get_range (format_date d) 6 8 = Some ?d"
    by (simp_all add: f l get_range_def)
  show "Option.bind (get_range (format_date d) 0 4) parse_i32 = Some (d_year d)"
    "Option.bind (get_range (format_date d) 4 6) parse_u8 = Some (d_month d)"
    "Option.bind (get_range (format_date d) 6 8) parse_u8 = Some (d_day d)"
    using assms by (simp_all add: g parse_i32_show_pad parse_u8_show_pad)
  show "CHR ''-'' \<notin> set (format_date d)" by (simp add: f)
  show "list_all is_digit (format_date d)" by (auto simp: f list_all_iff dest: show_pad_digits)
qed

lemma parse_format_timestamp:
  assumes E: "calendar_documented E" and dt: "valid_datetime E dt" "0 \<le> d_year (dt_date dt)"
  shows "parse_utc_timestamp E (format_utc_timestamp dt p) = Some (truncate_to p dt)"
proof -
  let ?d = "dt_date dt" and ?t = "dt_time dt"
  have ok: "ext_date_ok E (d_year ?d) (d_month ?d) (d_day ?d)"
    and t: "t_hour ?t < 24" "t_min ?t < 60" "t_sec ?t < 60" "t_nano ?t < 1000000000"
    using E dt(1) by (auto simp: calendar_documented_def valid_datetime_def)
  have r: "d_year ?d \<le> 9999" "d_month ?d < 100" "d_day ?d < 100"
    using E ok unfolding calendar_documented_def by force+
  note D = format_date_parts [OF dt(2) r]
  have tn: "trunc_nanos p (t_nano ?t) < 1000000000" using t(4) by (cases p) (auto simp: trunc_nanos_def)
  have s: "split_once (CHR ''-'') (format_utc_timestamp dt p) =
      Some (format_date ?d, format_hms ?t @ format_frac p (t_nano ?t))"
    using split_once_sep [OF D(5)] by (simp add: format_utc_timestamp_def)
  have h: "fst (split_frac (format_hms ?t @ format_frac p (t_nano ?t))) = format_hms ?t"
    by (simp add: split_frac_format)
  have tok: "ext_time_ok E (t_hour ?t) (t_min ?t) (t_sec ?t) (trunc_nanos p (t_nano ?t))"
    using E t tn by (simp add: calendar_documented_def)
  show ?thesis
    using D(1-4) h ok tok t parse_frac_format [OF t(4), of ?t p]
    by (simp add: parse_utc_timestamp_def s split_def Let_def parse_hms_format from_calendar_date_def
        fold_leap_def from_hms_nano_def truncate_to_def)
qed

section \<open>A UTC-only instance of the external functions\<close>

text \<open>
  A concrete instance on which the hypotheses about external code can be evaluated: the Gregorian
  calendar with no time zones, and plain signed decimals.
\<close>

definition leap_year :: "int \<Rightarrow> bool" where
  "leap_year y \<longleftrightarrow> 4 dvd y \<and> (\<not> 100 dvd y \<or> 400 dvd y)"

definition days_in_month :: "int \<Rightarrow> nat \<Rightarrow> nat" where
  "days_in_month y m = (if m = 2 then (if leap_year y then 29 else 28) else if m \<in> {4, 6, 9, 11} then 30 else 31)"

definition day_number :: "date \<Rightarrow> int" where
  "day_number d =
     (let y = (if d_month d \<le> 2 then d_year d - 1 else d_year d);
          m = int ((d_month d + 9) mod 12)
      in 365 * y + y div 4 - y div 100 + y div 400 + (153 * m + 2) div 5 + int (d_day d) - 1)"

definition second_number :: "datetime \<Rightarrow> int" where
  "second_number dt =
     day_number (dt_date dt) * 86400
     + int (t_hour (dt_time dt) * 3600 + t_min (dt_time dt) * 60 + t_sec (dt_time dt))"

definition plain_decimal :: "bytes \<Rightarrow> bool" where
  "plain_decimal s =
     (case split_frac (case s of c # cs \<Rightarrow> if c = CHR ''-'' then cs else s | [] \<Rightarrow> []) of
        (i, f) \<Rightarrow> i \<noteq> [] \<and> list_all is_digit i \<and> (case f of None \<Rightarrow> True | Some x \<Rightarrow> list_all is_digit x))"

definition utc_ext :: ext where
  "utc_ext =
     \<lparr>ext_date_ok = (\<lambda>y m d. - 9999 \<le> y \<and> y \<le> 9999 \<and> 1 \<le> m \<and> m \<le> 12 \<and> 1 \<le> d \<and> d \<le> days_in_month y m),
      ext_time_ok = (\<lambda>h m s n. h < 24 \<and> m < 60 \<and> s < 60 \<and> n < 1000000000),
      ext_decimal_ok = plain_decimal,
      ext_whole_seconds = (\<lambda>a b. second_number a - second_number b),
      ext_weekday = (\<lambda>dt. nat ((day_number (dt_date dt) + 3) mod 7)),
      ext_to_offset = (\<lambda>dt _. dt),
      ext_offset_ok = (\<lambda>i. i = 0),
      ext_tz_offset = (\<lambda>_ _. 0)\<rparr>"

definition mk_datetime :: "int \<Rightarrow> nat \<Rightarrow> nat \<Rightarrow> nat \<Rightarrow> nat \<Rightarrow> nat \<Rightarrow> nat \<Rightarrow> datetime" where
  "mk_datetime y m d h mi s n =
     \<lparr>dt_date = \<lparr>d_year = y, d_month = m, d_day = d\<rparr>, dt_time = \<lparr>t_hour = h, t_min = mi, t_sec = s, t_nano = n\<rparr>\<rparr>"

lemma utc_ext_documented: "calendar_documented utc_ext"
  by (auto simp: calendar_documented_def utc_ext_def days_in_month_def split: if_splits)

section \<open>Properties\<close>

text \<open>
  C40. Timestamps read back as printed: for every valid instant with a non-negative year, parsing
  the text printed at any of the four precisions yields the instant cut to that precision.
\<close>

theorem timestamp_roundtrip:
  assumes "calendar_documented E" "valid_datetime E dt" "0 \<le> d_year (dt_date dt)"
  shows "parse_utc_timestamp E (format_utc_timestamp dt p) = Some (truncate_to p dt)"
  using assms by (rule parse_format_timestamp)

theorem timestamp_roundtrip_witness:
  "format_utc_timestamp (mk_datetime 2026 6 30 9 5 7 123456789) Microseconds = ''20260630-09:05:07.123456''
   \<and> parse_utc_timestamp utc_ext ''20260630-09:05:07.123456'' = Some (mk_datetime 2026 6 30 9 5 7 123456000)"
proof -
  let ?dt = "mk_datetime 2026 6 30 9 5 7 123456789"
  have f: "format_utc_timestamp ?dt Microseconds = ''20260630-09:05:07.123456''" by code_simp
  have v: "valid_datetime utc_ext ?dt" "0 \<le> d_year (dt_date ?dt)" by code_simp+
  have t: "truncate_to Microseconds ?dt = mk_datetime 2026 6 30 9 5 7 123456000" by code_simp
  show ?thesis using f timestamp_roundtrip [OF utc_ext_documented v, of Microseconds] t by simp
qed

text \<open>
  Leap seconds and malformed fractions: a second of 60 reads as the last nanosecond of second 59
  whatever its fraction, and a fraction whose length is not 3, 6 or 9 is refused.
\<close>

theorem time_only_edges:
  assumes "calendar_documented E" "h < 24" "mi < 60"
  shows "parse_utc_time_only E (show_pad 2 h @ '':'' @ show_pad 2 mi @ '':60'')
           = Some \<lparr>t_hour = h, t_min = mi, t_sec = 59, t_nano = 999999999\<rparr>
     \<and> (length f \<notin> {3, 6, 9} \<longrightarrow> parse_utc_time_only E (show_pad 2 h @ '':'' @ show_pad 2 mi @ '':07.'' @ f) = None)"
proof -
  have "parse_u8 ''60'' = Some 60" "parse_u8 ''07'' = Some 7" by code_simp+
  moreover have "ext_time_ok E h mi 59 999999999" using assms by (simp add: calendar_documented_def)
  moreover have "split_all (CHR '':'') (show_pad 2 h @ '':'' @ show_pad 2 mi @ '':60'') = [show_pad 2 h, show_pad 2 mi, ''60'']"
    by (simp add: split_all_sep)
  moreover have "split_frac (show_pad 2 h @ '':'' @ show_pad 2 mi @ '':60'') = (show_pad 2 h @ '':'' @ show_pad 2 mi @ '':60'', None)"
    by (simp add: split_frac_def split_once_none)
  moreover have "split_frac (show_pad 2 h @ '':'' @ show_pad 2 mi @ '':07.'' @ f) = (show_pad 2 h @ '':'' @ show_pad 2 mi @ '':07'', Some f)"
    using split_once_sep [of "CHR ''.''" "show_pad 2 h @ '':'' @ show_pad 2 mi @ '':07''" f] by (simp add: split_frac_def)
  ultimately show ?thesis
    using assms(2,3) by (auto simp: parse_utc_time_only_def parse_hms_def parse_u8_show_pad fold_leap_def from_hms_nano_def
        parse_frac_def Let_def split: Option.bind_splits list.splits)
qed

theorem time_only_edges_witness:
  "parse_utc_time_only utc_ext ''23:59:60'' = Some \<lparr>t_hour = 23, t_min = 59, t_sec = 59, t_nano = 999999999\<rparr>
   \<and> parse_utc_time_only utc_ext ''23:59:07.1'' = None"
proof -
  have "show_pad 2 23 = ''23''" "show_pad 2 59 = ''59''" by code_simp+
  then show ?thesis using time_only_edges [OF utc_ext_documented, of 23 59 "''1''"] by simp
qed

end
