(* ===== verification/Fix_Dict.thy ===== *)
theory Fix_Dict
  imports Fix_Time Fix_Maps Fix_Decode "HOL-Library.List_Lexorder" "HOL-Library.Char_ord"
begin

text \<open>
  The data dictionary (\<^verbatim>\<open>dict/model.rs\<close>, \<^verbatim>\<open>dict/fixt.rs\<close> and the two helpers of \<^verbatim>\<open>dict/parser.rs\<close> and
  \<^verbatim>\<open>dict/validate.rs\<close> it needs): field types and their format checks, field, message, component and
  group definitions, lookups, transitive group membership, merging of dictionaries, and the FIXT
  split into a transport and several application dictionaries. A \<^verbatim>\<open>BTreeMap\<close> is a sorted association
  list and a \<^verbatim>\<open>BTreeSet\<close> a sorted list without duplicates.
\<close>

section \<open>Field types\<close>

datatype field_type =
    TInt | TLength | TSeqNum | TNumInGroup | TFloat | TPrice | TQty | TAmt | TPercentage | TChar
  | TBoolean | TString | TData | TUtcTimestamp | TUtcTimeOnly | TUtcDateOnly | TMonthYear
  | TPriceOffset | TLocalMktDate | TDayOfMonth | TUtcDate | TTime | TCurrency | TExchange
  | TMultipleValueString | TMultipleStringValue | TMultipleCharValue | TCountry

definition is_upper :: "char \<Rightarrow> bool" where
  "is_upper c = in_range 65 90 c"

definition is_alnum :: "char \<Rightarrow> bool" where
  "is_alnum c = (is_digit c \<or> is_upper c \<or> in_range 97 122 c)"

definition is_alpha_len :: "nat \<Rightarrow> bytes \<Rightarrow> bool" where
  "is_alpha_len n s \<longleftrightarrow> length s = n \<and> list_all is_upper s"

definition is_valid_month_year :: "bytes \<Rightarrow> bool" where
  "is_valid_month_year s =
     (if length s \<noteq> 6 \<and> length s \<noteq> 8 then False
      else if \<not> list_all is_digit (take 6 s) then False
      else (let month = (case parse_unsigned u32_size (take 2 (drop 4 s)) of None \<Rightarrow> 0 | Some m \<Rightarrow> m) in
        if \<not> (1 \<le> month \<and> month \<le> 12) then False
        else if length s = 6 then True
        else (let rest = take 2 (drop 6 s) in
          case strip_pfx ''w'' rest of
            Some week \<Rightarrow> week \<in> {''1'', ''2'', ''3'', ''4'', ''5''}
          | None \<Rightarrow> list_all is_digit rest
              \<and> (let d = (case parse_i32 rest of None \<Rightarrow> 0 | Some d \<Rightarrow> d) in 1 \<le> d \<and> d \<le> 31))))"

text \<open>\<^verbatim>\<open>result.is_ok_and(p)\<close>.\<close>

definition is_ok_and :: "('a \<Rightarrow> bool) \<Rightarrow> 'e + 'a \<Rightarrow> bool" where
  "is_ok_and P r = (case r of Inl _ \<Rightarrow> False | Inr x \<Rightarrow> P x)"

definition value_ok :: "ext \<Rightarrow> field_type \<Rightarrow> field \<Rightarrow> bool \<Rightarrow> bool" where
  "value_ok E ft f legacy_char_lenient =
     (case ft of
        TInt \<Rightarrow> is_ok (as_int f)
      | TLength \<Rightarrow> is_ok_and (\<lambda>v. 0 \<le> v) (as_int f)
      | TSeqNum \<Rightarrow> is_ok_and (\<lambda>v. 0 \<le> v) (as_int f)
      | TNumInGroup \<Rightarrow> is_ok_and (\<lambda>v. 0 \<le> v) (as_int f)
      | TDayOfMonth \<Rightarrow> is_ok_and (\<lambda>v. 1 \<le> v \<and> v \<le> 31) (as_int f)
      | TFloat \<Rightarrow> as_decimal_ok E f
      | TPrice \<Rightarrow> as_decimal_ok E f
      | TQty \<Rightarrow> as_decimal_ok E f
      | TAmt \<Rightarrow> as_decimal_ok E f
      | TPercentage \<Rightarrow> as_decimal_ok E f
      | TPriceOffset \<Rightarrow> as_decimal_ok E f
      | TChar \<Rightarrow> if legacy_char_lenient then is_ok (as_str f) else is_ok (as_char f)
      | TMultipleCharValue \<Rightarrow>
          is_ok_and (\<lambda>s. list_all (\<lambda>tk. char_count tk = 1) (split_all (CHR '' '') s)) (as_str f)
      | TBoolean \<Rightarrow> is_ok (as_bool f)
      | TUtcTimestamp \<Rightarrow> is_ok (as_utc_timestamp E f)
      | TTime \<Rightarrow> is_ok (as_utc_timestamp E f)
      | TUtcTimeOnly \<Rightarrow> is_ok (as_utc_time_only E f)
      | TUtcDate \<Rightarrow> is_ok (as_utc_date_only E f)
      | TCurrency \<Rightarrow> is_ok_and (is_alpha_len 3) (as_str f)
      | TCountry \<Rightarrow> is_ok_and (is_alpha_len 2) (as_str f)
      | TLocalMktDate \<Rightarrow> is_ok (as_utc_date_only E f)
      | TMonthYear \<Rightarrow> is_ok_and is_valid_month_year (as_str f)
      | TExchange \<Rightarrow>
          is_ok_and (\<lambda>s. 1 \<le> length s \<and> length s \<le> 4 \<and> list_all is_alnum s) (as_str f)
      | _ \<Rightarrow> True)"

section \<open>Definitions of the dictionary\<close>

record field_def =
  fd_tag :: tag
  fd_name :: bytes
  fd_type :: field_type
  fd_values :: "bytes list"
  fd_open_enum :: bool
  fd_value_labels :: "(bytes, bytes) btree"

definition field_allows :: "field_def \<Rightarrow> bytes \<Rightarrow> bool" where
  "field_allows d v =
     (if fd_values d = [] \<or> fd_open_enum d then True
      else if fd_type d \<in> {TMultipleValueString, TMultipleStringValue, TMultipleCharValue}
        then list_all (\<lambda>tk. tk \<in> set (fd_values d)) (split_all (CHR '' '') v)
      else v \<in> set (fd_values d))"

definition field_label :: "field_def \<Rightarrow> bytes \<Rightarrow> bytes option" where
  "field_label d v = bt_get (fd_value_labels d) v"

record message_def =
  md_msg_type :: bytes
  md_name :: bytes
  md_required :: "tag list"
  md_optional :: "tag list"
  md_member_tags :: "tag list"
  md_field_order :: "tag list option"

definition allows_tag :: "message_def \<Rightarrow> tag \<Rightarrow> bool" where
  "allows_tag d t \<longleftrightarrow> t \<in> set (md_required d) \<or> t \<in> set (md_optional d)"

definition contains_member :: "message_def \<Rightarrow> tag \<Rightarrow> bool" where
  "contains_member d t \<longleftrightarrow> allows_tag d t \<or> t \<in> set (md_member_tags d)"

record component_def =
  cd_name :: bytes
  cd_members :: "tag list"

record version_meta =
  vm_major :: nat
  vm_minor :: nat
  vm_service_pack :: "nat option"
  vm_extension_pack :: "nat option"

text \<open>A group definition owns a child dictionary, so the two types are mutually recursive.\<close>

datatype data_dictionary =
  DataDictionary
    (dd_version: bytes)
    (dd_fields: "(tag \<times> field_def) list")
    (dd_field_by_name: "(bytes \<times> tag) list")
    (dd_messages: "(bytes \<times> message_def) list")
    (dd_header: "tag list")
    (dd_trailer: "tag list")
    (dd_groups: "(tag \<times> group_def) list")
    (dd_components: "(bytes \<times> component_def) list")
    (dd_hash: nat)
    (dd_version_meta: "version_meta option")
and group_def =
  GroupDef
    (gd_count_tag: tag)
    (gd_delimiter: tag)
    (gd_members: "tag list")
    (gd_required: "tag list")
    (gd_child: "data_dictionary option")

definition dict_field :: "data_dictionary \<Rightarrow> tag \<Rightarrow> field_def option" where
  "dict_field d t = bt_get (dd_fields d) t"

definition dict_message :: "data_dictionary \<Rightarrow> bytes \<Rightarrow> message_def option" where
  "dict_message d mt = bt_get (dd_messages d) mt"

definition dict_group :: "data_dictionary \<Rightarrow> tag \<Rightarrow> group_def option" where
  "dict_group d t = bt_get (dd_groups d) t"

definition is_group_count :: "data_dictionary \<Rightarrow> tag \<Rightarrow> bool" where
  "is_group_count d t \<longleftrightarrow> dict_group d t \<noteq> None"

text \<open>\<^verbatim>\<open>impl GroupSpec for DataDictionary\<close>.\<close>

definition group_of :: "data_dictionary \<Rightarrow> group_spec" where
  "group_of d t = map_option (\<lambda>g. (gd_delimiter g, gd_members g)) (dict_group d t)"

definition header_required_tags :: "tag list" where
  "header_required_tags = [BEGIN_STRING, BODY_LENGTH, MSG_TYPE]"

definition trailer_required_tags :: "tag list" where
  "trailer_required_tags = [CHECK_SUM]"

text \<open>
  \<^verbatim>\<open>group_contains_member_transitively\<close> recurses without a visited set, so on a cyclic group table
  the Rust function does not return. \<open>any_group_contains\<close> is the \<^verbatim>\<open>any\<close> loop over a list of count
  tags with the function inlined; \<open>None\<close> stands for not returning.
\<close>

partial_function (option) any_group_contains ::
  "data_dictionary \<Rightarrow> tag list \<Rightarrow> tag \<Rightarrow> bool option" where
  [code]: "any_group_contains d cts t =
     (case cts of
        [] \<Rightarrow> Some False
      | c # cs \<Rightarrow>
          (case dict_group d c of
             None \<Rightarrow> any_group_contains d cs t
           | Some g \<Rightarrow>
               if t \<in> set (gd_members g) then Some True
               else Option.bind (any_group_contains d (gd_members g) t)
                 (\<lambda>b. if b then Some True else any_group_contains d cs t)))"

definition dict_is_header :: "data_dictionary \<Rightarrow> tag \<Rightarrow> bool option" where
  "dict_is_header d t =
     (if t \<in> set (dd_header d) then Some True else any_group_contains d (dd_header d) t)"

definition dict_is_trailer :: "data_dictionary \<Rightarrow> tag \<Rightarrow> bool" where
  "dict_is_trailer d t \<longleftrightarrow> t \<in> set (dd_trailer d)"

section \<open>Merging dictionaries\<close>

text \<open>
  \<^verbatim>\<open>collect_group_members\<close> (\<^verbatim>\<open>parser.rs\<close>): \<open>collect_tags\<close> is its loop over a member list; a member
  that is new and a count tag is expanded before the loop goes on. \<open>out\<close> is the accumulated
  \<^verbatim>\<open>BTreeSet\<close>, whose \<^verbatim>\<open>insert\<close> answers whether the element was new.
\<close>

function collect_tags :: "(tag, group_def) btree \<Rightarrow> tag list \<Rightarrow> tag list \<Rightarrow> tag list" where
  "collect_tags groups [] out = out"
| "collect_tags groups (m # ms) out =
     (if m \<in> set out then collect_tags groups ms out
      else (case bt_get groups m of
              None \<Rightarrow> collect_tags groups ms (insort m out)
            | Some g \<Rightarrow> collect_tags groups ms (collect_tags groups (gd_members g) (insort m out))))"
  by pat_completeness auto

lemma collect_tags_grows_dom:
  "collect_tags_dom (groups, ms, out) \<Longrightarrow> set out \<subseteq> set (collect_tags groups ms out)"
proof (induction groups ms out rule: collect_tags.pinduct)
  case (2 groups m ms out)
  then show ?case
    by (fastforce simp: collect_tags.psimps set_insort_key split: option.splits)
qed (simp add: collect_tags.psimps)

definition group_keys :: "(tag, group_def) btree \<Rightarrow> tag set" where
  "group_keys groups = fst ` set groups"

lemma keys_left_other:
  assumes "bt_get g m = None"
  shows "group_keys g - insert m (set out) = group_keys g - set out"
  using assms by (force simp: group_keys_def map_of_eq_None_iff)

lemma keys_left_insert:
  assumes "bt_get g m = Some d" "m \<notin> set out" "insert m (set out) \<subseteq> b"
  shows "card (group_keys g - b) < card (group_keys g - set out)"
proof (rule psubset_card_mono)
  have "m \<in> group_keys g" using assms(1) unfolding group_keys_def by (force dest: map_of_SomeD)
  then show "group_keys g - b \<subset> group_keys g - set out" using assms(2,3) by blast
qed (simp add: group_keys_def)

termination collect_tags
proof (relation "measures [\<lambda>(g, ms, out). card (group_keys g - set out), \<lambda>(g, ms, out). length ms]", goal_cases)
  case (5 groups m ms out g)
  then have "insert m (set out) \<subseteq> set (collect_tags groups (gd_members g) (insort m out))"
    using collect_tags_grows_dom [of groups "gd_members g" "insort m out"] by (simp add: set_insort_key)
  then show ?case using keys_left_insert [OF 5(2) 5(1)] by simp
qed (auto simp: set_insort_key keys_left_other intro: keys_left_insert)

definition collect_group_members :: "(tag, group_def) btree \<Rightarrow> tag \<Rightarrow> tag list \<Rightarrow> tag list" where
  "collect_group_members groups count_tag out =
     (case bt_get groups count_tag of None \<Rightarrow> out | Some g \<Rightarrow> collect_tags groups (gd_members g) out)"

text \<open>The member tags a message gets, when its definition is parsed and again after a merge.\<close>

definition expand_member_tags :: "(tag, group_def) btree \<Rightarrow> message_def \<Rightarrow> message_def" where
  "expand_member_tags groups md =
     md\<lparr>md_member_tags := fold (collect_group_members groups) (md_required md @ md_optional md) []\<rparr>"

record merge_conflict =
  mc_kind :: string
  mc_key :: bytes

fun first_error :: "('a \<Rightarrow> 'e option) \<Rightarrow> 'a list \<Rightarrow> 'e option" where
  "first_error f [] = None"
| "first_error f (x # xs) = (case f x of Some e \<Rightarrow> Some e | None \<Rightarrow> first_error f xs)"

definition field_conflict :: "data_dictionary \<Rightarrow> tag \<times> field_def \<Rightarrow> merge_conflict option" where
  "field_conflict d = (\<lambda>(t, def).
     if (case bt_get (dd_fields d) t of Some existing \<Rightarrow> existing \<noteq> def | None \<Rightarrow> False)
       then Some \<lparr>mc_kind = ''field'', mc_key = show_nat t\<rparr>
     else if (case bt_get (dd_field_by_name d) (fd_name def) of Some et \<Rightarrow> et \<noteq> t | None \<Rightarrow> False)
       then Some \<lparr>mc_kind = ''field name'', mc_key = fd_name def\<rparr>
     else None)"

definition entry_conflict :: "string \<Rightarrow> ('k \<Rightarrow> bytes) \<Rightarrow> ('k, 'v) btree \<Rightarrow> 'k \<times> 'v \<Rightarrow> merge_conflict option" where
  "entry_conflict kind show_key m = (\<lambda>(k, def).
     if (case bt_get m k of Some existing \<Rightarrow> existing \<noteq> def | None \<Rightarrow> False)
     then Some \<lparr>mc_kind = kind, mc_key = show_key k\<rparr> else None)"

definition extend_conflict :: "data_dictionary \<Rightarrow> data_dictionary \<Rightarrow> merge_conflict option" where
  "extend_conflict d other =
     (case first_error (field_conflict d) (dd_fields other) of Some e \<Rightarrow> Some e | None \<Rightarrow>
     (case first_error (entry_conflict ''message'' id (dd_messages d)) (dd_messages other) of Some e \<Rightarrow> Some e | None \<Rightarrow>
     (case first_error (entry_conflict ''group'' show_nat (dd_groups d)) (dd_groups other) of Some e \<Rightarrow> Some e | None \<Rightarrow>
      first_error (entry_conflict ''component'' id (dd_components d)) (dd_components other))))"

definition merge_entries :: "('k::linorder, 'v) btree \<Rightarrow> ('k, 'v) btree \<Rightarrow> ('k, 'v) btree" where
  "merge_entries m other = fold (\<lambda>(k, v). bt_or_insert k v) other m"

definition set_extend :: "tag list \<Rightarrow> tag list \<Rightarrow> tag list" where
  "set_extend s xs = fold (\<lambda>x s. if x \<in> set s then s else insort x s) xs s"

definition extend_dict :: "data_dictionary \<Rightarrow> data_dictionary \<Rightarrow> merge_conflict + data_dictionary" where
  "extend_dict d other =
     (case extend_conflict d other of
        Some e \<Rightarrow> Inl e
      | None \<Rightarrow>
          (let groups = merge_entries (dd_groups d) (dd_groups other);
               messages = merge_entries (dd_messages d) (dd_messages other)
           in Inr (DataDictionary
                (dd_version d)
                (merge_entries (dd_fields d) (dd_fields other))
                (fold (\<lambda>(t, def). bt_or_insert (fd_name def) t) (dd_fields other) (dd_field_by_name d))
                (map (\<lambda>(k, md). (k, expand_member_tags groups md)) messages)
                (set_extend (dd_header d) (dd_header other))
                (set_extend (dd_trailer d) (dd_trailer other))
                groups
                (merge_entries (dd_components d) (dd_components other))
                (dd_hash d)
                (dd_version_meta d))))"

section \<open>FIXT: transport and application dictionaries\<close>

record fixt_dictionaries =
  fx_transport :: data_dictionary
  fx_applications :: "(bytes, data_dictionary) btree"
  fx_default_appl_ver_id :: "bytes option"

definition fixt_new :: "data_dictionary \<Rightarrow> fixt_dictionaries" where
  "fixt_new t = \<lparr>fx_transport = t, fx_applications = [], fx_default_appl_ver_id = None\<rparr>"

definition with_application :: "bytes \<Rightarrow> data_dictionary \<Rightarrow> fixt_dictionaries \<Rightarrow> fixt_dictionaries" where
  "with_application v d fx = fx\<lparr>fx_applications := bt_insert v d (fx_applications fx)\<rparr>"

definition with_default_appl_ver_id :: "bytes \<Rightarrow> fixt_dictionaries \<Rightarrow> fixt_dictionaries" where
  "with_default_appl_ver_id v fx = fx\<lparr>fx_default_appl_ver_id := Some v\<rparr>"

definition application_for :: "fixt_dictionaries \<Rightarrow> bytes option \<Rightarrow> data_dictionary option" where
  "application_for fx v =
     (case (case v of Some i \<Rightarrow> if i \<noteq> [] then Some i else fx_default_appl_ver_id fx
            | None \<Rightarrow> fx_default_appl_ver_id fx) of
        None \<Rightarrow> None
      | Some key \<Rightarrow> bt_get (fx_applications fx) key)"

section \<open>Rejections and options\<close>

datatype reject_reason =
    InvalidTagNumber | RequiredTagMissing | TagNotDefinedForMessageType | UndefinedTag
  | TagSpecifiedWithoutValue | ValueIsIncorrect | IncorrectDataFormat | InvalidMsgType
  | TagAppearsMoreThanOnce | TagOutOfRequiredOrder | RepeatingGroupFieldsOutOfOrder
  | IncorrectNumInGroupCount

fun reject_code :: "reject_reason \<Rightarrow> nat" where
  "reject_code InvalidTagNumber = 0"
| "reject_code RequiredTagMissing = 1"
| "reject_code TagNotDefinedForMessageType = 2"
| "reject_code UndefinedTag = 3"
| "reject_code TagSpecifiedWithoutValue = 4"
| "reject_code ValueIsIncorrect = 5"
| "reject_code IncorrectDataFormat = 6"
| "reject_code InvalidMsgType = 11"
| "reject_code TagAppearsMoreThanOnce = 13"
| "reject_code TagOutOfRequiredOrder = 14"
| "reject_code RepeatingGroupFieldsOutOfOrder = 15"
| "reject_code IncorrectNumInGroupCount = 16"

record validation_error =
  ve_reason :: reject_reason
  ve_ref_tag :: "tag option"
  ve_business :: bool
  ve_text :: string

definition session_error :: "reject_reason \<Rightarrow> tag option \<Rightarrow> string \<Rightarrow> validation_error" where
  "session_error r t txt = \<lparr>ve_reason = r, ve_ref_tag = t, ve_business = False, ve_text = txt\<rparr>"

definition business_error :: "reject_reason \<Rightarrow> tag option \<Rightarrow> string \<Rightarrow> validation_error" where
  "business_error r t txt = \<lparr>ve_reason = r, ve_ref_tag = t, ve_business = True, ve_text = txt\<rparr>"

record validation_options =
  vo_validate_fields_have_values :: bool
  vo_validate_user_defined_fields :: bool
  vo_allow_unknown_msg_fields :: bool
  vo_check_required_fields :: bool
  vo_check_field_types :: bool
  vo_check_groups :: bool
  vo_first_field_in_group_is_delimiter :: bool
  vo_validate_unordered_group_fields :: bool
  vo_check_repeated_tags :: bool
  vo_validate_fields_out_of_order :: bool
  vo_validate_checksum :: bool
  vo_validate_incoming_message :: bool
  vo_allow_pos_dup :: bool
  vo_requires_orig_sending_time :: bool
  vo_check_required_envelope_fields :: bool

definition default_options :: validation_options where
  "default_options =
     \<lparr>vo_validate_fields_have_values = True, vo_validate_user_defined_fields = False,
      vo_allow_unknown_msg_fields = False, vo_check_required_fields = True,
      vo_check_field_types = True, vo_check_groups = True,
      vo_first_field_in_group_is_delimiter = True, vo_validate_unordered_group_fields = True,
      vo_check_repeated_tags = True, vo_validate_fields_out_of_order = False,
      vo_validate_checksum = True, vo_validate_incoming_message = True, vo_allow_pos_dup = True,
      vo_requires_orig_sending_time = False, vo_check_required_envelope_fields = False\<rparr>"

section \<open>Version strings\<close>

text \<open>\<^verbatim>\<open>parse_version_suffix\<close>: outer \<open>None\<close> is a malformed suffix; otherwise the pack and the rest.\<close>

definition parse_version_suffix :: "bytes \<Rightarrow> bytes \<Rightarrow> (nat option \<times> bytes) option" where
  "parse_version_suffix sfx marker =
     (case strip_pfx marker sfx of
        None \<Rightarrow> Some (None, sfx)
      | Some rest \<Rightarrow>
          (let digits = length (takeWhile is_digit rest) in
           if digits = 0 then None
           else map_option (\<lambda>v. (Some v, drop digits rest)) (parse_u8 (take digits rest))))"

definition parse_fix_begin_string :: "bytes \<Rightarrow> (nat \<times> nat \<times> nat option \<times> nat option) option" where
  "parse_fix_begin_string bs =
     do { rest \<leftarrow> strip_pfx ''FIX.'' bs;
          (maj, minor_token) \<leftarrow> split_once (CHR ''.'') rest;
          major \<leftarrow> parse_u8 maj;
          let minor_len = length (takeWhile is_digit minor_token);
          minor \<leftarrow> parse_u8 (take minor_len minor_token);
          (sp, sfx1) \<leftarrow> parse_version_suffix (drop minor_len minor_token) ''SP'';
          (ep, sfx2) \<leftarrow> parse_version_suffix sfx1 ''EP'';
          if sfx2 \<noteq> [] then None else Some (major, minor, sp, ep) }"

definition is_legacy_char_lenient :: "data_dictionary \<Rightarrow> bool" where
  "is_legacy_char_lenient d =
     (case parse_fix_begin_string (dd_version d) of
        None \<Rightarrow> False | Some (major, minor, _, _) \<Rightarrow> major = 4 \<and> minor \<le> 1)"

end
