(* ===== verification/Fix_Dict_Props.thy ===== *)
theory Fix_Dict_Props
  imports Fix_Dict
begin

text \<open>
  Properties of the dictionary: what transitive header membership computes and when the search
  returns, and what merging an extension into a dictionary does to every table.
\<close>

section \<open>Transitive group membership\<close>

inductive member_of_group :: "data_dictionary \<Rightarrow> tag \<Rightarrow> tag \<Rightarrow> bool" for d where
  direct: "dict_group d c = Some g \<Longrightarrow> t \<in> set (gd_members g) \<Longrightarrow> member_of_group d c t"
| nested: "dict_group d c = Some g \<Longrightarrow> m \<in> set (gd_members g) \<Longrightarrow> member_of_group d m t \<Longrightarrow> member_of_group d c t"

inductive_simps member_of_group_simps: "member_of_group d c t"

lemma member_of_group_None: "dict_group d c = None \<Longrightarrow> \<not> member_of_group d c t"
  by (simp add: member_of_group_simps [of d c t])

lemma member_of_group_Some:
  "dict_group d c = Some g \<Longrightarrow>
   member_of_group d c t \<longleftrightarrow> t \<in> set (gd_members g) \<or> (\<exists>m \<in> set (gd_members g). member_of_group d m t)"
  by (subst member_of_group_simps) auto

lemma any_group_contains_sound:
  "any_group_contains d cts t = Some b \<Longrightarrow> b \<longleftrightarrow> (\<exists>c \<in> set cts. member_of_group d c t)"
proof (rule any_group_contains.raw_induct [where P = "\<lambda>d cts t b. b \<longleftrightarrow> (\<exists>c \<in> set cts. member_of_group d c t)"])
  fix f d cts t b
  assume IH: "\<And>d cts t b. f d cts t = Some b \<Longrightarrow> b \<longleftrightarrow> (\<exists>c \<in> set cts. member_of_group d c t)"
    and eq: "(case cts of [] \<Rightarrow> Some False | c # cs \<Rightarrow>
        (case dict_group d c of None \<Rightarrow> f d cs t
         | Some g \<Rightarrow> if t \<in> set (gd_members g) then Some True
             else f d (gd_members g) t \<bind> (\<lambda>b. if b then Some True else f d cs t))) = Some b"
  show "b \<longleftrightarrow> (\<exists>c \<in> set cts. member_of_group d c t)"
  proof (cases cts)
    case (Cons c cs)
    show ?thesis
    proof (cases "dict_group d c")
      case None
      then show ?thesis using IH [of d cs t b] eq Cons by (simp add: member_of_group_None)
    next
      case (Some g)
      show ?thesis
      proof (cases "t \<in> set (gd_members g)")
        case False
        then obtain b1 where b1: "f d (gd_members g) t = Some b1" "(if b1 then Some True else f d cs t) = Some b"
          using eq Cons Some by (auto split: Option.bind_splits)
        have "member_of_group d c t \<longleftrightarrow> b1" using IH [OF b1(1)] False member_of_group_Some [OF Some] by blast
        then show ?thesis using b1(2) IH [of d cs t b] Cons by (auto split: if_splits)
      qed (use eq Cons Some member_of_group_Some [OF Some] in auto)
    qed
  qed (use eq in simp)
qed

text \<open>A rank that decreases from a group to the groups among its members rules out cycles.\<close>

definition ranked :: "data_dictionary \<Rightarrow> (tag \<Rightarrow> nat) \<Rightarrow> bool" where
  "ranked d rank \<longleftrightarrow>
     (\<forall>(c, g) \<in> set (dd_groups d). \<forall>m \<in> set (gd_members g). m \<in> fst ` set (dd_groups d) \<longrightarrow> rank m < rank c)"

lemma any_group_contains_returns_below:
  assumes "ranked d rank"
  shows "\<forall>c \<in> set cts. dict_group d c \<noteq> None \<longrightarrow> rank c < n \<Longrightarrow> \<exists>b. any_group_contains d cts t = Some b"
proof (induction n arbitrary: cts rule: less_induct)
  case (less n)
  note outer = less.IH
  from less.prems show ?case
  proof (induction cts)
    case Nil
    have "any_group_contains d [] t = Some False" by (subst any_group_contains.simps) simp
    then show ?case by (rule exI)
  next
    case (Cons c cs)
    then obtain b where b: "any_group_contains d cs t = Some b" by auto
    show ?case
    proof (cases "dict_group d c")
      case (Some g)
      then have cg: "(c, g) \<in> set (dd_groups d)" by (simp add: dict_group_def map_of_SomeD)
      have "\<forall>m \<in> set (gd_members g). dict_group d m \<noteq> None \<longrightarrow> rank m < rank c"
        using bspec [OF assms [unfolded ranked_def] cg] by (simp add: dict_group_def map_of_eq_None_iff)
      moreover have "rank c < n" using Cons.prems Some by simp
      ultimately obtain b2 where "any_group_contains d (gd_members g) t = Some b2" using outer by blast
      then show ?thesis using b Some by (subst any_group_contains.simps) auto
    qed (use b in \<open>subst any_group_contains.simps, simp\<close>)
  qed
qed

lemma any_group_contains_returns:
  assumes "ranked d rank"
  shows "\<exists>b. any_group_contains d cts t = Some b"
proof -
  have "\<forall>c \<in> set cts. rank c < Suc (Max (rank ` set cts))" by (simp add: less_Suc_eq_le)
  then show ?thesis using any_group_contains_returns_below [OF assms] by blast
qed

text \<open>On a cycle of groups the search never answers \<open>False\<close>.\<close>

definition cyclic_groups :: "data_dictionary \<Rightarrow> tag set \<Rightarrow> bool" where
  "cyclic_groups d C \<longleftrightarrow> (\<forall>c \<in> C. \<exists>g. dict_group d c = Some g \<and> set (gd_members g) \<inter> C \<noteq> {})"

lemma any_group_contains_cycle:
  assumes C: "cyclic_groups d C" and res: "any_group_contains d cts t = Some False"
  shows "set cts \<inter> C = {}"
proof -
  have "cyclic_groups d C \<longrightarrow> \<not> False \<longrightarrow> set cts \<inter> C = {}"
  proof (rule any_group_contains.raw_induct [where P = "\<lambda>d cts t b. cyclic_groups d C \<longrightarrow> \<not> b \<longrightarrow> set cts \<inter> C = {}"])
    fix f d cts t b
    assume IH: "\<And>d cts t b. f d cts t = Some b \<Longrightarrow> cyclic_groups d C \<longrightarrow> \<not> b \<longrightarrow> set cts \<inter> C = {}"
      and eq: "(case cts of [] \<Rightarrow> Some False | c # cs \<Rightarrow>
          (case dict_group d c of None \<Rightarrow> f d cs t
           | Some g \<Rightarrow> if t \<in> set (gd_members g) then Some True
               else f d (gd_members g) t \<bind> (\<lambda>b. if b then Some True else f d cs t))) = Some b"
    show "cyclic_groups d C \<longrightarrow> \<not> b \<longrightarrow> set cts \<inter> C = {}"
    proof (intro impI)
      assume cyc: "cyclic_groups d C" and nb: "\<not> b"
      show "set cts \<inter> C = {}"
      proof (cases cts)
        case (Cons c cs)
        have "set cs \<inter> C = {}" "dict_group d c = Some g \<Longrightarrow> set (gd_members g) \<inter> C = {}" for g
          using eq Cons cyc nb IH [of d cs t b] IH [of d "gd_members g" t False]
          by (auto split: if_splits Option.bind_splits option.splits)
        then show ?thesis using cyc Cons by (force simp: cyclic_groups_def)
      qed simp
    qed
  qed (rule res)
  then show ?thesis using C by blast
qed

text \<open>
  Header membership on a dictionary whose groups are not cyclic: the search returns, and it
  answers whether the tag is a header tag or a member, at any depth, of a group in the header.
\<close>

theorem dict_is_header_exact:
  assumes "ranked d rank"
  shows "dict_is_header d t = Some (t \<in> set (dd_header d) \<or> (\<exists>c \<in> set (dd_header d). member_of_group d c t))"
proof -
  obtain b where "any_group_contains d (dd_header d) t = Some b"
    using any_group_contains_returns [OF assms] by blast
  then show ?thesis using any_group_contains_sound [of d "dd_header d" t b] by (auto simp: dict_is_header_def)
qed

text \<open>A dictionary with a header group (NoHops) and a nested group, and one with a cycle.\<close>

definition hops_dict :: "(tag \<times> group_def) list \<Rightarrow> data_dictionary" where
  "hops_dict gs = DataDictionary ''FIX.4.4'' [] [] [] [8, 9, 35, 627] [10] gs [] 0 None"

definition hops_groups :: "(tag \<times> group_def) list" where
  "hops_groups = [(627, GroupDef 627 628 [628, 629, 640] [] None), (640, GroupDef 640 641 [641, 642] [] None)]"

definition looping_groups :: "(tag \<times> group_def) list" where
  "looping_groups = [(627, GroupDef 627 628 [628, 629, 640] [] None), (640, GroupDef 640 641 [641, 627] [] None)]"

theorem dict_is_header_exact_witness:
  "dict_is_header (hops_dict hops_groups) 642 = Some True \<and> dict_is_header (hops_dict hops_groups) 55 = Some False"
proof -
  have r: "ranked (hops_dict hops_groups) (\<lambda>t. if t = 627 then 1 else 0)" by code_simp
  have m640: "\<not> member_of_group (hops_dict hops_groups) 640 55" "member_of_group (hops_dict hops_groups) 640 642"
    by (subst member_of_group_Some [of _ _ "GroupDef 640 641 [641, 642] [] None"];
        simp add: hops_dict_def hops_groups_def dict_group_def member_of_group_None)+
  then have "\<not> member_of_group (hops_dict hops_groups) 627 55" "member_of_group (hops_dict hops_groups) 627 642"
    by (subst member_of_group_Some [of _ _ "GroupDef 627 628 [628, 629, 640] [] None"];
        simp add: hops_dict_def hops_groups_def dict_group_def member_of_group_None)+
  moreover have "dict_group (hops_dict hops_groups) c = None" if "c \<in> {8, 9, 35}" for c
    using that by (auto simp: hops_dict_def hops_groups_def dict_group_def)
  ultimately show ?thesis
    using dict_is_header_exact [OF r, of 642] dict_is_header_exact [OF r, of 55]
    by (auto simp: hops_dict_def member_of_group_None)
qed

text \<open>
  Header membership on a dictionary with a cycle of groups that the header reaches: for every tag
  that is neither a header tag nor a member of a group reachable from the header the search does not
  return (unbounded recursion in the code), so validating any message that carries such a tag as a
  known field does not terminate.
\<close>

theorem dict_is_header_cyclic:
  assumes "cyclic_groups d C" "set (dd_header d) \<inter> C \<noteq> {}"
    and "t \<notin> set (dd_header d)" "\<not> (\<exists>c \<in> set (dd_header d). member_of_group d c t)"
  shows "dict_is_header d t = None"
proof (cases "any_group_contains d (dd_header d) t")
  case (Some b)
  then have "b = False" using any_group_contains_sound assms(4) by blast
  then show ?thesis using any_group_contains_cycle [OF assms(1)] Some assms(2) by blast
qed (simp add: dict_is_header_def assms(3))

lemma looping_no_55: "member_of_group (hops_dict looping_groups) c t \<Longrightarrow> t \<noteq> 55"
  by (induction rule: member_of_group.induct)
     (auto simp: hops_dict_def looping_groups_def dict_group_def split: if_splits)

theorem dict_is_header_cyclic_witness: "dict_is_header (hops_dict looping_groups) 55 = None"
proof (rule dict_is_header_cyclic [of _ "{627, 640}"])
  show "cyclic_groups (hops_dict looping_groups) {627, 640}"
    by (auto simp: cyclic_groups_def hops_dict_def looping_groups_def dict_group_def)
  show "\<not> (\<exists>c \<in> set (dd_header (hops_dict looping_groups)). member_of_group (hops_dict looping_groups) c 55)"
    using looping_no_55 by blast
qed (simp_all add: hops_dict_def)

section \<open>Merging\<close>

lemma first_error_None: "first_error f xs = None \<longleftrightarrow> (\<forall>x \<in> set xs. f x = None)"
  by (induction xs) (auto split: option.splits)

lemma map_of_merge:
  "map_of (merge_entries m other) k = (case map_of m k of Some v \<Rightarrow> Some v | None \<Rightarrow> map_of other k)"
  unfolding merge_entries_def
  by (induction other arbitrary: m) (auto simp: bt_or_insert_def map_of_bt_insert split: option.splits)

lemma merge_sorted: "bt_sorted m \<Longrightarrow> bt_sorted (merge_entries m other)"
  unfolding merge_entries_def
  by (induction other arbitrary: m) (auto simp: bt_or_insert_def bt_sorted_insert split: option.splits)

lemma merge_absorb: "(\<And>k. k \<in> fst ` set other \<Longrightarrow> map_of m k \<noteq> None) \<Longrightarrow> merge_entries m other = m"
  unfolding merge_entries_def
proof (induction other)
  case (Cons x other)
  then obtain v where "map_of m (fst x) = Some v" by fastforce
  then show ?case using Cons by (auto simp: bt_or_insert_def split_def)
qed simp

lemma merge_twice [simp]: "merge_entries (merge_entries m other) other = merge_entries m other"
  by (rule merge_absorb) (auto simp: map_of_merge map_of_eq_None_iff image_iff split: option.splits
       intro: bexI [rotated] dest!: weak_map_of_SomeI)

lemma set_set_extend: "set (set_extend s xs) = set s \<union> set xs"
  unfolding set_extend_def by (induction xs arbitrary: s) (auto simp: set_insort_key)

lemma set_extend_absorb: "set xs \<subseteq> set s \<Longrightarrow> set_extend s xs = s"
  unfolding set_extend_def by (induction xs) auto

lemma name_fold_lookup:
  "map_of (fold (\<lambda>(t, def). bt_or_insert (fd_name def) t) fs m) n =
     (case map_of m n of Some t \<Rightarrow> Some t | None \<Rightarrow> map_of (map (\<lambda>(t, def). (fd_name def, t)) fs) n)"
  by (induction fs arbitrary: m) (auto simp: bt_or_insert_def map_of_bt_insert split: option.splits)

lemma expand_idem [simp]: "expand_member_tags g (expand_member_tags g md) = expand_member_tags g md"
  by (simp add: expand_member_tags_def)

lemma map_of_map_snd: "map_of (map (\<lambda>(k, v). (k, f v)) m) k = map_option f (map_of m k)"
  by (induction m) auto

lemma extend_InrD:
  assumes "extend_dict d other = Inr d'"
  shows "extend_conflict d other = None"
    and "dd_fields d' = merge_entries (dd_fields d) (dd_fields other)"
    and "dd_groups d' = merge_entries (dd_groups d) (dd_groups other)"
    and "dd_components d' = merge_entries (dd_components d) (dd_components other)"
    and "dd_messages d' = map (\<lambda>(k, md). (k, expand_member_tags (dd_groups d') md))
           (merge_entries (dd_messages d) (dd_messages other))"
    and "dd_field_by_name d' = fold (\<lambda>(t, def). bt_or_insert (fd_name def) t) (dd_fields other) (dd_field_by_name d)"
    and "dd_header d' = set_extend (dd_header d) (dd_header other)"
    and "dd_trailer d' = set_extend (dd_trailer d) (dd_trailer other)"
    and "dd_version d' = dd_version d" "dd_hash d' = dd_hash d" "dd_version_meta d' = dd_version_meta d"
proof -
  show n: "extend_conflict d other = None"
    using assms by (auto simp: extend_dict_def Let_def split: option.splits)
  note e = assms [unfolded extend_dict_def n Let_def option.case sum.inject, symmetric]
  show "dd_fields d' = merge_entries (dd_fields d) (dd_fields other)"
    "dd_groups d' = merge_entries (dd_groups d) (dd_groups other)"
    "dd_components d' = merge_entries (dd_components d) (dd_components other)"
    "dd_messages d' = map (\<lambda>(k, md). (k, expand_member_tags (dd_groups d') md))
       (merge_entries (dd_messages d) (dd_messages other))"
    "dd_field_by_name d' = fold (\<lambda>(t, def). bt_or_insert (fd_name def) t) (dd_fields other) (dd_field_by_name d)"
    "dd_header d' = set_extend (dd_header d) (dd_header other)"
    "dd_trailer d' = set_extend (dd_trailer d) (dd_trailer other)"
    "dd_version d' = dd_version d" "dd_hash d' = dd_hash d" "dd_version_meta d' = dd_version_meta d"
    unfolding e by simp_all
qed

lemma conflict_None:
  assumes "extend_conflict d other = None"
  shows "(t, def) \<in> set (dd_fields other) \<Longrightarrow> map_of (dd_fields d) t \<in> {None, Some def}"
    and "(t, def) \<in> set (dd_fields other) \<Longrightarrow> map_of (dd_field_by_name d) (fd_name def) \<in> {None, Some t}"
    and "(mt, md) \<in> set (dd_messages other) \<Longrightarrow> map_of (dd_messages d) mt \<in> {None, Some md}"
    and "(c, g) \<in> set (dd_groups other) \<Longrightarrow> map_of (dd_groups d) c \<in> {None, Some g}"
    and "(n, cd) \<in> set (dd_components other) \<Longrightarrow> map_of (dd_components d) n \<in> {None, Some cd}"
  using assms unfolding extend_conflict_def
  by (fastforce simp: first_error_None field_conflict_def entry_conflict_def split: option.splits if_splits)+



lemma name_fold_absorb:
  "(\<And>t def. (t, def) \<in> set fs \<Longrightarrow> map_of m (fd_name def) \<noteq> None) \<Longrightarrow>
   fold (\<lambda>(t, def). bt_or_insert (fd_name def) t) fs m = m"
proof (induction fs)
  case (Cons x fs)
  then obtain v where "map_of m (fd_name (snd x)) = Some v" by (cases x) force
  then show ?case using Cons by (auto simp: bt_or_insert_def split_def)
qed simp

lemma messages_absorb:
  assumes "dd_messages d' = map (\<lambda>(k, md). (k, expand_member_tags g md)) (merge_entries m other)"
  shows "map (\<lambda>(k, md). (k, expand_member_tags g md)) (merge_entries (dd_messages d') other) = dd_messages d'"
proof -
  have "merge_entries (dd_messages d') other = dd_messages d'"
    by (rule merge_absorb)
       (auto simp: assms map_of_map_snd map_of_merge split: option.splits dest: weak_map_of_SomeI)
  then show ?thesis by (auto simp: assms comp_def split_def)
qed

text \<open>
  Merging the same extension a second time changes nothing, whenever it is not refused: the
  tables, the name index, the expanded message members and the section sets are fixed points.
\<close>

theorem extend_twice:
  assumes "extend_dict d other = Inr d'" "extend_dict d' other = Inr d''"
  shows "d'' = d'"
proof -
  note A = extend_InrD [OF assms(1)] and B = extend_InrD [OF assms(2)]
  have n: "dd_field_by_name d'' = dd_field_by_name d'"
    unfolding B(6)
  proof (rule name_fold_absorb)
    fix t def assume "(t, def) \<in> set (dd_fields other)"
    then have "fd_name def \<in> fst ` set (map (\<lambda>(t, def). (fd_name def, t)) (dd_fields other))" by force
    then show "map_of (dd_field_by_name d') (fd_name def) \<noteq> None"
      unfolding A(6) name_fold_lookup by (simp only: map_of_eq_None_iff split: option.splits) blast
  qed
  have g: "dd_groups d'' = dd_groups d'" by (simp add: B(3) A(3))
  have m: "dd_messages d'' = dd_messages d'" unfolding B(5) g by (rule messages_absorb [OF A(5)])
  have h: "dd_header d'' = dd_header d'" "dd_trailer d'' = dd_trailer d'"
    unfolding B(7,8) by (rule set_extend_absorb, simp add: A set_set_extend)+
  show ?thesis
    by (rule data_dictionary.expand) (use n g m h in \<open>simp add: B(2,4,9-11) A(2,4)\<close>)
qed

text \<open>
  An extension that adds an order message using NoPartyIDs(453), whose group only the base defines:
  the parser leaves the group's members out of the extension's own member tags.
\<close>

definition party_base :: data_dictionary where
  "party_base = DataDictionary ''FIX.4.4'' [] [] [] [8, 9, 35] [10]
     [(453, GroupDef 453 448 [448, 447, 452] [] None)] [] 0 None"

definition order_ext :: data_dictionary where
  "order_ext = DataDictionary ''FIX.4.4'' [] []
     [(''D'', \<lparr>md_msg_type = ''D'', md_name = ''NewOrderSingle'', md_required = [11], md_optional = [453],
        md_member_tags = [], md_field_order = None\<rparr>)] [] [] [] [] 0 None"

definition party_ext :: data_dictionary where
  "party_ext = DataDictionary ''FIX.4.4'' [] []
     [(''D'', \<lparr>md_msg_type = ''D'', md_name = ''NewOrderSingle'', md_required = [11], md_optional = [453],
        md_member_tags = [447, 448, 452], md_field_order = None\<rparr>)] [] []
     [(453, GroupDef 453 448 [448, 447, 452] [] None)] [] 0 None"

definition merged :: "data_dictionary \<Rightarrow> data_dictionary \<Rightarrow> data_dictionary" where
  "merged d other = (case extend_dict d other of Inl _ \<Rightarrow> d | Inr d' \<Rightarrow> d')"

theorem extend_twice_witness:
  "is_ok (extend_dict party_base party_ext)
   \<and> extend_dict (merged party_base party_ext) party_ext = Inr (merged party_base party_ext)"
proof -
  have a: "is_ok (extend_dict party_base party_ext)"
    and b: "is_ok (extend_dict (merged party_base party_ext) party_ext)" by code_simp+
  have c: "extend_dict party_base party_ext = Inr (merged party_base party_ext)"
    using a by (auto simp: is_ok_def merged_def split: sum.splits)
  obtain d'' where d'': "extend_dict (merged party_base party_ext) party_ext = Inr d''"
    using b by (auto simp: is_ok_def split: sum.splits)
  show ?thesis using a d'' extend_twice [OF c d''] by simp
qed

text \<open>
  The second merge can be refused. Because the merge expands the members of the extension's
  messages against the united groups, the stored message differs from the extension's own copy, and
  merging the same extension again reports a conflicting redefinition of message D.
\<close>

theorem extend_again_refused:
  "is_ok (extend_dict party_base order_ext)
   \<and> extend_dict (merged party_base order_ext) order_ext = Inl \<lparr>mc_kind = ''message'', mc_key = ''D''\<rparr>"
  by code_simp

end
