(* ===== verification/Fix_Schedule.thy ===== *)
theory Fix_Schedule
  imports Fix_Time "HOL-Library.Product_Lexorder"
begin

text \<open>
  Session schedules (\<^verbatim>\<open>session/schedule.rs\<close>) and the boundary decisions taken from them
  (\<^verbatim>\<open>session/schedule_reset.rs\<close>). A weekday is the number of days since Sunday. Time-zone offsets,
  weekdays and local times come from the external functions.
\<close>

section \<open>Schedules\<close>

record schedule =
  sch_non_stop :: bool
  sch_start_time :: "tod option"
  sch_end_time :: "tod option"
  sch_weekdays :: "nat list option"
  sch_utc_offset_seconds :: int
  sch_named_time_zone :: "bytes option"
  sch_start_day :: "nat option"
  sch_end_day :: "nat option"
  sch_reset_seq_time :: "tod option"

definition default_schedule :: schedule where
  "default_schedule =
     \<lparr>sch_non_stop = False, sch_start_time = None, sch_end_time = None, sch_weekdays = None,
      sch_utc_offset_seconds = 0, sch_named_time_zone = None, sch_start_day = None, sch_end_day = None,
      sch_reset_seq_time = None\<rparr>"

definition non_stop :: schedule where
  "non_stop = default_schedule\<lparr>sch_non_stop := True\<rparr>"

definition daily :: "tod \<Rightarrow> tod \<Rightarrow> schedule" where
  "daily start stop = default_schedule\<lparr>sch_start_time := Some start, sch_end_time := Some stop\<rparr>"

definition weekly :: "nat \<Rightarrow> tod \<Rightarrow> nat \<Rightarrow> tod \<Rightarrow> schedule" where
  "weekly start_day start_time end_day end_time =
     default_schedule\<lparr>sch_start_time := Some start_time, sch_end_time := Some end_time,
       sch_start_day := Some start_day, sch_end_day := Some end_day\<rparr>"

definition with_weekdays :: "nat list \<Rightarrow> schedule \<Rightarrow> schedule" where
  "with_weekdays days s = s\<lparr>sch_weekdays := Some days\<rparr>"

definition with_reset_seq_time :: "tod \<Rightarrow> schedule \<Rightarrow> schedule" where
  "with_reset_seq_time t s = s\<lparr>sch_reset_seq_time := Some t\<rparr>"

definition effective_offset :: "ext \<Rightarrow> schedule \<Rightarrow> datetime \<Rightarrow> int" where
  "effective_offset E s now =
     (case sch_named_time_zone s of
        Some tz \<Rightarrow> ext_tz_offset E tz now
      | None \<Rightarrow> if ext_offset_ok E (sch_utc_offset_seconds s) then sch_utc_offset_seconds s else 0)"

text \<open>Times of day compare by hour, minute, second and nanosecond.\<close>

definition tod_key :: "tod \<Rightarrow> nat \<times> nat \<times> nat \<times> nat" where
  "tod_key t = (t_hour t, t_min t, t_sec t, t_nano t)"

definition in_window :: "tod \<Rightarrow> tod \<Rightarrow> tod \<Rightarrow> bool" where
  "in_window t start stop =
     (if tod_key start \<le> tod_key stop then tod_key start \<le> tod_key t \<and> tod_key t < tod_key stop
      else tod_key start \<le> tod_key t \<or> tod_key t < tod_key stop)"

definition minutes_since_week_start :: "nat \<Rightarrow> tod \<Rightarrow> int" where
  "minutes_since_week_start weekday t = int weekday * 24 * 60 + int (t_hour t) * 60 + int (t_min t)"

definition in_weekly_window :: "ext \<Rightarrow> datetime \<Rightarrow> nat \<Rightarrow> tod \<Rightarrow> nat \<Rightarrow> tod \<Rightarrow> bool" where
  "in_weekly_window E loc start_day start_time end_day end_time =
     (let now = minutes_since_week_start (ext_weekday E loc) (dt_time loc);
          start = minutes_since_week_start start_day start_time;
          stop = minutes_since_week_start end_day end_time
      in if start \<le> stop then start \<le> now \<and> now < stop else start \<le> now \<or> now < stop)"

definition is_in_session :: "ext \<Rightarrow> schedule \<Rightarrow> datetime \<Rightarrow> bool" where
  "is_in_session E s now =
     (if sch_non_stop s then True
      else (let loc = ext_to_offset E now (effective_offset E s now) in
        case (sch_start_day s, sch_end_day s) of
          (Some start_day, Some end_day) \<Rightarrow>
            (case (sch_start_time s, sch_end_time s) of
               (Some start_time, Some end_time) \<Rightarrow> in_weekly_window E loc start_day start_time end_day end_time
             | _ \<Rightarrow> True)
        | _ \<Rightarrow>
            if (case sch_weekdays s of Some days \<Rightarrow> ext_weekday E loc \<notin> set days | None \<Rightarrow> False) then False
            else (case (sch_start_time s, sch_end_time s) of
                    (Some start, Some stop) \<Rightarrow> in_window (dt_time loc) start stop
                  | _ \<Rightarrow> True)))"

section \<open>Boundary decisions\<close>

datatype schedule_action = SANone | SAEnter | SAExit

definition decide :: "ext \<Rightarrow> schedule \<Rightarrow> bool \<Rightarrow> datetime \<Rightarrow> schedule_action" where
  "decide E s was_in_session now =
     (if sch_non_stop s then SANone
      else (case (was_in_session, is_in_session E s now) of
              (False, True) \<Rightarrow> SAEnter
            | (True, False) \<Rightarrow> SAExit
            | _ \<Rightarrow> SANone))"

definition decide_recurring_reset :: "ext \<Rightarrow> schedule \<Rightarrow> date option \<Rightarrow> datetime \<Rightarrow> date option" where
  "decide_recurring_reset E s last_reset_date now =
     (case sch_reset_seq_time s of
        None \<Rightarrow> None
      | Some reset_time \<Rightarrow>
          (let loc = ext_to_offset E now (effective_offset E s now) in
           if tod_key reset_time \<le> tod_key (dt_time loc) \<and> last_reset_date \<noteq> Some (dt_date loc)
           then Some (dt_date loc) else None))"

section \<open>Polling\<close>

text \<open>
  A caller polls \<open>decide\<close> and stores the new membership, and polls \<open>decide_recurring_reset\<close> and
  stores the date whenever a reset fires.
\<close>

fun poll_boundary :: "ext \<Rightarrow> schedule \<Rightarrow> bool \<Rightarrow> datetime list \<Rightarrow> schedule_action list" where
  "poll_boundary E s was [] = []"
| "poll_boundary E s was (now # rest) = decide E s was now # poll_boundary E s (is_in_session E s now) rest"

fun poll_resets :: "ext \<Rightarrow> schedule \<Rightarrow> date option \<Rightarrow> datetime list \<Rightarrow> date list" where
  "poll_resets E s last_date [] = []"
| "poll_resets E s last_date (now # rest) =
     (case decide_recurring_reset E s last_date now of
        None \<Rightarrow> poll_resets E s last_date rest
      | Some d \<Rightarrow> d # poll_resets E s (Some d) rest)"

definition local_date :: "ext \<Rightarrow> schedule \<Rightarrow> datetime \<Rightarrow> date" where
  "local_date E s now = dt_date (ext_to_offset E now (effective_offset E s now))"

definition date_key :: "date \<Rightarrow> int \<times> nat \<times> nat" where
  "date_key d = (d_year d, d_month d, d_day d)"

lemma date_key_inject: "date_key a = date_key b \<longleftrightarrow> a = b"
  by (cases a; cases b) (auto simp: date_key_def)

lemma decide_reset_date: "decide_recurring_reset E s lst now = Some d \<Longrightarrow> d = local_date E s now \<and> lst \<noteq> Some d"
  by (auto simp: decide_recurring_reset_def local_date_def Let_def split: option.splits if_splits)

lemma poll_resets_increasing:
  "sorted (map (\<lambda>n. date_key (local_date E s n)) nows) \<Longrightarrow>
   (\<forall>d. lst = Some d \<longrightarrow> (\<forall>n \<in> set nows. date_key d \<le> date_key (local_date E s n))) \<Longrightarrow>
   sorted_wrt (<) (map date_key (poll_resets E s lst nows))
   \<and> (\<forall>d. lst = Some d \<longrightarrow> (\<forall>x \<in> set (poll_resets E s lst nows). date_key d < date_key x))
   \<and> set (poll_resets E s lst nows) \<subseteq> local_date E s ` set nows"
proof (induction nows arbitrary: lst)
  case (Cons now nows)
  show ?case
  proof (cases "decide_recurring_reset E s lst now")
    case None
    then show ?thesis using Cons.IH [of lst] Cons.prems by auto
  next
    case (Some d)
    then have d: "d = local_date E s now" "lst \<noteq> Some d" by (auto dest: decide_reset_date)
    have IH: "sorted_wrt (<) (map date_key (poll_resets E s (Some d) nows))
        \<and> (\<forall>x \<in> set (poll_resets E s (Some d) nows). date_key d < date_key x)
        \<and> set (poll_resets E s (Some d) nows) \<subseteq> local_date E s ` set nows"
      using Cons.IH [of "Some d"] Cons.prems(1) d(1) by auto
    have lt: "date_key d' < date_key d" if "lst = Some d'" for d'
    proof -
      have "date_key d' \<le> date_key d" using Cons.prems(2) that d(1) by simp
      moreover have "date_key d' \<noteq> date_key d" using that d(2) by (simp add: date_key_inject)
      ultimately show ?thesis by (simp add: order_less_le)
    qed
    have "date_key d' < date_key x" if "lst = Some d'" "x \<in> set (poll_resets E s (Some d) nows)" for d' x
      using order.strict_trans [OF lt [OF that(1)]] IH that(2) by blast
    then show ?thesis using Some IH d(1) lt by auto
  qed
qed simp

lemma window_complement:
  "tod_key start \<noteq> tod_key stop \<Longrightarrow> in_window t stop start \<longleftrightarrow> \<not> in_window t start stop"
  by (auto simp: in_window_def)

section \<open>Properties\<close>

text \<open>
  Windows are half-open and wrap: for different bounds, the daily window from one to the other and
  the window back are complementary at every time of day, so each instant is in exactly one of them, the
  opening time is inside and the closing time outside; equal bounds give an empty window.
\<close>

theorem in_window_partition:
  "(tod_key start \<noteq> tod_key stop \<longrightarrow>
      (in_window t stop start \<longleftrightarrow> \<not> in_window t start stop)
      \<and> in_window start start stop \<and> \<not> in_window stop start stop)
   \<and> (tod_key start = tod_key stop \<longrightarrow> \<not> in_window t start stop)"
  using window_complement [of start stop t] by (auto simp: in_window_def)

definition at_time :: "nat \<Rightarrow> nat \<Rightarrow> tod" where
  "at_time h m = \<lparr>t_hour = h, t_min = m, t_sec = 0, t_nano = 0\<rparr>"

theorem in_window_partition_witness:
  "in_window (at_time 23 30) (at_time 18 0) (at_time 8 0) \<and> \<not> in_window (at_time 23 30) (at_time 8 0) (at_time 18 0)"
proof -
  have k: "tod_key (at_time 18 0) \<noteq> tod_key (at_time 8 0)" "in_window (at_time 23 30) (at_time 18 0) (at_time 8 0)" by code_simp+
  show ?thesis using k in_window_partition [of "at_time 18 0" "at_time 8 0" "at_time 23 30"] by blast
qed

text \<open>
  Recurring resets fire at most once per local day: over any sequence of polls whose local dates do
  not go backwards, the dates of the resets that fire are strictly increasing and later than the date
  remembered before, and each is the local date of a poll.
\<close>

theorem recurring_reset_once_per_day:
  assumes "sorted (map (\<lambda>n. date_key (local_date E s n)) nows)"
    and "\<forall>d. last_date = Some d \<longrightarrow> (\<forall>n \<in> set nows. date_key d \<le> date_key (local_date E s n))"
  shows "sorted_wrt (<) (map date_key (poll_resets E s last_date nows))
     \<and> (\<forall>d. last_date = Some d \<longrightarrow> d \<notin> set (poll_resets E s last_date nows))
     \<and> set (poll_resets E s last_date nows) \<subseteq> local_date E s ` set nows"
  using poll_resets_increasing [OF assms] by fastforce

definition reset_polls :: "datetime list" where
  "reset_polls = [mk_datetime 2026 6 30 8 59 0 0, mk_datetime 2026 6 30 9 30 0 0, mk_datetime 2026 6 30 10 0 0 0,
     mk_datetime 2026 7 1 9 0 0 0]"

theorem recurring_reset_once_per_day_witness:
  "map d_day (poll_resets utc_ext (with_reset_seq_time (at_time 9 0) non_stop) None reset_polls) = [30, 1]
   \<and> sorted_wrt (<) (map date_key (poll_resets utc_ext (with_reset_seq_time (at_time 9 0) non_stop) None reset_polls))"
proof -
  let ?s = "with_reset_seq_time (at_time 9 0) non_stop"
  have a: "map d_day (poll_resets utc_ext ?s None reset_polls) = [30, 1]"
    and b: "sorted (map (\<lambda>n. date_key (local_date utc_ext ?s n)) reset_polls)" by code_simp+
  show ?thesis using a recurring_reset_once_per_day [OF b] by simp
qed

text \<open>
  Boundary polling tracks the schedule: on a schedule that is not non-stop, the number of Enter
  actions minus the number of Exit actions over any polls equals the change of membership, so Enter and
  Exit alternate and never repeat; a non-stop schedule yields no action.
\<close>

theorem boundary_actions_balance:
  "(\<not> sch_non_stop s \<longrightarrow>
     int (count_list (poll_boundary E s was nows) SAEnter) - int (count_list (poll_boundary E s was nows) SAExit)
       = of_bool (case nows of [] \<Rightarrow> was | _ \<Rightarrow> is_in_session E s (last nows)) - of_bool was)
   \<and> (sch_non_stop s \<longrightarrow> set (poll_boundary E s was nows) \<subseteq> {SANone})"
proof (induction nows arbitrary: was)
  case (Cons now nows)
  show ?case
    using Cons [of "is_in_session E s now"]
    by (cases nows) (auto simp: decide_def split: bool.splits)
qed simp

theorem boundary_actions_balance_witness:
  "poll_boundary utc_ext (daily (at_time 9 0) (at_time 17 0)) False
     [mk_datetime 2026 6 30 8 0 0 0, mk_datetime 2026 6 30 9 0 0 0, mk_datetime 2026 6 30 12 0 0 0] = [SANone, SAEnter, SANone]
   \<and> is_in_session utc_ext (daily (at_time 9 0) (at_time 17 0)) (mk_datetime 2026 6 30 12 0 0 0)"
proof -
  let ?n = "[mk_datetime 2026 6 30 8 0 0 0, mk_datetime 2026 6 30 9 0 0 0, mk_datetime 2026 6 30 12 0 0 0]"
  let ?s = "daily (at_time 9 0) (at_time 17 0)"
  have a: "poll_boundary utc_ext ?s False ?n = [SANone, SAEnter, SANone]" "\<not> sch_non_stop ?s" by code_simp+
  have "of_bool (is_in_session utc_ext ?s (last ?n)) = (1 :: int)"
    using boundary_actions_balance [of ?s utc_ext False ?n] unfolding a(1) using a(2) by simp
  then show ?thesis using a by simp
qed

end
