(* ===== verification/Fix_Validate.thy ===== *)
theory Fix_Validate
  imports Fix_Dict
begin

text \<open>
  Message validation against a dictionary (\<^verbatim>\<open>dict/validate.rs\<close>). Every check returns the first
  failure as an error value. A loop over a section keeps the fields still to be visited; \<open>validate\<close>
  itself is an option because header membership may not return (see \<open>any_group_contains\<close>).
\<close>

definition UDF_START :: tag where "UDF_START = 5000"

definition REVERSE_ROUTE_TAGS :: "tag list" where
  "REVERSE_ROUTE_TAGS = [115, 116, 128, 129, 144, 145]"

type_synonym verdict = "validation_error + unit"

section \<open>Values inside a group\<close>

definition check_group_field_value ::
  "ext \<Rightarrow> data_dictionary \<Rightarrow> group_def \<Rightarrow> field \<Rightarrow> validation_options \<Rightarrow> verdict" where
  "check_group_field_value E d g f opts =
     (let t = f_tag f in
      if vo_validate_fields_have_values opts \<and> f_value f = []
        then Inl (session_error TagSpecifiedWithoutValue (Some t) ''group field has no value'')
      else if \<not> vo_check_field_types opts then Inr ()
      else (case (case Option.bind (gd_child g) (\<lambda>c. dict_field c t) of Some fd \<Rightarrow> Some fd
                  | None \<Rightarrow> dict_field d t) of
              None \<Rightarrow> Inr ()
            | Some fd \<Rightarrow>
                if \<not> value_ok E (fd_type fd) f (is_legacy_char_lenient d)
                  then Inl (session_error IncorrectDataFormat (Some t) ''group field value has incorrect data format'')
                else (case as_str f of
                        Inr v \<Rightarrow> if \<not> field_allows fd v
                          then Inl (session_error ValueIsIncorrect (Some t) ''group field value is not an allowed enumeration'')
                          else Inr ()
                      | Inl _ \<Rightarrow> Inr ())))"

definition checks_values :: "validation_options \<Rightarrow> bool" where
  "checks_values opts \<longleftrightarrow> vo_check_field_types opts \<or> vo_validate_fields_have_values opts"

definition missing_in :: "(tag \<Rightarrow> bool) \<Rightarrow> tag list \<Rightarrow> string \<Rightarrow> verdict" where
  "missing_in here tags txt =
     (case find (\<lambda>t. \<not> here t) tags of
        Some t \<Rightarrow> Inl (session_error RequiredTagMissing (Some t) txt) | None \<Rightarrow> Inr ())"

section \<open>Structured groups\<close>

definition find_structured_group_with_next ::
  "field_map \<Rightarrow> tag \<Rightarrow> (field_map list \<times> int option \<times> member option) option" where
  "find_structured_group_with_next m ct =
     (case dropWhile (\<lambda>x. case x of MGroup c _ _ \<Rightarrow> c \<noteq> ct | _ \<Rightarrow> True) m of
        MGroup c es dc # rest \<Rightarrow> Some (es, dc, case rest of [] \<Rightarrow> None | x # _ \<Rightarrow> Some x)
      | _ \<Rightarrow> None)"

definition present_in_structured_entry :: "data_dictionary \<Rightarrow> field_map \<Rightarrow> tag \<Rightarrow> bool" where
  "present_in_structured_entry d e t =
     (if is_group_count d t then (case fm_group e t of Some es \<Rightarrow> es \<noteq> [] | None \<Rightarrow> False)
      else fm_get e t \<noteq> None)"

text \<open>The count check at the head of \<^verbatim>\<open>validate_structured_group\<close>.\<close>

definition structured_count_check ::
  "validation_options \<Rightarrow> group_def \<Rightarrow> field_map list \<Rightarrow> int option \<Rightarrow> member option \<Rightarrow> tag \<Rightarrow> verdict" where
  "structured_count_check opts g entries declared_count next_sibling count_tag =
     (case declared_count of
        None \<Rightarrow> Inr ()
      | Some declared \<Rightarrow>
          if declared = int (length entries) then Inr ()
          else if length entries < as_usize declared
               \<and> (case next_sibling of None \<Rightarrow> False
                  | Some nx \<Rightarrow> vo_first_field_in_group_is_delimiter opts \<and> member_tag nx \<in> set (gd_members g))
            then Inl (session_error RepeatingGroupFieldsOutOfOrder (Some (gd_delimiter g))
                   ''group entry does not begin with its delimiter'')
          else Inl (session_error IncorrectNumInGroupCount (Some count_tag)
                 ''NoXxx count does not match the number of group entries''))"

text \<open>
  \<^verbatim>\<open>validate_structured_group\<close> with its loops over the entries and over the members of an entry. A
  nested group is told the member that follows it, or what follows the enclosing group.
\<close>

function (sequential)
  validate_structured_group :: "ext \<Rightarrow> data_dictionary \<Rightarrow> validation_options \<Rightarrow> field_map list
    \<Rightarrow> int option \<Rightarrow> member option \<Rightarrow> tag \<Rightarrow> verdict" and
  structured_entries :: "ext \<Rightarrow> data_dictionary \<Rightarrow> validation_options \<Rightarrow> group_def \<Rightarrow> member option
    \<Rightarrow> field_map list \<Rightarrow> verdict" and
  structured_members :: "ext \<Rightarrow> data_dictionary \<Rightarrow> validation_options \<Rightarrow> group_def \<Rightarrow> member option
    \<Rightarrow> nat \<Rightarrow> field_map \<Rightarrow> verdict" where
  "validate_structured_group E d opts entries declared_count next_sibling count_tag =
     (case dict_group d count_tag of
        None \<Rightarrow> Inr ()
      | Some g \<Rightarrow>
          (case structured_count_check opts g entries declared_count next_sibling count_tag of
             Inl e \<Rightarrow> Inl e
           | Inr _ \<Rightarrow> structured_entries E d opts g next_sibling entries))"
| "structured_entries E d opts g next_sibling [] = Inr ()"
| "structured_entries E d opts g next_sibling (entry # es) =
     (case structured_members E d opts g next_sibling 0 entry of
        Inl e \<Rightarrow> Inl e
      | Inr _ \<Rightarrow>
          (case (if vo_check_required_fields opts
                 then missing_in (present_in_structured_entry d entry) (gd_required g) ''group entry missing a required field''
                 else Inr ()) of
             Inl e \<Rightarrow> Inl e
           | Inr _ \<Rightarrow> structured_entries E d opts g next_sibling es))"
| "structured_members E d opts g next_sibling last_idx [] = Inr ()"
| "structured_members E d opts g next_sibling last_idx (m # ms) =
     (case position (member_tag m) (gd_members g) of
        None \<Rightarrow> structured_members E d opts g next_sibling last_idx ms
      | Some idx \<Rightarrow>
          if vo_validate_unordered_group_fields opts \<and> idx < last_idx
            then Inl (session_error RepeatingGroupFieldsOutOfOrder (Some (member_tag m))
                   ''repeating-group fields out of order'')
          else (case (case m of
                   MGroup ct nested nested_declared \<Rightarrow>
                     validate_structured_group E d opts nested nested_declared
                       (case ms of [] \<Rightarrow> next_sibling | x # _ \<Rightarrow> Some x) ct
                 | MField f \<Rightarrow> if checks_values opts then check_group_field_value E d g f opts else Inr ()) of
                  Inl e \<Rightarrow> Inl e
                | Inr _ \<Rightarrow> structured_members E d opts g next_sibling idx ms))"
  by pat_completeness auto
termination validate_structured_group
  by (relation "measure (\<lambda>x. case x of
        Inl (E, d, opts, es, dc, ns, ct) \<Rightarrow> 2 * size_list (size_list size) es + 1
      | Inr (Inl (E, d, opts, g, ns, es)) \<Rightarrow> 2 * size_list (size_list size) es
      | Inr (Inr (E, d, opts, g, ns, i, ms)) \<Rightarrow> 2 * size_list size ms)") auto

declare validate_structured_group.simps [simp del]

section \<open>Flat groups\<close>

text \<open>
  \<^verbatim>\<open>validate_group\<close> walks the plain fields of a section from the position of a count field on; here
  it takes the fields from that position and returns the rest. \<open>flat_entries\<close> is the loop over
  entries, with the number of entries \<open>found\<close>, and \<open>flat_members\<close> the loop over the members of one
  entry, which also returns the tags it has seen.
\<close>

function (sequential)
  validate_group :: "ext \<Rightarrow> data_dictionary \<Rightarrow> validation_options \<Rightarrow> tag \<Rightarrow> field list
    \<Rightarrow> validation_error + field list" and
  flat_entries :: "ext \<Rightarrow> data_dictionary \<Rightarrow> validation_options \<Rightarrow> group_def \<Rightarrow> tag \<Rightarrow> int \<Rightarrow> int
    \<Rightarrow> field list \<Rightarrow> validation_error + field list" and
  flat_members :: "ext \<Rightarrow> data_dictionary \<Rightarrow> validation_options \<Rightarrow> group_def \<Rightarrow> nat \<Rightarrow> tag list
    \<Rightarrow> field list \<Rightarrow> validation_error + tag list \<times> field list" where
  "validate_group E d opts count_tag fs =
     (case dict_group d count_tag of
        None \<Rightarrow> Inr (drop 1 fs)
      | Some g \<Rightarrow>
          (case fs of
             [] \<Rightarrow> Inl (session_error IncorrectDataFormat (Some count_tag) ''repeating-group count is missing'')
           | cf # rest \<Rightarrow>
               (case as_int cf of
                  Inl _ \<Rightarrow> Inl (session_error IncorrectDataFormat (Some count_tag)
                             ''repeating-group count has incorrect data format'')
                | Inr declared \<Rightarrow> flat_entries E d opts g count_tag declared 0 rest)))"
| "flat_entries E d opts g count_tag declared found fs =
     (if fs \<noteq> [] \<and> f_tag (hd fs) = gd_delimiter g then
        (case (if checks_values opts then check_group_field_value E d g (hd fs) opts else Inr ()) of
           Inl e \<Rightarrow> Inl e
         | Inr _ \<Rightarrow>
             (case flat_members E d opts g 0 [gd_delimiter g] (tl fs) of
                Inl e \<Rightarrow> Inl e
              | Inr (seen, rest) \<Rightarrow>
                  (case (if vo_check_required_fields opts
                         then missing_in (\<lambda>t. t \<in> set seen) (gd_required g) ''group entry missing a required field''
                         else Inr ()) of
                     Inl e \<Rightarrow> Inl e
                   | Inr _ \<Rightarrow> flat_entries E d opts g count_tag declared (found + 1) rest)))
      else if fs \<noteq> [] \<and> vo_first_field_in_group_is_delimiter opts \<and> found < declared
           \<and> (f_tag (hd fs) \<in> set (gd_members g) \<or> is_group_count d (f_tag (hd fs)))
        then Inl (session_error RepeatingGroupFieldsOutOfOrder (Some (gd_delimiter g))
               ''group entry does not begin with its delimiter'')
      else if declared \<noteq> found
        then Inl (session_error IncorrectNumInGroupCount (Some count_tag)
               ''NoXxx count does not match the number of group entries'')
      else Inr fs)"
| "flat_members E d opts g last_idx seen [] = Inr (seen, [])"
| "flat_members E d opts g last_idx seen (f # fs) =
     (let t = f_tag f in
      if t = gd_delimiter g then Inr (seen, f # fs)
      else (case position t (gd_members g) of
              None \<Rightarrow> Inr (seen, f # fs)
            | Some idx \<Rightarrow>
                if vo_validate_unordered_group_fields opts \<and> idx < last_idx
                  then Inl (session_error RepeatingGroupFieldsOutOfOrder (Some t) ''repeating-group fields out of order'')
                else if is_group_count d t then
                  (case validate_group E d opts t (f # fs) of
                     Inl e \<Rightarrow> Inl e
                   | Inr rest \<Rightarrow> flat_members E d opts g idx (seen @ [t]) rest)
                else (case (if checks_values opts then check_group_field_value E d g f opts else Inr ()) of
                        Inl e \<Rightarrow> Inl e
                      | Inr _ \<Rightarrow> flat_members E d opts g idx (seen @ [t]) fs)))"
  by pat_completeness auto

lemma flat_rest_length:
  "validate_group_flat_entries_flat_members_dom (Inl (E, d, opts, ct, fs)) \<Longrightarrow>
     validate_group E d opts ct fs = Inr r \<Longrightarrow> length r \<le> length (tl fs)"
  "validate_group_flat_entries_flat_members_dom (Inr (Inl (E, d, opts, g, ct, dec, found, fs))) \<Longrightarrow>
     flat_entries E d opts g ct dec found fs = Inr r \<Longrightarrow> length r \<le> length fs"
  "validate_group_flat_entries_flat_members_dom (Inr (Inr (E, d, opts, g, i, seen, fs))) \<Longrightarrow>
     flat_members E d opts g i seen fs = Inr (sn, r) \<Longrightarrow> length r \<le> length fs"
proof (induction E d opts ct fs and E d opts g ct dec found fs and E d opts g i seen fs
    arbitrary: r and r and sn r rule: validate_group_flat_entries_flat_members.pinduct)
  case (1 E d opts count_tag fs)
  then show ?case
    by (auto simp: validate_group.psimps split: option.splits list.splits sum.splits)
next
  case (2 E d opts g count_tag declared found fs)
  then show ?case
    by (auto simp: flat_entries.psimps split: if_splits sum.splits prod.splits)
       (metis (no_types, lifting) diff_le_self le_trans length_tl)+
next
  case (3 E d opts g last_idx seen)
  then show ?case by (simp add: flat_members.psimps)
next
  case (4 E d opts g last_idx seen f fs)
  then show ?case
    by (auto simp: flat_members.psimps Let_def split: if_splits sum.splits option.splits)
       (metis le_SucI le_trans)+
qed

termination validate_group
proof (relation "measure (\<lambda>x. case x of
      Inl (E, d, opts, ct, fs) \<Rightarrow> 3 * length fs + 1
    | Inr (Inl (E, d, opts, g, ct, dec, found, fs)) \<Rightarrow> 3 * length fs
    | Inr (Inr (E, d, opts, g, i, seen, fs)) \<Rightarrow> 3 * length fs + 2)", goal_cases)
  case (3 E d opts g count_tag declared found fs u)
  then show ?case by (cases fs) auto
next
  case (4 E d opts g count_tag declared found fs u x seen rest u')
  then show ?case using flat_rest_length(3) [of E d opts g 0 "[gd_delimiter g]" "tl fs" seen rest] by (cases fs) auto
qed (auto dest!: flat_rest_length(1))

declare validate_group.simps [simp del] flat_entries.simps [simp del]

lemma validate_group_shrinks:
  "validate_group E d opts ct fs = Inr r \<Longrightarrow> length r \<le> length (tl fs)"
  "flat_entries E d opts g ct dec found fs = Inr r \<Longrightarrow> length r \<le> length fs"
  "flat_members E d opts g i seen fs = Inr (sn, r) \<Longrightarrow> length r \<le> length fs"
proof (induction E d opts ct fs and E d opts g ct dec found fs and E d opts g i seen fs
    arbitrary: r and r and sn r rule: validate_group_flat_entries_flat_members.induct)
  case (1 E d opts count_tag fs)
  then show ?case
    by (auto simp: validate_group.simps split: option.splits list.splits sum.splits)
next
  case (2 E d opts g count_tag declared found fs)
  note eq = 2(3) [unfolded flat_entries.simps [of E d opts g count_tag declared found fs]]
  from 2(1,2) eq show ?case
    by (auto split: if_splits sum.splits prod.splits)
       (metis (no_types, lifting) diff_le_self le_trans length_tl)+
next
  case (4 E d opts g last_idx seen f fs)
  then show ?case
    by (auto simp: Let_def split: if_splits sum.splits option.splits) (metis le_SucI le_trans)+
qed simp

text \<open>The scan of \<^verbatim>\<open>validate_groups\<close> over the plain fields of one section.\<close>

function scan_flat_groups :: "ext \<Rightarrow> data_dictionary \<Rightarrow> validation_options \<Rightarrow> field list \<Rightarrow> verdict" where
  "scan_flat_groups E d opts [] = Inr ()"
| "scan_flat_groups E d opts (f # fs) =
     (if is_group_count d (f_tag f) then
        (case validate_group E d opts (f_tag f) (f # fs) of
           Inl e \<Rightarrow> Inl e
         | Inr rest \<Rightarrow> scan_flat_groups E d opts rest)
      else scan_flat_groups E d opts fs)"
  by pat_completeness auto
termination
  by (relation "measure (\<lambda>(E, d, opts, fs). length fs)") (auto dest!: validate_group_shrinks(1))

text \<open>One section of the structured pass: the first group with the count tag, if there is one.\<close>

definition structured_section ::
  "ext \<Rightarrow> data_dictionary \<Rightarrow> validation_options \<Rightarrow> field_map \<Rightarrow> tag \<Rightarrow> verdict" where
  "structured_section E d opts m ct =
     (case find_structured_group_with_next m ct of
        None \<Rightarrow> Inr ()
      | Some (entries, declared_count, nx) \<Rightarrow> validate_structured_group E d opts entries declared_count nx ct)"

fun structured_pass :: "ext \<Rightarrow> data_dictionary \<Rightarrow> validation_options \<Rightarrow> message \<Rightarrow> tag list \<Rightarrow> verdict" where
  "structured_pass E d opts msg [] = Inr ()"
| "structured_pass E d opts msg (ct # cts) =
     (case structured_section E d opts (m_header msg) ct of Inl e \<Rightarrow> Inl e | Inr _ \<Rightarrow>
     (case structured_section E d opts (m_body msg) ct of Inl e \<Rightarrow> Inl e | Inr _ \<Rightarrow>
      structured_pass E d opts msg cts))"

definition validate_groups :: "ext \<Rightarrow> data_dictionary \<Rightarrow> validation_options \<Rightarrow> message \<Rightarrow> verdict" where
  "validate_groups E d opts msg =
     (case structured_pass E d opts msg (map fst (dd_groups d)) of Inl e \<Rightarrow> Inl e | Inr _ \<Rightarrow>
     (case scan_flat_groups E d opts (fm_fields (m_header msg)) of Inl e \<Rightarrow> Inl e | Inr _ \<Rightarrow>
      scan_flat_groups E d opts (fm_fields (m_body msg))))"

section \<open>The whole message\<close>

definition present_in :: "field_map \<Rightarrow> tag \<Rightarrow> bool" where
  "present_in m t = list_ex (\<lambda>x. member_tag x = t) m"

definition present :: "message \<Rightarrow> tag \<Rightarrow> bool" where
  "present msg t \<longleftrightarrow> present_in (m_header msg) t \<or> present_in (m_body msg) t \<or> present_in (m_trailer msg) t"

definition effective_version :: "data_dictionary \<Rightarrow> version_meta option" where
  "effective_version d =
     (case dd_version_meta d of Some vm \<Rightarrow> Some vm
      | None \<Rightarrow> map_option (\<lambda>(ma, mi, sp, ep).
           \<lparr>vm_major = ma, vm_minor = mi, vm_service_pack = sp, vm_extension_pack = ep\<rparr>)
           (parse_fix_begin_string (dd_version d)))"

definition version_mismatch :: "data_dictionary \<Rightarrow> message \<Rightarrow> bool" where
  "version_mismatch d msg =
     (case effective_version d of None \<Rightarrow> False | Some vm \<Rightarrow>
     (case get_str (m_header msg) 8 of None \<Rightarrow> False | Some bs \<Rightarrow>
     (case parse_fix_begin_string bs of None \<Rightarrow> False | Some (ma, mi, sp, ep) \<Rightarrow>
        ma \<noteq> vm_major vm \<or> mi \<noteq> vm_minor vm \<or> sp \<noteq> vm_service_pack vm \<or> ep \<noteq> vm_extension_pack vm)))"

text \<open>The checks of one field that is defined in the dictionary, the section check last.\<close>

definition check_value :: "ext \<Rightarrow> data_dictionary \<Rightarrow> validation_options \<Rightarrow> field_def \<Rightarrow> field \<Rightarrow> verdict" where
  "check_value E d opts fd f =
     (if vo_check_field_types opts \<and> f_tag f \<noteq> BEGIN_STRING \<and> f_tag f \<noteq> CHECK_SUM then
        (if \<not> value_ok E (fd_type fd) f (is_legacy_char_lenient d)
           then Inl (session_error IncorrectDataFormat (Some (f_tag f)) ''value has incorrect data format'')
         else (case as_str f of
                 Inr v \<Rightarrow> if \<not> field_allows fd v
                   then Inl (session_error ValueIsIncorrect (Some (f_tag f)) ''value is not an allowed enumeration'')
                   else Inr ()
               | Inl _ \<Rightarrow> Inr ()))
      else Inr ())"

definition belongs :: "data_dictionary \<Rightarrow> message_def \<Rightarrow> tag \<Rightarrow> bool option" where
  "belongs d md t =
     Option.bind (dict_is_header d t) (\<lambda>h. Some (h \<or> dict_is_trailer d t \<or> contains_member md t))"

fun field_loop :: "ext \<Rightarrow> data_dictionary \<Rightarrow> validation_options \<Rightarrow> message_def \<Rightarrow> tag list \<Rightarrow> field list
    \<Rightarrow> verdict option" where
  "field_loop E d opts md seen [] = Some (Inr ())"
| "field_loop E d opts md seen (f # fs) =
     (let t = f_tag f;
          once = vo_check_repeated_tags opts \<and> t \<notin> set (md_member_tags md);
          seen' = (if once then t # seen else seen)
      in if UDF_START \<le> t \<and> \<not> vo_validate_user_defined_fields opts then field_loop E d opts md seen fs
      else if once \<and> t \<in> set seen
        then Some (Inl (session_error TagAppearsMoreThanOnce (Some t) ''tag appears more than once''))
      else if vo_validate_fields_have_values opts \<and> f_value f = [] \<and> t \<notin> set REVERSE_ROUTE_TAGS
        then Some (Inl (session_error TagSpecifiedWithoutValue (Some t) ''field has no value''))
      else (case dict_field d t of
              None \<Rightarrow>
                if vo_allow_unknown_msg_fields opts then field_loop E d opts md seen' fs
                else Some (Inl (session_error InvalidTagNumber (Some t) ''tag not defined in dictionary''))
            | Some fd \<Rightarrow>
                (case check_value E d opts fd f of
                   Inl e \<Rightarrow> Some (Inl e)
                 | Inr _ \<Rightarrow>
                     Option.bind (belongs d md t) (\<lambda>b.
                       if \<not> b \<and> \<not> vo_allow_unknown_msg_fields opts
                         then Some (Inl (session_error TagNotDefinedForMessageType (Some t)
                                ''tag not defined for this message type''))
                       else field_loop E d opts md seen' fs))))"

definition poss_dup_check :: "validation_options \<Rightarrow> message \<Rightarrow> verdict" where
  "poss_dup_check opts msg =
     (if get_str (m_header msg) 43 = Some ''Y'' then
        (if \<not> vo_allow_pos_dup opts
           then Inl (session_error ValueIsIncorrect (Some 43) ''PossDup messages are not accepted (AllowPosDup=N)'')
         else if vo_requires_orig_sending_time opts \<and> fm_get (m_header msg) 122 = None
           then Inl (session_error RequiredTagMissing (Some 122) ''PossDup message missing OrigSendingTime'')
         else Inr ())
      else Inr ())"

definition required_check :: "validation_options \<Rightarrow> message_def \<Rightarrow> message \<Rightarrow> verdict" where
  "required_check opts md msg =
     (if vo_check_required_fields opts then
        (case missing_in (present msg) (md_required md) ''required field missing'' of
           Inl e \<Rightarrow> Inl e
         | Inr _ \<Rightarrow>
             if vo_check_required_envelope_fields opts then
               (case missing_in (present msg) header_required_tags ''required header field missing'' of
                  Inl e \<Rightarrow> Inl e
                | Inr _ \<Rightarrow> missing_in (present msg) trailer_required_tags ''required trailer field missing'')
             else Inr ())
      else Inr ())"

definition validate :: "ext \<Rightarrow> data_dictionary \<Rightarrow> validation_options \<Rightarrow> message \<Rightarrow> verdict option" where
  "validate E d opts msg =
     (if \<not> vo_validate_incoming_message opts then Some (Inr ())
      else if version_mismatch d msg
        then Some (Inl (session_error ValueIsIncorrect (Some 8)
               ''BeginString does not match the loaded dictionary's version''))
      else if vo_validate_fields_out_of_order opts \<and> m_out_of_order msg
        then Some (Inl (session_error TagOutOfRequiredOrder None
               ''header/body/trailer fields are out of wire-sectioning order''))
      else (case poss_dup_check opts msg of Inl e \<Rightarrow> Some (Inl e) | Inr _ \<Rightarrow>
        (case msg_type msg of
           None \<Rightarrow> Some (Inl (session_error InvalidMsgType (Some 35) ''missing MsgType''))
         | Some mt \<Rightarrow>
        (case dict_message d mt of
           None \<Rightarrow> Some (Inl (business_error InvalidMsgType (Some 35) ''MsgType not defined in dictionary''))
         | Some md \<Rightarrow>
        Option.bind
          (field_loop E d opts md []
             (fm_fields (m_header msg) @ fm_fields (m_body msg) @ fm_fields (m_trailer msg)))
          (\<lambda>r. case r of Inl e \<Rightarrow> Some (Inl e) | Inr _ \<Rightarrow>
           (case (if vo_check_groups opts then validate_groups E d opts msg else Inr ()) of
              Inl e \<Rightarrow> Some (Inl e)
            | Inr _ \<Rightarrow> Some (required_check opts md msg)))))))"

end
