(* ===== verification/Fix_Config.thy ===== *)
theory Fix_Config
  imports Complex_Main "HOL-Library.Log_Nat" Fix_Schedule
begin

text \<open>
  Session configuration (\<^verbatim>\<open>session/config.rs\<close>), session identity (\<^verbatim>\<open>session/session_id.rs\<close>) and the
  \<^verbatim>\<open>f64\<close> arithmetic of the heartbeat timers. The configuration record holds the settings the session
  engine reads; settings that only the transport reads (channel capacities, socket options, binary
  protocols) are left out.
\<close>

section \<open>Double precision\<close>

text \<open>
  A finite \<^verbatim>\<open>f64\<close> is the rational it stands for. \<open>f64_round\<close> rounds a rational to 53 significant
  bits, ties to even, with the exponent bounded below as for subnormals. Products of a 32-bit
  integer and a configured factor never exceed the largest double for factors up to about
  \<open>4e298\<close>; beyond that the code compares with infinity and the model with a larger number, which
  agree on every 32-bit tick count.
\<close>

definition half_even :: "rat \<Rightarrow> int" where
  "half_even x =
     (let f = \<lfloor>x\<rfloor>; r = x - of_int f
      in if r < 1 / 2 then f else if 1 / 2 < r then f + 1 else if even f then f else f + 1)"

text \<open>The exponent of a positive rational: the largest \<open>e\<close> with \<open>2 ^ e \<le> x\<close>.\<close>

definition binary_exponent :: "rat \<Rightarrow> int" where
  "binary_exponent x =
     (let (p, q) = quotient_of x; k = bitlen p - bitlen q
      in if x < 2 powi k then k - 1 else k)"

definition f64_round :: "rat \<Rightarrow> rat" where
  "f64_round x =
     (if x = 0 then 0
      else (let u = 2 powi (max (binary_exponent \<bar>x\<bar>) (- 1022) - 52) in of_int (half_even (x / u)) * u))"

section \<open>Configuration\<close>

datatype role = Initiator | Acceptor

record session_config =
  cfg_begin_string :: bytes
  cfg_sender_comp_id :: bytes
  cfg_target_comp_id :: bytes
  cfg_heartbeat_interval :: nat
  cfg_role :: role
  cfg_reset_on_logon :: bool
  cfg_reset_on_logout :: bool
  cfg_reset_on_disconnect :: bool
  cfg_refresh_on_logon :: bool
  cfg_persist_messages :: bool
  cfg_resend_request_chunk_size :: nat
  cfg_enable_next_expected_msg_seq_num :: bool
  cfg_enable_last_msg_seq_num_processed :: bool
  cfg_check_latency :: bool
  cfg_max_latency :: nat
  cfg_check_comp_id :: bool
  cfg_reject_garbled_message :: bool
  cfg_test_request_delay_multiplier :: rat
  cfg_heartbeat_timeout_multiplier :: rat
  cfg_timestamp_precision :: timestamp_precision
  cfg_logon_timeout :: nat
  cfg_logout_timeout :: nat
  cfg_schedule :: "schedule option"
  cfg_send_redundant_resend_requests :: bool
  cfg_reset_on_error :: bool
  cfg_disconnect_on_error :: bool
  cfg_disable_heart_beat_check :: bool
  cfg_logon_tags :: "(tag \<times> bytes) list"
  cfg_force_resend_when_corrupted_store :: bool
  cfg_requires_orig_sending_time_on_low_seq :: bool
  cfg_sender_sub_id :: "bytes option"
  cfg_sender_location_id :: "bytes option"
  cfg_target_sub_id :: "bytes option"
  cfg_target_location_id :: "bytes option"
  cfg_session_qualifier :: "bytes option"

definition new_config :: "bytes \<Rightarrow> bytes \<Rightarrow> bytes \<Rightarrow> role \<Rightarrow> session_config" where
  "new_config bstr sender target rl =
     \<lparr>cfg_begin_string = bstr, cfg_sender_comp_id = sender,
      cfg_target_comp_id = target, cfg_heartbeat_interval = 30, cfg_role = rl,
      cfg_reset_on_logon = True, cfg_reset_on_logout = False, cfg_reset_on_disconnect = False,
      cfg_refresh_on_logon = False, cfg_persist_messages = True, cfg_resend_request_chunk_size = 0,
      cfg_enable_next_expected_msg_seq_num = False, cfg_enable_last_msg_seq_num_processed = False,
      cfg_check_latency = True, cfg_max_latency = 120, cfg_check_comp_id = True,
      cfg_reject_garbled_message = False,
      cfg_test_request_delay_multiplier = f64_round (5 / 10),
      cfg_heartbeat_timeout_multiplier = f64_round (14 / 10),
      cfg_timestamp_precision = Milliseconds, cfg_logon_timeout = 10, cfg_logout_timeout = 10,
      cfg_schedule = None, cfg_send_redundant_resend_requests = False, cfg_reset_on_error = False,
      cfg_disconnect_on_error = False, cfg_disable_heart_beat_check = False, cfg_logon_tags = [],
      cfg_force_resend_when_corrupted_store = False,
      cfg_requires_orig_sending_time_on_low_seq = False, cfg_sender_sub_id = None,
      cfg_sender_location_id = None, cfg_target_sub_id = None, cfg_target_location_id = None,
      cfg_session_qualifier = None\<rparr>"

section \<open>Identity\<close>

record session_id =
  sid_begin_string :: bytes
  sid_sender_comp_id :: bytes
  sid_sender_sub_id :: "bytes option"
  sid_sender_location_id :: "bytes option"
  sid_target_comp_id :: bytes
  sid_target_sub_id :: "bytes option"
  sid_target_location_id :: "bytes option"
  sid_session_qualifier :: "bytes option"

definition config_session_id :: "session_config \<Rightarrow> session_id" where
  "config_session_id c =
     \<lparr>sid_begin_string = cfg_begin_string c, sid_sender_comp_id = cfg_sender_comp_id c,
      sid_sender_sub_id = cfg_sender_sub_id c, sid_sender_location_id = cfg_sender_location_id c,
      sid_target_comp_id = cfg_target_comp_id c, sid_target_sub_id = cfg_target_sub_id c,
      sid_target_location_id = cfg_target_location_id c, sid_session_qualifier = cfg_session_qualifier c\<rparr>"

definition comp_id_with_qualifiers :: "bytes \<Rightarrow> bytes option \<Rightarrow> bytes option \<Rightarrow> bytes" where
  "comp_id_with_qualifiers cid sub loc =
     cid @ (case sub of None \<Rightarrow> [] | Some s \<Rightarrow> ''/'' @ s) @ (case loc of None \<Rightarrow> [] | Some l \<Rightarrow> ''/'' @ l)"

definition session_id_string :: "session_id \<Rightarrow> bytes" where
  "session_id_string i =
     sid_begin_string i @ '':''
     @ comp_id_with_qualifiers (sid_sender_comp_id i) (sid_sender_sub_id i) (sid_sender_location_id i)
     @ ''->''
     @ comp_id_with_qualifiers (sid_target_comp_id i) (sid_target_sub_id i) (sid_target_location_id i)
     @ (case sid_session_qualifier i of None \<Rightarrow> [] | Some q \<Rightarrow> '':'' @ q)"

end
