(* ===== verification/Fix_Admin.thy ===== *)
theory Fix_Admin
  imports Fix_Config
begin

text \<open>
  Builders of session-level messages (\<^verbatim>\<open>session/admin.rs\<close>) over the tag numbers of
  \<^verbatim>\<open>session/tags.rs\<close>. The clock is read once per event: \<open>now\<close> is the time of the event in which the
  builder runs.
\<close>

section \<open>Tags\<close>

definition MSG_SEQ_NUM :: tag where "MSG_SEQ_NUM = 34"
definition POSS_DUP_FLAG :: tag where "POSS_DUP_FLAG = 43"
definition SENDING_TIME :: tag where "SENDING_TIME = 52"
definition ORIG_SENDING_TIME :: tag where "ORIG_SENDING_TIME = 122"
definition NEW_SEQ_NO :: tag where "NEW_SEQ_NO = 36"
definition GAP_FILL_FLAG :: tag where "GAP_FILL_FLAG = 123"
definition BEGIN_SEQ_NO :: tag where "BEGIN_SEQ_NO = 7"
definition END_SEQ_NO :: tag where "END_SEQ_NO = 16"
definition RESET_SEQ_NUM_FLAG :: tag where "RESET_SEQ_NUM_FLAG = 141"
definition NEXT_EXPECTED_MSG_SEQ_NUM :: tag where "NEXT_EXPECTED_MSG_SEQ_NUM = 789"
definition TEST_REQ_ID :: tag where "TEST_REQ_ID = 112"
definition TEXT :: tag where "TEXT = 58"
definition REF_SEQ_NUM :: tag where "REF_SEQ_NUM = 45"
definition REF_TAG_ID :: tag where "REF_TAG_ID = 371"
definition REF_MSG_TYPE :: tag where "REF_MSG_TYPE = 372"
definition SESSION_REJECT_REASON :: tag where "SESSION_REJECT_REASON = 373"
definition BUSINESS_REJECT_REASON :: tag where "BUSINESS_REJECT_REASON = 380"
definition ENCRYPT_METHOD :: tag where "ENCRYPT_METHOD = 98"
definition HEART_BT_INT :: tag where "HEART_BT_INT = 108"
definition SESSION_STATUS :: tag where "SESSION_STATUS = 573"
definition APPL_VER_ID :: tag where "APPL_VER_ID = 1128"
definition DEFAULT_APPL_VER_ID :: tag where "DEFAULT_APPL_VER_ID = 1137"

lemmas session_tag_defs =
  MSG_SEQ_NUM_def POSS_DUP_FLAG_def SENDING_TIME_def ORIG_SENDING_TIME_def NEW_SEQ_NO_def GAP_FILL_FLAG_def
  BEGIN_SEQ_NO_def END_SEQ_NO_def RESET_SEQ_NUM_FLAG_def NEXT_EXPECTED_MSG_SEQ_NUM_def TEST_REQ_ID_def TEXT_def
  REF_SEQ_NUM_def REF_TAG_ID_def REF_MSG_TYPE_def SESSION_REJECT_REASON_def BUSINESS_REJECT_REASON_def
  ENCRYPT_METHOD_def HEART_BT_INT_def SESSION_STATUS_def APPL_VER_ID_def DEFAULT_APPL_VER_ID_def

section \<open>Builders\<close>

text \<open>\<^verbatim>\<open>if let Some(v) = x { m.header.set(Field::string(tag, v)) }\<close>, and the same on the body.\<close>

definition set_header_opt :: "tag \<Rightarrow> bytes option \<Rightarrow> message \<Rightarrow> message" where
  "set_header_opt t v m = (case v of None \<Rightarrow> m | Some s \<Rightarrow> set_header (mk_field t s) m)"

definition set_body_opt :: "tag \<Rightarrow> bytes option \<Rightarrow> message \<Rightarrow> message" where
  "set_body_opt t v m = (case v of None \<Rightarrow> m | Some s \<Rightarrow> set_body (mk_field t s) m)"

definition sending_time :: "session_config \<Rightarrow> datetime \<Rightarrow> bytes" where
  "sending_time c now = format_utc_timestamp now (cfg_timestamp_precision c)"

definition base :: "session_config \<Rightarrow> datetime \<Rightarrow> bytes \<Rightarrow> nat \<Rightarrow> message" where
  "base c now mt seq =
     (let m1 = set_header (mk_field 8 (cfg_begin_string c)) new_message;
          m2 = set_header (mk_field 35 mt) m1;
          m3 = set_header (mk_field 49 (cfg_sender_comp_id c)) m2;
          m4 = set_header_opt 50 (cfg_sender_sub_id c) m3;
          m5 = set_header_opt 142 (cfg_sender_location_id c) m4;
          m6 = set_header (mk_field 56 (cfg_target_comp_id c)) m5;
          m7 = set_header_opt 57 (cfg_target_sub_id c) m6;
          m8 = set_header_opt 143 (cfg_target_location_id c) m7;
          m9 = set_header (field_int 34 (as_i64 seq)) m8
      in set_header (mk_field 52 (sending_time c now)) m9)"

definition logon_with_reset_flag ::
  "session_config \<Rightarrow> datetime \<Rightarrow> nat \<Rightarrow> nat option \<Rightarrow> bool \<Rightarrow> message" where
  "logon_with_reset_flag c now seq next_expected reset_seq_num_flag =
     (let m1 = set_body (field_int ENCRYPT_METHOD 0) (base c now ''A'' seq);
          m2 = set_body (field_int HEART_BT_INT (int (cfg_heartbeat_interval c))) m1;
          m3 = (if reset_seq_num_flag then set_body (mk_field RESET_SEQ_NUM_FLAG ''Y'') m2 else m2);
          m4 = (case next_expected of None \<Rightarrow> m3
                | Some n \<Rightarrow> set_body (field_int NEXT_EXPECTED_MSG_SEQ_NUM (as_i64 n)) m3)
      in fold (\<lambda>(t, v). set_body (mk_field t v)) (cfg_logon_tags c) m4)"

definition logout :: "session_config \<Rightarrow> datetime \<Rightarrow> nat \<Rightarrow> bytes option \<Rightarrow> message" where
  "logout c now seq note_text = set_body_opt TEXT note_text (base c now ''5'' seq)"

definition heartbeat :: "session_config \<Rightarrow> datetime \<Rightarrow> nat \<Rightarrow> bytes option \<Rightarrow> message" where
  "heartbeat c now seq test_req_id = set_body_opt TEST_REQ_ID test_req_id (base c now ''0'' seq)"

definition test_request :: "session_config \<Rightarrow> datetime \<Rightarrow> nat \<Rightarrow> bytes \<Rightarrow> message" where
  "test_request c now seq i = set_body (mk_field TEST_REQ_ID i) (base c now ''1'' seq)"

definition resend_request :: "session_config \<Rightarrow> datetime \<Rightarrow> nat \<Rightarrow> nat \<Rightarrow> nat \<Rightarrow> message" where
  "resend_request c now seq bgn en =
     set_body (field_int END_SEQ_NO (as_i64 en))
       (set_body (field_int BEGIN_SEQ_NO (as_i64 bgn)) (base c now ''2'' seq))"

definition sequence_reset :: "session_config \<Rightarrow> datetime \<Rightarrow> nat \<Rightarrow> nat \<Rightarrow> bool \<Rightarrow> message" where
  "sequence_reset c now seq new_seq_no gap_fill =
     (let m = set_body (field_int NEW_SEQ_NO (as_i64 new_seq_no)) (base c now ''4'' seq)
      in if gap_fill then set_header (mk_field POSS_DUP_FLAG ''Y'') (set_body (mk_field GAP_FILL_FLAG ''Y'') m) else m)"

definition fix_version :: "bytes \<Rightarrow> (nat \<times> nat) option" where
  "fix_version bs =
     do { rest \<leftarrow> strip_pfx ''FIX.'' bs;
          (a, b) \<leftarrow> split_once (CHR ''.'') rest;
          major \<leftarrow> parse_u8 a;
          minor \<leftarrow> parse_u8 b;
          Some (major, minor) }"

definition ref_msg_type_applies :: "session_config \<Rightarrow> bool" where
  "ref_msg_type_applies c =
     (case fix_version (cfg_begin_string c) of
        Some (major, minor) \<Rightarrow> 4 < major \<or> (major = 4 \<and> 2 \<le> minor)
      | None \<Rightarrow> True)"

definition session_reject_reason_applies :: "session_config \<Rightarrow> nat \<Rightarrow> bool" where
  "session_reject_reason_applies c reason_code =
     (case fix_version (cfg_begin_string c) of
        None \<Rightarrow> True
      | Some (major, minor) \<Rightarrow>
          if major = 4 then
            (if minor = 0 \<or> minor = 1 then False
             else if minor = 2 then reason_code \<le> 11
             else if minor = 3 then reason_code \<le> 15
             else reason_code \<le> 16 \<or> reason_code = 99)
          else if 4 < major then reason_code \<le> 16 \<or> reason_code = 99
          else True)"

definition admin_reject ::
  "session_config \<Rightarrow> datetime \<Rightarrow> nat \<Rightarrow> nat \<Rightarrow> bytes option \<Rightarrow> bytes \<Rightarrow> message" where
  "admin_reject c now seq ref_seq ref_msg_type msg_text =
     (let m1 = set_body (field_int REF_SEQ_NUM (as_i64 ref_seq)) (base c now ''3'' seq);
          m2 = (if ref_msg_type_applies c then set_body_opt REF_MSG_TYPE ref_msg_type m1 else m1)
      in set_body (mk_field TEXT msg_text) m2)"

definition reject_with_reason ::
  "session_config \<Rightarrow> datetime \<Rightarrow> nat \<Rightarrow> nat \<Rightarrow> bytes option \<Rightarrow> tag option \<Rightarrow> nat \<Rightarrow> bytes \<Rightarrow> message" where
  "reject_with_reason c now seq ref_seq ref_msg_type ref_tag reason_code msg_text =
     (let m1 = set_body (field_int REF_SEQ_NUM (as_i64 ref_seq)) (base c now ''3'' seq);
          m2 = (if ref_msg_type_applies c then set_body_opt REF_MSG_TYPE ref_msg_type m1 else m1);
          m3 = (case ref_tag of None \<Rightarrow> m2 | Some t \<Rightarrow> set_body (field_int REF_TAG_ID (int t)) m2);
          m4 = (if session_reject_reason_applies c reason_code
                then set_body (field_int SESSION_REJECT_REASON (int reason_code)) m3 else m3)
      in set_body (mk_field TEXT msg_text) m4)"

definition business_message_reject ::
  "session_config \<Rightarrow> datetime \<Rightarrow> nat \<Rightarrow> nat \<Rightarrow> bytes option \<Rightarrow> tag option \<Rightarrow> nat \<Rightarrow> bytes \<Rightarrow> message" where
  "business_message_reject c now seq ref_seq ref_msg_type ref_tag reason_code msg_text =
     (let m1 = set_body (field_int REF_SEQ_NUM (as_i64 ref_seq)) (base c now ''j'' seq);
          m2 = set_body_opt REF_MSG_TYPE ref_msg_type m1;
          m3 = (case ref_tag of None \<Rightarrow> m2 | Some t \<Rightarrow> set_body (field_int REF_TAG_ID (int t)) m2);
          m4 = set_body (field_int BUSINESS_REJECT_REASON (int reason_code)) m3
      in set_body (mk_field TEXT msg_text) m4)"

definition prepare_resend :: "session_config \<Rightarrow> datetime \<Rightarrow> message \<Rightarrow> message" where
  "prepare_resend c now original =
     (let orig_sending = get_str (m_header original) SENDING_TIME;
          m1 = set_header (mk_field POSS_DUP_FLAG ''Y'') original;
          m2 = set_header_opt ORIG_SENDING_TIME orig_sending m1
      in set_header (mk_field SENDING_TIME (sending_time c now)) m2)"

section \<open>What the builders leave on the wire\<close>

text \<open>The header of \<open>base\<close> written out, in the order the fields were set.\<close>

definition opt_member :: "tag \<Rightarrow> bytes option \<Rightarrow> field_map" where
  "opt_member t v = (case v of None \<Rightarrow> [] | Some s \<Rightarrow> [MField (mk_field t s)])"

lemma base_code [code]:
  "base c now mt seq =
     \<lparr>m_header = [MField (mk_field 8 (cfg_begin_string c)), MField (mk_field 35 mt), MField (mk_field 49 (cfg_sender_comp_id c))]
        @ opt_member 50 (cfg_sender_sub_id c) @ opt_member 142 (cfg_sender_location_id c)
        @ [MField (mk_field 56 (cfg_target_comp_id c))]
        @ opt_member 57 (cfg_target_sub_id c) @ opt_member 143 (cfg_target_location_id c)
        @ [MField (field_int 34 (as_i64 seq)), MField (mk_field 52 (sending_time c now))],
      m_body = [], m_trailer = [], m_out_of_order = False\<rparr>"
  by (cases "cfg_sender_sub_id c"; cases "cfg_sender_location_id c"; cases "cfg_target_sub_id c"; cases "cfg_target_location_id c")
     (simp_all add: base_def set_header_def set_header_opt_def new_message_def fm_set_def opt_member_def)

lemma set_header_opt_get:
  "fm_get (m_header (set_header_opt t v m)) k =
     (case v of None \<Rightarrow> fm_get (m_header m) k | Some s \<Rightarrow> if k = t then Some (mk_field t s) else fm_get (m_header m) k)"
  by (simp add: set_header_opt_def fm_get_set split: option.splits)

lemma set_body_opt_header [simp]: "m_header (set_body_opt t v m) = m_header m"
  by (simp add: set_body_opt_def split: option.splits)

lemma set_header_opt_body [simp]: "m_body (set_header_opt t v m) = m_body m"
  by (simp add: set_header_opt_def split: option.splits)

lemma fold_set_body_header [simp]: "m_header (fold (\<lambda>(t, v). set_body (mk_field t v)) ts m) = m_header m"
  by (induction ts arbitrary: m) auto

text \<open>The header fields every builder has in common.\<close>

lemma base_header:
  "fm_get (m_header (base c now mt seq)) 35 = Some (mk_field 35 mt)"
  "fm_get (m_header (base c now mt seq)) 34 = Some (field_int 34 (as_i64 seq))"
  "fm_get (m_header (base c now mt seq)) 43 = None"
  "fm_get (m_header (base c now mt seq)) 122 = None"
  "fm_get (m_header (base c now mt seq)) 369 = None"
  by (simp_all add: base_def Let_def set_header_opt_get fm_get_set new_message_def split: option.splits)

lemma builder_headers [simp]:
  "m_header (logon_with_reset_flag c now seq ne fl) = m_header (base c now ''A'' seq)"
  "m_header (logout c now seq tx) = m_header (base c now ''5'' seq)"
  "m_header (heartbeat c now seq i) = m_header (base c now ''0'' seq)"
  "m_header (test_request c now seq j) = m_header (base c now ''1'' seq)"
  "m_header (resend_request c now seq b e) = m_header (base c now ''2'' seq)"
  "m_header (admin_reject c now seq rs rt tx') = m_header (base c now ''3'' seq)"
  "m_header (reject_with_reason c now seq rs rt rg rc tx') = m_header (base c now ''3'' seq)"
  "m_header (business_message_reject c now seq rs rt rg rc tx') = m_header (base c now ''j'' seq)"
  by (auto simp: logon_with_reset_flag_def logout_def heartbeat_def test_request_def resend_request_def
      admin_reject_def reject_with_reason_def business_message_reject_def Let_def split: option.splits)

end
