(* ===== verification/Fix_Session.thy ===== *)
theory Fix_Session
  imports Fix_Validate Fix_Admin
begin

text \<open>
  The session engine (\<^verbatim>\<open>session/state.rs\<close>): a state machine that consumes events and returns actions.
  Every method takes the session it runs on and returns its result with the session afterwards. The
  current time \<open>now\<close> is the time of the event. Methods that validate a message return an option,
  \<open>None\<close> when validation does not return (see \<open>any_group_contains\<close>); all others are total.
\<close>

section \<open>State\<close>

datatype session_state = Disconnected | AwaitingLogon | LoggedOn | AwaitingLogout

datatype disconnect_reason = GracefulLogout | OtherReason

datatype event =
    Connected
  | Received message
  | Tick
  | StartLogout
  | Garbled
  | ConnectionLost disconnect_reason

datatype action =
    Send message
  | Resend message nat
  | Disconnect
  | ResetStore

datatype identity_problem = BeginStringProblem | CompIdProblem

fun identity_text :: "identity_problem \<Rightarrow> bytes" where
  "identity_text BeginStringProblem = ''Incorrect BeginString''"
| "identity_text CompIdProblem = ''CompID problem''"

record session_status =
  st_state :: session_state
  st_logged_on :: bool
  st_next_sender_seq :: nat
  st_next_target_seq :: nat

record session =
  s_config :: session_config
  s_id :: session_id
  s_state :: session_state
  s_next_out_seq :: nat
  s_next_in_seq :: nat
  s_ticks_since_send :: nat
  s_ticks_since_recv :: nat
  s_ticks_awaiting :: nat
  s_test_request_outstanding :: bool
  s_logon_sent :: bool
  s_logon_received :: bool
  s_resend_requested :: bool
  s_resend_target :: "nat option"
  s_resend_chunk_end :: "nat option"
  s_store :: "(nat, message) btree"
  s_queue :: "(nat, message) btree"
  s_validator :: "(data_dictionary \<times> validation_options) option"
  s_fixt_validator :: "(fixt_dictionaries \<times> validation_options) option"
  s_negotiated_appl_ver_id :: "bytes option"
  s_reset_on_logon_pending :: bool
  s_last_disconnect_reason :: "disconnect_reason option"

definition new_session :: "session_config \<Rightarrow> session" where
  "new_session c =
     \<lparr>s_config = c, s_id = config_session_id c, s_state = Disconnected, s_next_out_seq = 1,
      s_next_in_seq = 1, s_ticks_since_send = 0, s_ticks_since_recv = 0, s_ticks_awaiting = 0,
      s_test_request_outstanding = False, s_logon_sent = False, s_logon_received = False,
      s_resend_requested = False, s_resend_target = None, s_resend_chunk_end = None, s_store = [],
      s_queue = [], s_validator = None, s_fixt_validator = None, s_negotiated_appl_ver_id = None,
      s_reset_on_logon_pending = False, s_last_disconnect_reason = None\<rparr>"

definition set_dictionary :: "data_dictionary \<Rightarrow> validation_options \<Rightarrow> session \<Rightarrow> session" where
  "set_dictionary d opts s = s\<lparr>s_validator := Some (d, opts)\<rparr>"

definition set_fixt_dictionaries :: "fixt_dictionaries \<Rightarrow> validation_options \<Rightarrow> session \<Rightarrow> session" where
  "set_fixt_dictionaries ds opts s = s\<lparr>s_fixt_validator := Some (ds, opts)\<rparr>"

definition refresh_sequences :: "nat \<Rightarrow> nat \<Rightarrow> session \<Rightarrow> session" where
  "refresh_sequences next_out next_in s = s\<lparr>s_next_out_seq := max next_out 1, s_next_in_seq := max next_in 1\<rparr>"

definition seed_sequences :: "nat \<Rightarrow> nat \<Rightarrow> session \<Rightarrow> session" where
  "seed_sequences next_out next_in s =
     (if s_logon_sent s then s else s\<lparr>s_next_out_seq := max next_out 1, s_next_in_seq := max next_in 1\<rparr>)"

definition seed_sent_messages :: "(nat \<times> message) list \<Rightarrow> session \<Rightarrow> session" where
  "seed_sent_messages ms s =
     (if s_logon_sent s \<or> \<not> cfg_persist_messages (s_config s) then s
      else s\<lparr>s_store := fold (\<lambda>(q, m). bt_insert q m) ms (s_store s)\<rparr>)"

definition discard_sent :: "nat \<Rightarrow> session \<Rightarrow> session" where
  "discard_sent seq s = s\<lparr>s_store := bt_remove seq (s_store s)\<rparr>"

definition is_logged_on :: "session \<Rightarrow> bool" where
  "is_logged_on s \<longleftrightarrow> s_state s = LoggedOn"

definition session_status_of :: "session \<Rightarrow> session_status" where
  "session_status_of s =
     \<lparr>st_state = s_state s, st_logged_on = is_logged_on s, st_next_sender_seq = s_next_out_seq s,
      st_next_target_seq = s_next_in_seq s\<rparr>"

section \<open>Reading a message\<close>

definition is_admin_type :: "bytes option \<Rightarrow> bool" where
  "is_admin_type mt = (case mt of None \<Rightarrow> False | Some t \<Rightarrow> t \<in> {''0'', ''1'', ''2'', ''3'', ''4'', ''5'', ''A''})"

text \<open>\<^verbatim>\<open>header.get(34).and_then(as_int).filter(|&s| s > 0)\<close>, and the \<^verbatim>\<open>map_or(0, ..)\<close> form.\<close>

definition seq_num :: "message \<Rightarrow> nat option" where
  "seq_num msg = (case get_int (m_header msg) MSG_SEQ_NUM of
     Some i \<Rightarrow> if 0 < i then Some (nat i) else None | None \<Rightarrow> None)"

definition ref_seq_of :: "message \<Rightarrow> nat" where
  "ref_seq_of msg = (case seq_num msg of None \<Rightarrow> 0 | Some q \<Rightarrow> q)"

definition is_poss_dup :: "message \<Rightarrow> bool" where
  "is_poss_dup msg \<longleftrightarrow> get_str (m_header msg) POSS_DUP_FLAG = Some ''Y''"

definition is_gap_fill :: "message \<Rightarrow> bool" where
  "is_gap_fill msg \<longleftrightarrow> get_str (m_body msg) GAP_FILL_FLAG = Some ''Y''"

definition header_timestamp :: "ext \<Rightarrow> message \<Rightarrow> tag \<Rightarrow> datetime option" where
  "header_timestamp E msg t = Option.bind (fm_get (m_header msg) t) (\<lambda>f. ok (as_utc_timestamp E f))"

text \<open>Instants compare by date and time of day; both sides are UTC.\<close>

definition instant_key :: "datetime \<Rightarrow> (int \<times> nat \<times> nat) \<times> (nat \<times> nat \<times> nat \<times> nat)" where
  "instant_key dt = (date_key (dt_date dt), tod_key (dt_time dt))"

definition mk_reject :: "nat \<Rightarrow> tag option \<Rightarrow> bytes \<Rightarrow> reject" where
  "mk_reject reason ref_tag note_text =
     \<lparr>rj_reason = reason, rj_ref_tag = ref_tag, rj_text = Some note_text, rj_session_status = None\<rparr>"

definition late_orig_reject :: reject where
  "late_orig_reject = mk_reject 5 (Some ORIG_SENDING_TIME) ''OrigSendingTime is later than SendingTime on a PossDup message''"

definition poss_dup_falsification_check :: "ext \<Rightarrow> message \<Rightarrow> reject option" where
  "poss_dup_falsification_check E msg =
     (case header_timestamp E msg ORIG_SENDING_TIME of None \<Rightarrow> None | Some orig \<Rightarrow>
     (case header_timestamp E msg SENDING_TIME of None \<Rightarrow> None | Some st \<Rightarrow>
        if instant_key st < instant_key orig then Some late_orig_reject else None))"

definition poss_dup_anti_replay_violation :: "ext \<Rightarrow> message \<Rightarrow> session \<Rightarrow> reject option" where
  "poss_dup_anti_replay_violation E msg s =
     (case header_timestamp E msg ORIG_SENDING_TIME of
        Some orig \<Rightarrow>
          (case header_timestamp E msg SENDING_TIME of None \<Rightarrow> None
           | Some st \<Rightarrow> if instant_key st < instant_key orig then Some late_orig_reject else None)
      | None \<Rightarrow>
          if cfg_requires_orig_sending_time_on_low_seq (s_config s)
          then Some (mk_reject 1 (Some ORIG_SENDING_TIME) ''OrigSendingTime is required on a PossDup message'')
          else None)"

definition identity_problem_of :: "message \<Rightarrow> session \<Rightarrow> identity_problem option" where
  "identity_problem_of msg s =
     (let c = s_config s;
          differs = (\<lambda>t v. case get_str (m_header msg) t of None \<Rightarrow> False | Some x \<Rightarrow> x \<noteq> v)
      in if differs 8 (cfg_begin_string c) then Some BeginStringProblem
         else if cfg_check_comp_id c \<and> differs 49 (cfg_target_comp_id c) then Some CompIdProblem
         else if cfg_check_comp_id c \<and> differs 56 (cfg_sender_comp_id c) then Some CompIdProblem
         else None)"

definition latency_ok :: "ext \<Rightarrow> datetime \<Rightarrow> message \<Rightarrow> session \<Rightarrow> bool" where
  "latency_ok E now msg s =
     (if \<not> cfg_check_latency (s_config s) then True
      else (case fm_get (m_header msg) SENDING_TIME of
              None \<Rightarrow> True
            | Some f \<Rightarrow>
                (case as_utc_timestamp E f of
                   Inl _ \<Rightarrow> False
                 | Inr ts \<Rightarrow> \<bar>ext_whole_seconds E now ts\<bar> \<le> int (cfg_max_latency (s_config s)))))"

definition would_reject_before_processing :: "ext \<Rightarrow> datetime \<Rightarrow> message \<Rightarrow> session \<Rightarrow> bool" where
  "would_reject_before_processing E now msg s =
     (if \<not> latency_ok E now msg s then True
      else if identity_problem_of msg s \<noteq> None then True
      else if msg_type msg \<noteq> Some ''A'' \<and> msg_type msg \<noteq> Some ''4'' then
        (case seq_num msg of None \<Rightarrow> False | Some q \<Rightarrow> \<not> is_poss_dup msg \<and> q < s_next_in_seq s)
      else False)"

section \<open>Sending\<close>

definition hb :: "session \<Rightarrow> nat" where
  "hb s = max (cfg_heartbeat_interval (s_config s)) 1"

definition next_seq :: "session \<Rightarrow> nat \<times> session" where
  "next_seq s = (s_next_out_seq s, s\<lparr>s_next_out_seq := sat_add64 (s_next_out_seq s) 1\<rparr>)"

definition stamp_last_msg_seq_num_processed :: "session \<Rightarrow> message \<Rightarrow> message" where
  "stamp_last_msg_seq_num_processed s m =
     (if cfg_enable_last_msg_seq_num_processed (s_config s) \<and> fm_get (m_header m) 369 = None
      then set_header (field_int 369 (as_i64 (s_next_in_seq s - 1))) m else m)"

definition send_stored :: "message \<Rightarrow> session \<Rightarrow> action \<times> session" where
  "send_stored msg s =
     (let s1 = s\<lparr>s_ticks_since_send := 0\<rparr>;
          m = stamp_last_msg_seq_num_processed s1 msg
      in (Send m,
          if cfg_persist_messages (s_config s1) then
            (case seq_num m of None \<Rightarrow> s1 | Some q \<Rightarrow> s1\<lparr>s_store := bt_insert q m (s_store s1)\<rparr>)
          else s1))"

definition send_raw :: "message \<Rightarrow> session \<Rightarrow> action \<times> session" where
  "send_raw msg s =
     (let s1 = s\<lparr>s_ticks_since_send := 0\<rparr> in (Send (stamp_last_msg_seq_num_processed s1 msg), s1))"

definition send_logout :: "message \<Rightarrow> session \<Rightarrow> action \<times> session" where
  "send_logout msg s = send_raw msg s"

definition send_resend :: "message \<Rightarrow> nat \<Rightarrow> session \<Rightarrow> action \<times> session" where
  "send_resend msg seq s = (Resend msg seq, s\<lparr>s_ticks_since_send := 0\<rparr>)"

definition gap_fill :: "datetime \<Rightarrow> nat \<Rightarrow> nat \<Rightarrow> session \<Rightarrow> action \<times> session" where
  "gap_fill now from_seq new_seq_no s =
     (let m = sequence_reset (s_config s) now from_seq new_seq_no True;
          m' = (if cfg_enable_last_msg_seq_num_processed (s_config s)
                then set_header (field_int 369 (as_i64 (s_next_in_seq s))) m else m)
      in send_raw m' s)"

definition gap_fill_after_veto :: "datetime \<Rightarrow> nat \<Rightarrow> session \<Rightarrow> action \<times> session" where
  "gap_fill_after_veto now seq s = gap_fill now seq (sat_add64 seq 1) s"

definition send_app :: "datetime \<Rightarrow> message \<Rightarrow> session \<Rightarrow> action list \<times> session" where
  "send_app now msg s =
     (let (seq, s1) = next_seq s;
          c = s_config s1;
          m1 = set_header (mk_field 8 (cfg_begin_string c)) msg;
          m2 = set_header (mk_field 49 (cfg_sender_comp_id c)) m1;
          m3 = set_header (mk_field 56 (cfg_target_comp_id c)) m2;
          m4 = set_header (field_int MSG_SEQ_NUM (as_i64 seq)) m3;
          m5 = set_header (mk_field 52 (sending_time c now)) m4;
          (a, s2) = send_stored m5 s1
      in ([a], s2))"

section \<open>Resets\<close>

definition reset_sequences :: "bool \<Rightarrow> session \<Rightarrow> session" where
  "reset_sequences full s =
     (let s1 = s\<lparr>s_next_in_seq := 1, s_queue := [], s_resend_requested := False, s_resend_target := None,
                s_resend_chunk_end := None, s_test_request_outstanding := False\<rparr>
      in if full then s1\<lparr>s_next_out_seq := 1, s_store := []\<rparr> else s1)"

definition reset :: "session \<Rightarrow> session" where
  "reset s = (reset_sequences True s)\<lparr>s_logon_sent := False\<rparr>"

definition reset_on_error :: "session \<Rightarrow> action list \<times> session" where
  "reset_on_error s =
     (if \<not> cfg_reset_on_error (s_config s) then ([], s)
      else ([ResetStore], (reset_sequences True s)\<lparr>s_logon_sent := False\<rparr>))"

definition enter_disconnected :: "disconnect_reason \<Rightarrow> session \<Rightarrow> action list \<times> session" where
  "enter_disconnected reason s =
     (let s1 = s\<lparr>s_state := Disconnected, s_last_disconnect_reason := Some reason\<rparr>;
          should_reset = (case reason of GracefulLogout \<Rightarrow> cfg_reset_on_logout (s_config s1)
                          | OtherReason \<Rightarrow> cfg_reset_on_disconnect (s_config s1))
      in if should_reset then ([ResetStore], (reset_sequences True s1)\<lparr>s_logon_sent := False\<rparr>)
         else ([], s1))"

section \<open>Refusing\<close>

definition reject_logon :: "datetime \<Rightarrow> reject \<Rightarrow> session \<Rightarrow> action list \<times> session" where
  "reject_logon now rj s =
     (let (seq, s1) = next_seq s;
          lo = logout (s_config s1) now seq (rj_text rj);
          lo' = (case rj_session_status rj of None \<Rightarrow> lo
                 | Some status \<Rightarrow> set_body (field_int SESSION_STATUS (int status)) lo);
          (a, s2) = send_logout lo' (s1\<lparr>s_state := Disconnected\<rparr>)
      in ([a, Disconnect], s2))"

definition business_reject_app :: "datetime \<Rightarrow> message \<Rightarrow> business_reject \<Rightarrow> session \<Rightarrow> action \<times> session" where
  "business_reject_app now original rj s =
     (let (seq, s1) = next_seq s;
          m = business_message_reject (s_config s1) now seq (ref_seq_of original) (msg_type original)
                (br_ref_tag rj) (br_reason rj) (case br_text rj of None \<Rightarrow> [] | Some t \<Rightarrow> t)
      in send_stored (reverse_route original m) s1)"

definition build_session_reject :: "datetime \<Rightarrow> message \<Rightarrow> reject \<Rightarrow> session \<Rightarrow> action \<times> session" where
  "build_session_reject now msg rj s =
     (let (seq, s1) = next_seq s;
          m = reject_with_reason (s_config s1) now seq (ref_seq_of msg) (msg_type msg) (rj_ref_tag rj)
                (rj_reason rj) (case rj_text rj of None \<Rightarrow> [] | Some t \<Rightarrow> t)
      in send_stored m s1)"

definition session_reject_before_logout :: "datetime \<Rightarrow> message \<Rightarrow> reject \<Rightarrow> session \<Rightarrow> action list \<times> session" where
  "session_reject_before_logout now msg rj s =
     (let (a, s1) = build_session_reject now msg rj s; (as, s2) = reject_logon now rj s1 in (a # as, s2))"

text \<open>
  The tail shared by the hard failures of \<^verbatim>\<open>on_received\<close>: a Logout with a text, the
  \<^verbatim>\<open>ResetOnError\<close> reset, and the disconnect.
\<close>

definition logout_and_disconnect :: "datetime \<Rightarrow> bytes \<Rightarrow> session \<Rightarrow> action list \<times> session" where
  "logout_and_disconnect now note_text s =
     (let (seq, s1) = next_seq s;
          lo = logout (s_config s1) now seq (Some note_text);
          (a, s2) = send_logout lo (s1\<lparr>s_state := Disconnected\<rparr>);
          (ra, s3) = reset_on_error s2
      in (a # ra @ [Disconnect], s3))"

definition on_garbled :: "datetime \<Rightarrow> session \<Rightarrow> action list \<times> session" where
  "on_garbled now s =
     (if \<not> cfg_reject_garbled_message (s_config s) \<or> s_state s \<noteq> LoggedOn then ([], s)
      else (let (seq, s1) = next_seq s;
                (a, s2) = send_stored (reject_with_reason (s_config s1) now seq 0 None None 0 ''garbled message'') s1
            in ([a], s2)))"

section \<open>Resending\<close>

text \<open>
  \<^verbatim>\<open>begin + chunk - 1\<close> is unchecked \<^verbatim>\<open>u64\<close> arithmetic, written with its wrap-around.
\<close>

definition request_resend :: "datetime \<Rightarrow> nat \<Rightarrow> session \<Rightarrow> action \<times> session" where
  "request_resend now bgn s =
     (let chunk = cfg_resend_request_chunk_size (s_config s);
          capped = (bgn + chunk - 1) mod u64_size;
          ce = (if 0 < chunk then Some (case s_resend_target s of None \<Rightarrow> capped | Some t \<Rightarrow> min t capped) else None);
          en = (case ce of None \<Rightarrow> 0 | Some e \<Rightarrow> e);
          (seq, s1) = next_seq (s\<lparr>s_resend_chunk_end := ce\<rparr>)
      in send_stored (resend_request (s_config s1) now seq bgn en) s1)"

definition maybe_continue_chunked_resend :: "datetime \<Rightarrow> session \<Rightarrow> action list \<times> session" where
  "maybe_continue_chunked_resend now s =
     (case s_resend_target s of
        None \<Rightarrow> ([], s)
      | Some target \<Rightarrow>
          if target < s_next_in_seq s then ([], s\<lparr>s_resend_target := None, s_resend_chunk_end := None\<rparr>)
          else (case s_resend_chunk_end s of
                  Some chunk_end \<Rightarrow>
                    if chunk_end < s_next_in_seq s
                    then (let (a, s1) = request_resend now (s_next_in_seq s) s in ([a], s1))
                    else ([], s)
                | None \<Rightarrow> ([], s)))"

text \<open>
  The loop of \<^verbatim>\<open>build_resend\<close> over the sequence numbers; \<open>gap_start\<close> is the start of the run of
  numbers that are not resent. The upper bound is at most \<^verbatim>\<open>next_out_seq - 1\<close>, so the saturating
  increment of the counter never sticks.
\<close>

fun resend_loop :: "datetime \<Rightarrow> nat list \<Rightarrow> nat option \<Rightarrow> session \<Rightarrow> action list \<times> nat option \<times> session" where
  "resend_loop now [] gap_start s = ([], gap_start, s)"
| "resend_loop now (seq # seqs) gap_start s =
     (case bt_get (s_store s) seq of
        Some m \<Rightarrow>
          if \<not> is_admin_type (msg_type m) \<or> cfg_force_resend_when_corrupted_store (s_config s) then
            (let (ga, s1) = (case gap_start of None \<Rightarrow> ([], s) | Some gs \<Rightarrow> (let (a, s') = gap_fill now gs seq s in ([a], s')));
                 (ra, s2) = send_resend (prepare_resend (s_config s1) now m) seq s1;
                 (as, g, s3) = resend_loop now seqs None s2
             in (ga @ ra # as, g, s3))
          else resend_loop now seqs (case gap_start of None \<Rightarrow> Some seq | Some gs \<Rightarrow> Some gs) s
      | None \<Rightarrow> resend_loop now seqs (case gap_start of None \<Rightarrow> Some seq | Some gs \<Rightarrow> Some gs) s)"

definition build_resend :: "datetime \<Rightarrow> nat \<Rightarrow> nat \<Rightarrow> session \<Rightarrow> action list \<times> session" where
  "build_resend now bgn en s =
     (let (as, gap_start, s1) = resend_loop now [bgn..<Suc en] None s
      in case gap_start of
           None \<Rightarrow> (as, s1)
         | Some gs \<Rightarrow> (let (a, s2) = gap_fill now gs (sat_add64 en 1) s1 in (as @ [a], s2)))"

definition body_nonneg :: "message \<Rightarrow> tag \<Rightarrow> nat option" where
  "body_nonneg msg t = (case get_int (m_body msg) t of Some i \<Rightarrow> if 0 \<le> i then Some (nat i) else None | None \<Rightarrow> None)"

definition on_resend_request :: "datetime \<Rightarrow> message \<Rightarrow> session \<Rightarrow> action list \<times> session" where
  "on_resend_request now msg s =
     (case find (\<lambda>t. fm_get (m_body msg) t = None) [BEGIN_SEQ_NO, END_SEQ_NO] of
        Some t \<Rightarrow>
          (let (seq, s1) = next_seq s;
               rej = reject_with_reason (s_config s1) now seq (ref_seq_of msg) (msg_type msg) (Some t) 1 ''required tag missing'';
               (a, s2) = send_stored rej s1
           in ([a], s2))
      | None \<Rightarrow>
          (let bgn = (case body_nonneg msg BEGIN_SEQ_NO of None \<Rightarrow> 0 | Some n \<Rightarrow> if n = 0 then 1 else n);
               end_req = (case body_nonneg msg END_SEQ_NO of None \<Rightarrow> 0 | Some n \<Rightarrow> n);
               lst = s_next_out_seq s - 1;
               legacy_infinity = (end_req = 999999 \<and>
                 (case fix_version (cfg_begin_string (s_config s)) of None \<Rightarrow> False
                  | Some (major, minor) \<Rightarrow> major < 4 \<or> (major = 4 \<and> minor \<le> 2)));
               en = (if end_req = 0 \<or> lst < end_req \<or> legacy_infinity then lst else end_req)
           in if bgn = 0 \<or> en < bgn then ([], s) else build_resend now bgn en s))"

section \<open>Processing in order\<close>

definition answer_test_request :: "datetime \<Rightarrow> message \<Rightarrow> session \<Rightarrow> action list \<times> session" where
  "answer_test_request now msg s =
     (if s_state s \<noteq> LoggedOn then ([], s)
      else (let i = get_str (m_body msg) TEST_REQ_ID;
                (seq, s1) = next_seq s;
                (a, s2) = send_stored (reverse_route msg (heartbeat (s_config s1) now seq i)) s1
            in ([a], s2)))"

definition on_logout_msg :: "datetime \<Rightarrow> session \<Rightarrow> action list \<times> session" where
  "on_logout_msg now s =
     (if s_state s = AwaitingLogout then
        (let (ra, s1) = enter_disconnected GracefulLogout s in (ra @ [Disconnect], s1))
      else (let (seq, s1) = next_seq s;
                (a, s2) = send_logout (logout (s_config s1) now seq None) s1;
                (ra, s3) = enter_disconnected GracefulLogout s2
            in (a # ra @ [Disconnect], s3)))"

definition process_in_order :: "datetime \<Rightarrow> message \<Rightarrow> bytes option \<Rightarrow> session \<Rightarrow> action list \<times> session" where
  "process_in_order now msg mt s =
     (if mt = Some ''1'' then answer_test_request now msg s
      else if mt = Some ''2'' then on_resend_request now msg s
      else if mt = Some ''5'' then on_logout_msg now s
      else ([], s))"

text \<open>\<^verbatim>\<open>dict.validate(..).err()\<close> on the dictionary that applies to the message, if one does.\<close>

definition appl_ver_id_of :: "message \<Rightarrow> session \<Rightarrow> bytes option" where
  "appl_ver_id_of msg s =
     (case get_str (m_header msg) APPL_VER_ID of Some v \<Rightarrow> Some v | None \<Rightarrow> s_negotiated_appl_ver_id s)"

definition applicable_dictionary :: "message \<Rightarrow> session \<Rightarrow> (data_dictionary \<times> validation_options) option" where
  "applicable_dictionary msg s =
     (case s_fixt_validator s of
        Some (dicts, opts) \<Rightarrow>
          if is_admin_type (msg_type msg) then Some (fx_transport dicts, opts)
          else map_option (\<lambda>d. (d, opts)) (application_for dicts (appl_ver_id_of msg s))
      | None \<Rightarrow> s_validator s)"

definition dictionary_error :: "ext \<Rightarrow> message \<Rightarrow> session \<Rightarrow> validation_error option option" where
  "dictionary_error E msg s =
     (case applicable_dictionary msg s of
        None \<Rightarrow> Some None
      | Some (d, opts) \<Rightarrow> map_option (\<lambda>v. case v of Inl e \<Rightarrow> Some e | Inr _ \<Rightarrow> None) (validate E d opts msg))"

definition reject_invalid :: "datetime \<Rightarrow> message \<Rightarrow> validation_error \<Rightarrow> session \<Rightarrow> action \<times> session" where
  "reject_invalid now msg e s =
     (let (seq, s1) = next_seq s;
          build = (if ve_business e then business_message_reject else reject_with_reason);
          m = build (s_config s1) now seq (ref_seq_of msg) (msg_type msg) (ve_ref_tag e)
                (reject_code (ve_reason e)) (ve_text e)
      in send_stored (reverse_route msg m) s1)"

definition validate_app :: "ext \<Rightarrow> datetime \<Rightarrow> message \<Rightarrow> session \<Rightarrow> (action option \<times> session) option" where
  "validate_app E now msg s =
     map_option (\<lambda>r. case r of None \<Rightarrow> (None, s) | Some e \<Rightarrow> (let (a, s1) = reject_invalid now msg e s in (Some a, s1)))
       (dictionary_error E msg s)"

definition restructure_fixt_application_body :: "message \<Rightarrow> session \<Rightarrow> message" where
  "restructure_fixt_application_body msg s =
     (case s_fixt_validator s of
        None \<Rightarrow> msg
      | Some (dicts, _) \<Rightarrow>
          if is_admin_type (msg_type msg) then msg
          else (case application_for dicts (appl_ver_id_of msg s) of
                  None \<Rightarrow> msg
                | Some d \<Rightarrow>
                    (case restructure_groups (m_body msg) (group_of d) of
                       Inl _ \<Rightarrow> msg
                     | Inr b \<Rightarrow> msg\<lparr>m_body := b\<rparr>)))"

section \<open>The gap queue\<close>

definition bump_in :: "session \<Rightarrow> session" where
  "bump_in s = s\<lparr>s_next_in_seq := sat_add64 (s_next_in_seq s) 1\<rparr>"

definition apply_gap_fill_new_seq :: "nat option \<Rightarrow> session \<Rightarrow> session" where
  "apply_gap_fill_new_seq new_seq s =
     (case new_seq of
        None \<Rightarrow> s
      | Some ns \<Rightarrow>
          if s_next_in_seq s \<le> ns
          then s\<lparr>s_next_in_seq := ns, s_queue := bt_retain (\<lambda>q. ns \<le> q) (s_queue s)\<rparr>
          else s)"

definition body_positive :: "message \<Rightarrow> tag \<Rightarrow> nat option" where
  "body_positive msg t = (case get_int (m_body msg) t of Some i \<Rightarrow> if 0 < i then Some (nat i) else None | None \<Rightarrow> None)"

text \<open>
  What follows a failed validation: the \<^verbatim>\<open>ResetOnError\<close> reset, and with \<^verbatim>\<open>DisconnectOnError\<close> a Logout
  and the disconnect. The flag says whether the session disconnected.
\<close>

definition validation_failed :: "datetime \<Rightarrow> session \<Rightarrow> action list \<times> bool \<times> session" where
  "validation_failed now s =
     (let (ra, s1) = reset_on_error s
      in if cfg_disconnect_on_error (s_config s1) then
           (let (seq, s2) = next_seq s1;
                (a, s3) = send_logout (logout (s_config s2) now seq (Some ''application message failed validation'')) s2
            in (ra @ [a, Disconnect], True, s3\<lparr>s_state := Disconnected\<rparr>))
         else (ra, False, s1))"

section \<open>Sending touches only the outbound side\<close>

text \<open>The sessions that differ at most in the outbound counter, the send timer and the sent messages.\<close>

definition out_only :: "session \<Rightarrow> session \<Rightarrow> bool" where
  "out_only s s' \<longleftrightarrow>
     s' = s\<lparr>s_next_out_seq := s_next_out_seq s', s_ticks_since_send := s_ticks_since_send s', s_store := s_store s'\<rparr>"

lemma out_only_refl [intro, simp]: "out_only s s"
  by (simp add: out_only_def)

lemma out_only_eqs:
  assumes "out_only s s'"
  shows "s_config s' = s_config s" "s_state s' = s_state s" "s_next_in_seq s' = s_next_in_seq s"
    "s_queue s' = s_queue s" "s_resend_requested s' = s_resend_requested s" "s_resend_target s' = s_resend_target s"
    "s_resend_chunk_end s' = s_resend_chunk_end s" "s_logon_sent s' = s_logon_sent s"
    "s_logon_received s' = s_logon_received s" "s_validator s' = s_validator s" "s_fixt_validator s' = s_fixt_validator s"
    "s_negotiated_appl_ver_id s' = s_negotiated_appl_ver_id s" "s_ticks_awaiting s' = s_ticks_awaiting s"
    "s_ticks_since_recv s' = s_ticks_since_recv s" "s_test_request_outstanding s' = s_test_request_outstanding s"
    "s_reset_on_logon_pending s' = s_reset_on_logon_pending s" "s_last_disconnect_reason s' = s_last_disconnect_reason s"
  by (subst assms [unfolded out_only_def], simp)+

lemma out_only_trans: "out_only a b \<Longrightarrow> out_only b c \<Longrightarrow> out_only a c"
  by (cases a; cases b; cases c) (simp add: out_only_def)

lemma out_only_next_seq: "next_seq s = (q, s') \<Longrightarrow> out_only s s'"
  by (auto simp: next_seq_def out_only_def)

lemma out_only_send_stored: "send_stored m s = (a, s') \<Longrightarrow> out_only s s'"
  by (auto simp: send_stored_def out_only_def Let_def split: if_splits option.splits)

lemma out_only_send_raw: "send_raw m s = (a, s') \<Longrightarrow> out_only s s'"
  by (auto simp: send_raw_def out_only_def Let_def)

lemma out_only_send_logout: "send_logout m s = (a, s') \<Longrightarrow> out_only s s'"
  by (simp add: send_logout_def out_only_send_raw)

lemma out_only_send_resend: "send_resend m q s = (a, s') \<Longrightarrow> out_only s s'"
  by (auto simp: send_resend_def out_only_def)

lemma out_only_gap_fill: "gap_fill now f n s = (a, s') \<Longrightarrow> out_only s s'"
  by (auto simp: gap_fill_def Let_def dest: out_only_send_raw)

lemmas out_only_sends = out_only_next_seq out_only_send_stored out_only_send_raw out_only_send_logout
  out_only_send_resend out_only_gap_fill

lemma out_only_resend_loop: "resend_loop now qs g s = (as, g', s') \<Longrightarrow> out_only s s'"
proof (induction qs arbitrary: g s as)
  case (Cons q qs)
  show ?case
  proof (cases "bt_get (s_store s) q")
    case None
    then show ?thesis using Cons by auto
  next
    case (Some m)
    show ?thesis
    proof (cases "\<not> is_admin_type (msg_type m) \<or> cfg_force_resend_when_corrupted_store (s_config s)")
      case True
      obtain ga s1 where ga: "(case g of None \<Rightarrow> ([], s) | Some gs \<Rightarrow> (let (a, s') = gap_fill now gs q s in ([a], s'))) = (ga, s1)"
        by (cases "case g of None \<Rightarrow> ([], s) | Some gs \<Rightarrow> (let (a, s') = gap_fill now gs q s in ([a], s'))") auto
      then have "out_only s s1" by (auto simp: Let_def split: option.splits prod.splits dest: out_only_gap_fill)
      moreover obtain ra s2 where ra: "send_resend (prepare_resend (s_config s1) now m) q s1 = (ra, s2)"
        by (cases "send_resend (prepare_resend (s_config s1) now m) q s1")
      moreover obtain bs where "resend_loop now qs None s2 = (bs, g', s')"
        using Cons.prems Some True ga ra by (auto split: prod.splits)
      ultimately show ?thesis using Cons.IH out_only_send_resend out_only_trans by meson
    next
      case False
      then show ?thesis using Cons Some by auto
    qed
  qed
qed simp

lemma out_only_build_resend: "build_resend now b e s = (as, s') \<Longrightarrow> out_only s s'"
  by (auto simp: build_resend_def Let_def split: prod.splits option.splits
      dest!: out_only_resend_loop out_only_gap_fill intro: out_only_trans)

lemma out_only_on_resend_request: "on_resend_request now msg s = (as, s') \<Longrightarrow> out_only s s'"
  by (auto simp: on_resend_request_def Let_def split: prod.splits option.splits if_splits
      dest!: out_only_sends out_only_build_resend intro: out_only_trans)

lemma out_only_answer_test_request: "answer_test_request now msg s = (as, s') \<Longrightarrow> out_only s s'"
  by (auto simp: answer_test_request_def Let_def split: prod.splits if_splits
      dest!: out_only_sends intro: out_only_trans)

lemma out_only_reject_invalid: "reject_invalid now msg e s = (a, s') \<Longrightarrow> out_only s s'"
  by (auto simp: reject_invalid_def Let_def split: prod.splits dest!: out_only_sends intro: out_only_trans)

lemma out_only_validate_app: "validate_app E now msg s = Some (r, s') \<Longrightarrow> out_only s s'"
proof -
  have "out_only s (snd (reject_invalid now msg e s))" for e
    by (rule out_only_reject_invalid [of now msg e s "fst (reject_invalid now msg e s)"]) simp
  then show "validate_app E now msg s = Some (r, s') \<Longrightarrow> out_only s s'"
    by (auto simp: validate_app_def Let_def split_def split: option.splits)
qed

lemma out_only_build_session_reject: "build_session_reject now msg rj s = (a, s') \<Longrightarrow> out_only s s'"
  by (auto simp: build_session_reject_def Let_def split: prod.splits dest!: out_only_sends intro: out_only_trans)

section \<open>Draining the queue\<close>

lemma reset_queue: "s_queue (reset_sequences full s) = []"
  by (simp add: reset_sequences_def Let_def)

lemma reset_on_error_queue: "reset_on_error s = (ra, s') \<Longrightarrow> length (s_queue s') \<le> length (s_queue s)"
  by (auto simp: reset_on_error_def reset_queue split: if_splits)

lemma enter_disconnected_queue: "enter_disconnected r s = (ra, s') \<Longrightarrow> length (s_queue s') \<le> length (s_queue s)"
  by (auto simp: enter_disconnected_def Let_def reset_queue split: if_splits)

lemma on_logout_msg_queue: "on_logout_msg now s = (as, s') \<Longrightarrow> length (s_queue s') \<le> length (s_queue s)"
  by (fastforce simp: on_logout_msg_def Let_def split: prod.splits if_splits
      dest!: enter_disconnected_queue out_only_sends dest: out_only_eqs(4))

lemma process_in_order_queue: "process_in_order now msg mt s = (as, s') \<Longrightarrow> length (s_queue s') \<le> length (s_queue s)"
  by (auto simp: process_in_order_def split: if_splits
      dest!: on_logout_msg_queue out_only_answer_test_request out_only_on_resend_request dest: out_only_eqs(4))

lemma apply_gap_fill_queue: "length (s_queue (apply_gap_fill_new_seq n s)) \<le> length (s_queue s)"
  by (simp add: apply_gap_fill_new_seq_def length_bt_retain split: option.splits)

lemma validation_failed_queue: "validation_failed now s = (as, b, s') \<Longrightarrow> length (s_queue s') \<le> length (s_queue s)"
  by (fastforce simp: validation_failed_def Let_def split: prod.splits if_splits
      dest!: reset_on_error_queue out_only_sends dest: out_only_eqs(4))

text \<open>Every way around the loop starts by removing an entry and never adds one.\<close>

abbreviation dequeue :: "session \<Rightarrow> session" where
  "dequeue s \<equiv> s\<lparr>s_queue := bt_remove (s_next_in_seq s) (s_queue s)\<rparr>"

lemma drain_gap_fill_shrinks:
  "bt_get (s_queue s) (s_next_in_seq s) = Some msg \<Longrightarrow>
   length (s_queue (apply_gap_fill_new_seq n (dequeue s))) < length (s_queue s)"
  using length_bt_remove [of "s_queue s"] apply_gap_fill_queue [of n "dequeue s"] by (simp add: le_less_trans)

lemma drain_failed_shrinks:
  assumes "bt_get (s_queue s) (s_next_in_seq s) = Some msg" "validate_app E now msg (dequeue s) = Some (r, s2)"
    and "(fa, dd, s3) = validation_failed now (bump_in s2)"
  shows "length (s_queue s3) < length (s_queue s)"
  using length_bt_remove [OF assms(1)] out_only_eqs(4) [OF out_only_validate_app [OF assms(2)]]
    validation_failed_queue [OF assms(3) [symmetric]]
  by (simp add: bump_in_def)

lemma drain_ok_shrinks:
  assumes "bt_get (s_queue s) (s_next_in_seq s) = Some msg" "validate_app E now msg (dequeue s) = Some (r, s2)"
    and "(pa, s3) = (if b then process_in_order now msg mt s2 else ([], s2))"
  shows "length (s_queue (bump_in s3)) < length (s_queue s)"
proof -
  have "length (s_queue s3) \<le> length (s_queue s2)"
    using assms(3) process_in_order_queue [of now msg mt s2 pa s3] by (cases b) auto
  then show ?thesis
    using length_bt_remove [OF assms(1)] out_only_eqs(4) [OF out_only_validate_app [OF assms(2)]]
    by (simp add: bump_in_def)
qed

function drain_loop :: "ext \<Rightarrow> datetime \<Rightarrow> session \<Rightarrow> (action list \<times> bool \<times> session) option" where
  "drain_loop E now s =
     (case bt_get (s_queue s) (s_next_in_seq s) of
        None \<Rightarrow> Some ([], False, s)
      | Some msg \<Rightarrow>
          (let s1 = s\<lparr>s_queue := bt_remove (s_next_in_seq s) (s_queue s)\<rparr> in
           if msg_type msg = Some ''4'' then
             drain_loop E now (apply_gap_fill_new_seq (body_positive msg NEW_SEQ_NO) s1)
           else
             (case validate_app E now msg s1 of
                None \<Rightarrow> None
              | Some (Some rej, s2) \<Rightarrow>
                  (case validation_failed now (bump_in s2) of
                     (fa, disconnected, s3) \<Rightarrow>
                       if disconnected then Some (rej # fa, True, s3)
                       else map_option (\<lambda>(as, early, s'). (rej # fa @ as, early, s')) (drain_loop E now s3))
              | Some (None, s2) \<Rightarrow>
                  (case (if msg_type msg \<noteq> Some ''2'' then process_in_order now msg (msg_type msg) s2 else ([], s2)) of
                     (pa, s3) \<Rightarrow>
                       map_option (\<lambda>(as, early, s'). (pa @ as, early, s')) (drain_loop E now (bump_in s3))))))"
  by pat_completeness auto
termination
  by (relation "measure (\<lambda>(E, now, s). length (s_queue s))")
     (auto simp: drain_gap_fill_shrinks dest: drain_ok_shrinks drain_failed_shrinks)

declare drain_loop.simps [simp del]

text \<open>Induction over the passes of a drain that returns.\<close>

lemma drain_loop_induct [consumes 1, case_names empty fill stop failed good]:
  assumes "drain_loop E now s = Some (as, early, s')"
    and empty: "\<And>s. bt_get (s_queue s) (s_next_in_seq s) = None \<Longrightarrow> P s [] False s"
    and fill: "\<And>s msg as early s'. bt_get (s_queue s) (s_next_in_seq s) = Some msg \<Longrightarrow> msg_type msg = Some ''4''
        \<Longrightarrow> P (apply_gap_fill_new_seq (body_positive msg NEW_SEQ_NO) (dequeue s)) as early s' \<Longrightarrow> P s as early s'"
    and stop: "\<And>s msg rej s2 fa s3. bt_get (s_queue s) (s_next_in_seq s) = Some msg \<Longrightarrow> msg_type msg \<noteq> Some ''4''
        \<Longrightarrow> validate_app E now msg (dequeue s) = Some (Some rej, s2) \<Longrightarrow> validation_failed now (bump_in s2) = (fa, True, s3)
        \<Longrightarrow> P s (rej # fa) True s3"
    and failed: "\<And>s msg rej s2 fa s3 as early s'. bt_get (s_queue s) (s_next_in_seq s) = Some msg \<Longrightarrow> msg_type msg \<noteq> Some ''4''
        \<Longrightarrow> validate_app E now msg (dequeue s) = Some (Some rej, s2) \<Longrightarrow> validation_failed now (bump_in s2) = (fa, False, s3)
        \<Longrightarrow> P s3 as early s' \<Longrightarrow> P s (rej # fa @ as) early s'"
    and good: "\<And>s msg s2 pa s3 as early s'. bt_get (s_queue s) (s_next_in_seq s) = Some msg \<Longrightarrow> msg_type msg \<noteq> Some ''4''
        \<Longrightarrow> validate_app E now msg (dequeue s) = Some (None, s2)
        \<Longrightarrow> (if msg_type msg \<noteq> Some ''2'' then process_in_order now msg (msg_type msg) s2 else ([], s2)) = (pa, s3)
        \<Longrightarrow> P (bump_in s3) as early s' \<Longrightarrow> P s (pa @ as) early s'"
  shows "P s as early s'"
  using assms(1)
proof (induction "length (s_queue s)" arbitrary: s as rule: less_induct)
  case less
  show ?case
  proof (cases "bt_get (s_queue s) (s_next_in_seq s)")
    case None
    then show ?thesis using less.prems empty by (simp add: drain_loop.simps)
  next
    case (Some msg)
    show ?thesis
    proof (cases "msg_type msg = Some ''4''")
      case True
      then show ?thesis
        using less.prems Some less.hyps [OF drain_gap_fill_shrinks [OF Some]] fill [OF Some True] by (simp add: drain_loop.simps [of E now s])
    next
      case False
      then obtain r s2 where v: "validate_app E now msg (dequeue s) = Some (r, s2)"
        using less.prems Some by (auto simp: drain_loop.simps [of E now s] split: option.splits)
      show ?thesis
      proof (cases r)
        case None
        obtain pa s3 where pa: "(if msg_type msg \<noteq> Some ''2'' then process_in_order now msg (msg_type msg) s2 else ([], s2)) = (pa, s3)"
          using prod.exhaust by blast
        obtain bs where bs: "drain_loop E now (bump_in s3) = Some (bs, early, s')" "as = pa @ bs"
          using less.prems Some False v None pa by (auto simp: drain_loop.simps [of E now s])
        show ?thesis
          using good [OF Some False v [unfolded None] pa less.hyps [OF drain_ok_shrinks [OF Some v pa [symmetric]] bs(1)]] bs(2) by simp
      next
        case rej: (Some rej)
        obtain fa d s3 where fa: "validation_failed now (bump_in s2) = (fa, d, s3)" using prod_cases3 by blast
        show ?thesis
        proof (cases d)
          case True
          then show ?thesis using less.prems Some False v rej fa stop [OF Some False v [unfolded rej]]
            by (auto simp: drain_loop.simps [of E now s])
        next
          case nd: False
          obtain bs where bs: "drain_loop E now s3 = Some (bs, early, s')" "as = rej # fa @ bs"
            using less.prems Some False v rej fa nd by (auto simp: drain_loop.simps [of E now s])
          show ?thesis
            using failed [OF Some False v [unfolded rej] _ less.hyps [OF drain_failed_shrinks [OF Some v fa [symmetric]] bs(1)]]
              fa nd bs(2) by simp
        qed
      qed
    qed
  qed
qed

definition drain_queue :: "ext \<Rightarrow> datetime \<Rightarrow> session \<Rightarrow> (action list \<times> session) option" where
  "drain_queue E now s =
     map_option (\<lambda>(as, early, s1).
       if early then (as, s1)
       else (let s2 = (if s_queue s1 = [] then s1\<lparr>s_resend_requested := False\<rparr> else s1);
                 (ca, s3) = maybe_continue_chunked_resend now s2
             in (as @ ca, s3)))
       (drain_loop E now s)"

section \<open>Sequence resets\<close>

definition reject_new_seq_no :: "datetime \<Rightarrow> message \<Rightarrow> nat \<Rightarrow> bytes \<Rightarrow> session \<Rightarrow> action list \<times> session" where
  "reject_new_seq_no now msg reason note_text s =
     (let (seq, s1) = next_seq s;
          (a, s2) = send_stored (reject_with_reason (s_config s1) now seq (ref_seq_of msg) (msg_type msg)
                      (Some NEW_SEQ_NO) reason note_text) s1
      in ([a], s2))"

definition on_sequence_reset :: "ext \<Rightarrow> datetime \<Rightarrow> message \<Rightarrow> session \<Rightarrow> (action list \<times> session) option" where
  "on_sequence_reset E now msg s =
     (case validate_app E now msg s of
        None \<Rightarrow> None
      | Some (Some rej, s1) \<Rightarrow>
          (let s2 = (if seq_num msg = Some (s_next_in_seq s1) then bump_in s1 else s1);
               (fa, disconnected, s3) = validation_failed now s2
           in Some (rej # fa, s3))
      | Some (None, s1) \<Rightarrow>
          if fm_get (m_body msg) NEW_SEQ_NO = None
            then Some (reject_new_seq_no now msg 1 ''NewSeqNo is missing'' s1)
          else if \<not> is_gap_fill msg then
            (case body_nonneg msg NEW_SEQ_NO of
               Some ns \<Rightarrow>
                 if ns < s_next_in_seq s1 then Some (reject_new_seq_no now msg 5 ''NewSeqNo is decreasing'' s1)
                 else drain_queue E now (s1\<lparr>s_next_in_seq := ns, s_queue := bt_retain (\<lambda>q. ns \<le> q) (s_queue s1)\<rparr>)
             | None \<Rightarrow> drain_queue E now s1)
          else drain_queue E now (apply_gap_fill_new_seq (body_nonneg msg NEW_SEQ_NO) s1))"

section \<open>Messages out of sequence\<close>

text \<open>The common part of the two too-high arms: queue, remember the extent of the gap, ask once.\<close>

definition raise_target :: "nat \<Rightarrow> session \<Rightarrow> session" where
  "raise_target seq s =
     (if 0 < cfg_resend_request_chunk_size (s_config s)
      then s\<lparr>s_resend_target := Some (case s_resend_target s of None \<Rightarrow> seq | Some t \<Rightarrow> max t seq)\<rparr> else s)"

definition enqueue_too_high :: "datetime \<Rightarrow> nat \<Rightarrow> message \<Rightarrow> session \<Rightarrow> action list \<times> session" where
  "enqueue_too_high now seq msg s =
     (let s1 = raise_target seq (s\<lparr>s_queue := bt_insert seq msg (s_queue s)\<rparr>)
      in if s_state s1 = LoggedOn
            \<and> (\<not> s_resend_requested s1 \<or> cfg_send_redundant_resend_requests (s_config s1))
         then (let (a, s2) = request_resend now (s_next_in_seq s1) (s1\<lparr>s_resend_requested := True\<rparr>) in ([a], s2))
         else ([], s1))"

definition on_too_low :: "ext \<Rightarrow> datetime \<Rightarrow> message \<Rightarrow> session \<Rightarrow> action list \<times> session" where
  "on_too_low E now msg s =
     (if is_poss_dup msg then
        (case poss_dup_anti_replay_violation E msg s of
           Some rj \<Rightarrow> session_reject_before_logout now msg rj s
         | None \<Rightarrow> ([], s))
      else logout_and_disconnect now ''MsgSeqNum too low'' s)"

section \<open>Logon\<close>

definition maybe_next_expected :: "session \<Rightarrow> nat option" where
  "maybe_next_expected s =
     (if cfg_enable_next_expected_msg_seq_num (s_config s) then Some (s_next_in_seq s) else None)"

definition should_send_reset :: "session \<Rightarrow> bool" where
  "should_send_reset s \<longleftrightarrow>
     (cfg_reset_on_logon (s_config s) \<or> cfg_reset_on_logout (s_config s) \<or> cfg_reset_on_disconnect (s_config s))
     \<and> s_next_out_seq s = 1 \<and> s_next_in_seq s = 1"

definition fresh_connection :: "session \<Rightarrow> session" where
  "fresh_connection s =
     s\<lparr>s_ticks_awaiting := 0, s_ticks_since_recv := 0, s_test_request_outstanding := False,
       s_resend_target := None, s_resend_chunk_end := None, s_reset_on_logon_pending := False,
       s_last_disconnect_reason := None, s_logon_sent := False, s_logon_received := False,
       s_resend_requested := False, s_queue := [], s_state := AwaitingLogon\<rparr>"

definition send_logon :: "datetime \<Rightarrow> session \<Rightarrow> action \<times> session" where
  "send_logon now s =
     (let flag = should_send_reset s;
          next_exp = maybe_next_expected s;
          (seq, s1) = next_seq (s\<lparr>s_reset_on_logon_pending := flag\<rparr>);
          msg = logon_with_reset_flag (s_config s1) now seq next_exp flag
      in send_stored msg (s1\<lparr>s_logon_sent := True\<rparr>))"

definition on_connected :: "datetime \<Rightarrow> session \<Rightarrow> action list \<times> session" where
  "on_connected now s =
     (let s1 = fresh_connection s
      in case cfg_role (s_config s1) of
           Initiator \<Rightarrow>
             (let (ra, s2) = (if cfg_reset_on_logon (s_config s1) then ([ResetStore], reset_sequences True s1) else ([], s1));
                  (a, s3) = send_logon now s2
              in (ra @ [a], s3))
         | Acceptor \<Rightarrow> ([], s1))"

definition body_int :: "message \<Rightarrow> tag \<Rightarrow> int option" where
  "body_int msg t = get_int (m_body msg) t"

text \<open>The refusals of \<^verbatim>\<open>on_logon\<close> that come before any change of state, in their order.\<close>

definition logon_refusal :: "ext \<Rightarrow> datetime \<Rightarrow> message \<Rightarrow> session \<Rightarrow> reject option" where
  "logon_refusal E now msg s =
     (let c = s_config s;
          seq = seq_num msg;
          requests_reset = (get_str (m_body msg) RESET_SEQ_NUM_FLAG = Some ''Y'');
          acceptor_forces_reset = (cfg_role c = Acceptor \<and> cfg_reset_on_logon c)
      in if s_state s = LoggedOn then Some (mk_reject 0 None ''session is already logged on'')
         else if s_state s \<noteq> AwaitingLogon then Some (mk_reject 0 None ''Logon received out of sequence'')
         else if \<not> is_poss_dup msg \<and> \<not> requests_reset \<and> \<not> acceptor_forces_reset
                 \<and> (case seq of None \<Rightarrow> False | Some q \<Rightarrow> q < s_next_in_seq s)
           then Some (mk_reject 0 None ''MsgSeqNum too low'')
         else if seq = None then Some (mk_reject 0 None ''Required tag missing: MsgSeqNum'')
         else if (case body_int msg HEART_BT_INT of None \<Rightarrow> False | Some h \<Rightarrow> h < 0)
           then Some (mk_reject 0 None ''HeartBtInt must not be negative'')
         else if cfg_role c = Acceptor \<and> (case body_int msg HEART_BT_INT of None \<Rightarrow> True | Some h \<Rightarrow> h \<le> 0)
           then Some (mk_reject 0 (Some HEART_BT_INT) ''HeartBtInt is required and must be positive'')
         else if (case body_positive msg NEXT_EXPECTED_MSG_SEQ_NUM of None \<Rightarrow> False | Some n \<Rightarrow> s_next_out_seq s < n)
           then Some (mk_reject 0 None ''Tag 789 is higher than expected'')
         else if (case cfg_schedule c of None \<Rightarrow> False | Some sch \<Rightarrow> \<not> is_in_session E sch now)
           then Some (mk_reject 0 None ''Logon attempted outside of the configured session schedule'')
         else None)"

text \<open>The Logon response of an acceptor.\<close>

definition accept_as_acceptor :: "datetime \<Rightarrow> message \<Rightarrow> bool \<Rightarrow> session \<Rightarrow> action \<times> session" where
  "accept_as_acceptor now msg inbound_reset_flag s =
     (let s1 = (case body_int msg HEART_BT_INT of
                  Some h \<Rightarrow> if 0 < h
                    then s\<lparr>s_config := (s_config s)\<lparr>cfg_heartbeat_interval := (if nat h < u32_size then nat h else u32_size - 1)\<rparr>\<rparr>
                    else s
                | None \<Rightarrow> s);
          s2 = s1\<lparr>s_state := LoggedOn\<rparr>;
          next_exp = maybe_next_expected s2;
          (seq, s3) = next_seq s2;
          resp = logon_with_reset_flag (s_config s3) now seq next_exp inbound_reset_flag
      in send_stored resp (s3\<lparr>s_logon_sent := True\<rparr>))"

definition request_logon_gap :: "datetime \<Rightarrow> nat \<Rightarrow> session \<Rightarrow> action \<times> session" where
  "request_logon_gap now seq s =
     (let s1 = raise_target seq (s\<lparr>s_resend_requested := True\<rparr>) in request_resend now (s_next_in_seq s1) s1)"

text \<open>The deferred sequence actions and the 789 resend, after the Logon response.\<close>

definition after_logon :: "ext \<Rightarrow> datetime \<Rightarrow> message \<Rightarrow> nat \<Rightarrow> nat \<Rightarrow> session \<Rightarrow> (action list \<times> session) option" where
  "after_logon E now msg seq expected s =
     (case (if seq = expected then drain_queue E now s
            else if expected < seq \<and> \<not> s_resend_requested s
              then (let (a, s1) = request_logon_gap now seq s in Some ([a], s1))
            else Some ([], s)) of
        None \<Rightarrow> None
      | Some (da, s1) \<Rightarrow>
          (case body_positive msg NEXT_EXPECTED_MSG_SEQ_NUM of
             Some n \<Rightarrow>
               if n < s_next_out_seq s1
               then (let (ra, s2) = build_resend now n (s_next_out_seq s1 - 1) s1 in Some (da @ ra, s2))
               else Some (da, s1)
           | None \<Rightarrow> Some (da, s1)))"

text \<open>Whether a Logon resets the session, the reset, and the count of the Logon's own number.\<close>

definition requests_reset :: "message \<Rightarrow> bool" where
  "requests_reset msg \<longleftrightarrow> get_str (m_body msg) RESET_SEQ_NUM_FLAG = Some ''Y''"

definition logon_resets :: "message \<Rightarrow> session \<Rightarrow> bool" where
  "logon_resets msg s \<longleftrightarrow> requests_reset msg \<or> (cfg_role (s_config s) = Acceptor \<and> cfg_reset_on_logon (s_config s))"

definition reset_for_logon :: "message \<Rightarrow> session \<Rightarrow> action list \<times> session" where
  "reset_for_logon msg s =
     (if logon_resets msg s
      then (if s_logon_sent s then [] else [ResetStore], reset_sequences (\<not> s_logon_sent s) s)
      else ([], s))"

definition count_logon :: "nat \<Rightarrow> session \<Rightarrow> session" where
  "count_logon seq s = (if seq = s_next_in_seq s then bump_in s else s)"

definition logon_as_acceptor :: "ext \<Rightarrow> datetime \<Rightarrow> message \<Rightarrow> nat \<Rightarrow> nat \<Rightarrow> session \<Rightarrow> (action list \<times> session) option" where
  "logon_as_acceptor E now msg seq expected s =
     (if expected < seq then
        (if \<not> s_resend_requested s \<or> cfg_send_redundant_resend_requests (s_config s)
         then (let (a, s1) = request_logon_gap now seq s in Some ([a], s1))
         else Some ([], s))
      else (let (a, s1) = accept_as_acceptor now msg (requests_reset msg) s
            in map_option (\<lambda>(as, s2). (a # as, s2)) (after_logon E now msg seq expected s1)))"

definition logon_as_initiator :: "ext \<Rightarrow> datetime \<Rightarrow> message \<Rightarrow> nat \<Rightarrow> nat \<Rightarrow> session \<Rightarrow> (action list \<times> session) option" where
  "logon_as_initiator E now msg seq expected s =
     (if s_reset_on_logon_pending s \<and> \<not> requests_reset msg \<and> seq \<noteq> 1
      then Some (reject_logon now (mk_reject 0 None ''Expected Logon response to have reset sequence numbers'')
                   (s\<lparr>s_reset_on_logon_pending := False\<rparr>))
      else after_logon E now msg seq expected (s\<lparr>s_reset_on_logon_pending := False, s_state := LoggedOn\<rparr>))"

text \<open>
  The refusal by an initiator returns only the refusal's own actions; there is no reset before it, since
  it requires that the Logon did not ask for one.
\<close>

definition accept_logon :: "ext \<Rightarrow> datetime \<Rightarrow> message \<Rightarrow> nat \<Rightarrow> session \<Rightarrow> (action list \<times> session) option" where
  "accept_logon E now msg seq s =
     (let (ra, s1) = reset_for_logon msg s;
          s2 = count_logon seq s1
      in map_option (\<lambda>(as, s3). (ra @ as, s3))
           (case cfg_role (s_config s) of
              Acceptor \<Rightarrow> logon_as_acceptor E now msg seq (s_next_in_seq s1) s2
            | Initiator \<Rightarrow> logon_as_initiator E now msg seq (s_next_in_seq s1) s2))"

definition on_logon :: "ext \<Rightarrow> datetime \<Rightarrow> message \<Rightarrow> session \<Rightarrow> (action list \<times> session) option" where
  "on_logon E now msg s0 =
     (let s = s0\<lparr>s_logon_received := True\<rparr> in
      case (logon_refusal E now msg s, seq_num msg) of
        (Some rj, _) \<Rightarrow> Some (reject_logon now rj s)
      | (None, None) \<Rightarrow> Some ([], s)
      | (None, Some seq) \<Rightarrow>
          (case validate_app E now msg s of
             None \<Rightarrow> None
           | Some (Some rej, s1) \<Rightarrow>
               (let s2 = (if seq = s_next_in_seq s1 then bump_in s1 else s1);
                    (q, s3) = next_seq s2;
                    (a, s4) = send_logout (logout (s_config s3) now q (Some ''Logon failed dictionary validation'')) s3
                in Some ([rej, a, Disconnect], s4\<lparr>s_state := Disconnected\<rparr>))
           | Some (None, s1) \<Rightarrow>
               (case get_str (m_body msg) DEFAULT_APPL_VER_ID of
                  None \<Rightarrow> accept_logon E now msg seq s1
                | Some v \<Rightarrow>
                    if v \<noteq> [] \<and> (case s_fixt_validator s1 of None \<Rightarrow> False
                                  | Some (dicts, _) \<Rightarrow> application_for dicts (Some v) = None)
                    then Some (reject_logon now
                           (mk_reject 5 (Some DEFAULT_APPL_VER_ID) (''Invalid DefaultApplVerID='' @ v)) s1)
                    else accept_logon E now msg seq (s1\<lparr>s_negotiated_appl_ver_id := Some v\<rparr>))))"

end
