(* ===== verification/Fix_Engine.thy ===== *)
theory Fix_Engine
  imports Fix_Session
begin

text \<open>
  The event handlers of the session engine (\<^verbatim>\<open>session/state.rs\<close>): \<^verbatim>\<open>on_received\<close>, \<^verbatim>\<open>on_start_logout\<close>,
  \<^verbatim>\<open>on_tick\<close> and \<^verbatim>\<open>handle\<close>. The long \<^verbatim>\<open>on_received\<close> is cut at its early returns into the checks before
  dispatch, the two sequence dispatches and the in-order arm. The step relation at the end runs a
  session through a sequence of events.
\<close>

section \<open>Receiving\<close>

definition reject_then_logout :: "datetime \<Rightarrow> message \<Rightarrow> reject option \<Rightarrow> bytes \<Rightarrow> session \<Rightarrow> action list \<times> session" where
  "reject_then_logout now msg rj note_text s =
     (let (ra, s1) = (case rj of None \<Rightarrow> ([], s)
                      | Some r \<Rightarrow> (let (a, s') = build_session_reject now msg r s in ([a], s')));
          (as, s2) = logout_and_disconnect now note_text s1
      in (ra @ as, s2))"

text \<open>The three checks that come before the message type is looked at: latency, identity, logon state.\<close>

definition refuse_received :: "ext \<Rightarrow> datetime \<Rightarrow> message \<Rightarrow> session \<Rightarrow> (action list \<times> session) option" where
  "refuse_received E now msg s =
     (let is_logon = (msg_type msg = Some ''A'') in
      if \<not> latency_ok E now msg s then
        Some (reject_then_logout now msg
                (if is_logon then None else Some (mk_reject 10 (Some SENDING_TIME) ''SendingTime accuracy problem''))
                ''SendingTime accuracy problem'' s)
      else
        (case identity_problem_of msg s of
           Some p \<Rightarrow>
             Some (reject_then_logout now msg
                     (if \<not> is_logon \<and> p = CompIdProblem then Some (mk_reject 9 (Some 49) (identity_text p)) else None)
                     (identity_text p) s)
         | None \<Rightarrow>
             if s_state s \<noteq> LoggedOn
                \<and> (case msg_type msg of None \<Rightarrow> True | Some t \<Rightarrow> t \<notin> {''A'', ''5'', ''4'', ''3''})
             then Some (logout_and_disconnect now ''Logon state is not valid'' s)
             else None))"

definition reject_bad_seq :: "datetime \<Rightarrow> message \<Rightarrow> session \<Rightarrow> action list \<times> session" where
  "reject_bad_seq now msg s =
     (let (q, s1) = next_seq s;
          (a, s2) = send_stored (admin_reject (s_config s1) now q 0 (msg_type msg) ''missing or invalid MsgSeqNum'') s1
      in ([a], s2))"

text \<open>A message at the expected sequence number.\<close>

definition on_expected :: "ext \<Rightarrow> datetime \<Rightarrow> message \<Rightarrow> session \<Rightarrow> (action list \<times> session) option" where
  "on_expected E now msg s =
     (case validate_app E now msg s of
        None \<Rightarrow> None
      | Some (Some rej, s1) \<Rightarrow>
          (case validation_failed now (bump_in s1) of
             (fa, disconnected, s2) \<Rightarrow>
               if disconnected then Some (rej # fa, s2)
               else map_option (\<lambda>(da, s3). (rej # fa @ da, s3)) (drain_queue E now s2))
      | Some (None, s1) \<Rightarrow>
          (let (pa, s2) = process_in_order now msg (msg_type msg) s1
           in map_option (\<lambda>(da, s3). (pa @ da, s3)) (drain_queue E now (bump_in s2))))"

definition on_too_high :: "datetime \<Rightarrow> nat \<Rightarrow> message \<Rightarrow> session \<Rightarrow> action list \<times> session" where
  "on_too_high now seq msg s =
     (if msg_type msg = Some ''5'' then on_logout_msg now s
      else (let (ra, s1) = (if msg_type msg = Some ''2'' then on_resend_request now msg s else ([], s));
                (qa, s2) = enqueue_too_high now seq msg s1
            in (ra @ qa, s2)))"

definition dispatch :: "ext \<Rightarrow> datetime \<Rightarrow> nat \<Rightarrow> message \<Rightarrow> session \<Rightarrow> (action list \<times> session) option" where
  "dispatch E now seq msg s =
     (if seq = s_next_in_seq s then on_expected E now msg s
      else if s_next_in_seq s < seq then Some (on_too_high now seq msg s)
      else Some (on_too_low E now msg s))"

definition dispatch_sequence_reset :: "ext \<Rightarrow> datetime \<Rightarrow> nat \<Rightarrow> message \<Rightarrow> session \<Rightarrow> (action list \<times> session) option" where
  "dispatch_sequence_reset E now seq msg s =
     (if \<not> is_gap_fill msg \<or> seq = s_next_in_seq s then on_sequence_reset E now msg s
      else if s_next_in_seq s < seq then Some (enqueue_too_high now seq msg s)
      else Some (on_too_low E now msg s))"

definition on_received :: "ext \<Rightarrow> datetime \<Rightarrow> message \<Rightarrow> session \<Rightarrow> (action list \<times> session) option" where
  "on_received E now msg s0 =
     (let s = s0\<lparr>s_ticks_since_recv := 0, s_test_request_outstanding := False\<rparr> in
      case refuse_received E now msg s of
        Some r \<Rightarrow> Some r
      | None \<Rightarrow>
          if msg_type msg = Some ''A'' then on_logon E now msg s
          else
            (case seq_num msg of
               None \<Rightarrow> Some (reject_bad_seq now msg s)
             | Some seq \<Rightarrow>
                 (case (if is_poss_dup msg then poss_dup_falsification_check E msg else None) of
                    Some rj \<Rightarrow> Some (session_reject_before_logout now msg rj s)
                  | None \<Rightarrow>
                      if msg_type msg = Some ''4'' then dispatch_sequence_reset E now seq msg s
                      else dispatch E now seq msg s)))"

section \<open>Logging out and ticking\<close>

definition start_logout :: "datetime \<Rightarrow> bytes option \<Rightarrow> session \<Rightarrow> action list \<times> session" where
  "start_logout now note_text s =
     (let (seq, s1) = next_seq s;
          (a, s2) = send_logout (logout (s_config s1) now seq note_text) s1
      in ([a], s2\<lparr>s_ticks_awaiting := 0, s_state := AwaitingLogout\<rparr>))"

definition on_start_logout :: "datetime \<Rightarrow> session \<Rightarrow> action list \<times> session" where
  "on_start_logout now s = (if s_state s = LoggedOn then start_logout now None s else ([], s))"

definition drop_connection :: "session \<Rightarrow> action list \<times> session" where
  "drop_connection s = (let (ra, s1) = enter_disconnected OtherReason s in (ra @ [Disconnect], s1))"

definition timeout_ticks :: "session \<Rightarrow> rat" where
  "timeout_ticks s =
     f64_round (f64_round (of_nat (hb s) * max (cfg_heartbeat_timeout_multiplier (s_config s)) 1) + 2)"

definition test_request_delay :: "session \<Rightarrow> rat" where
  "test_request_delay s = f64_round (of_nat (hb s) * cfg_test_request_delay_multiplier (s_config s))"

definition beat :: "datetime \<Rightarrow> session \<Rightarrow> action list \<times> session" where
  "beat now s =
     (if hb s \<le> s_ticks_since_send s then
        (let (seq, s1) = next_seq s; (a, s2) = send_stored (heartbeat (s_config s1) now seq None) s1 in ([a], s2))
      else ([], s))"

definition probe :: "datetime \<Rightarrow> session \<Rightarrow> action list \<times> session" where
  "probe now s =
     (if test_request_delay s < of_nat (s_ticks_since_recv s) \<and> \<not> s_test_request_outstanding s then
        (let (seq, s1) = next_seq s;
             (a, s2) = send_stored (test_request (s_config s1) now seq ''TEST'') (s1\<lparr>s_test_request_outstanding := True\<rparr>)
         in ([a], s2))
      else ([], s))"

definition tick_counters :: "session \<Rightarrow> session" where
  "tick_counters s =
     s\<lparr>s_ticks_since_send := sat_add32 (s_ticks_since_send s) 1,
       s_ticks_since_recv := sat_add32 (s_ticks_since_recv s) 1,
       s_ticks_awaiting := sat_add32 (s_ticks_awaiting s) 1\<rparr>"

definition on_tick :: "ext \<Rightarrow> datetime \<Rightarrow> session \<Rightarrow> action list \<times> session" where
  "on_tick E now s0 =
     (let s = tick_counters s0; c = s_config s in
      case s_state s of
        AwaitingLogon \<Rightarrow>
          if max (cfg_logon_timeout c) 1 \<le> s_ticks_awaiting s then drop_connection s else ([], s)
      | LoggedOn \<Rightarrow>
          if (case cfg_schedule c of None \<Rightarrow> False | Some sch \<Rightarrow> \<not> is_in_session E sch now)
            then start_logout now (Some ''session schedule window closed'') s
          else if \<not> cfg_disable_heart_beat_check c then
            (if timeout_ticks s \<le> of_nat (s_ticks_since_recv s) then drop_connection s
             else (let (ta, s1) = probe now s; (ha, s2) = beat now s1 in (ta @ ha, s2)))
          else beat now s
      | AwaitingLogout \<Rightarrow>
          if max (cfg_logout_timeout c) 1 \<le> s_ticks_awaiting s then drop_connection s else beat now s
      | Disconnected \<Rightarrow> ([], s))"

definition handle :: "ext \<Rightarrow> datetime \<Rightarrow> event \<Rightarrow> session \<Rightarrow> (action list \<times> session) option" where
  "handle E now e s =
     (case e of
        Connected \<Rightarrow> Some (on_connected now s)
      | Received msg \<Rightarrow> on_received E now msg s
      | Tick \<Rightarrow> Some (on_tick E now s)
      | StartLogout \<Rightarrow> Some (on_start_logout now s)
      | Garbled \<Rightarrow> Some (on_garbled now s)
      | ConnectionLost r \<Rightarrow> Some (enter_disconnected r s))"

section \<open>Steps\<close>

text \<open>
  The calls the transport makes on a session: events, application sends, operational resets and the
  refusals of the application callbacks.
\<close>

datatype call =
    Handle event
  | SendApp message
  | OpReset
  | RejectLogon reject
  | BusinessReject message business_reject
  | DiscardSent nat
  | GapFillAfterVeto nat
  | RefreshSequences nat nat

definition call_session :: "ext \<Rightarrow> datetime \<Rightarrow> call \<Rightarrow> session \<Rightarrow> (action list \<times> session) option" where
  "call_session E now c s =
     (case c of
        Handle e \<Rightarrow> handle E now e s
      | SendApp m \<Rightarrow> Some (send_app now m s)
      | OpReset \<Rightarrow> Some ([], reset s)
      | RejectLogon rj \<Rightarrow> Some (reject_logon now rj s)
      | BusinessReject m rj \<Rightarrow> Some (let (a, s') = business_reject_app now m rj s in ([a], s'))
      | DiscardSent q \<Rightarrow> Some ([], discard_sent q s)
      | GapFillAfterVeto q \<Rightarrow> Some (let (a, s') = gap_fill_after_veto now q s in ([a], s'))
      | RefreshSequences next_out next_in \<Rightarrow> Some ([], refresh_sequences next_out next_in s))"

text \<open>The transport refreshes the counters from its store only under \<^verbatim>\<open>RefreshOnLogon\<close>.\<close>

fun allowed :: "call \<Rightarrow> session \<Rightarrow> bool" where
  "allowed (RefreshSequences next_out next_in) s \<longleftrightarrow>
     cfg_refresh_on_logon (s_config s) \<and> next_out < u64_size \<and> next_in < u64_size"
| "allowed _ s \<longleftrightarrow> True"

inductive step :: "ext \<Rightarrow> session \<Rightarrow> action list \<Rightarrow> session \<Rightarrow> bool" for E where
  "allowed c s \<Longrightarrow> call_session E now c s = Some (as, s') \<Longrightarrow> step E s as s'"

inductive_simps step_iff: "step E s as s'"

inductive steps :: "ext \<Rightarrow> session \<Rightarrow> action list \<Rightarrow> session \<Rightarrow> bool" for E where
  steps_nil: "steps E s [] s"
| steps_snoc: "steps E s as s' \<Longrightarrow> step E s' bs s'' \<Longrightarrow> steps E s (as @ bs) s''"

inductive_cases steps_nilE: "steps E s [] s'"

text \<open>
  Sessions that start from a configuration, optionally with dictionaries and seeded from a durable
  store: counters first, then the messages sent under numbers below the outbound counter.
\<close>

inductive started :: "session \<Rightarrow> bool" where
  started_new: "started (new_session c)"
| started_dictionary: "started s \<Longrightarrow> started (set_dictionary d opts s)"
| started_fixt: "started s \<Longrightarrow> started (set_fixt_dictionaries ds opts s)"
| started_seed: "started s \<Longrightarrow> s_store s = [] \<Longrightarrow> next_out < u64_size \<Longrightarrow> next_in < u64_size
    \<Longrightarrow> started (seed_sequences next_out next_in s)"
| started_sent: "started s \<Longrightarrow> \<forall>(q, m)\<in>set ms. seq_num m = Some q \<and> q < s_next_out_seq s \<Longrightarrow> started (seed_sent_messages ms s)"

definition reachable :: "ext \<Rightarrow> session \<Rightarrow> bool" where
  "reachable E s \<longleftrightarrow> (\<exists>s0 as. started s0 \<and> steps E s0 as s)"

end
