(* ===== verification/Fix_Effects.thy ===== *)
theory Fix_Effects
  imports Fix_Engine
begin

text \<open>
  What every handler of the session engine does is composed of a few primitive effects: sending the
  next numbered message, gap-filling, resending a stored message, resetting, moving the inbound
  counter, and queue operations. The locale \<open>session_effect\<close> states what a relation between a
  session, the actions of a call and the session afterwards must satisfy on the primitive effects,
  and derives it for every handler. Its interpretations are the invariants of the engine.
\<close>

section \<open>Built messages\<close>

text \<open>A message numbered \<open>q\<close>, and the shape that tells a gap fill from a newly numbered message.\<close>

definition numbered :: "nat \<Rightarrow> message \<Rightarrow> bool" where
  "numbered q m \<longleftrightarrow> fm_get (m_header m) 34 = Some (field_int 34 (as_i64 q))"

definition fills_gap :: "message \<Rightarrow> bool" where
  "fills_gap m \<longleftrightarrow> msg_type m = Some ''4'' \<and> is_poss_dup m"

definition engine_built :: "nat \<Rightarrow> message \<Rightarrow> bool" where
  "engine_built q m \<longleftrightarrow> numbered q m \<and> fm_get (m_header m) 43 = None"

lemma numbered_get:
  assumes "numbered q m" "q < u64_size" "seq_num m = Some k"
  shows "k = q" "0 < q" "q < 2 ^ 63"
proof -
  have b: "- (2 ^ 63) \<le> as_i64 q" "as_i64 q < 2 ^ 63" using assms(2) by (auto simp: as_i64_def)
  then have "get_int (m_header m) 34 = Some (as_i64 q)"
    using assms(1) by (simp add: numbered_def get_int_def)
  then have "0 < as_i64 q" "k = nat (as_i64 q)"
    using assms(3) by (auto simp: seq_num_def MSG_SEQ_NUM_def split: if_splits)
  then show "k = q" "0 < q" "q < 2 ^ 63" using assms(2) by (auto simp: as_i64_def split: if_splits)
qed

lemma numbered_seq_num: "numbered q m \<Longrightarrow> 0 < q \<Longrightarrow> q < 2 ^ 63 \<Longrightarrow> seq_num m = Some q"
  by (simp add: numbered_def seq_num_def get_int_def MSG_SEQ_NUM_def)

lemma engine_built_not_fill: "engine_built q m \<Longrightarrow> \<not> fills_gap m"
  by (simp add: engine_built_def fills_gap_def is_poss_dup_def get_str_def POSS_DUP_FLAG_def)

lemma built_by [simp]:
  "engine_built q (logon_with_reset_flag c now q ne fl)"
  "engine_built q (logout c now q tx)"
  "engine_built q (heartbeat c now q i)"
  "engine_built q (test_request c now q j)"
  "engine_built q (resend_request c now q b e)"
  "engine_built q (admin_reject c now q rs rt tx')"
  "engine_built q (reject_with_reason c now q rs rt rg rc tx')"
  "engine_built q (business_message_reject c now q rs rt rg rc tx')"
  by (simp_all add: engine_built_def numbered_def base_header)

lemma built_set_body [simp]: "engine_built q (set_body f m) = engine_built q m"
  by (simp add: engine_built_def numbered_def)

lemma copy_route_header: "t \<noteq> dst \<Longrightarrow> fm_get (m_header (copy_route src dst orig m)) t = fm_get (m_header m) t"
  by (simp add: copy_route_def fm_get_set split: option.splits)

lemma built_reverse_route [simp]: "engine_built q (reverse_route orig m) = engine_built q m"
  by (simp add: engine_built_def numbered_def reverse_route_def copy_route_header)

lemma stamp_header:
  "t \<noteq> 369 \<Longrightarrow> fm_get (m_header (stamp_last_msg_seq_num_processed s m)) t = fm_get (m_header m) t"
  by (simp add: stamp_last_msg_seq_num_processed_def fm_get_set)

lemma stamp_reads [simp]:
  "seq_num (stamp_last_msg_seq_num_processed s m) = seq_num m"
  "numbered q (stamp_last_msg_seq_num_processed s m) = numbered q m"
  "engine_built q (stamp_last_msg_seq_num_processed s m) = engine_built q m"
  "fills_gap (stamp_last_msg_seq_num_processed s m) = fills_gap m"
  by (simp_all add: seq_num_def numbered_def engine_built_def fills_gap_def msg_type_def is_poss_dup_def get_str_def
      get_int_def stamp_header MSG_SEQ_NUM_def MSG_TYPE_def POSS_DUP_FLAG_def)

text \<open>A gap fill is recognisable: MsgType 4 with PossDupFlag.\<close>

lemma sequence_reset_fills: "fills_gap (sequence_reset c now f n True)"
  by (simp add: fills_gap_def sequence_reset_def Let_def msg_type_def is_poss_dup_def get_str_def fm_get_set
      base_header MSG_TYPE_def POSS_DUP_FLAG_def as_str_def utf8_valid.simps in_range_def)

section \<open>Effects\<close>

text \<open>The part of a session that the primitive effects are about; timers, flags and the state are left out.\<close>

definition session_setup :: "session \<Rightarrow> session_config \<times> (data_dictionary \<times> validation_options) option
    \<times> (fixt_dictionaries \<times> validation_options) option" where
  "session_setup s = ((s_config s)\<lparr>cfg_heartbeat_interval := 0\<rparr>, s_validator s, s_fixt_validator s)"

definition core :: "session \<Rightarrow> (nat \<times> nat) \<times> (nat, message) btree \<times> (nat, message) btree
    \<times> session_config \<times> (data_dictionary \<times> validation_options) option
    \<times> (fixt_dictionaries \<times> validation_options) option" where
  "core s = ((s_next_out_seq s, s_next_in_seq s), s_store s, s_queue s, session_setup s)"

lemmas core_defs = core_def session_setup_def

locale session_effect =
  fixes R :: "session \<Rightarrow> action list \<Rightarrow> session \<Rightarrow> bool"
  assumes control: "core s = core s' \<Longrightarrow> R s [] s'"
    and compose: "R s as s1 \<Longrightarrow> R s1 bs s2 \<Longrightarrow> R s (as @ bs) s2"
    and fresh: "next_seq s = (q, s1) \<Longrightarrow> send_stored m s1' = (a, s2) \<Longrightarrow> core s1' = core s1 \<Longrightarrow> engine_built q m \<Longrightarrow> R s [a] s2"
    and fresh_raw: "next_seq s = (q, s1) \<Longrightarrow> send_raw m s1' = (a, s2) \<Longrightarrow> core s1' = core s1 \<Longrightarrow> engine_built q m \<Longrightarrow> R s [a] s2"
    and fill: "gap_fill now f n s = (a, s1) \<Longrightarrow> R s [a] s1"
    and resent: "bt_get (s_store s) q = Some m \<Longrightarrow> R s [Resend (prepare_resend c now m) q] s"
    and hang_up: "R s [Disconnect] s"
    and wipe: "R s [ResetStore] (reset_sequences True s)"
    and bump: "R s [] (bump_in s)"
    and skip: "s_next_in_seq s \<le> n \<Longrightarrow> n < 2 ^ 63 \<Longrightarrow>
        R s [] (s\<lparr>s_next_in_seq := n, s_queue := bt_retain (\<lambda>q. n \<le> q) (s_queue s)\<rparr>)"
    and enqueue: "seq_num m = Some q \<Longrightarrow> s_next_in_seq s < q \<Longrightarrow> R s [] (s\<lparr>s_queue := bt_insert q m (s_queue s)\<rparr>)"
    and remove: "R s [] (s\<lparr>s_queue := bt_remove q (s_queue s)\<rparr>)"
    and clear: "R s [] (s\<lparr>s_queue := []\<rparr>)"
begin

lemma nil: "R s [] s"
  by (rule control) simp

lemma cons: "R s [a] s1 \<Longrightarrow> R s1 bs s2 \<Longrightarrow> R s (a # bs) s2"
  using compose [of s "[a]" s1 bs s2] by simp

lemma before: "core s = core s' \<Longrightarrow> R s' as s2 \<Longrightarrow> R s as s2"
  using compose [OF control] by fastforce

lemma after: "R s as s1 \<Longrightarrow> core s1 = core s2 \<Longrightarrow> R s as s2"
  using compose [OF _ control] by fastforce

lemma silent: "R s [] s1 \<Longrightarrow> R s1 as s2 \<Longrightarrow> R s as s2"
  using compose [of s "[]" s1 as s2] by simp

lemma then_nil: "R s as s1 \<Longrightarrow> R s1 [] s2 \<Longrightarrow> R s as s2"
  using compose [of s as s1 "[]" s2] by simp

lemma wiped: "core s1 = core (reset_sequences True s) \<Longrightarrow> R s [ResetStore] s1"
  using after [OF wipe] by simp

lemma logout_sent: "next_seq s = (q, s1) \<Longrightarrow> send_logout m s1' = (a, s2) \<Longrightarrow> core s1' = core s1 \<Longrightarrow> engine_built q m \<Longrightarrow> R s [a] s2"
  by (simp add: send_logout_def fresh_raw)

lemma logout_hang_up:
  "next_seq s = (q, s1) \<Longrightarrow> send_logout m s1' = (a, s2) \<Longrightarrow> core s1' = core s1 \<Longrightarrow> engine_built q m
   \<Longrightarrow> core s2 = core s3 \<Longrightarrow> R s [a, Disconnect] s3"
  by (rule cons [OF logout_sent after [OF hang_up]])

end

section \<open>The handlers as effects\<close>

lemma core_update_simps [simp]:
  "core (s\<lparr>s_state := x1\<rparr>) = core s" "core (s\<lparr>s_ticks_since_send := x2\<rparr>) = core s"
  "core (s\<lparr>s_ticks_since_recv := x2\<rparr>) = core s" "core (s\<lparr>s_ticks_awaiting := x2\<rparr>) = core s"
  "core (s\<lparr>s_test_request_outstanding := b\<rparr>) = core s" "core (s\<lparr>s_logon_sent := b\<rparr>) = core s"
  "core (s\<lparr>s_logon_received := b\<rparr>) = core s" "core (s\<lparr>s_resend_requested := b\<rparr>) = core s"
  "core (s\<lparr>s_resend_target := x3\<rparr>) = core s" "core (s\<lparr>s_resend_chunk_end := x3\<rparr>) = core s"
  "core (s\<lparr>s_negotiated_appl_ver_id := x4\<rparr>) = core s" "core (s\<lparr>s_reset_on_logon_pending := b\<rparr>) = core s"
  "core (s\<lparr>s_last_disconnect_reason := x5\<rparr>) = core s"
  "core (s\<lparr>s_config := (s_config s)\<lparr>cfg_heartbeat_interval := n\<rparr>\<rparr>) = core s"
  by (simp_all add: core_defs)

lemma gap_fill_keeps: "gap_fill now f n s = (a, s1) \<Longrightarrow> s_store s1 = s_store s \<and> core s1 = core s"
  by (auto simp: gap_fill_def send_raw_def Let_def)

context session_effect
begin

lemma effect_reset_on_error: "reset_on_error s = (as, s1) \<Longrightarrow> R s as s1"
  by (auto simp: reset_on_error_def nil intro: wiped split: if_splits)

lemma effect_enter_disconnected: "enter_disconnected r s = (as, s1) \<Longrightarrow> R s as s1"
  by (auto simp: enter_disconnected_def Let_def intro!: control wiped split: if_splits)
     (simp_all add: core_defs reset_sequences_def Let_def)

lemma effect_reject_logon: "reject_logon now rj s = (as, s1) \<Longrightarrow> R s as s1"
  by (auto simp: reject_logon_def Let_def split: prod.splits option.splits intro!: logout_hang_up)

lemma effect_business_reject: "business_reject_app now m rj s = (a, s1) \<Longrightarrow> R s [a] s1"
  by (auto simp: business_reject_app_def Let_def split: prod.splits intro: fresh)

lemma effect_build_session_reject: "build_session_reject now m rj s = (a, s1) \<Longrightarrow> R s [a] s1"
  by (auto simp: build_session_reject_def Let_def split: prod.splits intro: fresh)

lemma effect_session_reject: "session_reject_before_logout now m rj s = (as, s1) \<Longrightarrow> R s as s1"
  by (auto simp: session_reject_before_logout_def Let_def split: prod.splits
      intro: cons effect_build_session_reject effect_reject_logon)

lemma effect_logout_and_disconnect: "logout_and_disconnect now tx s = (as, s1) \<Longrightarrow> R s as s1"
  by (auto simp: logout_and_disconnect_def Let_def split: prod.splits
      intro!: cons [OF logout_sent] compose [OF effect_reset_on_error hang_up])

lemma effect_on_garbled: "on_garbled now s = (as, s1) \<Longrightarrow> R s as s1"
  by (auto simp: on_garbled_def Let_def nil split: prod.splits if_splits intro: fresh)

lemma effect_request_resend: "request_resend now b s = (a, s1) \<Longrightarrow> R s [a] s1"
  unfolding request_resend_def Let_def
  by (rule before [OF core_update_simps(10) [symmetric]]) (auto split: prod.splits intro!: fresh)

lemma effect_request_after: "request_resend now b s' = (a, s1) \<Longrightarrow> core s = core s' \<Longrightarrow> R s [a] s1"
  by (rule before [OF _ effect_request_resend])

lemma effect_chunk: "maybe_continue_chunked_resend now s = (as, s1) \<Longrightarrow> R s as s1"
  by (auto simp: maybe_continue_chunked_resend_def Let_def nil control split: prod.splits if_splits option.splits
      intro: effect_request_resend)

lemma effect_resend_loop: "resend_loop now qs g s = (as, g', s1) \<Longrightarrow> R s as s1"
proof (induction qs arbitrary: g s as)
  case (Cons q qs)
  let ?again = "\<lambda>m. \<not> is_admin_type (msg_type m) \<or> cfg_force_resend_when_corrupted_store (s_config s)"
  show ?case
  proof (cases "\<exists>m. bt_get (s_store s) q = Some m \<and> ?again m")
    case True
    then obtain m where m: "bt_get (s_store s) q = Some m" "?again m" by blast
    define G where "G = (case g of None \<Rightarrow> ([], s) | Some gs \<Rightarrow> (let (a, s') = gap_fill now gs q s in ([a], s')))"
    obtain ga s2 where ga: "G = (ga, s2)" by (cases G)
    then have s2: "R s ga s2" "s_store s2 = s_store s"
      using fill gap_fill_keeps by (auto simp: G_def nil split: option.splits prod.splits)
    obtain bs where rest: "resend_loop now qs None (s2\<lparr>s_ticks_since_send := 0\<rparr>) = (bs, g', s1)"
      "as = ga @ Resend (prepare_resend (s_config s2) now m) q # bs"
      using Cons.prems m ga [unfolded G_def]
      by (auto simp: send_resend_def split: prod.splits)
    have "R s2 (Resend (prepare_resend (s_config s2) now m) q # bs) s1"
      by (rule cons [OF resent]) (use s2(2) m(1) before [OF _ Cons.IH [OF rest(1)]] in auto)
    then show ?thesis using compose [OF s2(1)] rest(2) by simp
  next
    case False
    then show ?thesis using Cons by (auto split: option.splits if_splits)
  qed
qed (simp add: nil)

lemma effect_build_resend: "build_resend now b e s = (as, s1) \<Longrightarrow> R s as s1"
  by (auto simp: build_resend_def Let_def split: prod.splits option.splits
      intro: effect_resend_loop compose fill)

lemma effect_on_resend_request: "on_resend_request now m s = (as, s1) \<Longrightarrow> R s as s1"
  by (auto simp: on_resend_request_def Let_def nil split: prod.splits option.splits if_splits
      intro: fresh effect_build_resend)

lemma effect_answer_test_request: "answer_test_request now m s = (as, s1) \<Longrightarrow> R s as s1"
  by (auto simp: answer_test_request_def Let_def nil split: prod.splits if_splits intro: fresh)

lemma effect_on_logout_msg: "on_logout_msg now s = (as, s1) \<Longrightarrow> R s as s1"
  by (auto simp: on_logout_msg_def Let_def split: prod.splits if_splits
      intro!: cons [OF logout_sent] compose [OF effect_enter_disconnected hang_up])

lemma effect_process_in_order: "process_in_order now m mt s = (as, s1) \<Longrightarrow> R s as s1"
  by (auto simp: process_in_order_def nil split: if_splits
      intro: effect_answer_test_request effect_on_resend_request effect_on_logout_msg)

lemma effect_reject_invalid: "reject_invalid now m e s = (a, s1) \<Longrightarrow> R s [a] s1"
  by (auto simp: reject_invalid_def Let_def split: prod.splits if_splits intro: fresh)

lemma effect_validate_app:
  "validate_app E now m s = Some (r, s1) \<Longrightarrow> R s (case r of None \<Rightarrow> [] | Some a \<Rightarrow> [a]) s1"
  using effect_reject_invalid [of now m _ s, OF surjective_pairing]
  by (auto simp: validate_app_def Let_def split_def nil split: option.splits)

lemma effect_validation_failed: "validation_failed now s = (as, b, s1) \<Longrightarrow> R s as s1"
  by (auto simp: validation_failed_def Let_def split: prod.splits if_splits
      intro: effect_reset_on_error intro!: compose [OF effect_reset_on_error] logout_hang_up)

lemma effect_apply_gap_fill:
  "\<forall>n. ns = Some n \<longrightarrow> n < 2 ^ 63 \<Longrightarrow> R s [] (apply_gap_fill_new_seq ns s)"
  by (auto simp: apply_gap_fill_new_seq_def nil split: option.splits intro: skip)

end

lemma get_int_bound: "get_int m t = Some i \<Longrightarrow> i < 2 ^ 63"
  by (auto simp: get_int_def as_int_def as_str_def dest!: parse_i64_range split: option.splits if_splits Option.bind_splits)

lemma body_number_bound:
  "body_positive m t = Some n \<Longrightarrow> n < 2 ^ 63"
  "body_nonneg m t = Some n \<Longrightarrow> n < 2 ^ 63"
  by (auto simp: body_positive_def body_nonneg_def nat_less_iff dest!: get_int_bound split: option.splits if_splits)

context session_effect
begin

lemma effect_drain_loop: "drain_loop E now s = Some (as, early, s1) \<Longrightarrow> R s as s1"
proof (induction rule: drain_loop_induct)
  case (fill s msg as early s')
  then show ?case
    using silent [OF remove silent [OF effect_apply_gap_fill]] body_number_bound(1) by blast
next
  case (stop s msg rej s2 fa s3)
  have "R s [rej] s2" using silent [OF remove effect_validate_app [OF stop(3)]] by simp
  then show ?case using cons [OF _ silent [OF bump effect_validation_failed [OF stop(4)]]] by blast
next
  case (failed s msg rej s2 fa s3 as early s')
  have "R s [rej] s2" using silent [OF remove effect_validate_app [OF failed(3)]] by simp
  then show ?case
    using cons [OF _ compose [OF silent [OF bump effect_validation_failed [OF failed(4)]] failed(5)]] by blast
next
  case (good s msg s2 pa s3 as early s')
  have "R s [] s2" using silent [OF remove effect_validate_app [OF good(3)]] by simp
  moreover have "R s2 pa s3" using good(4) by (auto simp: nil split: if_splits intro: effect_process_in_order)
  ultimately show ?case using compose [OF silent silent [OF bump good(5)]] by blast
qed (rule nil)

lemma effect_drain_queue:
  assumes "drain_queue E now s = Some (as, s1)"
  shows "R s as s1"
proof -
  obtain da early s2 where d: "drain_loop E now s = Some (da, early, s2)"
    using assms by (auto simp: drain_queue_def)
  obtain ca s3 where c: "maybe_continue_chunked_resend now (if s_queue s2 = [] then s2\<lparr>s_resend_requested := False\<rparr> else s2) = (ca, s3)"
    using prod.exhaust by blast
  have "R s2 ca s3" using before [OF _ effect_chunk [OF c]] by simp
  then show ?thesis
    using assms d c compose [OF effect_drain_loop [OF d]] effect_drain_loop [OF d]
    by (cases early) (auto simp: drain_queue_def Let_def)
qed

lemma effect_reject_new_seq_no: "reject_new_seq_no now m r tx s = (as, s1) \<Longrightarrow> R s as s1"
  by (auto simp: reject_new_seq_no_def Let_def split: prod.splits intro: fresh)

lemma effect_on_sequence_reset:
  assumes "on_sequence_reset E now m s = Some (as, s1)"
  shows "R s as s1"
proof -
  obtain r s2 where v: "validate_app E now m s = Some (r, s2)"
    using assms by (auto simp: on_sequence_reset_def split: option.splits)
  note ev = effect_validate_app [OF v]
  show ?thesis
  proof (cases r)
    case None
    have "R s2 as s1"
      using assms v None
      by (auto simp: on_sequence_reset_def nil not_less split: if_splits option.splits prod.splits
          dest!: effect_reject_new_seq_no effect_drain_queue dest: body_number_bound(2)
          intro: silent [OF skip] silent [OF effect_apply_gap_fill])
    then show ?thesis using silent ev None by simp
  next
    case (Some rej)
    obtain fa d s4 where fa: "validation_failed now (if seq_num m = Some (s_next_in_seq s2) then bump_in s2 else s2) = (fa, d, s4)"
      using prod_cases3 by blast
    have "R s2 fa s4" using silent [OF _ effect_validation_failed [OF fa]] bump nil by simp
    then show ?thesis using assms v Some fa cons [OF _ \<open>R s2 fa s4\<close>] ev by (auto simp: on_sequence_reset_def Let_def)
  qed
qed

lemma core_raise_target: "core (raise_target q s) = core s"
  by (simp add: raise_target_def)

lemma effect_enqueue_too_high:
  assumes "seq_num m = Some q" "s_next_in_seq s < q" "enqueue_too_high now q m s = (as, s1)"
  shows "R s as s1"
proof -
  have "R (s\<lparr>s_queue := bt_insert q m (s_queue s)\<rparr>) as s1"
    using assms(3) unfolding enqueue_too_high_def Let_def
    by (auto simp: core_raise_target split: prod.splits if_splits intro!: control intro: effect_request_after)
  then show ?thesis using silent [OF enqueue [OF assms(1,2)]] by blast
qed

lemma effect_on_too_low: "on_too_low E now m s = (as, s1) \<Longrightarrow> R s as s1"
  by (auto simp: on_too_low_def nil split: if_splits option.splits
      intro: effect_session_reject effect_logout_and_disconnect)

lemma effect_on_too_high:
  assumes "seq_num m = Some q" "s_next_in_seq s < q" "on_too_high now q m s = (as, s1)"
  shows "R s as s1"
proof (cases "msg_type m = Some ''5''")
  case True
  then show ?thesis using assms(3) by (simp add: on_too_high_def effect_on_logout_msg)
next
  case False
  obtain ra s2 where ra: "(if msg_type m = Some ''2'' then on_resend_request now m s else ([], s)) = (ra, s2)"
    using prod.exhaust by blast
  obtain qa where qa: "enqueue_too_high now q m s2 = (qa, s1)" "as = ra @ qa"
    using assms(3) False ra by (auto simp: on_too_high_def Let_def split: prod.splits)
  have "R s ra s2" using ra by (auto simp: nil split: if_splits intro: effect_on_resend_request)
  moreover have "s_next_in_seq s2 = s_next_in_seq s"
    using ra out_only_eqs(3) [OF out_only_on_resend_request] by (auto split: if_splits)
  ultimately show ?thesis using compose effect_enqueue_too_high [OF assms(1) _ qa(1)] assms(2) qa(2) by simp
qed

lemma effect_on_expected:
  assumes "on_expected E now m s = Some (as, s1)"
  shows "R s as s1"
proof -
  obtain r s2 where v: "validate_app E now m s = Some (r, s2)"
    using assms by (auto simp: on_expected_def split: option.splits)
  note ev = effect_validate_app [OF v]
  show ?thesis
  proof (cases r)
    case None
    obtain pa s3 where pa: "process_in_order now m (msg_type m) s2 = (pa, s3)" using prod.exhaust by blast
    have "R s2 as s1" using assms v None pa
      by (auto simp: on_expected_def intro!: compose [OF effect_process_in_order silent [OF bump effect_drain_queue]])
    then show ?thesis using silent ev None by simp
  next
    case (Some rej)
    obtain fa d s3 where fa: "validation_failed now (bump_in s2) = (fa, d, s3)" using prod_cases3 by blast
    have f: "R s2 fa s3" using silent [OF bump effect_validation_failed [OF fa]] .
    obtain bs where "as = rej # fa @ bs" "R s3 bs s1"
      using assms v Some fa nil by (auto simp: on_expected_def split: if_splits dest: effect_drain_queue)
    then show ?thesis using cons [OF _ compose [OF f]] ev Some by simp
  qed
qed

lemma effect_dispatch: "seq_num m = Some q \<Longrightarrow> dispatch E now q m s = Some (as, s1) \<Longrightarrow> R s as s1"
  by (auto simp: dispatch_def split: if_splits intro: effect_on_expected effect_on_too_high effect_on_too_low)

lemma effect_dispatch_sequence_reset:
  "seq_num m = Some q \<Longrightarrow> dispatch_sequence_reset E now q m s = Some (as, s1) \<Longrightarrow> R s as s1"
  by (auto simp: dispatch_sequence_reset_def split: if_splits
      intro: effect_on_sequence_reset effect_enqueue_too_high effect_on_too_low)

lemma effect_reject_then_logout: "reject_then_logout now m rj tx s = (as, s1) \<Longrightarrow> R s as s1"
  by (auto simp: reject_then_logout_def Let_def split: prod.splits option.splits
      dest!: effect_logout_and_disconnect effect_build_session_reject intro: compose cons)

lemma effect_refuse_received: "refuse_received E now m s = Some (as, s1) \<Longrightarrow> R s as s1"
  by (auto simp: refuse_received_def Let_def split: if_splits option.splits
      intro: effect_reject_then_logout effect_logout_and_disconnect)

lemma effect_reject_bad_seq: "reject_bad_seq now m s = (as, s1) \<Longrightarrow> R s as s1"
  by (auto simp: reject_bad_seq_def Let_def split: prod.splits intro: fresh)

text \<open>Everything received but a Logon.\<close>

lemma effect_on_received:
  assumes "on_received E now m s = Some (as, s1)" "msg_type m \<noteq> Some ''A''"
  shows "R s as s1"
  by (rule before [of s "s\<lparr>s_ticks_since_recv := 0, s_test_request_outstanding := False\<rparr>"])
     (use assms in \<open>auto simp: on_received_def Let_def split: option.splits if_splits
        intro: effect_refuse_received effect_reject_bad_seq effect_session_reject effect_dispatch effect_dispatch_sequence_reset\<close>)

end

section \<open>Connecting, ticking and logging on\<close>

lemma core_tick_counters [simp]: "core (tick_counters s) = core s"
  by (simp add: tick_counters_def core_defs)

context session_effect
begin

lemma effect_fresh_connection: "R s [] (fresh_connection s)"
  unfolding fresh_connection_def by (rule then_nil [OF clear control]) (simp add: core_defs)

lemma effect_send_logon:
  assumes "send_logon now s = (a, s1)"
  shows "R s [a] s1"
proof -
  obtain q s2 where "next_seq (s\<lparr>s_reset_on_logon_pending := should_send_reset s\<rparr>) = (q, s2)"
    "send_stored (logon_with_reset_flag (s_config s2) now q (maybe_next_expected s) (should_send_reset s))
       (s2\<lparr>s_logon_sent := True\<rparr>) = (a, s1)"
    using assms by (auto simp: send_logon_def Let_def split: prod.splits)
  then show ?thesis using before [OF core_update_simps(12) [symmetric] fresh] by simp
qed

lemma effect_on_connected:
  assumes "on_connected now s = (as, s1)"
  shows "R s as s1"
proof (rule silent [OF effect_fresh_connection])
  show "R (fresh_connection s) as s1"
    using assms nil cons [OF wipe]
    by (auto simp: on_connected_def Let_def split: role.splits prod.splits if_splits dest!: effect_send_logon)
qed

lemma effect_start_logout: "start_logout now tx s = (as, s1) \<Longrightarrow> R s as s1"
  by (auto simp: start_logout_def Let_def split: prod.splits intro!: after [OF logout_sent])

lemma effect_on_start_logout: "on_start_logout now s = (as, s1) \<Longrightarrow> R s as s1"
  by (auto simp: on_start_logout_def nil split: if_splits intro: effect_start_logout)

lemma effect_drop_connection: "drop_connection s = (as, s1) \<Longrightarrow> R s as s1"
  by (auto simp: drop_connection_def split: prod.splits intro!: compose [OF effect_enter_disconnected hang_up])

lemma effect_beat: "beat now s = (as, s1) \<Longrightarrow> R s as s1"
  by (auto simp: beat_def Let_def nil split: prod.splits if_splits intro: fresh)

lemma effect_probe: "probe now s = (as, s1) \<Longrightarrow> R s as s1"
  by (auto simp: probe_def Let_def nil split: prod.splits if_splits intro: fresh)

lemma effect_on_tick: "on_tick E now s = (as, s1) \<Longrightarrow> R s as s1"
  by (rule before [of s "tick_counters s"])
     (auto simp: on_tick_def Let_def nil split: prod.splits if_splits session_state.splits
        dest!: effect_drop_connection effect_start_logout effect_beat effect_probe intro: compose)

text \<open>Every event but a Logon.\<close>

lemma effect_handle:
  assumes "handle E now e s = Some (as, s1)" "\<And>m. e = Received m \<Longrightarrow> msg_type m \<noteq> Some ''A''"
  shows "R s as s1"
  using assms
  by (auto simp: handle_def split: event.splits
      intro: effect_on_connected effect_on_received effect_on_tick effect_on_start_logout effect_on_garbled effect_enter_disconnected)

end

text \<open>Relations that also tolerate the inbound-only reset of a Logon.\<close>

locale logon_effect = session_effect +
  assumes wipe_inbound: "R s [] (reset_sequences False s)"
begin

lemma effect_accept_as_acceptor: "accept_as_acceptor now m fl s = (a, s1) \<Longrightarrow> R s [a] s1"
  unfolding accept_as_acceptor_def Let_def
  by (rule before [of s "(case body_int m HEART_BT_INT of
                  Some h \<Rightarrow> if 0 < h
                    then s\<lparr>s_config := (s_config s)\<lparr>cfg_heartbeat_interval := (if nat h < u32_size then nat h else u32_size - 1)\<rparr>\<rparr>
                    else s
                | None \<Rightarrow> s)\<lparr>s_state := LoggedOn\<rparr>"])
     (auto split: prod.splits option.splits intro: fresh)

lemma effect_request_logon_gap: "request_logon_gap now q s = (a, s1) \<Longrightarrow> R s [a] s1"
  by (auto simp: request_logon_gap_def Let_def core_raise_target intro: effect_request_after)

lemma effect_after_logon:
  assumes "after_logon E now m q n s = Some (as, s1)"
  shows "R s as s1"
proof -
  obtain da s2 where d: "(if q = n then drain_queue E now s
            else if n < q \<and> \<not> s_resend_requested s
              then (let (a, s1) = request_logon_gap now q s in Some ([a], s1))
            else Some ([], s)) = Some (da, s2)"
    using assms by (auto simp: after_logon_def split: option.splits)
  have "R s da s2"
    using d by (auto simp: Let_def nil split: if_splits prod.splits intro: effect_drain_queue effect_request_logon_gap)
  moreover obtain bs where "as = da @ bs" "R s2 bs s1"
    using assms d nil by (auto simp: after_logon_def Let_def split: option.splits if_splits prod.splits dest: effect_build_resend)
  ultimately show ?thesis using compose by blast
qed

lemma effect_reset_for_logon: "reset_for_logon m s = (as, s1) \<Longrightarrow> R s as s1"
  by (auto simp: reset_for_logon_def nil wipe wipe_inbound split: if_splits)

lemma effect_count_logon: "R s [] (count_logon q s)"
  by (simp add: count_logon_def bump nil)

lemma effect_logon_as_acceptor: "logon_as_acceptor E now m q n s = Some (as, s1) \<Longrightarrow> R s as s1"
  by (auto simp: logon_as_acceptor_def Let_def nil split: if_splits prod.splits
      dest!: effect_request_logon_gap effect_accept_as_acceptor effect_after_logon intro: cons)

lemma effect_logon_as_initiator:
  assumes "logon_as_initiator E now m q n s = Some (as, s1)"
  shows "R s as s1"
proof (cases "s_reset_on_logon_pending s \<and> \<not> requests_reset m \<and> q \<noteq> 1")
  case True
  then show ?thesis
    using assms before [OF core_update_simps(12) [symmetric] effect_reject_logon] by (simp add: logon_as_initiator_def)
next
  case False
  then have "after_logon E now m q n (s\<lparr>s_reset_on_logon_pending := False, s_state := LoggedOn\<rparr>) = Some (as, s1)"
    using assms by (simp add: logon_as_initiator_def split: if_splits)
  moreover have "core s = core (s\<lparr>s_reset_on_logon_pending := False, s_state := LoggedOn\<rparr>)" by simp
  ultimately show ?thesis using before [OF _ effect_after_logon] by blast
qed

lemma effect_accept_logon:
  assumes "accept_logon E now m q s = Some (as, s1)"
  shows "R s as s1"
proof -
  obtain ra t where t: "reset_for_logon m s = (ra, t)" using prod.exhaust by blast
  then obtain bs where bs: "as = ra @ bs" "R (count_logon q t) bs s1"
    using assms effect_logon_as_acceptor effect_logon_as_initiator
    by (fastforce simp: accept_logon_def Let_def split: role.splits)
  then show ?thesis using compose [OF effect_reset_for_logon [OF t] silent [OF effect_count_logon]] by blast
qed

lemma effect_on_logon:
  assumes "on_logon E now m s = Some (as, s1)"
  shows "R s as s1"
proof -
  define t where "t = s\<lparr>s_logon_received := True\<rparr>"
  have "R t as s1"
  proof (cases "logon_refusal E now m t = None \<and> seq_num m \<noteq> None")
    case False
    then show ?thesis
      using assms by (auto simp: on_logon_def Let_def t_def nil split: option.splits dest: effect_reject_logon)
  next
    case True
    then obtain q where q: "logon_refusal E now m t = None" "seq_num m = Some q" by blast
    then obtain r s2 where v: "validate_app E now m t = Some (r, s2)"
      using assms by (auto simp: on_logon_def Let_def t_def split: option.splits)
    note ev = effect_validate_app [OF v]
    show ?thesis
    proof (cases r)
      case None
      have "R s2 as s1"
        using assms q v None
        by (auto simp: on_logon_def Let_def t_def split: option.splits if_splits
            dest!: effect_reject_logon effect_accept_logon intro: before [OF core_update_simps(11) [symmetric]])
      then show ?thesis using silent ev None by simp
    next
      case (Some rej)
      define u where "u = (if q = s_next_in_seq s2 then bump_in s2 else s2)"
      have u: "R s2 [] u" using bump nil by (simp add: u_def)
      obtain k s3 a s4 where sent: "next_seq u = (k, s3)" "as = [rej, a, Disconnect]" "s1 = s4\<lparr>s_state := Disconnected\<rparr>"
        "send_logout (logout (s_config s3) now k (Some ''Logon failed dictionary validation'')) s3 = (a, s4)"
        using assms q v Some
        by (auto simp: on_logon_def Let_def t_def [symmetric] u_def [symmetric] split: prod.splits)
      have "R u [a, Disconnect] s1" by (rule logout_hang_up [OF sent(1,4)]) (simp_all add: sent(3))
      then show ?thesis using cons [OF _ silent [OF u]] ev Some sent(2) by simp
    qed
  qed
  then show ?thesis using before [of s t] by (simp add: t_def)
qed

lemma effect_any_received:
  assumes "on_received E now m s = Some (as, s1)"
  shows "R s as s1"
proof (cases "msg_type m = Some ''A''")
  case True
  show ?thesis
    by (rule before [of s "s\<lparr>s_ticks_since_recv := 0, s_test_request_outstanding := False\<rparr>"])
       (use assms True in \<open>auto simp: on_received_def Let_def split: option.splits intro: effect_refuse_received effect_on_logon\<close>)
qed (rule effect_on_received [OF assms])

lemma effect_any_event: "handle E now e s = Some (as, s1) \<Longrightarrow> R s as s1"
  using effect_handle [of E now e s as s1] effect_any_received by (cases "\<exists>m. e = Received m") (auto simp: handle_def)

end

text \<open>Relations that also hold of the calls the transport makes outside of events.\<close>

locale call_effect = logon_effect +
  assumes app_sent: "next_seq s = (q, s1) \<Longrightarrow> send_stored m s1 = (a, s2) \<Longrightarrow> numbered q m \<Longrightarrow> R s [a] s2"
    and discarded: "R s [] (discard_sent q s)"
    and op_reset: "R s [] (reset s)"
begin

lemma effect_send_app:
  assumes "send_app now m s = (as, s1)"
  shows "R s as s1"
  using assms
  by (auto simp: send_app_def Let_def split: prod.splits intro!: app_sent)
     (simp add: numbered_def fm_get_set MSG_SEQ_NUM_def)

lemma effect_call:
  assumes "call_session E now c s = Some (as, s1)" "\<not> cfg_refresh_on_logon (s_config s)" "allowed c s"
  shows "R s as s1"
  using assms
  by (cases c)
     (auto simp: call_session_def Let_def gap_fill_after_veto_def split: prod.splits
        intro: effect_any_event effect_send_app op_reset effect_reject_logon effect_business_reject discarded fill)

end

end
