(* ===== verification/Fix_Invariants.thy ===== *)
theory Fix_Invariants
  imports Fix_Effects
begin

text \<open>
  The invariants of the session engine, each an interpretation of the effect locales: the session
  stays well formed, its dictionaries and settings stay as they were, its messages are numbered
  without gaps, and its inbound counter only moves back in a reset.
\<close>

section \<open>Well-formed sessions\<close>

definition session_wf :: "session \<Rightarrow> bool" where
  "session_wf s \<longleftrightarrow>
     0 < s_next_in_seq s \<and> s_next_in_seq s < u64_size \<and> 0 < s_next_out_seq s \<and> s_next_out_seq s < u64_size
     \<and> bt_sorted (s_store s) \<and> (\<forall>q m. bt_get (s_store s) q = Some m \<longrightarrow> q < s_next_out_seq s \<and> seq_num m = Some q)
     \<and> bt_sorted (s_queue s) \<and> (\<forall>q m. bt_get (s_queue s) q = Some m \<longrightarrow> seq_num m = Some q)"

lemma session_wf_core: "core s = core s' \<Longrightarrow> session_wf s = session_wf s'"
  by (simp add: session_wf_def core_def)

lemma core_config:
  assumes "core s = core s'"
  shows "cfg_persist_messages (s_config s) = cfg_persist_messages (s_config s')"
proof -
  have "cfg_persist_messages ((s_config s)\<lparr>cfg_heartbeat_interval := 0\<rparr>)
      = cfg_persist_messages ((s_config s')\<lparr>cfg_heartbeat_interval := 0\<rparr>)"
    using assms by (simp add: core_defs)
  then show ?thesis by simp
qed

lemma session_wf_next: "session_wf s \<Longrightarrow> next_seq s = (q, s1) \<Longrightarrow> session_wf s1"
proof -
  have "s_next_out_seq s < u64_size \<Longrightarrow> q < s_next_out_seq s \<Longrightarrow> q < sat_add64 (s_next_out_seq s) 1" for q
    using sat_add64_ge [of "s_next_out_seq s" 1] by simp
  then show "session_wf s \<Longrightarrow> next_seq s = (q, s1) \<Longrightarrow> session_wf s1"
    by (auto simp: session_wf_def next_seq_def)
qed

text \<open>The stored copy of a message numbered by the counter lies below the advanced counter.\<close>

lemma session_wf_store:
  assumes "session_wf s" "next_seq s = (q, s1)" "send_stored m s1' = (a, s2)" "core s1' = core s1" "numbered q m"
  shows "session_wf s2"
proof -
  have q: "q = s_next_out_seq s" "s_next_out_seq s1 = sat_add64 q 1" "q < u64_size"
    using assms(1,2) by (auto simp: next_seq_def session_wf_def)
  have w: "session_wf s1'" using session_wf_next [OF assms(1,2)] session_wf_core [OF assms(4)] by simp
  have n: "s_next_out_seq s1' = s_next_out_seq s1" using assms(4) by (simp add: core_def)
  have key: "k = q \<and> k < s_next_out_seq s1'" if "seq_num m = Some k" for k
    using numbered_get [OF assms(5) q(3) that] q n by (simp add: sat_add64_def)
  show ?thesis
    using assms(3) w key
    by (auto simp: send_stored_def Let_def session_wf_def bt.lookup_update bt.invar_update split: if_splits option.splits)
qed

lemma session_wf_reset: "session_wf s \<Longrightarrow> session_wf (reset_sequences full s)"
  by (simp add: session_wf_def reset_sequences_def Let_def)

lemma session_wf_skip:
  "session_wf s \<Longrightarrow> s_next_in_seq s \<le> n \<Longrightarrow> n < 2 ^ 63 \<Longrightarrow>
   session_wf (s\<lparr>s_next_in_seq := n, s_queue := bt_retain (\<lambda>q. n \<le> q) (s_queue s)\<rparr>)"
  by (auto simp: session_wf_def bt.invar_retain bt.lookup_retain)

lemma session_wf_queue:
  "session_wf s \<Longrightarrow> seq_num m = Some q \<Longrightarrow> session_wf (s\<lparr>s_queue := bt_insert q m (s_queue s)\<rparr>)"
  "session_wf s \<Longrightarrow> session_wf (s\<lparr>s_queue := bt_remove k (s_queue s)\<rparr>)"
  "session_wf s \<Longrightarrow> session_wf (s\<lparr>s_queue := []\<rparr>)"
  by (auto simp: session_wf_def bt.invar_update bt.lookup_update bt.invar_delete bt.lookup_delete split: if_splits)

interpretation wf: call_effect "\<lambda>s as s'. session_wf s \<longrightarrow> session_wf s'"
proof (unfold_locales, goal_cases)
  case (1 s s')
  then show ?case using session_wf_core by blast
next
  case (3 s q s1 m s1' a s2)
  then show ?case using session_wf_store by (auto simp: engine_built_def)
next
  case (4 s q s1 m s1' a s2)
  then show ?case
    using session_wf_next session_wf_core [of s1' s1] session_wf_core [of s2 s1'] by (auto simp: send_raw_def Let_def)
next
  case (5 now f n s a s1)
  then show ?case using gap_fill_keeps session_wf_core by blast
next
  case (9 s)
  then show ?case by (simp add: bump_in_def session_wf_def)
next
  case (15 s q s1 m a s2)
  then show ?case using session_wf_store by blast
next
  case (16 s q)
  then show ?case by (auto simp: discard_sent_def session_wf_def bt.invar_delete bt.lookup_delete split: if_splits)
next
  case (17 s)
  then show ?case using session_wf_reset session_wf_core [of "reset s"] by (simp add: reset_def)
qed (blast intro: session_wf_reset session_wf_skip session_wf_queue)+

section \<open>Dictionaries and settings\<close>

text \<open>Nothing a session does changes its dictionaries, or its settings other than the heartbeat interval.\<close>

lemma session_setup_simps [simp]:
  "session_setup (reset_sequences full s) = session_setup s" "session_setup (bump_in s) = session_setup s"
  by (simp_all add: session_setup_def reset_sequences_def bump_in_def Let_def)

lemma session_setup_core: "core s = core s' \<Longrightarrow> session_setup s = session_setup s'"
  by (simp add: core_def)

lemma session_setup_out_only: "out_only s s' \<Longrightarrow> session_setup s' = session_setup s"
  by (simp add: session_setup_def out_only_eqs)

interpretation kept: call_effect "\<lambda>s as s'. session_setup s' = session_setup s"
proof (unfold_locales, goal_cases)
  case (3 s q s1 m s1' a s2)
  then show ?case
    using session_setup_out_only out_only_next_seq out_only_send_stored session_setup_core [of s1' s1] by metis
next
  case (4 s q s1 m s1' a s2)
  then show ?case
    using session_setup_out_only out_only_next_seq out_only_send_raw session_setup_core [of s1' s1] by metis
next
  case (5 now f n s a s1)
  then show ?case using session_setup_out_only out_only_gap_fill by blast
next
  case (15 s q s1 m a s2)
  then show ?case using session_setup_out_only out_only_next_seq out_only_send_stored by metis
qed (simp_all add: core_def session_setup_def reset_sequences_def bump_in_def discard_sent_def reset_def Let_def)

section \<open>Numbering\<close>

text \<open>
  The counter after a list of actions: a new message must carry the counter and advances it, gap
  fills and resends carry numbers given out before, and a reset starts over at 1.
\<close>

fun run_seq :: "nat \<Rightarrow> action list \<Rightarrow> nat option" where
  "run_seq n [] = Some n"
| "run_seq n (Send m # as) =
     (if fills_gap m then run_seq n as else if numbered n m then run_seq (sat_add64 n 1) as else None)"
| "run_seq n (Resend m q # as) = run_seq n as"
| "run_seq n (Disconnect # as) = run_seq n as"
| "run_seq n (ResetStore # as) = run_seq 1 as"

lemma run_seq_append: "run_seq n (as @ bs) = Option.bind (run_seq n as) (\<lambda>k. run_seq k bs)"
  by (induction n as rule: run_seq.induct) auto

lemma core_counter: "core s = core s' \<Longrightarrow> s_next_out_seq s = s_next_out_seq s'"
  by (simp add: core_def)

lemma engine_built_run: "engine_built q m \<Longrightarrow> run_seq q [Send m] = Some (sat_add64 q 1)"
  using engine_built_not_fill [of q m] by (simp add: engine_built_def)

interpretation num: logon_effect "\<lambda>s as s'. run_seq (s_next_out_seq s) as = Some (s_next_out_seq s')"
proof (unfold_locales, goal_cases)
  case (1 s s')
  then show ?case by (simp add: core_def)
next
  case (3 s q s1 m s1' a s2)
  then show ?case
    using core_counter [of s1' s1] engine_built_run [of q "stamp_last_msg_seq_num_processed (s1'\<lparr>s_ticks_since_send := 0\<rparr>) m"]
    by (auto simp: next_seq_def send_stored_def Let_def split: if_splits option.splits)
next
  case (4 s q s1 m s1' a s2)
  then show ?case
    using core_counter [of s1' s1] engine_built_run [of q "stamp_last_msg_seq_num_processed (s1'\<lparr>s_ticks_since_send := 0\<rparr>) m"]
    by (auto simp: next_seq_def send_raw_def Let_def)
next
  case (5 now f n s a s1)
  have "fills_gap (set_header (field_int 369 k) m) = fills_gap m" for k m
    by (simp add: fills_gap_def msg_type_def is_poss_dup_def get_str_def fm_get_set MSG_TYPE_def POSS_DUP_FLAG_def)
  then show ?case
    using 5 sequence_reset_fills by (auto simp: gap_fill_def send_raw_def Let_def)
qed (simp_all add: run_seq_append reset_sequences_def bump_in_def Let_def)

section \<open>The inbound counter\<close>

interpretation mono: session_effect
  "\<lambda>s as s'. s_next_in_seq s < u64_size \<longrightarrow>
      s_next_in_seq s' < u64_size \<and> (s_next_in_seq s \<le> s_next_in_seq s' \<or> ResetStore \<in> set as)"
proof (unfold_locales, goal_cases)
  case (3 s q s1 m s1' a s2)
  then show ?case
    using out_only_eqs(3) [OF out_only_next_seq] out_only_eqs(3) [OF out_only_send_stored] by (simp add: core_def)
next
  case (4 s q s1 m s1' a s2)
  then show ?case
    using out_only_eqs(3) [OF out_only_next_seq] out_only_eqs(3) [OF out_only_send_raw] by (simp add: core_def)
next
  case (5 now f n s a s1)
  then show ?case using out_only_eqs(3) [OF out_only_gap_fill] by simp
next
  case (9 s)
  then show ?case using sat_add64_ge [of "s_next_in_seq s" 1] by (simp add: bump_in_def)
qed (auto simp: core_def reset_sequences_def Let_def)

end
