(* ===== verification/Fix_Validate_Props.thy ===== *)
theory Fix_Validate_Props
  imports Fix_Validate Fix_Dict_Props
begin

text \<open>
  What an accepted message satisfies: an exact description of the field loop, the structure of
  accepted repeating groups at every depth and in both representations, the two rejection layers,
  and that validation returns.
\<close>

section \<open>The field loop\<close>

definition udf_skipped :: "validation_options \<Rightarrow> tag \<Rightarrow> bool" where
  "udf_skipped opts t \<longleftrightarrow> UDF_START \<le> t \<and> \<not> vo_validate_user_defined_fields opts"

definition value_fine :: "ext \<Rightarrow> data_dictionary \<Rightarrow> validation_options \<Rightarrow> field_def \<Rightarrow> field \<Rightarrow> bool" where
  "value_fine E d opts fd f \<longleftrightarrow>
     (vo_check_field_types opts \<and> f_tag f \<noteq> BEGIN_STRING \<and> f_tag f \<noteq> CHECK_SUM \<longrightarrow>
        value_ok E (fd_type fd) f (is_legacy_char_lenient d)
        \<and> (\<forall>v. as_str f = Inr v \<longrightarrow> field_allows fd v))"

definition field_acceptable :: "ext \<Rightarrow> data_dictionary \<Rightarrow> validation_options \<Rightarrow> message_def \<Rightarrow> field \<Rightarrow> bool" where
  "field_acceptable E d opts md f \<longleftrightarrow>
     udf_skipped opts (f_tag f) \<or>
     ((vo_validate_fields_have_values opts \<and> f_value f = [] \<longrightarrow> f_tag f \<in> set REVERSE_ROUTE_TAGS)
      \<and> (case dict_field d (f_tag f) of
           None \<Rightarrow> vo_allow_unknown_msg_fields opts
         | Some fd \<Rightarrow> value_fine E d opts fd f
             \<and> (\<exists>b. belongs d md (f_tag f) = Some b \<and> (b \<or> vo_allow_unknown_msg_fields opts))))"

text \<open>The tags that may occur only once: neither skipped nor members of a group of the message.\<close>

definition once_tags :: "validation_options \<Rightarrow> message_def \<Rightarrow> field list \<Rightarrow> tag list" where
  "once_tags opts md fs =
     (if vo_check_repeated_tags opts
      then filter (\<lambda>t. \<not> udf_skipped opts t \<and> t \<notin> set (md_member_tags md)) (map f_tag fs) else [])"

lemma check_value_ok: "check_value E d opts fd f = Inr () \<longleftrightarrow> value_fine E d opts fd f"
  by (auto simp: check_value_def value_fine_def split: sum.splits)

lemma check_value_unit: "check_value E d opts fd f = Inr u \<longleftrightarrow> value_fine E d opts fd f"
  using check_value_ok by (cases u) simp

lemma check_value_Inl: "check_value E d opts fd f = Inl e \<Longrightarrow> \<not> value_fine E d opts fd f"
  using check_value_ok [of E d opts fd f] by auto

lemma field_loop_accepts:
  "field_loop E d opts md seen fs = Some (Inr ()) \<longleftrightarrow>
     (\<forall>f \<in> set fs. field_acceptable E d opts md f)
     \<and> distinct (once_tags opts md fs) \<and> set (once_tags opts md fs) \<inter> set seen = {}"
proof (induction fs arbitrary: seen)
  case (Cons f fs)
  let ?t = "f_tag f"
  show ?case
  proof (cases "udf_skipped opts ?t")
    case True
    then show ?thesis using Cons by (simp add: udf_skipped_def field_acceptable_def once_tags_def)
  next
    case False
    let ?once = "vo_check_repeated_tags opts \<and> ?t \<notin> set (md_member_tags md)"
    let ?seen' = "if ?once then ?t # seen else seen"
    have ot: "once_tags opts md (f # fs) = (if ?once then ?t # once_tags opts md fs else once_tags opts md fs)"
      using False by (simp add: once_tags_def)
    have step: "field_loop E d opts md seen (f # fs) = Some (Inr ()) \<longleftrightarrow>
        \<not> (?once \<and> ?t \<in> set seen) \<and> field_acceptable E d opts md f \<and> field_loop E d opts md ?seen' fs = Some (Inr ())"
      using False
      by (auto simp: Let_def udf_skipped_def field_acceptable_def check_value_unit check_value_ok
            split: option.splits sum.splits Option.bind_splits if_splits dest: check_value_Inl)
    show ?thesis unfolding step Cons ot by auto
  qed
qed (simp add: once_tags_def)

lemma missing_in_ok: "missing_in here tags txt = Inr () \<longleftrightarrow> (\<forall>t \<in> set tags. here t)"
  by (auto simp: missing_in_def find_None_iff find_Some_iff split: option.splits)

lemma missing_in_Inl: "missing_in here tags txt = Inl e \<Longrightarrow> \<exists>t \<in> set tags. \<not> here t"
  by (auto simp: missing_in_def find_Some_iff split: option.splits)

lemma validate_accepts_iff:
  assumes "vo_validate_incoming_message opts"
  shows "validate E d opts msg = Some (Inr ()) \<longleftrightarrow>
     \<not> version_mismatch d msg \<and> \<not> (vo_validate_fields_out_of_order opts \<and> m_out_of_order msg)
     \<and> poss_dup_check opts msg = Inr ()
     \<and> (\<exists>mt md. msg_type msg = Some mt \<and> dict_message d mt = Some md
         \<and> (let fs = fm_fields (m_header msg) @ fm_fields (m_body msg) @ fm_fields (m_trailer msg) in
            (\<forall>f \<in> set fs. field_acceptable E d opts md f) \<and> distinct (once_tags opts md fs))
         \<and> (vo_check_groups opts \<longrightarrow> validate_groups E d opts msg = Inr ())
         \<and> required_check opts md msg = Inr ())"
proof -
  have fl: "(\<forall>f \<in> set fs. field_acceptable E d opts md f) \<and> distinct (once_tags opts md fs)
      \<longleftrightarrow> field_loop E d opts md [] fs = Some (Inr ())" for md fs
    by (simp add: field_loop_accepts)
  show ?thesis
    unfolding Let_def fl using assms
    by (auto simp: validate_def split: if_splits sum.splits option.splits Option.bind_splits)
qed

lemma required_check_ok:
  "required_check opts md msg = Inr () \<longleftrightarrow>
     (vo_check_required_fields opts \<longrightarrow>
        (\<forall>t \<in> set (md_required md). present msg t)
        \<and> (vo_check_required_envelope_fields opts \<longrightarrow>
             (\<forall>t \<in> set (header_required_tags @ trailer_required_tags). present msg t)))"
  by (auto simp: required_check_def missing_in_ok split: sum.splits dest!: missing_in_Inl)

section \<open>Accepted structured groups\<close>

text \<open>One group occurrence: its count tag, its entries and its declared count.\<close>

type_synonym occurrence = "tag \<times> field_map list \<times> int option"

text \<open>The occurrences directly inside an occurrence, at members the dictionary declares.\<close>

definition inside :: "data_dictionary \<Rightarrow> occurrence \<Rightarrow> occurrence \<Rightarrow> bool" where
  "inside d x y =
     (case (x, y) of ((ct, es, dc), (ct', es', dc')) \<Rightarrow>
        \<exists>g. dict_group d ct = Some g \<and> ct' \<in> set (gd_members g) \<and> (\<exists>e \<in> set es. MGroup ct' es' dc' \<in> set e))"

definition group_fine :: "ext \<Rightarrow> data_dictionary \<Rightarrow> validation_options \<Rightarrow> occurrence \<Rightarrow> bool" where
  "group_fine E d opts x =
     (case x of (ct, es, dc) \<Rightarrow>
        \<forall>g. dict_group d ct = Some g \<longrightarrow>
          (\<forall>n. dc = Some n \<longrightarrow> n = int (length es))
          \<and> (\<forall>e \<in> set es.
               (vo_validate_unordered_group_fields opts \<longrightarrow>
                  sorted (List.map_filter (\<lambda>m. position (member_tag m) (gd_members g)) e))
               \<and> (vo_check_required_fields opts \<longrightarrow> (\<forall>t \<in> set (gd_required g). present_in_structured_entry d e t))
               \<and> (checks_values opts \<longrightarrow>
                    (\<forall>f. MField f \<in> set e \<and> f_tag f \<in> set (gd_members g) \<longrightarrow> check_group_field_value E d g f opts = Inr ()))))"

lemma structured_members_ok:
  assumes "structured_members E d opts g nx i e = Inr ()"
  shows "vo_validate_unordered_group_fields opts \<longrightarrow>
      sorted (i # List.map_filter (\<lambda>m. position (member_tag m) (gd_members g)) e)"
    and "checks_values opts \<Longrightarrow> MField f \<in> set e \<Longrightarrow> f_tag f \<in> set (gd_members g) \<Longrightarrow> check_group_field_value E d g f opts = Inr ()"
    and "MGroup ct es dc \<in> set e \<Longrightarrow> ct \<in> set (gd_members g) \<Longrightarrow> \<exists>nx'. validate_structured_group E d opts es dc nx' ct = Inr ()"
  using assms
proof (induction e arbitrary: i)
  case (Cons m e)
  {
    case 1
    then show ?case using Cons(1)
      by (cases "position (member_tag m) (gd_members g)")
         (fastforce simp: map_filter_simps split: if_splits sum.splits)+
  next
    case 2
    then show ?case using Cons(2) position_None_iff [of "member_tag m" "gd_members g"]
      by (cases "position (member_tag m) (gd_members g)")
         (auto split: if_splits sum.splits)
  next
    case 3
    then show ?case using Cons(3) position_None_iff [of "member_tag m" "gd_members g"]
      by (cases "position (member_tag m) (gd_members g)")
         (auto split: if_splits sum.splits)
  }
qed (auto simp: map_filter_simps)

lemma structured_entries_ok:
  assumes "structured_entries E d opts g nx es = Inr ()" "e \<in> set es"
  shows "structured_members E d opts g nx 0 e = Inr ()"
    and "vo_check_required_fields opts \<Longrightarrow> t \<in> set (gd_required g) \<Longrightarrow> present_in_structured_entry d e t"
  using assms by (induction es) (auto split: sum.splits if_splits simp: missing_in_ok)

lemma validate_structured_group_fine:
  assumes "validate_structured_group E d opts es dc nx ct = Inr ()"
  shows "group_fine E d opts (ct, es, dc)"
    and "inside d (ct, es, dc) (ct', es', dc') \<Longrightarrow> \<exists>nx'. validate_structured_group E d opts es' dc' nx' ct' = Inr ()"
proof -
  have en: "structured_entries E d opts g nx es = Inr ()" "\<forall>n. dc = Some n \<longrightarrow> n = int (length es)"
    if "dict_group d ct = Some g" for g
    using assms that
    by (auto simp: validate_structured_group.simps structured_count_check_def split: sum.splits option.splits if_splits)
  show "group_fine E d opts (ct, es, dc)"
    unfolding group_fine_def using en structured_entries_ok structured_members_ok(1,2) by fastforce
  show "\<exists>nx'. validate_structured_group E d opts es' dc' nx' ct' = Inr ()"
    if "inside d (ct, es, dc) (ct', es', dc')"
    using that en(1) structured_entries_ok(1) structured_members_ok(3) unfolding inside_def by fastforce
qed

lemma validate_structured_group_deep:
  assumes "(inside d)\<^sup>*\<^sup>* x y" "x = (ct, es, dc)" "validate_structured_group E d opts es dc nx ct = Inr ()"
  shows "group_fine E d opts y"
proof -
  have "\<exists>nx'. validate_structured_group E d opts (fst (snd y)) (snd (snd y)) nx' (fst y) = Inr ()"
    using assms
  proof (induction rule: rtranclp_induct)
    case (step y z)
    obtain a b c a' b' c' where "y = (a, b, c)" "z = (a', b', c')" by (cases y; cases z) auto
    then show ?case using step validate_structured_group_fine(2) by fastforce
  qed auto
  then show ?thesis using validate_structured_group_fine(1) by (cases y) auto
qed

section \<open>Accepted flat groups\<close>

definition entry_fine :: "validation_options \<Rightarrow> group_def \<Rightarrow> field list \<Rightarrow> bool" where
  "entry_fine opts g e \<longleftrightarrow>
     e \<noteq> [] \<and> f_tag (hd e) = gd_delimiter g
     \<and> (vo_check_required_fields opts \<longrightarrow> set (gd_required g) \<subseteq> f_tag ` set e)"

lemma flat_group_split:
  "validate_group E d opts ct fs = Inr r \<Longrightarrow> dict_group d ct = Some g \<Longrightarrow>
     \<exists>cf entries. fs = cf # concat entries @ r \<and> as_int cf = Inr (int (length entries))
       \<and> (\<forall>e \<in> set entries. entry_fine opts g e)"
  "flat_entries E d opts g ct dec found fs = Inr r \<Longrightarrow>
     \<exists>entries. fs = concat entries @ r \<and> dec = found + int (length entries)
       \<and> (\<forall>e \<in> set entries. entry_fine opts g e)"
  "flat_members E d opts g i seen fs = Inr (sn, r) \<Longrightarrow>
     \<exists>p. fs = p @ r \<and> set sn \<subseteq> set seen \<union> f_tag ` set p"
proof (induction E d opts ct fs and E d opts g ct dec found fs and E d opts g i seen fs
    arbitrary: r g and r and sn r rule: validate_group_flat_entries_flat_members.induct)
  case (1 E d opts count_tag fs)
  then show ?case
    by (auto simp: validate_group.simps split: list.splits sum.splits)
next
  case (2 E d opts g count_tag declared found fs)
  note eq = 2(3) [unfolded flat_entries.simps [of E d opts g count_tag declared found fs]]
  show ?case
  proof (cases "fs \<noteq> [] \<and> f_tag (hd fs) = gd_delimiter g")
    case True
    then obtain seen rest where
      v: "(if checks_values opts then check_group_field_value E d g (hd fs) opts else Inr ()) = Inr ()"
      and m: "flat_members E d opts g 0 [gd_delimiter g] (tl fs) = Inr (seen, rest)"
      and q: "(if vo_check_required_fields opts
         then missing_in (\<lambda>t. t \<in> set seen) (gd_required g) ''group entry missing a required field'' else Inr ()) = Inr ()"
      and e: "flat_entries E d opts g count_tag declared (found + 1) rest = Inr r"
      using eq by (auto split: sum.splits prod.splits)
    obtain p where p: "tl fs = p @ rest" "set seen \<subseteq> set [gd_delimiter g] \<union> f_tag ` set p"
      using 2(1) [OF True v m] by blast
    obtain entries where en: "rest = concat entries @ r" "declared = found + 1 + int (length entries)"
        "\<forall>e \<in> set entries. entry_fine opts g e"
      using 2(2) [OF True v m refl q e] by blast
    have "entry_fine opts g (hd fs # p)"
      using True p(2) q by (auto simp: entry_fine_def missing_in_ok split: if_splits)
    then show ?thesis using p(1) en True
      by (intro exI [of _ "(hd fs # p) # entries"]) (cases fs, auto)
  qed (use eq in \<open>auto split: if_splits\<close>)
next
  case (4 E d opts g last_idx seen f fs)
  show ?case
  proof (cases "f_tag f = gd_delimiter g \<or> position (f_tag f) (gd_members g) = None")
    case True
    then show ?thesis using 4(4) by (auto simp: Let_def split: option.splits)
  next
    case False
    then obtain idx where nd: "f_tag f \<noteq> gd_delimiter g" and idx: "position (f_tag f) (gd_members g) = Some idx" by auto
    show ?thesis
    proof (cases "is_group_count d (f_tag f)")
      case True
      then obtain rest where vg: "validate_group E d opts (f_tag f) (f # fs) = Inr rest"
        and fm: "flat_members E d opts g idx (seen @ [f_tag f]) rest = Inr (sn, r)"
        and ord: "\<not> (vo_validate_unordered_group_fields opts \<and> idx < last_idx)"
        using 4(4) nd idx by (auto simp: Let_def split: if_splits sum.splits)
      obtain g' where g': "dict_group d (f_tag f) = Some g'" using True by (auto simp: is_group_count_def)
      obtain q where q: "f # fs = (f # q) @ rest"
        using 4(1) [OF refl nd idx ord True vg g'] by auto
      obtain p where "rest = p @ r" "set sn \<subseteq> set (seen @ [f_tag f]) \<union> f_tag ` set p"
        using 4(2) [OF refl nd idx ord True vg fm] by blast
      then show ?thesis using q by (intro exI [of _ "f # q @ p"]) auto
    next
      case F: False
      then have ord: "\<not> (vo_validate_unordered_group_fields opts \<and> idx < last_idx)"
        and v: "(if checks_values opts then check_group_field_value E d g f opts else Inr ()) = Inr ()"
        and fm: "flat_members E d opts g idx (seen @ [f_tag f]) fs = Inr (sn, r)"
        using 4(4) nd idx by (auto simp: Let_def split: if_splits sum.splits)
      obtain p where "fs = p @ r" "set sn \<subseteq> set (seen @ [f_tag f]) \<union> f_tag ` set p"
        using 4(3) [OF refl nd idx ord F v fm] by blast
      then show ?thesis by (intro exI [of _ "f # p"]) auto
    qed
  qed
qed simp

section \<open>The rejection layers\<close>

lemma structured_errors_session:
  "validate_structured_group E d opts es dc nx ct = Inl e \<Longrightarrow> \<not> ve_business e"
  "structured_entries E d opts g nx es = Inl e \<Longrightarrow> \<not> ve_business e"
  "structured_members E d opts g nx i ms = Inl e \<Longrightarrow> \<not> ve_business e"
  by (induction E d opts es dc nx ct and E d opts g nx es and E d opts g nx i ms
      rule: validate_structured_group_structured_entries_structured_members.induct)
     (auto simp: validate_structured_group.simps structured_count_check_def missing_in_def check_group_field_value_def
        session_error_def Let_def split: option.splits sum.splits if_splits member.splits)

lemma flat_errors_session:
  "validate_group E d opts ct fs = Inl e \<Longrightarrow> \<not> ve_business e"
  "flat_entries E d opts g ct dec found fs = Inl e \<Longrightarrow> \<not> ve_business e"
  "flat_members E d opts g i seen fs = Inl e \<Longrightarrow> \<not> ve_business e"
proof (induction E d opts ct fs and E d opts g ct dec found fs and E d opts g i seen fs
    rule: validate_group_flat_entries_flat_members.induct)
  case (1 E d opts count_tag fs)
  then show ?case by (auto simp: validate_group.simps session_error_def split: list.splits sum.splits option.splits)
next
  case (2 E d opts g count_tag declared found fs)
  note eq = 2(3) [unfolded flat_entries.simps [of E d opts g count_tag declared found fs]]
  from 2(1,2) eq show ?case
    by (auto simp: session_error_def missing_in_def check_group_field_value_def Let_def
          split: if_splits sum.splits prod.splits option.splits)
next
  case (4 E d opts g last_idx seen f fs)
  then show ?case
    by (auto simp: session_error_def check_group_field_value_def Let_def split: if_splits sum.splits option.splits)
qed simp

lemma field_loop_errors_session:
  "field_loop E d opts md seen fs = Some (Inl e) \<Longrightarrow> \<not> ve_business e"
proof (induction fs arbitrary: seen)
  case (Cons f fs)
  then show ?case
    by (auto simp: Let_def session_error_def check_value_def
          split: if_splits sum.splits option.splits Option.bind_splits)
qed simp

lemma scan_errors_session: "scan_flat_groups E d opts fs = Inl e \<Longrightarrow> \<not> ve_business e"
  by (induction E d opts fs rule: scan_flat_groups.induct)
     (auto split: if_splits sum.splits dest: flat_errors_session(1))

lemma pass_errors_session: "structured_pass E d opts msg cts = Inl e \<Longrightarrow> \<not> ve_business e"
  by (induction cts) (auto simp: structured_section_def split: option.splits sum.splits dest: structured_errors_session(1))

lemma groups_errors_session: "validate_groups E d opts msg = Inl e \<Longrightarrow> \<not> ve_business e"
  by (auto simp: validate_groups_def split: sum.splits dest: scan_errors_session pass_errors_session)

section \<open>Termination\<close>

lemma field_loop_returns:
  assumes "ranked d rank"
  shows "\<exists>v. field_loop E d opts md seen fs = Some v"
proof (induction fs arbitrary: seen)
  case (Cons f fs)
  obtain y where "any_group_contains d (dd_header d) (f_tag f) = Some y"
    using any_group_contains_returns [OF assms] by blast
  then obtain x where x: "belongs d md (f_tag f) = Some x"
    by (cases "f_tag f \<in> set (dd_header d)") (auto simp: belongs_def dict_is_header_def)
  show ?case using Cons x
    by (auto simp: Let_def split: option.splits sum.splits)
qed simp

lemma validate_total:
  assumes "ranked d rank"
  shows "\<exists>v. validate E d opts msg = Some v"
proof -
  have "validate E d opts msg \<noteq> None"
  proof
    assume n: "validate E d opts msg = None"
    have fl: "field_loop E d opts md seen fs = None \<Longrightarrow> False" for md seen fs
      using field_loop_returns [OF assms, of E opts md seen fs] by auto
    show False using n
      by (auto simp: validate_def split: if_splits sum.splits option.splits Option.bind_splits dest: fl)
  qed
  then show ?thesis by blast
qed

section \<open>Properties\<close>

text \<open>A small order dictionary, and the order of its message.\<close>

definition fdef :: "tag \<Rightarrow> bytes \<Rightarrow> field_type \<Rightarrow> bytes list \<Rightarrow> tag \<times> field_def" where
  "fdef t n ft vs = (t, \<lparr>fd_tag = t, fd_name = n, fd_type = ft, fd_values = vs, fd_open_enum = False, fd_value_labels = []\<rparr>)"

definition order_dict :: data_dictionary where
  "order_dict = DataDictionary ''FIX.4.4''
     [fdef 8 ''BeginString'' TString [], fdef 9 ''BodyLength'' TLength [], fdef 10 ''CheckSum'' TString [],
      fdef 34 ''MsgSeqNum'' TSeqNum [], fdef 35 ''MsgType'' TString [], fdef 44 ''Price'' TPrice [],
      fdef 54 ''Side'' TChar [''1'', ''2''], fdef 55 ''Symbol'' TString [], fdef 448 ''PartyID'' TString [],
      fdef 452 ''PartyRole'' TInt [], fdef 453 ''NoPartyIDs'' TNumInGroup []]
     []
     [(''D'', \<lparr>md_msg_type = ''D'', md_name = ''NewOrderSingle'', md_required = [55, 54], md_optional = [44, 453],
         md_member_tags = [448, 452], md_field_order = None\<rparr>)]
     [8, 9, 34, 35] [10] [(453, GroupDef 453 448 [448, 452] [452] None)] [] 0 None"

definition order_msg :: "bytes \<Rightarrow> field_map \<Rightarrow> message" where
  "order_msg side extra =
     \<lparr>m_header = [MField (mk_field 8 ''FIX.4.4''), MField (mk_field 35 ''D''), MField (mk_field 34 ''2'')],
      m_body = MField (mk_field 55 ''MSFT'') # MField (mk_field 54 side) # extra,
      m_trailer = [], m_out_of_order = False\<rparr>"

definition two_parties :: field_map where
  "two_parties = [MGroup 453 [[MField (mk_field 448 ''A''), MField (mk_field 452 ''1'')],
                              [MField (mk_field 448 ''B''), MField (mk_field 452 ''3'')]] (Some 2)]"

definition flat_two_parties :: "field list" where
  "flat_two_parties = [mk_field 453 ''2'', mk_field 448 ''A'', mk_field 452 ''1'', mk_field 448 ''B'',
     mk_field 452 ''3'', mk_field 58 ''t'']"

text \<open>
  C4. Exactly when validation accepts. With validation enabled, a message is accepted if and only if its
  BeginString does not contradict the dictionary, it is not out of order (when that is checked), the
  PossDup rules hold, its MsgType is defined, every header, body and trailer field is acceptable (known or
  tolerated, non-empty where required, of the right format and enumeration, in the right section), no tag
  outside the message's groups occurs twice, the repeating groups pass, and every required field is there.
\<close>

theorem validate_accepts:
  assumes "vo_validate_incoming_message opts"
  shows "validate E d opts msg = Some (Inr ()) \<longleftrightarrow>
     \<not> version_mismatch d msg \<and> \<not> (vo_validate_fields_out_of_order opts \<and> m_out_of_order msg)
     \<and> poss_dup_check opts msg = Inr ()
     \<and> (\<exists>mt md. msg_type msg = Some mt \<and> dict_message d mt = Some md
         \<and> (let fs = fm_fields (m_header msg) @ fm_fields (m_body msg) @ fm_fields (m_trailer msg) in
            (\<forall>f \<in> set fs. field_acceptable E d opts md f) \<and> distinct (once_tags opts md fs))
         \<and> (vo_check_groups opts \<longrightarrow> validate_groups E d opts msg = Inr ())
         \<and> (vo_check_required_fields opts \<longrightarrow> (\<forall>t \<in> set (md_required md). present msg t)
             \<and> (vo_check_required_envelope_fields opts \<longrightarrow>
                  (\<forall>t \<in> set (header_required_tags @ trailer_required_tags). present msg t))))"
  using validate_accepts_iff [OF assms] unfolding required_check_ok .

theorem validate_accepts_witness:
  "validate utc_ext order_dict default_options (order_msg ''1'' two_parties) = Some (Inr ())
   \<and> present (order_msg ''1'' two_parties) 54 \<and> \<not> field_acceptable utc_ext order_dict default_options
        (the (dict_message order_dict ''D'')) (mk_field 54 ''9'')"
proof -
  have v: "validate utc_ext order_dict default_options (order_msg ''1'' two_parties) = Some (Inr ())" by code_simp
  have o: "vo_validate_incoming_message default_options" "vo_check_required_fields default_options" by code_simp+
  have md: "msg_type (order_msg ''1'' two_parties) = Some ''D''"
    "54 \<in> set (md_required (the (dict_message order_dict ''D'')))" by code_simp+
  have n: "\<not> field_allows (snd (fdef 54 ''Side'' TChar [''1'', ''2''])) ''9''"
    "dict_field order_dict 54 = Some (snd (fdef 54 ''Side'' TChar [''1'', ''2'']))"
    "\<not> udf_skipped default_options 54" "vo_check_field_types default_options"
    "as_str (mk_field 54 ''9'') = Inr ''9''" by code_simp+
  from validate_accepts [OF o(1), of utc_ext order_dict "order_msg ''1'' two_parties"] v o(2) md
  have p: "present (order_msg ''1'' two_parties) 54" by auto
  have "\<not> value_fine utc_ext order_dict default_options (snd (fdef 54 ''Side'' TChar [''1'', ''2''])) (mk_field 54 ''9'')"
    using n(1,4,5) by (auto simp: value_fine_def tag_defs)
  then show ?thesis using v p n(2,3) by (simp add: field_acceptable_def)
qed

text \<open>
  C35. Accepted structured groups are well-formed at every depth: for the group itself and every group
  nested in it at declared members, a declared count equals the number of entries, the members of each
  entry follow the dictionary's order, required members are present and checked values are valid.
\<close>

theorem structured_group_sound:
  assumes "validate_structured_group E d opts entries declared nx ct = Inr ()"
    and "(inside d)\<^sup>*\<^sup>* (ct, entries, declared) (ct', entries', declared')"
  shows "group_fine E d opts (ct', entries', declared')"
  using validate_structured_group_deep [OF assms(2) refl assms(1)] .

theorem structured_group_sound_witness:
  "validate_structured_group utc_ext order_dict default_options
     [[MField (mk_field 448 ''A''), MField (mk_field 452 ''1'')]] (Some 1) None 453 = Inr ()
   \<and> group_fine utc_ext order_dict default_options (453, [[MField (mk_field 448 ''A''), MField (mk_field 452 ''1'')]], Some 1)"
proof -
  have v: "validate_structured_group utc_ext order_dict default_options
     [[MField (mk_field 448 ''A''), MField (mk_field 452 ''1'')]] (Some 1) None 453 = Inr ()" by code_simp
  show ?thesis using v structured_group_sound [OF v rtranclp.rtrancl_refl] by blast
qed

text \<open>
  Accepted flat groups are well-formed: the count field's value is exactly the number of entries
  that follow it, the entries cover the fields up to the rest, and each begins with the delimiter and
  contains every required member.
\<close>

theorem flat_group_sound:
  assumes "validate_group E d opts ct fs = Inr rest" "dict_group d ct = Some g"
  shows "\<exists>cf entries. fs = cf # concat entries @ rest \<and> as_int cf = Inr (int (length entries))
     \<and> (\<forall>e \<in> set entries. e \<noteq> [] \<and> f_tag (hd e) = gd_delimiter g
          \<and> (vo_check_required_fields opts \<longrightarrow> set (gd_required g) \<subseteq> f_tag ` set e))"
  using flat_group_split(1) [OF assms] unfolding entry_fine_def .

theorem flat_group_sound_witness:
  "validate_group utc_ext order_dict default_options 453 flat_two_parties = Inr [mk_field 58 ''t'']
   \<and> (\<exists>cf entries. flat_two_parties = cf # concat entries @ [mk_field 58 ''t''] \<and> as_int cf = Inr (int (length entries)))"
proof -
  have v: "validate_group utc_ext order_dict default_options 453 flat_two_parties = Inr [mk_field 58 ''t'']"
    "dict_group order_dict 453 = Some (GroupDef 453 448 [448, 452] [452] None)" by code_simp+
  show ?thesis using v(1) flat_group_sound [OF v] by blast
qed

text \<open>
  The two rejection layers: validation rejects at the business level only a message whose MsgType is
  present and not defined in the dictionary; every other failure is a session-level one.
\<close>

theorem validate_business_only_unknown_type:
  assumes "validate E d opts msg = Some (Inl e)" "ve_business e"
  shows "ve_reason e = InvalidMsgType \<and> (\<exists>mt. msg_type msg = Some mt \<and> dict_message d mt = None)"
  using assms
  by (auto simp: validate_def session_error_def business_error_def poss_dup_check_def required_check_def missing_in_def
        split: if_splits sum.splits option.splits Option.bind_splits
        dest: field_loop_errors_session groups_errors_session)

theorem validate_business_only_unknown_type_witness:
  "\<exists>e. validate utc_ext (hops_dict []) default_options (order_msg ''1'' []) = Some (Inl e) \<and> ve_reason e = InvalidMsgType"
proof -
  let ?e = "business_error InvalidMsgType (Some 35) ''MsgType not defined in dictionary''"
  have v: "validate utc_ext (hops_dict []) default_options (order_msg ''1'' []) = Some (Inl ?e)" "ve_business ?e"
    by code_simp+
  show ?thesis using v(1) validate_business_only_unknown_type [OF v] by blast
qed

text \<open>
  C36. Validation returns: over a dictionary without cyclic groups every message gets a verdict,
  whatever the options.
\<close>

theorem validate_returns:
  assumes "ranked d rank"
  shows "\<exists>v. validate E d opts msg = Some v"
  using assms by (rule validate_total)

theorem validate_returns_witness:
  "\<exists>v. validate utc_ext (hops_dict hops_groups) default_options (order_msg ''1'' two_parties) = Some v"
proof -
  have r: "ranked (hops_dict hops_groups) (\<lambda>t. if t = 627 then 1 else 0)" by code_simp
  show ?thesis by (rule validate_returns [OF r])
qed

end
