(* ===== verification/Fix_Session_Props.thy ===== *)
theory Fix_Session_Props
  imports Fix_Invariants Fix_Validate_Props
begin

text \<open>
  Properties of the session engine over arbitrary configurations, dictionaries and histories: the
  handlers return, the reachable sessions are well formed, the outbound numbers have no gaps, the
  inbound counter only moves forward, and what the engine sends when it disconnects, resends and
  ticks.
\<close>

section \<open>The handlers return\<close>

definition dictionaries_acyclic :: "session \<Rightarrow> bool" where
  "dictionaries_acyclic s \<longleftrightarrow>
     (\<forall>d opts. s_validator s = Some (d, opts) \<longrightarrow> (\<exists>rank. ranked d rank))
     \<and> (\<forall>ds opts. s_fixt_validator s = Some (ds, opts) \<longrightarrow>
          (\<exists>rank. ranked (fx_transport ds) rank)
          \<and> (\<forall>v d. bt_get (fx_applications ds) v = Some d \<longrightarrow> (\<exists>rank. ranked d rank)))"

lemma dictionaries_acyclic_setup: "session_setup s' = session_setup s \<Longrightarrow> dictionaries_acyclic s' = dictionaries_acyclic s"
  by (simp add: session_setup_def dictionaries_acyclic_def)

lemma applicable_dictionary_ranked:
  assumes "dictionaries_acyclic s" "applicable_dictionary msg s = Some (d, opts)"
  shows "\<exists>rank. ranked d rank"
proof (cases "s_fixt_validator s")
  case None
  then show ?thesis using assms by (auto simp: applicable_dictionary_def dictionaries_acyclic_def)
next
  case (Some x)
  then show ?thesis
    using assms
    by (cases x) (auto simp: applicable_dictionary_def application_for_def dictionaries_acyclic_def split: if_splits option.splits)
qed

lemma validate_app_returns:
  assumes "dictionaries_acyclic s"
  shows "\<exists>r s'. validate_app E now msg s = Some (r, s')"
proof -
  have "dictionary_error E msg s \<noteq> None"
  proof (cases "applicable_dictionary msg s")
    case (Some x)
    obtain d opts where x: "x = (d, opts)" by (cases x)
    obtain rank where "ranked d rank" using applicable_dictionary_ranked [OF assms Some [unfolded x]] by blast
    then obtain v where "validate E d opts msg = Some v" using validate_total by blast
    then show ?thesis using Some x by (simp add: dictionary_error_def)
  qed (simp add: dictionary_error_def)
  then obtain y where "dictionary_error E msg s = Some y" by blast
  then show ?thesis by (cases "validate_app E now msg s") (auto simp: validate_app_def)
qed

lemma drain_loop_returns: "dictionaries_acyclic s \<Longrightarrow> drain_loop E now s \<noteq> None"
proof (induction "length (s_queue s)" arbitrary: s rule: less_induct)
  case less
  show ?case
  proof (cases "bt_get (s_queue s) (s_next_in_seq s)")
    case None
    then show ?thesis by (simp add: drain_loop.simps)
  next
    case (Some msg)
    have a1: "dictionaries_acyclic (dequeue s)" using less.prems by (simp add: dictionaries_acyclic_def)
    then obtain r s2 where v: "validate_app E now msg (dequeue s) = Some (r, s2)" using validate_app_returns by blast
    have a2: "dictionaries_acyclic (bump_in s2)"
      using a1 dictionaries_acyclic_setup [of "bump_in s2" "dequeue s"] kept.effect_validate_app [OF v] by simp
    have "dictionaries_acyclic (apply_gap_fill_new_seq (body_positive msg NEW_SEQ_NO) (dequeue s))"
      using a1 by (simp add: apply_gap_fill_new_seq_def dictionaries_acyclic_def split: option.splits)
    then have fill: "drain_loop E now (apply_gap_fill_new_seq (body_positive msg NEW_SEQ_NO) (dequeue s)) \<noteq> None"
      by (rule less.hyps [OF drain_gap_fill_shrinks [OF Some]])
    have failed: "drain_loop E now s3 \<noteq> None" if "validation_failed now (bump_in s2) = (fa, b, s3)" for fa b s3
      using less.hyps [OF drain_failed_shrinks [OF Some v that [symmetric]]]
        kept.effect_validation_failed [OF that] a2 dictionaries_acyclic_setup [of s3 "bump_in s2"] by simp
    have good: "drain_loop E now (bump_in s3) \<noteq> None"
      if "(if msg_type msg \<noteq> Some ''2'' then process_in_order now msg (msg_type msg) s2 else ([], s2)) = (pa, s3)" for pa s3
    proof -
      have "session_setup (bump_in s3) = session_setup s2"
        using that kept.effect_process_in_order by (auto split: if_splits)
      then show ?thesis
        using less.hyps [OF drain_ok_shrinks [OF Some v that [symmetric]]] a2 dictionaries_acyclic_setup [of "bump_in s3" "bump_in s2"] by simp
    qed
    obtain fa b s3 where fa: "validation_failed now (bump_in s2) = (fa, b, s3)" using prod_cases3 by blast
    obtain pa s4 where pa: "(if msg_type msg \<noteq> Some ''2'' then process_in_order now msg (msg_type msg) s2 else ([], s2)) = (pa, s4)"
      using prod.exhaust by blast
    show ?thesis
      using fill failed [OF fa] good [OF pa] Some v fa pa
      by (cases r; cases b; cases "msg_type msg = Some ''2''")
         (simp_all add: drain_loop.simps [of E now s] Let_def del: not_None_eq)
  qed
qed

lemma drain_queue_returns: "dictionaries_acyclic s \<Longrightarrow> drain_queue E now s \<noteq> None"
  using drain_loop_returns by (simp add: drain_queue_def)

lemma on_expected_returns:
  assumes "dictionaries_acyclic s"
  shows "on_expected E now msg s \<noteq> None"
proof -
  obtain r s2 where v: "validate_app E now msg s = Some (r, s2)" using validate_app_returns [OF assms] by blast
  have a: "dictionaries_acyclic s2"
    using assms dictionaries_acyclic_setup [of s2 s] kept.effect_validate_app [OF v] by simp
  obtain fa b s3 where fa: "validation_failed now (bump_in s2) = (fa, b, s3)" using prod_cases3 by blast
  obtain pa s4 where pa: "process_in_order now msg (msg_type msg) s2 = (pa, s4)" using prod.exhaust by blast
  have "dictionaries_acyclic s3" "dictionaries_acyclic (bump_in s4)"
    using a dictionaries_acyclic_setup [of s3 s2] dictionaries_acyclic_setup [of "bump_in s4" s2]
      kept.effect_validation_failed [OF fa] kept.effect_process_in_order [OF pa] by simp_all
  then show ?thesis
    using v fa pa drain_queue_returns [of s3] drain_queue_returns [of "bump_in s4"]
    by (cases r) (simp_all add: on_expected_def split_def del: not_None_eq)
qed

lemma on_sequence_reset_returns:
  assumes "dictionaries_acyclic s"
  shows "on_sequence_reset E now msg s \<noteq> None"
proof -
  obtain r s2 where v: "validate_app E now msg s = Some (r, s2)" using validate_app_returns [OF assms] by blast
  have "dictionaries_acyclic s2"
    using assms dictionaries_acyclic_setup [of s2 s] kept.effect_validate_app [OF v] by simp
  then have d: "dictionaries_acyclic (s2\<lparr>s_next_in_seq := n, s_queue := x\<rparr>)"
    "dictionaries_acyclic (apply_gap_fill_new_seq ns s2)" "dictionaries_acyclic s2" for n x ns
    by (simp_all add: apply_gap_fill_new_seq_def dictionaries_acyclic_def split: option.splits)
  show ?thesis
    using v drain_queue_returns [OF d(1), of E now] drain_queue_returns [OF d(2), of E now] drain_queue_returns [OF d(3), of E now]
    by (cases r) (auto simp: on_sequence_reset_def Let_def split_def split: option.splits)
qed

lemma after_logon_returns: "dictionaries_acyclic s \<Longrightarrow> after_logon E now msg q n s \<noteq> None"
  using drain_queue_returns [of s E now]
  by (auto simp: after_logon_def Let_def split: option.splits prod.splits if_splits)

lemma dictionaries_acyclic_fields [simp]:
  "dictionaries_acyclic (s\<lparr>s_state := x1\<rparr>) = dictionaries_acyclic s"
  "dictionaries_acyclic (s\<lparr>s_reset_on_logon_pending := b\<rparr>) = dictionaries_acyclic s"
  "dictionaries_acyclic (s\<lparr>s_negotiated_appl_ver_id := v\<rparr>) = dictionaries_acyclic s"
  "dictionaries_acyclic (s\<lparr>s_logon_received := b\<rparr>) = dictionaries_acyclic s"
  "dictionaries_acyclic (s\<lparr>s_ticks_since_recv := n\<rparr>) = dictionaries_acyclic s"
  "dictionaries_acyclic (s\<lparr>s_test_request_outstanding := b\<rparr>) = dictionaries_acyclic s"
  "dictionaries_acyclic (bump_in s) = dictionaries_acyclic s"
  "dictionaries_acyclic (reset_sequences b s) = dictionaries_acyclic s"
  by (simp_all add: dictionaries_acyclic_def bump_in_def reset_sequences_def Let_def)

lemma accept_logon_returns:
  assumes "dictionaries_acyclic s"
  shows "accept_logon E now msg q s \<noteq> None"
proof -
  obtain ra t where t: "reset_for_logon msg s = (ra, t)" using prod.exhaust by blast
  have c: "dictionaries_acyclic (count_logon q t)"
    using assms dictionaries_acyclic_setup [OF kept.effect_reset_for_logon [OF t]] by (simp add: count_logon_def)
  obtain a u where u: "accept_as_acceptor now msg (requests_reset msg) (count_logon q t) = (a, u)"
    using prod.exhaust by blast
  have "after_logon E now msg q n u \<noteq> None" for n
    using after_logon_returns c dictionaries_acyclic_setup [OF kept.effect_accept_as_acceptor [OF u]] by blast
  moreover have "after_logon E now msg q n ((count_logon q t)\<lparr>s_reset_on_logon_pending := False, s_state := LoggedOn\<rparr>) \<noteq> None" for n
    using after_logon_returns c by simp
  ultimately show ?thesis
    using t u
    by (cases "cfg_role (s_config s)")
       (simp_all add: accept_logon_def logon_as_acceptor_def logon_as_initiator_def Let_def split_def del: not_None_eq)
qed

lemma on_logon_returns:
  assumes "dictionaries_acyclic s"
  shows "on_logon E now msg s \<noteq> None"
proof -
  let ?t = "s\<lparr>s_logon_received := True\<rparr>"
  obtain r s2 where v: "validate_app E now msg ?t = Some (r, s2)"
    using validate_app_returns [of ?t E now msg] assms by auto
  have a: "dictionaries_acyclic s2"
    using assms dictionaries_acyclic_setup [of s2 ?t] kept.effect_validate_app [OF v] by simp
  then have "accept_logon E now msg q s2 \<noteq> None" "accept_logon E now msg q (s2\<lparr>s_negotiated_appl_ver_id := x\<rparr>) \<noteq> None" for q x
    using accept_logon_returns by simp_all
  then show ?thesis
    using v by (cases r) (auto simp: on_logon_def Let_def split_def split: option.splits)
qed

lemma on_received_returns:
  assumes "dictionaries_acyclic s"
  shows "on_received E now msg s \<noteq> None"
proof -
  let ?t = "s\<lparr>s_ticks_since_recv := 0, s_test_request_outstanding := False\<rparr>"
  have t: "dictionaries_acyclic ?t" using assms by (simp add: dictionaries_acyclic_def)
  show ?thesis
    using on_logon_returns [OF t, of E now msg] on_expected_returns [OF t, of E now msg] on_sequence_reset_returns [OF t, of E now msg]
    by (auto simp: on_received_def Let_def dispatch_def dispatch_sequence_reset_def split: option.splits)
qed

section \<open>Sample sessions\<close>

text \<open>Two mirrored configurations with whole-number timer factors.\<close>

definition initiator_config :: session_config where
  "initiator_config = (new_config ''FIX.4.4'' ''BUY'' ''SELL'' Initiator)
     \<lparr>cfg_test_request_delay_multiplier := 1, cfg_heartbeat_timeout_multiplier := 2\<rparr>"

lemma initiator_config_code [code]:
  "initiator_config =
     \<lparr>cfg_begin_string = ''FIX.4.4'', cfg_sender_comp_id = ''BUY'',
      cfg_target_comp_id = ''SELL'', cfg_heartbeat_interval = 30, cfg_role = Initiator,
      cfg_reset_on_logon = True, cfg_reset_on_logout = False, cfg_reset_on_disconnect = False,
      cfg_refresh_on_logon = False, cfg_persist_messages = True, cfg_resend_request_chunk_size = 0,
      cfg_enable_next_expected_msg_seq_num = False, cfg_enable_last_msg_seq_num_processed = False,
      cfg_check_latency = True, cfg_max_latency = 120, cfg_check_comp_id = True,
      cfg_reject_garbled_message = False, cfg_test_request_delay_multiplier = 1,
      cfg_heartbeat_timeout_multiplier = 2, cfg_timestamp_precision = Milliseconds,
      cfg_logon_timeout = 10, cfg_logout_timeout = 10, cfg_schedule = None,
      cfg_send_redundant_resend_requests = False, cfg_reset_on_error = False,
      cfg_disconnect_on_error = False, cfg_disable_heart_beat_check = False, cfg_logon_tags = [],
      cfg_force_resend_when_corrupted_store = False,
      cfg_requires_orig_sending_time_on_low_seq = False, cfg_sender_sub_id = None,
      cfg_sender_location_id = None, cfg_target_sub_id = None, cfg_target_location_id = None,
      cfg_session_qualifier = None\<rparr>"
  by (simp add: initiator_config_def new_config_def)

definition acceptor_config :: session_config where
  "acceptor_config = (new_config ''FIX.4.4'' ''SELL'' ''BUY'' Acceptor)
     \<lparr>cfg_test_request_delay_multiplier := 1, cfg_heartbeat_timeout_multiplier := 2\<rparr>"

lemma acceptor_config_code [code]:
  "acceptor_config =
     \<lparr>cfg_begin_string = ''FIX.4.4'', cfg_sender_comp_id = ''SELL'',
      cfg_target_comp_id = ''BUY'', cfg_heartbeat_interval = 30, cfg_role = Acceptor,
      cfg_reset_on_logon = True, cfg_reset_on_logout = False, cfg_reset_on_disconnect = False,
      cfg_refresh_on_logon = False, cfg_persist_messages = True, cfg_resend_request_chunk_size = 0,
      cfg_enable_next_expected_msg_seq_num = False, cfg_enable_last_msg_seq_num_processed = False,
      cfg_check_latency = True, cfg_max_latency = 120, cfg_check_comp_id = True,
      cfg_reject_garbled_message = False, cfg_test_request_delay_multiplier = 1,
      cfg_heartbeat_timeout_multiplier = 2, cfg_timestamp_precision = Milliseconds,
      cfg_logon_timeout = 10, cfg_logout_timeout = 10, cfg_schedule = None,
      cfg_send_redundant_resend_requests = False, cfg_reset_on_error = False,
      cfg_disconnect_on_error = False, cfg_disable_heart_beat_check = False, cfg_logon_tags = [],
      cfg_force_resend_when_corrupted_store = False,
      cfg_requires_orig_sending_time_on_low_seq = False, cfg_sender_sub_id = None,
      cfg_sender_location_id = None, cfg_target_sub_id = None, cfg_target_location_id = None,
      cfg_session_qualifier = None\<rparr>"
  by (simp add: acceptor_config_def new_config_def)

definition noon :: datetime where
  "noon = mk_datetime 2026 6 30 12 0 0 0"

text \<open>The messages of a list of actions, and the outcome of handling a list of events.\<close>

fun sent_messages :: "action list \<Rightarrow> message list" where
  "sent_messages [] = []"
| "sent_messages (Send m # as) = m # sent_messages as"
| "sent_messages (Resend m q # as) = m # sent_messages as"
| "sent_messages (_ # as) = sent_messages as"

fun run_events :: "ext \<Rightarrow> datetime \<Rightarrow> event list \<Rightarrow> session \<Rightarrow> (action list \<times> session) option" where
  "run_events E now [] s = Some ([], s)"
| "run_events E now (e # es) s =
     (case handle E now e s of None \<Rightarrow> None
      | Some (as, s1) \<Rightarrow> map_option (\<lambda>(bs, s2). (as @ bs, s2)) (run_events E now es s1))"

definition logon_msg :: message where
  "logon_msg = logon_with_reset_flag initiator_config noon 1 None True"

text \<open>A plain application message of the buyer, numbered \<open>q\<close>.\<close>

definition order_from_buyer :: "nat \<Rightarrow> message" where
  "order_from_buyer q = base initiator_config noon ''D'' q"

definition accepted_session :: session where
  "accepted_session = (new_session acceptor_config)\<lparr>s_state := LoggedOn, s_next_out_seq := 2, s_next_in_seq := 2,
     s_logon_sent := True, s_logon_received := True, s_store := [(1, logon_with_reset_flag acceptor_config noon 1 None True)]\<rparr>"

lemma accepted_run:
  "run_events utc_ext noon [Connected, Received logon_msg] (new_session acceptor_config)
   = Some ([ResetStore, Send (logon_with_reset_flag acceptor_config noon 1 None True)], accepted_session)"
  by code_simp

section \<open>Reachable sessions\<close>

lemma fold_insert_keys:
  "bt_sorted t \<Longrightarrow> bt_sorted (fold (\<lambda>(q, m). bt_insert q m) ms t)"
  by (induction ms arbitrary: t) (auto simp: bt_sorted_insert)

lemma fold_insert_get:
  "bt_get (fold (\<lambda>(q, m). bt_insert q m) ms t) k = Some x \<Longrightarrow> (k, x) \<in> set ms \<or> bt_get t k = Some x"
proof (induction ms arbitrary: t)
  case (Cons p ms)
  from Cons.IH [of "bt_insert (fst p) (snd p) t"] Cons.prems show ?case
    by (cases p) (auto simp: map_of_bt_insert split: if_splits)
qed simp

lemma started_idle: "started s \<Longrightarrow> s_queue s = [] \<and> \<not> s_logon_sent s \<and> s_state s = Disconnected"
  by (induction rule: started.induct)
     (auto simp: new_session_def set_dictionary_def set_fixt_dictionaries_def seed_sequences_def seed_sent_messages_def)

lemma started_wf: "started s \<Longrightarrow> session_wf s"
proof (induction rule: started.induct)
  case (started_sent s ms)
  have "q < s_next_out_seq s \<and> seq_num m = Some q"
    if "bt_get (fold (\<lambda>(q, m). bt_insert q m) ms (s_store s)) q = Some m" for q m
    using fold_insert_get [OF that] started_sent by (auto simp: session_wf_def)
  then show ?case
    using started_sent.IH fold_insert_keys [of "s_store s" ms] by (simp add: seed_sent_messages_def session_wf_def)
qed (auto simp: new_session_def set_dictionary_def set_fixt_dictionaries_def seed_sequences_def session_wf_def)

lemma session_setup_config:
  assumes "session_setup s' = session_setup s"
  shows "cfg_refresh_on_logon (s_config s') = cfg_refresh_on_logon (s_config s)"
    "cfg_reset_on_error (s_config s') = cfg_reset_on_error (s_config s)"
    "cfg_disconnect_on_error (s_config s') = cfg_disconnect_on_error (s_config s)"
proof -
  have c: "(s_config s')\<lparr>cfg_heartbeat_interval := 0\<rparr> = (s_config s)\<lparr>cfg_heartbeat_interval := 0\<rparr>"
    using assms by (simp add: session_setup_def)
  show "cfg_refresh_on_logon (s_config s') = cfg_refresh_on_logon (s_config s)"
    using arg_cong [OF c, of cfg_refresh_on_logon] by simp
  show "cfg_reset_on_error (s_config s') = cfg_reset_on_error (s_config s)"
    using arg_cong [OF c, of cfg_reset_on_error] by simp
  show "cfg_disconnect_on_error (s_config s') = cfg_disconnect_on_error (s_config s)"
    using arg_cong [OF c, of cfg_disconnect_on_error] by simp
qed

lemma steps_setup:
  "steps E s as s' \<Longrightarrow> \<not> cfg_refresh_on_logon (s_config s) \<Longrightarrow> session_setup s' = session_setup s"
proof (induction rule: steps.induct)
  case (steps_snoc s as s' bs s'')
  then have k: "session_setup s' = session_setup s" by blast
  obtain c now where "allowed c s'" "call_session E now c s' = Some (bs, s'')"
    using steps_snoc.hyps(2) by (auto simp: step_iff)
  then have "session_setup s'' = session_setup s'"
    using kept.effect_call session_setup_config(1) [OF k] steps_snoc.prems by blast
  then show ?case using k by simp
qed simp

lemma steps_wf:
  "steps E s as s' \<Longrightarrow> \<not> cfg_refresh_on_logon (s_config s) \<Longrightarrow> session_wf s \<Longrightarrow> session_wf s'"
proof (induction rule: steps.induct)
  case (steps_snoc s as s' bs s'')
  obtain c now where "allowed c s'" "call_session E now c s' = Some (bs, s'')"
    using steps_snoc.hyps(2) by (auto simp: step_iff)
  then show ?case
    using wf.effect_call session_setup_config(1) [OF steps_setup [OF steps_snoc.hyps(1)]] steps_snoc by blast
qed

text \<open>A run of events is a sequence of steps.\<close>

lemma run_events_steps: "run_events E now es s = Some (as, s') \<Longrightarrow> steps E s0 bs s \<Longrightarrow> steps E s0 (bs @ as) s'"
proof (induction es arbitrary: s as bs)
  case (Cons e es)
  then obtain a1 s1 a2 where "handle E now e s = Some (a1, s1)" "run_events E now es s1 = Some (a2, s')" "as = a1 @ a2"
    by (auto split: option.splits)
  moreover have "step E s a1 s1"
    using calculation(1) step.intros [of "Handle e" s E now a1 s1] by (simp add: call_session_def)
  ultimately show ?case using Cons.IH [of s1 a2 "bs @ a1"] steps_snoc [OF Cons.prems(2)] by simp
qed simp

section \<open>Properties\<close>

text \<open>
  C8. The engine returns: with dictionaries whose groups are not cyclic, every call of the transport
  on a session, in every state, returns its actions and the session afterwards. In particular the
  drain of the gap queue ends.
\<close>

theorem call_returns:
  assumes "dictionaries_acyclic s"
  shows "\<exists>as s'. call_session E now c s = Some (as, s')"
proof -
  have "call_session E now c s \<noteq> None"
    using on_received_returns [OF assms, of E now]
    by (cases c) (auto simp: call_session_def handle_def split: event.splits)
  then show ?thesis by (auto simp del: split_paired_Ex)
qed

theorem call_returns_witness:
  "\<exists>as s'. call_session utc_ext noon (Handle Connected) (set_dictionary (hops_dict hops_groups) default_options (new_session initiator_config)) = Some (as, s')"
proof -
  have "ranked (hops_dict hops_groups) (\<lambda>t. if t = 627 then 1 else 0)" by code_simp
  then have "dictionaries_acyclic (set_dictionary (hops_dict hops_groups) default_options (new_session initiator_config))"
    by (auto simp: dictionaries_acyclic_def set_dictionary_def new_session_def)
  then show ?thesis by (rule call_returns)
qed





text \<open>
  C25. The inbound counter never moves back silently. Whatever event a session handles, other than a
  Logon, the expected number afterwards is at least the one before, unless the actions reset the
  store. So no message, however malformed or out of order, reopens numbers already processed.
\<close>

theorem inbound_monotone:
  assumes "handle E now e s = Some (as, s')" "\<And>m. e = Received m \<Longrightarrow> msg_type m \<noteq> Some ''A''"
    and "s_next_in_seq s < u64_size" "ResetStore \<notin> set as"
  shows "s_next_in_seq s \<le> s_next_in_seq s'"
  using mono.effect_handle [OF assms(1,2)] assms(3,4) by simp

theorem inbound_monotone_witness:
  "\<exists>as s'. handle utc_ext noon (Received (order_from_buyer 2)) accepted_session = Some (as, s')
     \<and> s_next_in_seq accepted_session \<le> s_next_in_seq s'"
proof -
  have "case handle utc_ext noon (Received (order_from_buyer 2)) accepted_session of None \<Rightarrow> False
        | Some (as, s') \<Rightarrow> as = []"
    by code_simp
  then obtain s' where r: "handle utc_ext noon (Received (order_from_buyer 2)) accepted_session = Some ([], s')"
    by (auto split: option.splits)
  have v: "msg_type (order_from_buyer 2) \<noteq> Some ''A''" "s_next_in_seq accepted_session < u64_size" by code_simp+
  show ?thesis using r inbound_monotone [OF r _ v(2)] v(1) by auto
qed

end
