(* ===== verification/Fix_Lifecycle.thy ===== *)
theory Fix_Lifecycle
  imports Fix_Invariants
begin

text \<open>
  The states of a session connection. The four states and the events that may move between them form
  a small abstract machine, \<open>lifecycle\<close>; the engine refines it, and disconnects exactly when it tells
  the transport so.
\<close>

section \<open>Staying and closing\<close>

text \<open>Either the actions tell the transport to disconnect and the session is then disconnected, or the state stays.\<close>

definition tends :: "session \<Rightarrow> action list \<Rightarrow> session \<Rightarrow> bool" where
  "tends s as s' \<longleftrightarrow> (if Disconnect \<in> set as then s_state s' = Disconnected else s_state s' = s_state s)"

lemma tends_trans: "tends s as s1 \<Longrightarrow> tends s1 bs s2 \<Longrightarrow> tends s (as @ bs) s2"
  by (auto simp: tends_def split: if_splits)

lemma tends_cons: "a \<noteq> Disconnect \<Longrightarrow> s_state s1 = s_state s \<Longrightarrow> tends s1 bs s2 \<Longrightarrow> tends s (a # bs) s2"
  by (auto simp: tends_def split: if_splits)

lemma tends_stay: "s_state s' = s_state s \<Longrightarrow> Disconnect \<notin> set as \<Longrightarrow> tends s as s'"
  by (simp add: tends_def)

lemma tends_close: "s_state s' = Disconnected \<Longrightarrow> Disconnect \<in> set as \<Longrightarrow> tends s as s'"
  by (simp add: tends_def)

lemma tends_cong: "s_state s1 = s_state s \<Longrightarrow> tends s1 as s' = tends s as s'"
  by (simp add: tends_def)

lemma sends_not_disconnect:
  "send_stored m s = (a, s') \<Longrightarrow> a \<noteq> Disconnect"
  "send_raw m s = (a, s') \<Longrightarrow> a \<noteq> Disconnect"
  "send_logout m s = (a, s') \<Longrightarrow> a \<noteq> Disconnect"
  "gap_fill now f n s = (a, s') \<Longrightarrow> a \<noteq> Disconnect"
  by (auto simp: send_stored_def send_raw_def send_logout_def gap_fill_def Let_def split: if_splits option.splits)

lemma reset_on_error_state: "reset_on_error s = (as, s') \<Longrightarrow> s_state s' = s_state s \<and> Disconnect \<notin> set as"
  by (auto simp: reset_on_error_def reset_sequences_def Let_def split: if_splits)

lemma enter_disconnected_state: "enter_disconnected r s = (as, s') \<Longrightarrow> s_state s' = Disconnected \<and> Disconnect \<notin> set as"
  by (auto simp: enter_disconnected_def reset_sequences_def Let_def split: if_splits)

lemma resend_loop_quiet: "resend_loop now qs g s = (as, g', s') \<Longrightarrow> Disconnect \<notin> set as"
proof (induction qs arbitrary: g s as)
  case (Cons q qs)
  show ?case
  proof (cases "\<exists>m. bt_get (s_store s) q = Some m \<and> (\<not> is_admin_type (msg_type m) \<or> cfg_force_resend_when_corrupted_store (s_config s))")
    case True
    then show ?thesis
      using Cons.prems Cons.IH sends_not_disconnect(4)
      by (fastforce simp: send_resend_def Let_def split: option.splits prod.splits)
  next
    case False
    then show ?thesis using Cons by (auto split: option.splits if_splits)
  qed
qed simp

lemma build_resend_quiet: "build_resend now b e s = (as, s') \<Longrightarrow> Disconnect \<notin> set as"
  by (auto simp: build_resend_def Let_def split: prod.splits option.splits dest: resend_loop_quiet sends_not_disconnect)

lemma build_resend_tends: "build_resend now b e s = (as, s') \<Longrightarrow> tends s as s'"
  using build_resend_quiet out_only_eqs(2) [OF out_only_build_resend] by (simp add: tends_def)

lemma on_resend_request_quiet: "on_resend_request now m s = (as, s') \<Longrightarrow> Disconnect \<notin> set as"
  by (auto simp: on_resend_request_def Let_def split: prod.splits option.splits if_splits
      dest: build_resend_quiet sends_not_disconnect)

lemma request_resend_quiet: "request_resend now b s = (a, s') \<Longrightarrow> a \<noteq> Disconnect \<and> s_state s' = s_state s"
proof -
  assume r: "request_resend now b s = (a, s')"
  then obtain q s1 m c where "next_seq (s\<lparr>s_resend_chunk_end := c\<rparr>) = (q, s1)" "send_stored m s1 = (a, s')"
    unfolding request_resend_def Let_def by (auto split: prod.splits)
  then show ?thesis
    using sends_not_disconnect(1) out_only_eqs(2) [OF out_only_next_seq] out_only_eqs(2) [OF out_only_send_stored] by fastforce
qed

lemma reject_invalid_quiet: "reject_invalid now m e s = (a, s') \<Longrightarrow> a \<noteq> Disconnect"
  by (auto simp: reject_invalid_def Let_def split: prod.splits dest: sends_not_disconnect)

lemma validate_app_quiet:
  assumes "validate_app E now m s = Some (r, s')"
  shows "r \<noteq> Some Disconnect \<and> s_state s' = s_state s"
proof -
  have "fst (reject_invalid now m e s) \<noteq> Disconnect" for e
    using reject_invalid_quiet [OF surjective_pairing] .
  then show ?thesis
    using assms out_only_eqs(2) [OF out_only_validate_app [OF assms]]
    by (auto simp: validate_app_def Let_def split_def split: option.splits)
qed

section \<open>The handlers\<close>

lemma logout_closes:
  "next_seq s = (q, s1) \<Longrightarrow> send_logout m s1' = (a, s2) \<Longrightarrow> s_state s1' = Disconnected \<Longrightarrow> s_state s2 = Disconnected \<and> a \<noteq> Disconnect"
  using out_only_eqs(2) [OF out_only_send_logout] sends_not_disconnect(3) by fastforce

lemma reject_logon_tends: "reject_logon now rj s = (as, s') \<Longrightarrow> tends s as s'"
  by (auto simp: reject_logon_def Let_def split: prod.splits option.splits intro!: tends_close dest: logout_closes)

lemma build_session_reject_quiet: "build_session_reject now m rj s = (a, s') \<Longrightarrow> a \<noteq> Disconnect"
  by (auto simp: build_session_reject_def Let_def split: prod.splits dest: sends_not_disconnect)

lemma session_reject_tends: "session_reject_before_logout now m rj s = (as, s') \<Longrightarrow> tends s as s'"
  using build_session_reject_quiet [of now m rj s] out_only_eqs(2) [OF out_only_build_session_reject, of now m rj s]
  by (auto simp: session_reject_before_logout_def Let_def tends_def split: prod.splits if_splits dest: reject_logon_tends)

lemma logout_and_disconnect_tends: "logout_and_disconnect now tx s = (as, s') \<Longrightarrow> tends s as s'"
  by (auto simp: logout_and_disconnect_def Let_def split: prod.splits intro!: tends_close
      dest!: logout_closes reset_on_error_state)

lemma on_logout_msg_tends: "on_logout_msg now s = (as, s') \<Longrightarrow> tends s as s'"
  by (auto simp: on_logout_msg_def Let_def split: prod.splits if_splits intro!: tends_close dest!: enter_disconnected_state)

lemma answer_test_request_tends: "answer_test_request now m s = (as, s') \<Longrightarrow> tends s as s'"
  using out_only_eqs(2) [OF out_only_answer_test_request, of now m s as s']
  by (auto simp: answer_test_request_def Let_def split: prod.splits if_splits intro!: tends_stay dest: sends_not_disconnect)

lemma process_in_order_tends: "process_in_order now m mt s = (as, s') \<Longrightarrow> tends s as s'"
  using tends_stay [OF out_only_eqs(2) [OF out_only_on_resend_request] on_resend_request_quiet, of now m s as s']
  by (auto simp: process_in_order_def tends_stay split: if_splits
      intro: answer_test_request_tends on_logout_msg_tends)

lemma validation_failed_tends:
  "validation_failed now s = (as, b, s') \<Longrightarrow> tends s as s' \<and> (b \<longrightarrow> s_state s' = Disconnected)"
  by (auto simp: validation_failed_def Let_def tends_def split: prod.splits if_splits dest!: reset_on_error_state)

lemma bump_in_state [simp]: "s_state (bump_in s) = s_state s"
  by (simp add: bump_in_def)

lemma apply_gap_fill_state [simp]: "s_state (apply_gap_fill_new_seq n s) = s_state s"
  by (simp add: apply_gap_fill_new_seq_def split: option.splits)

lemma drain_loop_tends: "drain_loop E now s = Some (as, early, s') \<Longrightarrow> tends s as s'"
proof (induction rule: drain_loop_induct)
  case (fill s msg as early s')
  then show ?case using tends_cong [of "apply_gap_fill_new_seq (body_positive msg NEW_SEQ_NO) (dequeue s)" s] by simp
next
  case (stop s msg rej s2 fa s3)
  then show ?case
    using validate_app_quiet [OF stop(3)] validation_failed_tends [OF stop(4)] by (auto simp: tends_def split: if_splits)
next
  case (failed s msg rej s2 fa s3 as early s')
  then show ?case
    using validate_app_quiet [OF failed(3)] validation_failed_tends [OF failed(4)] by (auto simp: tends_def split: if_splits)
next
  case (good s msg s2 pa s3 as early s')
  have "tends s2 pa s3" using good(4) by (auto split: if_splits intro: process_in_order_tends tends_stay)
  then show ?case
    using validate_app_quiet [OF good(3)] good(5) by (auto simp: tends_def split: if_splits)
qed (simp add: tends_stay)

lemma chunk_tends: "maybe_continue_chunked_resend now s = (as, s') \<Longrightarrow> tends s as s'"
  by (auto simp: maybe_continue_chunked_resend_def Let_def tends_def split: prod.splits option.splits if_splits dest!: request_resend_quiet)

lemma drain_queue_tends:
  assumes "drain_queue E now s = Some (as, s')"
  shows "tends s as s'"
proof -
  obtain da early s1 where d: "drain_loop E now s = Some (da, early, s1)"
    using assms by (auto simp: drain_queue_def)
  obtain ca s2 where c: "maybe_continue_chunked_resend now (if s_queue s1 = [] then s1\<lparr>s_resend_requested := False\<rparr> else s1) = (ca, s2)"
    using prod.exhaust by blast
  have "tends s1 ca s2" using chunk_tends [OF c] by (simp add: tends_def split: if_splits)
  then show ?thesis
    using assms d c drain_loop_tends [OF d] tends_trans [OF drain_loop_tends [OF d]]
    by (cases early) (auto simp: drain_queue_def Let_def)
qed

lemma fresh_quiet: "next_seq s = (q, s1) \<Longrightarrow> send_stored m s1 = (a, s2) \<Longrightarrow> tends s [a] s2"
  using out_only_eqs(2) [OF out_only_next_seq] out_only_eqs(2) [OF out_only_send_stored] sends_not_disconnect(1)
  by (fastforce simp: tends_def)

lemma on_sequence_reset_tends:
  assumes "on_sequence_reset E now m s = Some (as, s')"
  shows "tends s as s'"
proof -
  obtain r s2 where v: "validate_app E now m s = Some (r, s2)"
    using assms by (auto simp: on_sequence_reset_def split: option.splits)
  note q = validate_app_quiet [OF v]
  have rj: "tends s2 bs s3" if "reject_new_seq_no now m k tx s2 = (bs, s3)" for k tx bs s3
    using that by (auto simp: reject_new_seq_no_def Let_def split: prod.splits intro: fresh_quiet)
  have dq: "tends s2 bs s3" if "drain_queue E now t = Some (bs, s3)" "s_state t = s_state s2" for t bs s3
    using drain_queue_tends [OF that(1)] that(2) by (simp add: tends_def)
  show ?thesis
  proof (cases r)
    case None
    have "tends s2 as s'"
      using assms v None by (auto simp: on_sequence_reset_def split: if_splits option.splits intro: rj dq)
    then show ?thesis using q by (simp add: tends_def)
  next
    case (Some rej)
    obtain fa d s4 where fa: "validation_failed now (if seq_num m = Some (s_next_in_seq s2) then bump_in s2 else s2) = (fa, d, s4)"
      using prod_cases3 by blast
    then show ?thesis
      using assms v Some q validation_failed_tends [OF fa] by (auto simp: on_sequence_reset_def Let_def tends_def split: if_splits)
  qed
qed

lemma raise_target_state [simp]: "s_state (raise_target q s) = s_state s"
  by (simp add: raise_target_def)

lemma enqueue_tends: "enqueue_too_high now q m s = (as, s') \<Longrightarrow> tends s as s'"
  unfolding enqueue_too_high_def Let_def
  by (auto simp: tends_def split: if_splits prod.splits dest!: request_resend_quiet)

lemma on_too_low_tends: "on_too_low E now m s = (as, s') \<Longrightarrow> tends s as s'"
  by (auto simp: on_too_low_def tends_stay split: if_splits option.splits
      intro: session_reject_tends logout_and_disconnect_tends)

lemma on_too_high_tends: "on_too_high now q m s = (as, s') \<Longrightarrow> tends s as s'"
  using out_only_eqs(2) [OF out_only_on_resend_request, of now m s] on_resend_request_quiet [of now m s]
  by (auto simp: on_too_high_def Let_def split: if_splits prod.splits dest!: enqueue_tends on_logout_msg_tends simp: tends_def)

lemma on_expected_tends:
  assumes "on_expected E now m s = Some (as, s')"
  shows "tends s as s'"
proof -
  obtain r s2 where v: "validate_app E now m s = Some (r, s2)"
    using assms by (auto simp: on_expected_def split: option.splits)
  note q = validate_app_quiet [OF v]
  show ?thesis
  proof (cases r)
    case None
    obtain pa s3 where pa: "process_in_order now m (msg_type m) s2 = (pa, s3)" using prod.exhaust by blast
    obtain da where "drain_queue E now (bump_in s3) = Some (da, s')" "as = pa @ da"
      using assms v None pa by (auto simp: on_expected_def)
    then show ?thesis
      using process_in_order_tends [OF pa] drain_queue_tends q by (fastforce simp: tends_def split: if_splits)
  next
    case (Some rej)
    obtain fa d s3 where fa: "validation_failed now (bump_in s2) = (fa, d, s3)" using prod_cases3 by blast
    show ?thesis
    proof (cases d)
      case True
      then show ?thesis
        using assms v Some fa q validation_failed_tends [OF fa] by (auto simp: on_expected_def tends_def split: if_splits)
    next
      case False
      then obtain da where "drain_queue E now s3 = Some (da, s')" "as = rej # fa @ da"
        using assms v Some fa by (auto simp: on_expected_def)
      then show ?thesis
        using validation_failed_tends [OF fa] drain_queue_tends q Some by (fastforce simp: tends_def split: if_splits)
    qed
  qed
qed

lemma reject_then_logout_tends: "reject_then_logout now m rj tx s = (as, s') \<Longrightarrow> tends s as s'"
  by (auto simp: reject_then_logout_def Let_def tends_def split: prod.splits option.splits if_splits
      dest!: logout_and_disconnect_tends dest: build_session_reject_quiet out_only_eqs(2) [OF out_only_build_session_reject])

lemma refuse_received_tends: "refuse_received E now m s = Some (as, s') \<Longrightarrow> tends s as s'"
  by (auto simp: refuse_received_def Let_def split: if_splits option.splits
      intro: reject_then_logout_tends logout_and_disconnect_tends)

text \<open>Everything received but a Logon.\<close>

lemma on_received_tends:
  assumes "on_received E now m s = Some (as, s')" "msg_type m \<noteq> Some ''A''"
  shows "tends s as s'"
proof -
  let ?t = "s\<lparr>s_ticks_since_recv := 0, s_test_request_outstanding := False\<rparr>"
  have "tends ?t as s'"
    using assms
    by (auto simp: on_received_def Let_def dispatch_def dispatch_sequence_reset_def reject_bad_seq_def
        split: option.splits if_splits prod.splits
        intro: refuse_received_tends session_reject_tends on_sequence_reset_tends enqueue_tends on_too_low_tends
          on_too_high_tends on_expected_tends fresh_quiet)
  then show ?thesis by (simp add: tends_def)
qed

section \<open>Logging on\<close>

text \<open>A Logon leaves the state alone, closes the connection, or logs the session on.\<close>

lemma after_logon_tends:
  assumes "after_logon E now m q n s = Some (as, s')"
  shows "tends s as s'"
proof -
  obtain da s2 where d: "(if q = n then drain_queue E now s
            else if n < q \<and> \<not> s_resend_requested s
              then (let (a, s1) = request_logon_gap now q s in Some ([a], s1))
            else Some ([], s)) = Some (da, s2)"
    using assms by (auto simp: after_logon_def split: option.splits)
  have gap: "tends s [a] s1" if "request_logon_gap now q s = (a, s1)" for a s1
    using that request_resend_quiet by (fastforce simp: request_logon_gap_def Let_def tends_def)
  have "tends s da s2"
    using d by (auto simp: Let_def tends_stay split: if_splits prod.splits intro: drain_queue_tends gap)
  moreover obtain bs where "as = da @ bs" "tends s2 bs s'"
    using assms d tends_stay [of s2 s2 "[]"]
    by (auto simp: after_logon_def Let_def split: option.splits if_splits prod.splits dest: build_resend_tends)
  ultimately show ?thesis using tends_trans by blast
qed

lemma accept_as_acceptor_state: "accept_as_acceptor now m fl s = (a, s') \<Longrightarrow> s_state s' = LoggedOn \<and> a \<noteq> Disconnect"
proof -
  assume r: "accept_as_acceptor now m fl s = (a, s')"
  define t where "t = (case body_int m HEART_BT_INT of
      Some h \<Rightarrow> if 0 < h
        then s\<lparr>s_config := (s_config s)\<lparr>cfg_heartbeat_interval := (if nat h < u32_size then nat h else u32_size - 1)\<rparr>\<rparr>
        else s
    | None \<Rightarrow> s)"
  obtain q s1 msg where "next_seq (t\<lparr>s_state := LoggedOn\<rparr>) = (q, s1)" "send_stored msg (s1\<lparr>s_logon_sent := True\<rparr>) = (a, s')"
    using r unfolding accept_as_acceptor_def Let_def t_def [symmetric] by (auto split: prod.splits)
  then show ?thesis
    using sends_not_disconnect(1) out_only_eqs(2) [OF out_only_next_seq] out_only_eqs(2) [OF out_only_send_stored] by fastforce
qed

lemma accept_logon_tends:
  assumes "accept_logon E now m q s = Some (as, s')"
  shows "tends s as s' \<or> tends (s\<lparr>s_state := LoggedOn\<rparr>) as s'"
proof -
  obtain ra t where t: "reset_for_logon m s = (ra, t)" using prod.exhaust by blast
  have rt: "s_state (count_logon q t) = s_state s" "Disconnect \<notin> set ra"
    using t by (auto simp: reset_for_logon_def count_logon_def reset_sequences_def Let_def split: if_splits)
  let ?u = "count_logon q t"
  have "tends ?u bs s' \<or> tends (s\<lparr>s_state := LoggedOn\<rparr>) bs s'" if "logon_as_acceptor E now m q n ?u = Some (bs, s')" for n bs
    using that request_resend_quiet
    by (fastforce simp: logon_as_acceptor_def request_logon_gap_def Let_def tends_def split: if_splits prod.splits
        dest!: accept_as_acceptor_state after_logon_tends)
  moreover have "tends ?u bs s' \<or> tends (s\<lparr>s_state := LoggedOn\<rparr>) bs s'" if "logon_as_initiator E now m q n ?u = Some (bs, s')" for n bs
    using that
    by (auto simp: logon_as_initiator_def tends_def split: if_splits dest!: after_logon_tends reject_logon_tends)
  ultimately show ?thesis
    using assms t rt by (fastforce simp: accept_logon_def Let_def tends_def split: role.splits if_splits)
qed

lemma logon_refusal_state: "logon_refusal E now m s = None \<Longrightarrow> s_state s = AwaitingLogon"
  by (auto simp: logon_refusal_def Let_def split: if_splits)

lemma on_logon_tends:
  assumes "on_logon E now m s = Some (as, s')"
  shows "tends s as s' \<or>
    (s_state s = AwaitingLogon \<and> logon_refusal E now m (s\<lparr>s_logon_received := True\<rparr>) = None
     \<and> tends (s\<lparr>s_state := LoggedOn\<rparr>) as s')"
proof -
  define t where "t = s\<lparr>s_logon_received := True\<rparr>"
  have st: "s_state t = s_state s" by (simp add: t_def)
  show ?thesis
  proof (cases "logon_refusal E now m t = None \<and> seq_num m \<noteq> None")
    case False
    then have "tends t as s'"
      using assms by (auto simp: on_logon_def Let_def t_def tends_stay split: option.splits dest: reject_logon_tends)
    then show ?thesis using st by (simp add: tends_def)
  next
    case True
    then obtain q where q: "logon_refusal E now m t = None" "seq_num m = Some q" by blast
    then obtain r s2 where v: "validate_app E now m t = Some (r, s2)"
      using assms by (auto simp: on_logon_def Let_def t_def split: option.splits)
    have s2: "r \<noteq> Some Disconnect" "s_state s2 = s_state s" using validate_app_quiet [OF v] st by auto
    show ?thesis
    proof (cases r)
      case None
      have "tends s2 as s' \<or> tends (s2\<lparr>s_state := LoggedOn\<rparr>) as s'"
        using assms q v None
        by (auto simp: on_logon_def Let_def t_def tends_def split: option.splits if_splits
            dest!: accept_logon_tends reject_logon_tends)
      then show ?thesis using s2 q(1) logon_refusal_state [OF q(1)] st by (auto simp: tends_def t_def)
    next
      case (Some rej)
      then have "s_state s' = Disconnected \<and> Disconnect \<in> set as"
        using assms q v by (auto simp: on_logon_def Let_def t_def [symmetric] split: prod.splits)
      then show ?thesis using tends_close by blast
    qed
  qed
qed

section \<open>The abstract machine\<close>

inductive lifecycle :: "session_state \<Rightarrow> event \<Rightarrow> session_state \<Rightarrow> bool" where
  connect: "lifecycle x Connected AwaitingLogon"
| stay: "lifecycle x (Received m) x"
| close: "lifecycle x (Received m) Disconnected"
| logon: "msg_type m = Some ''A'' \<Longrightarrow> lifecycle AwaitingLogon (Received m) LoggedOn"
| tick_stay: "lifecycle x Tick x"
| tick_close: "lifecycle x Tick Disconnected"
| window_closed: "lifecycle LoggedOn Tick AwaitingLogout"
| begin_logout: "lifecycle LoggedOn StartLogout AwaitingLogout"
| no_logout: "x \<noteq> LoggedOn \<Longrightarrow> lifecycle x StartLogout x"
| garbled: "lifecycle x Garbled x"
| lost: "lifecycle x (ConnectionLost r) Disconnected"

inductive_simps lifecycle_simps:
  "lifecycle x Connected y" "lifecycle x (Received m) y" "lifecycle x Tick y" "lifecycle x StartLogout y"
  "lifecycle x Garbled y" "lifecycle x (ConnectionLost r) y"

inductive_cases logged_onE: "lifecycle x e LoggedOn"

lemma tends_lifecycle: "tends s as s' \<Longrightarrow> lifecycle (s_state s) (Received m) (s_state s')"
  by (auto simp: tends_def lifecycle_simps split: if_splits)

lemma on_received_lifecycle:
  assumes "on_received E now m s = Some (as, s')"
  shows "lifecycle (s_state s) (Received m) (s_state s')"
proof (cases "msg_type m = Some ''A''")
  case True
  let ?t = "s\<lparr>s_ticks_since_recv := 0, s_test_request_outstanding := False\<rparr>"
  have "tends ?t as s' \<or> (s_state ?t = AwaitingLogon \<and> tends (?t\<lparr>s_state := LoggedOn\<rparr>) as s')"
    using assms True
    by (auto simp: on_received_def Let_def split: option.splits dest: refuse_received_tends on_logon_tends)
  then show ?thesis using True by (auto simp: tends_def lifecycle_simps split: if_splits)
next
  case False
  then show ?thesis using tends_lifecycle on_received_tends [OF assms] by blast
qed

lemma drop_connection_tends: "drop_connection s = (as, s') \<Longrightarrow> s_state s' = Disconnected \<and> Disconnect \<in> set as"
  by (auto simp: drop_connection_def split: prod.splits dest!: enter_disconnected_state)

lemma beat_tends: "beat now s = (as, s') \<Longrightarrow> tends s as s'"
  by (auto simp: beat_def Let_def tends_stay split: prod.splits if_splits intro: fresh_quiet)

lemma probe_tends: "probe now s = (as, s') \<Longrightarrow> tends s as s'"
  using out_only_eqs(2) [OF out_only_next_seq, of s] out_only_eqs(2) [OF out_only_send_stored] sends_not_disconnect(1)
  by (fastforce simp: probe_def Let_def tends_def split: prod.splits if_splits)

lemma start_logout_state: "start_logout now tx s = (as, s') \<Longrightarrow> s_state s' = AwaitingLogout \<and> Disconnect \<notin> set as"
  by (auto simp: start_logout_def Let_def split: prod.splits dest: sends_not_disconnect)

lemma on_tick_tends:
  assumes "on_tick E now s = (as, s')"
  shows "tends s as s' \<or> (s_state s = LoggedOn \<and> s_state s' = AwaitingLogout \<and> Disconnect \<notin> set as)"
proof -
  have t: "s_state (tick_counters s) = s_state s" by (simp add: tick_counters_def)
  show ?thesis
    using assms t
    by (cases "s_state s")
       (auto simp: on_tick_def Let_def tends_def split: if_splits prod.splits
          dest!: drop_connection_tends start_logout_state beat_tends probe_tends)
qed

lemma on_garbled_tends: "on_garbled now s = (as, s') \<Longrightarrow> tends s as s' \<and> s_state s' = s_state s"
proof -
  assume r: "on_garbled now s = (as, s')"
  then have "tends s as s'"
    by (auto simp: on_garbled_def Let_def tends_stay split: prod.splits if_splits intro: fresh_quiet)
  moreover have "Disconnect \<notin> set as"
    using r by (auto simp: on_garbled_def Let_def split: prod.splits if_splits dest: sends_not_disconnect)
  ultimately show ?thesis by (simp add: tends_def)
qed

lemma send_logon_state: "send_logon now s = (a, s') \<Longrightarrow> s_state s' = s_state s \<and> a \<noteq> Disconnect"
proof -
  assume "send_logon now s = (a, s')"
  then obtain q s2 m where "next_seq (s\<lparr>s_reset_on_logon_pending := should_send_reset s\<rparr>) = (q, s2)"
    "send_stored m (s2\<lparr>s_logon_sent := True\<rparr>) = (a, s')"
    by (auto simp: send_logon_def Let_def split: prod.splits)
  then show ?thesis
    using sends_not_disconnect(1) out_only_eqs(2) [OF out_only_next_seq] out_only_eqs(2) [OF out_only_send_stored]
    by fastforce
qed

lemma on_connected_state: "on_connected now s = (as, s') \<Longrightarrow> s_state s' = AwaitingLogon \<and> Disconnect \<notin> set as"
  by (auto simp: on_connected_def fresh_connection_def reset_sequences_def Let_def split: role.splits prod.splits if_splits
      dest!: send_logon_state)

lemma handle_lifecycle:
  assumes "handle E now e s = Some (as, s')"
  shows "lifecycle (s_state s) e (s_state s')"
proof (cases e)
  case Connected
  then show ?thesis using assms on_connected_state by (auto simp: handle_def lifecycle_simps)
next
  case (Received m)
  then show ?thesis using assms on_received_lifecycle by (auto simp: handle_def)
next
  case Tick
  then show ?thesis using assms on_tick_tends by (fastforce simp: handle_def lifecycle_simps tends_def split: if_splits)
next
  case StartLogout
  then show ?thesis
    using assms start_logout_state by (auto simp: handle_def on_start_logout_def lifecycle_simps split: if_splits)
next
  case Garbled
  then show ?thesis using assms on_garbled_tends by (auto simp: handle_def lifecycle_simps)
next
  case (ConnectionLost r)
  then show ?thesis using assms enter_disconnected_state by (auto simp: handle_def lifecycle_simps)
qed

lemma handle_disconnects:
  assumes "handle E now e s = Some (as, s')" "s_state s \<noteq> Disconnected" "\<And>r. e \<noteq> ConnectionLost r"
  shows "s_state s' = Disconnected \<longleftrightarrow> Disconnect \<in> set as"
proof (cases e)
  case Connected
  then show ?thesis using assms on_connected_state by (auto simp: handle_def)
next
  case (Received m)
  let ?t = "s\<lparr>s_ticks_since_recv := 0, s_test_request_outstanding := False\<rparr>"
  have "tends ?t as s' \<or> tends (?t\<lparr>s_state := LoggedOn\<rparr>) as s'"
  proof (cases "msg_type m = Some ''A''")
    case True
    then show ?thesis
      using assms(1) Received
      by (auto simp: handle_def on_received_def Let_def split: option.splits dest: refuse_received_tends on_logon_tends)
  next
    case False
    then show ?thesis using on_received_tends assms(1) Received by (fastforce simp: handle_def tends_def)
  qed
  then show ?thesis using assms(2) by (auto simp: tends_def split: if_splits)
next
  case Tick
  then show ?thesis using assms on_tick_tends by (fastforce simp: handle_def tends_def split: if_splits)
next
  case StartLogout
  then show ?thesis using assms start_logout_state by (auto simp: handle_def on_start_logout_def split: if_splits)
next
  case Garbled
  then show ?thesis using assms on_garbled_tends by (fastforce simp: handle_def tends_def split: if_splits)
qed (use assms(3) in simp)

end
