(* ===== verification/Fix_Gap_Queue.thy ===== *)
theory Fix_Gap_Queue
  imports Fix_Lifecycle
begin

text \<open>
  The inbound gap queue: while a connection is up, every queued message waits for a number beyond the
  next expected one. The argument follows the inbound side of a session, its counter and queue,
  through the handlers.
\<close>

declare One_nat_def [simp del]

definition waits :: "nat \<Rightarrow> session \<Rightarrow> bool" where
  "waits k s \<longleftrightarrow> bt.above (s_next_in_seq s + k) (s_queue s)"

definition keeps_up :: "session \<Rightarrow> bool" where
  "keeps_up s \<longleftrightarrow> s_state s = Disconnected \<or> waits 1 s"

text \<open>A failed validation ends the connection or empties the queue, or there is no dictionary to fail.\<close>

definition strict_on_error :: "session \<Rightarrow> bool" where
  "strict_on_error s \<longleftrightarrow>
     (s_validator s = None \<and> s_fixt_validator s = None)
     \<or> cfg_reset_on_error (s_config s) \<or> cfg_disconnect_on_error (s_config s)"

definition inbound :: "session \<Rightarrow> nat \<times> (nat, message) btree" where
  "inbound s = (s_next_in_seq s, s_queue s)"

lemma waits_cong: "inbound s = inbound s' \<Longrightarrow> waits k s = waits k s'"
  by (simp add: inbound_def waits_def)

lemma inbound_out_only: "out_only s s' \<Longrightarrow> inbound s' = inbound s"
  by (simp add: inbound_def out_only_eqs)

lemma waits_mono: "waits k s \<Longrightarrow> j \<le> k \<Longrightarrow> waits j s"
  using bt.above_mono [of "s_next_in_seq s + k" "s_queue s" "s_next_in_seq s + j"] by (simp add: waits_def)

lemma waits_empty: "s_queue s = [] \<Longrightarrow> waits k s"
  by (simp add: waits_def)

lemma waits_bump: "waits 1 s \<Longrightarrow> waits 0 (bump_in s)"
  using bt.above_mono [of "s_next_in_seq s + 1" "s_queue s"] by (simp add: waits_def bump_in_def sat_add64_def)

lemma waits_dequeue: "waits 0 s \<Longrightarrow> waits 1 (dequeue s)"
  by (auto simp: waits_def bt.above_def map_of_bt_remove split: if_splits)

lemma waits_missing: "waits 0 s \<Longrightarrow> bt_get (s_queue s) (s_next_in_seq s) = None \<Longrightarrow> waits 1 s"
  by (auto simp: waits_def bt.above_def Suc_le_eq order_less_le One_nat_def)

lemma waits_apply_gap_fill: "waits 0 s \<Longrightarrow> waits 0 (apply_gap_fill_new_seq n s)"
  using bt.above_retain by (auto simp: waits_def apply_gap_fill_new_seq_def split: option.splits)

lemma reset_on_error_waits: "waits k s \<Longrightarrow> reset_on_error s = (as, s') \<Longrightarrow> waits k s'"
  by (auto simp: reset_on_error_def waits_def reset_queue split: if_splits)

lemma enter_disconnected_waits: "waits k s \<Longrightarrow> enter_disconnected r s = (as, s') \<Longrightarrow> waits k s'"
  by (auto simp: enter_disconnected_def waits_def reset_queue Let_def split: if_splits)

lemma on_logout_msg_waits:
  assumes "waits k s" "on_logout_msg now s = (as, s')"
  shows "waits k s'"
proof -
  have w: "waits k s2" if "next_seq s = (q, s1)" "send_logout m s1 = (a, s2)" for q s1 m a s2
    using assms(1) inbound_out_only [OF out_only_next_seq [OF that(1)]] inbound_out_only [OF out_only_send_logout [OF that(2)]]
      waits_cong [of s2 s] by simp
  show ?thesis
    using assms(2) w enter_disconnected_waits assms(1)
    by (auto simp: on_logout_msg_def Let_def split: if_splits prod.splits) blast+
qed

lemma process_in_order_waits:
  assumes "waits k s" "process_in_order now m mt s = (as, s')"
  shows "waits k s'"
proof -
  have "waits k s'" if "out_only s s'"
    using assms(1) waits_cong [OF inbound_out_only [OF that]] by simp
  then show ?thesis
    using assms out_only_answer_test_request out_only_on_resend_request
    by (auto simp: process_in_order_def split: if_splits intro: on_logout_msg_waits)
qed

lemma validation_failed_waits:
  assumes "waits k s" "validation_failed now s = (as, b, s')"
  shows "waits k s'"
proof -
  obtain ra s1 where r: "reset_on_error s = (ra, s1)" using prod.exhaust by blast
  have w: "waits k s1" using reset_on_error_waits [OF assms(1) r] .
  have "waits k (s3\<lparr>s_state := Disconnected\<rparr>)" if "next_seq s1 = (q, s2)" "send_logout m s2 = (a, s3)" for q s2 m a s3
    using w inbound_out_only [OF out_only_next_seq [OF that(1)]] inbound_out_only [OF out_only_send_logout [OF that(2)]]
    by (auto simp: waits_def inbound_def)
  then show ?thesis using assms(2) r w by (auto simp: validation_failed_def Let_def split: if_splits prod.splits)
qed

lemma validate_app_waits: "waits k s \<Longrightarrow> validate_app E now m s = Some (r, s') \<Longrightarrow> waits k s'"
  using inbound_out_only [OF out_only_validate_app] waits_cong by blast

lemma drain_loop_waits:
  "drain_loop E now s = Some (as, early, s') \<Longrightarrow> waits 0 s \<Longrightarrow> s_state s' = Disconnected \<or> waits 1 s'"
proof (induction rule: drain_loop_induct)
  case (empty s)
  then show ?case using waits_missing by blast
next
  case (fill s msg as early s')
  then show ?case using waits_apply_gap_fill [OF waits_mono [OF waits_dequeue]] by simp
next
  case (stop s msg rej s2 fa s3)
  then show ?case using validation_failed_tends by blast
next
  case (failed s msg rej s2 fa s3 as early s')
  then show ?case
    using validation_failed_waits [OF waits_bump [OF validate_app_waits [OF waits_dequeue]]] by blast
next
  case (good s msg s2 pa s3 as early s')
  have "waits 1 s2" using validate_app_waits [OF waits_dequeue [OF good(6)] good(3)] .
  then have "waits 1 s3" using good(4) by (auto split: if_splits intro: process_in_order_waits)
  then show ?case using waits_bump good(5) by blast
qed

lemma request_resend_inbound: "request_resend now b s = (a, s') \<Longrightarrow> inbound s' = inbound s"
proof -
  assume "request_resend now b s = (a, s')"
  then obtain q s1 m c where "next_seq (s\<lparr>s_resend_chunk_end := c\<rparr>) = (q, s1)" "send_stored m s1 = (a, s')"
    unfolding request_resend_def Let_def by (auto split: prod.splits)
  then show ?thesis
    using inbound_out_only [OF out_only_next_seq] inbound_out_only [OF out_only_send_stored] by (fastforce simp: inbound_def)
qed

lemma drain_queue_keeps_up:
  assumes "drain_queue E now s = Some (as, s')" "waits 0 s"
  shows "keeps_up s'"
proof -
  obtain da early s1 where d: "drain_loop E now s = Some (da, early, s1)"
    using assms by (auto simp: drain_queue_def)
  note w = drain_loop_waits [OF d assms(2)]
  show ?thesis
  proof (cases early)
    case True
    then show ?thesis using assms(1) d w by (simp add: drain_queue_def keeps_up_def)
  next
    case False
    define t where "t = (if s_queue s1 = [] then s1\<lparr>s_resend_requested := False\<rparr> else s1)"
    have t: "s_state t = s_state s1" "inbound t = inbound s1" by (simp_all add: t_def inbound_def)
    obtain ca where c: "maybe_continue_chunked_resend now t = (ca, s')"
      using assms(1) d False by (auto simp: drain_queue_def Let_def t_def split: prod.splits)
    have "inbound s' = inbound t \<and> s_state s' = s_state t"
      using c request_resend_inbound request_resend_quiet
      by (auto simp: maybe_continue_chunked_resend_def Let_def inbound_def split: option.splits if_splits prod.splits)
    then show ?thesis using w t waits_cong [of s' s1] by (auto simp: keeps_up_def)
  qed
qed


section \<open>Receiving\<close>

lemma keeps_up_closed: "s_state s' = Disconnected \<Longrightarrow> keeps_up s'"
  by (simp add: keeps_up_def)

lemma keeps_up_waits: "waits 1 s \<Longrightarrow> keeps_up s"
  by (simp add: keeps_up_def)

lemma keeps_up_out_only: "out_only s s' \<Longrightarrow> keeps_up s' = keeps_up s"
  using waits_cong [OF inbound_out_only, of s s' 1] by (auto simp: keeps_up_def out_only_eqs(2))

lemma reject_logon_closes: "reject_logon now rj s = (as, s') \<Longrightarrow> s_state s' = Disconnected"
  by (auto simp: reject_logon_def Let_def split: prod.splits option.splits dest: logout_closes)

lemma session_reject_closes: "session_reject_before_logout now m rj s = (as, s') \<Longrightarrow> s_state s' = Disconnected"
  by (auto simp: session_reject_before_logout_def Let_def split: prod.splits dest: reject_logon_closes)

lemma logout_and_disconnect_closes: "logout_and_disconnect now tx s = (as, s') \<Longrightarrow> s_state s' = Disconnected"
  by (auto simp: logout_and_disconnect_def Let_def split: prod.splits dest!: logout_closes reset_on_error_state)

lemma refuse_received_closes: "refuse_received E now m s = Some (as, s') \<Longrightarrow> s_state s' = Disconnected"
  by (auto simp: refuse_received_def reject_then_logout_def Let_def split: if_splits option.splits prod.splits
      dest: logout_and_disconnect_closes)

lemma on_too_low_keeps_up: "waits 1 s \<Longrightarrow> on_too_low E now m s = (as, s') \<Longrightarrow> keeps_up s'"
  by (auto simp: on_too_low_def split: if_splits option.splits
      intro: keeps_up_waits keeps_up_closed session_reject_closes logout_and_disconnect_closes)

lemma waits_enqueue:
  "waits 1 s \<Longrightarrow> s_next_in_seq s < q \<Longrightarrow> waits 1 (raise_target q (s\<lparr>s_queue := bt_insert q m (s_queue s)\<rparr>))"
  using bt.above_update [of "s_next_in_seq s + 1" "s_queue s" q m] by (simp add: waits_def raise_target_def)

lemma enqueue_waits:
  assumes "waits 1 s" "s_next_in_seq s < q" "enqueue_too_high now q m s = (as, s')"
  shows "waits 1 s'"
proof -
  note w = waits_enqueue [OF assms(1,2), of m]
  define u where "u = raise_target q (s\<lparr>s_queue := bt_insert q m (s_queue s)\<rparr>)"
  have "waits 1 s'" if "request_resend now n (u\<lparr>s_resend_requested := True\<rparr>) = (a, s')" for n a
    using request_resend_inbound [OF that] w [folded u_def] by (simp add: waits_def inbound_def)
  then show ?thesis
    using assms(3) w by (auto simp: enqueue_too_high_def Let_def u_def [symmetric] split: if_splits prod.splits)
qed

lemma on_too_high_waits:
  assumes "waits 1 s" "s_next_in_seq s < q" "on_too_high now q m s = (as, s')"
  shows "waits 1 s'"
proof (cases "msg_type m = Some ''5''")
  case True
  then show ?thesis using assms on_logout_msg_waits by (simp add: on_too_high_def)
next
  case False
  then obtain ra s1 qa where r: "(if msg_type m = Some ''2'' then on_resend_request now m s else ([], s)) = (ra, s1)"
    "enqueue_too_high now q m s1 = (qa, s')"
    using assms(3) by (auto simp: on_too_high_def Let_def split: prod.splits)
  then have "out_only s s1" using out_only_on_resend_request by (auto split: if_splits)
  then have "waits 1 s1" "s_next_in_seq s1 < q"
    using assms(1,2) waits_cong [OF inbound_out_only] out_only_eqs(3) by fastforce+
  then show ?thesis using enqueue_waits r(2) by blast
qed

lemma on_expected_keeps_up:
  assumes "waits 1 s" "on_expected E now m s = Some (as, s')"
  shows "keeps_up s'"
proof -
  obtain r s2 where v: "validate_app E now m s = Some (r, s2)"
    using assms by (auto simp: on_expected_def split: option.splits)
  note w = validate_app_waits [OF assms(1) v]
  show ?thesis
  proof (cases r)
    case None
    obtain pa s3 where pa: "process_in_order now m (msg_type m) s2 = (pa, s3)" using prod.exhaust by blast
    then show ?thesis
      using assms v None drain_queue_keeps_up waits_bump [OF process_in_order_waits [OF w pa]] by (auto simp: on_expected_def)
  next
    case (Some rej)
    obtain fa d s3 where fa: "validation_failed now (bump_in s2) = (fa, d, s3)" using prod_cases3 by blast
    then show ?thesis
      using assms v Some validation_failed_tends [OF fa] drain_queue_keeps_up validation_failed_waits [OF waits_bump [OF w] fa]
      by (cases d) (auto simp: on_expected_def intro: keeps_up_closed)
  qed
qed

lemma validation_failed_strict:
  assumes "validation_failed now s = (as, b, s')" "cfg_reset_on_error (s_config s) \<or> cfg_disconnect_on_error (s_config s)"
  shows "keeps_up s'"
  using assms
  by (auto simp: validation_failed_def reset_on_error_def reset_sequences_def waits_def keeps_up_def Let_def
      split: if_splits prod.splits)

lemma validate_app_no_dictionary:
  "validate_app E now m s = Some (r, s') \<Longrightarrow> s_validator s = None \<Longrightarrow> s_fixt_validator s = None \<Longrightarrow> r = None"
  by (simp add: validate_app_def dictionary_error_def applicable_dictionary_def)

lemma out_only_reject_new_seq_no: "reject_new_seq_no now m k tx s = (as, s') \<Longrightarrow> out_only s s'"
  by (auto simp: reject_new_seq_no_def Let_def split: prod.splits dest!: out_only_sends intro: out_only_trans)

lemma out_only_reject_bad_seq: "reject_bad_seq now m s = (as, s') \<Longrightarrow> out_only s s'"
  by (auto simp: reject_bad_seq_def Let_def split: prod.splits dest!: out_only_sends intro: out_only_trans)

lemma on_sequence_reset_keeps_up:
  assumes "waits 1 s" "strict_on_error s" "on_sequence_reset E now m s = Some (as, s')"
  shows "keeps_up s'"
proof -
  obtain r s2 where v: "validate_app E now m s = Some (r, s2)"
    using assms by (auto simp: on_sequence_reset_def split: option.splits)
  have w: "waits 1 s2" "waits 0 s2" using validate_app_waits [OF assms(1) v] waits_mono by fastforce+
  have skip: "waits 0 (s2\<lparr>s_next_in_seq := n, s_queue := bt_retain (\<lambda>q. n \<le> q) (s_queue s2)\<rparr>)" for n
    using bt.above_retain by (simp add: waits_def)
  have rj: "keeps_up s3" if "reject_new_seq_no now m k tx s2 = (bs, s3)" for k tx bs s3
    using keeps_up_out_only [OF out_only_reject_new_seq_no [OF that]] w(1) keeps_up_waits by blast
  show ?thesis
  proof (cases r)
    case None
    then show ?thesis
      using assms(3) v rj drain_queue_keeps_up w skip waits_apply_gap_fill
      by (auto simp: on_sequence_reset_def split: if_splits option.splits)
  next
    case (Some rej)
    have c: "s_config (if seq_num m = Some (s_next_in_seq s2) then bump_in s2 else s2) = s_config s"
      using out_only_eqs(1) [OF out_only_validate_app [OF v]] by (simp add: bump_in_def)
    have "cfg_reset_on_error (s_config s) \<or> cfg_disconnect_on_error (s_config s)"
      using assms(2) validate_app_no_dictionary [OF v] Some by (auto simp: strict_on_error_def)
    then show ?thesis
      using assms(3) v Some validation_failed_strict c
      by (auto simp: on_sequence_reset_def Let_def split: prod.splits)
  qed
qed


lemma on_received_keeps_up:
  assumes "waits 1 s" "strict_on_error s" "on_received E now m s = Some (as, s')" "msg_type m \<noteq> Some ''A''"
  shows "keeps_up s'"
proof -
  let ?t = "s\<lparr>s_ticks_since_recv := 0, s_test_request_outstanding := False\<rparr>"
  have t: "waits 1 ?t" "strict_on_error ?t" using assms(1,2) by (simp_all add: waits_def strict_on_error_def)
  have "keeps_up s'" if "reject_bad_seq now m ?t = (as, s')"
    using keeps_up_out_only [OF out_only_reject_bad_seq [OF that]] t(1) keeps_up_waits by blast
  then show ?thesis
    using assms(3,4) t
    by (auto simp: on_received_def Let_def dispatch_def dispatch_sequence_reset_def
        split: option.splits if_splits
        intro: keeps_up_closed keeps_up_waits refuse_received_closes session_reject_closes on_sequence_reset_keeps_up
          on_expected_keeps_up on_too_low_keeps_up
        dest: on_too_high_waits [rotated 2] enqueue_waits [rotated 2])
qed

section \<open>Logging on and ticking\<close>

lemma request_logon_gap_waits: "waits 1 s \<Longrightarrow> request_logon_gap now q s = (a, s') \<Longrightarrow> waits 1 s'"
  using request_resend_inbound [of now "s_next_in_seq s" "raise_target q (s\<lparr>s_resend_requested := True\<rparr>)" a s']
  by (auto simp: request_logon_gap_def Let_def waits_def inbound_def raise_target_def split: if_splits)

lemma after_logon_keeps_up:
  assumes "after_logon E now m q n s = Some (as, s')" "if q = n then waits 0 s else waits 1 s"
  shows "keeps_up s'"
proof -
  obtain da s2 where d: "(if q = n then drain_queue E now s
            else if n < q \<and> \<not> s_resend_requested s
              then (let (a, s1) = request_logon_gap now q s in Some ([a], s1))
            else Some ([], s)) = Some (da, s2)"
    using assms by (auto simp: after_logon_def split: option.splits)
  then have "keeps_up s2"
    using assms(2) by (auto simp: Let_def split: if_splits prod.splits
      intro: keeps_up_waits drain_queue_keeps_up dest: request_logon_gap_waits)
  moreover have "out_only s2 s'"
    using assms d by (auto simp: after_logon_def Let_def split: option.splits if_splits prod.splits dest: out_only_build_resend)
  ultimately show ?thesis using keeps_up_out_only by blast
qed

lemma accept_as_acceptor_inbound:
  assumes "accept_as_acceptor now m fl s = (a, s')"
  shows "inbound s' = inbound s"
proof -
  define t where "t = (case body_int m HEART_BT_INT of
      Some h \<Rightarrow> if 0 < h
        then s\<lparr>s_config := (s_config s)\<lparr>cfg_heartbeat_interval := (if nat h < u32_size then nat h else u32_size - 1)\<rparr>\<rparr>
        else s
    | None \<Rightarrow> s)"
  have t: "inbound t = inbound s" by (simp add: t_def inbound_def split: option.splits)
  obtain q s1 msg where "next_seq (t\<lparr>s_state := LoggedOn\<rparr>) = (q, s1)" "send_stored msg (s1\<lparr>s_logon_sent := True\<rparr>) = (a, s')"
    using assms unfolding accept_as_acceptor_def Let_def t_def [symmetric] by (auto split: prod.splits)
  then show ?thesis
    using t inbound_out_only [OF out_only_next_seq] inbound_out_only [OF out_only_send_stored] by (fastforce simp: inbound_def)
qed

lemma accept_logon_keeps_up:
  assumes "waits 1 s" "accept_logon E now m q s = Some (as, s')"
  shows "keeps_up s'"
proof -
  obtain ra t where t: "reset_for_logon m s = (ra, t)" using prod.exhaust by blast
  have wt: "waits 1 t"
    using assms(1) t by (auto simp: reset_for_logon_def waits_def reset_queue split: if_splits)
  define u where "u = count_logon q t"
  have u: "if q = s_next_in_seq t then waits 0 u else waits 1 u"
    using wt waits_bump by (simp add: u_def count_logon_def)
  have acc: "keeps_up s'" if l: "logon_as_acceptor E now m q (s_next_in_seq t) u = Some (bs, s')" for bs
  proof (cases "s_next_in_seq t < q")
    case True
    then show ?thesis
      using that u by (auto simp: logon_as_acceptor_def Let_def split: if_splits prod.splits
        intro: keeps_up_waits dest: request_logon_gap_waits)
  next
    case False
    obtain a s1 cs where a: "accept_as_acceptor now m (requests_reset m) u = (a, s1)"
      "after_logon E now m q (s_next_in_seq t) s1 = Some (cs, s')"
      using l False by (auto simp: logon_as_acceptor_def Let_def split: prod.splits)
    then show ?thesis
      using after_logon_keeps_up u waits_cong [OF accept_as_acceptor_inbound [OF a(1)]] by presburger
  qed
  have ini: "keeps_up s'" if "logon_as_initiator E now m q (s_next_in_seq t) u = Some (bs, s')" for bs
    using that u after_logon_keeps_up [of E now m q "s_next_in_seq t" "u\<lparr>s_reset_on_logon_pending := False, s_state := LoggedOn\<rparr>" bs s']
    by (auto simp: logon_as_initiator_def waits_def split: if_splits intro: keeps_up_closed reject_logon_closes)
  show ?thesis
    using assms(2) t acc ini by (auto simp: accept_logon_def Let_def u_def split: role.splits)
qed

lemma on_logon_keeps_up:
  assumes "waits 1 s" "on_logon E now m s = Some (as, s')"
  shows "keeps_up s'"
proof -
  define t where "t = s\<lparr>s_logon_received := True\<rparr>"
  have t: "waits 1 t" using assms(1) by (simp add: t_def waits_def)
  show ?thesis
  proof (cases "logon_refusal E now m t = None \<and> seq_num m \<noteq> None")
    case False
    then show ?thesis
      using assms t by (auto simp: on_logon_def Let_def t_def split: option.splits
        intro: keeps_up_waits keeps_up_closed reject_logon_closes)
  next
    case True
    then obtain q where q: "logon_refusal E now m t = None" "seq_num m = Some q" by blast
    then obtain r s2 where v: "validate_app E now m t = Some (r, s2)"
      using assms by (auto simp: on_logon_def Let_def t_def split: option.splits)
    have w: "waits 1 s2" "waits 1 (s2\<lparr>s_negotiated_appl_ver_id := x\<rparr>)" for x
      using validate_app_waits [OF t v] by (simp_all add: waits_def)
    show ?thesis
    proof (cases r)
      case None
      then show ?thesis
        using assms(2) q v
        by (auto simp: on_logon_def Let_def t_def [symmetric] split: option.splits if_splits
            intro: keeps_up_closed reject_logon_closes accept_logon_keeps_up [OF w(1)] accept_logon_keeps_up [OF w(2)])
    next
      case (Some rej)
      then show ?thesis
        using assms q v by (auto simp: on_logon_def Let_def t_def [symmetric] split: prod.splits intro: keeps_up_closed)
    qed
  qed
qed


lemma inbound_send_logon: "send_logon now s = (a, s') \<Longrightarrow> inbound s' = inbound s"
proof -
  assume "send_logon now s = (a, s')"
  then obtain q s2 m where "next_seq (s\<lparr>s_reset_on_logon_pending := should_send_reset s\<rparr>) = (q, s2)"
    "send_stored m (s2\<lparr>s_logon_sent := True\<rparr>) = (a, s')"
    by (auto simp: send_logon_def Let_def split: prod.splits)
  then show ?thesis
    using inbound_out_only [OF out_only_next_seq] inbound_out_only [OF out_only_send_stored] by (fastforce simp: inbound_def)
qed

lemma on_connected_waits: "on_connected now s = (as, s') \<Longrightarrow> waits 1 s'"
  by (auto simp: on_connected_def fresh_connection_def reset_sequences_def Let_def inbound_def waits_def
      split: role.splits prod.splits if_splits dest!: inbound_send_logon)

lemma beat_waits: "waits 1 s \<Longrightarrow> beat now s = (as, s') \<Longrightarrow> waits 1 s'"
  by (auto simp: beat_def Let_def waits_def inbound_def split: prod.splits if_splits dest!: out_only_sends inbound_out_only)

lemma probe_waits: "waits 1 s \<Longrightarrow> probe now s = (as, s') \<Longrightarrow> waits 1 s'"
  by (auto simp: probe_def Let_def waits_def inbound_def split: prod.splits if_splits dest!: out_only_sends inbound_out_only)

lemma start_logout_waits: "waits 1 s \<Longrightarrow> start_logout now tx s = (as, s') \<Longrightarrow> waits 1 s'"
  by (auto simp: start_logout_def Let_def waits_def inbound_def split: prod.splits dest!: out_only_sends inbound_out_only)

lemma on_tick_keeps_up:
  assumes "waits 1 s" "on_tick E now s = (as, s')"
  shows "keeps_up s'"
proof -
  have t: "waits 1 (tick_counters s)" using assms(1) by (simp add: tick_counters_def waits_def)
  show ?thesis
    using assms(2) t drop_connection_tends [of "tick_counters s" as s'] beat_waits [OF probe_waits [OF t]]
    by (auto simp: on_tick_def Let_def split: session_state.splits if_splits prod.splits
        intro: keeps_up_closed keeps_up_waits start_logout_waits beat_waits)
qed

lemma on_garbled_waits: "waits 1 s \<Longrightarrow> on_garbled now s = (as, s') \<Longrightarrow> waits 1 s'"
  by (auto simp: on_garbled_def Let_def waits_def inbound_def split: prod.splits if_splits dest!: out_only_sends inbound_out_only)

lemma handle_keeps_up:
  assumes "waits 1 s" "strict_on_error s" "handle E now e s = Some (as, s')"
  shows "keeps_up s'"
proof (cases e)
  case (Received m)
  show ?thesis
  proof (cases "msg_type m = Some ''A''")
    case True
    have "waits 1 (s\<lparr>s_ticks_since_recv := 0, s_test_request_outstanding := False\<rparr>)" using assms(1) by (simp add: waits_def)
    then show ?thesis
      using assms(3) True Received on_logon_keeps_up refuse_received_closes keeps_up_closed
      by (auto simp: handle_def on_received_def Let_def split: option.splits)
  qed (use assms Received on_received_keeps_up in \<open>auto simp: handle_def\<close>)
qed (use assms in \<open>auto simp: handle_def on_start_logout_def split: if_splits
    intro: on_connected_waits keeps_up_waits keeps_up_closed on_tick_keeps_up start_logout_waits on_garbled_waits
    dest: enter_disconnected_state\<close>)

section \<open>Every reachable session keeps up\<close>

text \<open>A disconnected session stays so until a connection is made, which empties the queue.\<close>

lemma disconnected_stays:
  assumes "handle E now e s = Some (as, s')" "s_state s = Disconnected"
  shows "keeps_up s'"
proof (cases "e = Connected")
  case True
  then show ?thesis using assms on_connected_waits keeps_up_waits by (auto simp: handle_def)
next
  case False
  then have "s_state s' = Disconnected"
    using handle_lifecycle [OF assms(1)] assms(2) by (cases e) (auto simp: lifecycle_simps)
  then show ?thesis by (rule keeps_up_closed)
qed

lemma call_keeps_up:
  assumes "keeps_up s" "strict_on_error s" "\<not> cfg_refresh_on_logon (s_config s)" "allowed c s"
    "call_session E now c s = Some (as, s')"
  shows "keeps_up s'"
proof -
  have app: "out_only s s'" if "send_app now m s = (as, s')" for m
    using that by (auto simp: send_app_def Let_def split: prod.splits dest!: out_only_sends intro: out_only_trans)
  have rej: "out_only s s'" if "business_reject_app now m rj s = (a, s')" for m rj a
    using that by (auto simp: business_reject_app_def Let_def split: prod.splits dest!: out_only_sends intro: out_only_trans)
  show ?thesis
  proof (cases c)
    case (Handle e)
    then show ?thesis
      using assms(1,2,5) handle_keeps_up disconnected_stays unfolding keeps_up_def [of s] by (auto simp: call_session_def)
  next
    case OpReset
    then show ?thesis using assms(5) by (auto simp: call_session_def reset_def reset_sequences_def waits_def keeps_up_def Let_def)
  next
    case (DiscardSent q)
    then show ?thesis using assms(1,5) by (auto simp: call_session_def discard_sent_def waits_def keeps_up_def)
  qed (use assms(1,3-5) keeps_up_out_only [OF app] keeps_up_out_only [OF rej] keeps_up_out_only [OF out_only_gap_fill]
      reject_logon_closes keeps_up_closed in
      \<open>auto simp: call_session_def gap_fill_after_veto_def Let_def split: prod.splits\<close>)
qed

declare One_nat_def [simp]

end
