(* ===== verification/Fix_Engine_Props.thy ===== *)
theory Fix_Engine_Props
  imports Fix_Session_Props Fix_Gap_Queue
begin

text \<open>
  Properties of the session engine that follow a connection over time: the states it goes through, the
  gap queue, the replay of sent messages, and the timers.
\<close>

section \<open>Queued messages of a reachable session\<close>

lemma steps_keep_up:
  "steps E s as s' \<Longrightarrow> \<not> cfg_refresh_on_logon (s_config s) \<Longrightarrow> strict_on_error s \<Longrightarrow> keeps_up s \<Longrightarrow> keeps_up s'"
proof (induction rule: steps.induct)
  case (steps_snoc s as s' bs s'')
  note k = steps_setup [OF steps_snoc.hyps(1) steps_snoc.prems(1)]
  have "s_validator s' = s_validator s" "s_fixt_validator s' = s_fixt_validator s" using k by (simp_all add: session_setup_def)
  then have strict: "strict_on_error s'"
    using steps_snoc.prems(2) session_setup_config(2,3) [OF k] by (simp add: strict_on_error_def)
  obtain c now where "allowed c s'" "call_session E now c s' = Some (bs, s'')"
    using steps_snoc.hyps(2) by (auto simp: step_iff)
  then show ?case
    using call_keeps_up strict session_setup_config(1) [OF k] steps_snoc by blast
qed simp

section \<open>Replaying\<close>

text \<open>
  How far a peer that expects number \<open>n\<close> gets by following a replay: a resent message must carry the
  number expected, a gap fill must start there and move on.
\<close>

fun replayed :: "nat \<Rightarrow> action list \<Rightarrow> nat option" where
  "replayed n [] = Some n"
| "replayed n (Resend m q # as) = (if q = n then replayed (Suc n) as else None)"
| "replayed n (Send m # as) =
     (if fills_gap m \<and> seq_num m = Some n
      then (case body_positive m NEW_SEQ_NO of Some k \<Rightarrow> if n < k then replayed k as else None | None \<Rightarrow> None)
      else None)"
| "replayed n (_ # as) = None"

lemma replayed_append: "replayed n (as @ bs) = Option.bind (replayed n as) (\<lambda>k. replayed k bs)"
  by (induction n as rule: replayed.induct) (auto split: option.splits)

lemma replayed_gap_fill:
  assumes "gap_fill now f n s = (a, s')" "0 < f" "f < n" "n < 2 ^ 63"
  shows "replayed f [a] = Some n"
proof -
  have "fills_gap (set_header (field_int 369 k) m) = fills_gap m"
    "fills_gap (stamp_last_msg_seq_num_processed t m) = fills_gap m" for k m t
    by (simp_all add: fills_gap_def stamp_last_msg_seq_num_processed_def msg_type_def is_poss_dup_def get_str_def fm_get_set
        MSG_TYPE_def POSS_DUP_FLAG_def)
  then have fg: "a = Send m \<Longrightarrow> fills_gap m" for m
    using assms(1) sequence_reset_fills by (auto simp: gap_fill_def send_raw_def Let_def split: if_splits)
  show ?thesis
    using assms fg
    by (auto simp: gap_fill_def send_raw_def Let_def stamp_last_msg_seq_num_processed_def sequence_reset_def
        seq_num_def get_int_def fm_get_set base_header MSG_SEQ_NUM_def POSS_DUP_FLAG_def body_positive_def
        NEW_SEQ_NO_def GAP_FILL_FLAG_def as_i64_def split: if_splits)
qed


text \<open>A stored message is resent unless it is administrative, or always under \<^verbatim>\<open>ForceResendWhenCorruptedStore\<close>.\<close>

definition resendable :: "session \<Rightarrow> message \<Rightarrow> bool" where
  "resendable s m \<longleftrightarrow> \<not> is_admin_type (msg_type m) \<or> cfg_force_resend_when_corrupted_store (s_config s)"

text \<open>The two ways around the replay loop.\<close>

lemma resend_loop_cases:
  assumes "resend_loop now (q # qs) g s = (as, g', s')"
  obtains (skip) "\<And>m. bt_get (s_store s) q = Some m \<Longrightarrow> \<not> resendable s m"
      "resend_loop now qs (case g of None \<Rightarrow> Some q | Some gs \<Rightarrow> Some gs) s = (as, g', s')"
  | (resend) m ga s1 bs where "bt_get (s_store s) q = Some m" "resendable s m"
      "case g of None \<Rightarrow> ga = [] | Some gs \<Rightarrow> \<exists>a t. gap_fill now gs q s = (a, t) \<and> ga = [a]"
      "resend_loop now qs None s1 = (bs, g', s')" "s_store s1 = s_store s" "s_config s1 = s_config s"
      "as = ga @ Resend (prepare_resend (s_config s) now m) q # bs"
proof (cases "\<exists>m. bt_get (s_store s) q = Some m \<and> resendable s m")
  case True
  then obtain m where m: "bt_get (s_store s) q = Some m" "resendable s m" by blast
  obtain ga t where ga: "(case g of None \<Rightarrow> ([], s) | Some gs \<Rightarrow> (let (a, s') = gap_fill now gs q s in ([a], s'))) = (ga, t)"
    using prod.exhaust by blast
  have t: "s_store t = s_store s" "s_config t = s_config s"
    "case g of None \<Rightarrow> ga = [] | Some gs \<Rightarrow> \<exists>a t. gap_fill now gs q s = (a, t) \<and> ga = [a]"
    using ga gap_fill_keeps out_only_eqs(1) [OF out_only_gap_fill] by (auto split: option.splits prod.splits)
  obtain bs where "resend_loop now qs None (t\<lparr>s_ticks_since_send := 0\<rparr>) = (bs, g', s')"
    "as = ga @ Resend (prepare_resend (s_config s) now m) q # bs"
    using assms m ga t(2) by (auto simp: resendable_def send_resend_def split: prod.splits)
  then show thesis using resend [OF m t(3)] t by simp
next
  case False
  then show thesis
    using assms by (intro skip) (auto simp: resendable_def split: option.splits if_splits)
qed

lemma resend_loop_resends:
  "resend_loop now qs g s = (as, g', s') \<Longrightarrow>
   Resend m q \<in> set as \<longleftrightarrow>
     q \<in> set qs \<and> (\<exists>m0. bt_get (s_store s) q = Some m0 \<and> resendable s m0 \<and> m = prepare_resend (s_config s) now m0)"
proof (induction qs arbitrary: g s as)
  case (Cons p qs)
  from Cons.prems show ?case
  proof (cases rule: resend_loop_cases)
    case skip
    then show ?thesis using Cons.IH [OF skip(2)] by auto
  next
    case (resend m' ga s1 bs)
    have "resendable s1 = resendable s" using resend(6) by (simp add: resendable_def fun_eq_iff)
    moreover have "Resend m q \<notin> set ga"
      using resend(3) by (auto simp: gap_fill_def send_raw_def Let_def split: option.splits)
    ultimately show ?thesis using Cons.IH [OF resend(4)] resend by auto
  qed
qed simp

lemma resend_loop_replayed:
  assumes "resend_loop now [b..<c] g s = (as, g', s')" "b \<le> c" "c < 2 ^ 63" "0 < b" "\<And>gs. g = Some gs \<Longrightarrow> 0 < gs \<and> gs < b"
  shows "replayed (case g of None \<Rightarrow> b | Some gs \<Rightarrow> gs) as = Some (case g' of None \<Rightarrow> c | Some gs \<Rightarrow> gs)
    \<and> (\<forall>gs. g' = Some gs \<longrightarrow> 0 < gs \<and> gs < c)"
  using assms
proof (induction "[b..<c]" arbitrary: b g s as)
  case Nil
  then have "b = c" using Nil.hyps Nil.prems(2) by (auto simp: upt_conv_Cons intro!: le_antisym leI)
  then show ?case using Nil by (auto split: option.splits)
next
  case (Cons q qs)
  then have q: "q = b" "qs = [Suc b..<c]" "b < c" using upt_eq_Cons_conv [of b c q qs] Cons.hyps(2) by auto
  from Cons.prems(1) [folded Cons.hyps(2)] show ?case
  proof (cases rule: resend_loop_cases)
    case skip
    then show ?thesis
      using Cons.hyps(1) [OF q(2) skip(2) [unfolded q(2)]] Cons.prems q by (fastforce split: option.splits)
  next
    case (resend m ga s1 bs)
    have "replayed (case g of None \<Rightarrow> b | Some gs \<Rightarrow> gs) ga = Some b"
      using resend(3) replayed_gap_fill Cons.prems q by (auto split: option.splits)
    then show ?thesis
      using Cons.hyps(1) [OF q(2) resend(4) [unfolded q(2)]] Cons.prems q resend(7) by (simp add: replayed_append)
  qed
qed

lemma build_resend_replayed:
  assumes "build_resend now b e s = (as, s')" "0 < b" "b \<le> e" "Suc e < 2 ^ 63"
  shows "replayed b as = Some (Suc e)"
proof -
  obtain bs g s1 where l: "resend_loop now [b..<Suc e] None s = (bs, g, s1)" using prod_cases3 by blast
  then have r: "replayed b bs = Some (case g of None \<Rightarrow> Suc e | Some gs \<Rightarrow> gs)" "\<And>gs. g = Some gs \<Longrightarrow> 0 < gs \<and> gs < Suc e"
    using resend_loop_replayed [OF l] assms by auto
  have e: "sat_add64 e 1 = Suc e" using assms(4) by (simp add: sat_add64_def)
  show ?thesis
  proof (cases g)
    case None
    then show ?thesis using assms(1) l r(1) by (simp add: build_resend_def del: upt_Suc)
  next
    case (Some gs)
    obtain a where "gap_fill now gs (Suc e) s1 = (a, s')" "as = bs @ [a]"
      using assms(1) l Some e by (auto simp: build_resend_def simp del: upt_Suc split: prod.splits)
    then show ?thesis
      using replayed_gap_fill [of now gs "Suc e" s1 a s'] r Some assms(4) by (simp add: replayed_append)
  qed
qed

lemma build_resend_resends:
  assumes "build_resend now b e s = (as, s')"
  shows "Resend m q \<in> set as \<longleftrightarrow>
     b \<le> q \<and> q \<le> e \<and> (\<exists>m0. bt_get (s_store s) q = Some m0 \<and> resendable s m0 \<and> m = prepare_resend (s_config s) now m0)"
proof -
  obtain bs g s1 where l: "resend_loop now [b..<Suc e] None s = (bs, g, s1)" using prod_cases3 by blast
  have "Resend m q \<in> set as \<longleftrightarrow> Resend m q \<in> set bs"
    using assms l
    by (auto simp: build_resend_def gap_fill_def send_raw_def Let_def simp del: upt_Suc split: option.splits prod.splits)
  then show ?thesis using resend_loop_resends [OF l, of m q] by (simp add: less_Suc_eq_le del: upt_Suc)
qed


lemma prepare_resend_header:
  "is_poss_dup (prepare_resend c now m)" "seq_num (prepare_resend c now m) = seq_num m" "m_body (prepare_resend c now m) = m_body m"
proof -
  have "fm_get (m_header (prepare_resend c now m)) 43 = Some (mk_field 43 ''Y'')"
    "fm_get (m_header (prepare_resend c now m)) 34 = fm_get (m_header m) 34"
    by (simp_all add: prepare_resend_def Let_def fm_get_set set_header_opt_get POSS_DUP_FLAG_def SENDING_TIME_def
        ORIG_SENDING_TIME_def split: option.splits)
  then show "is_poss_dup (prepare_resend c now m)" "seq_num (prepare_resend c now m) = seq_num m"
    by (simp_all add: is_poss_dup_def get_str_def seq_num_def get_int_def MSG_SEQ_NUM_def POSS_DUP_FLAG_def as_str_def
        utf8_valid.simps in_range_def)
  show "m_body (prepare_resend c now m) = m_body m"
    by (simp add: prepare_resend_def Let_def)
qed

section \<open>Timers\<close>

text \<open>A session that only ticks, at the given times.\<close>

fun tick_all :: "ext \<Rightarrow> datetime list \<Rightarrow> session \<Rightarrow> session" where
  "tick_all E [] s = s"
| "tick_all E (now # nows) s = tick_all E nows (snd (on_tick E now s))"

text \<open>
  How many more ticks a session can go without a message before it has closed: what is left of the
  timeout of its state, and for a logged-on session also the logout timeout in case its schedule window
  closes first.
\<close>

definition logout_ticks :: "session \<Rightarrow> nat" where
  "logout_ticks s = max (cfg_logout_timeout (s_config s)) 1"

definition patience :: "session \<Rightarrow> nat" where
  "patience s =
     (case s_state s of
        Disconnected \<Rightarrow> 0
      | AwaitingLogon \<Rightarrow> max 1 (max (cfg_logon_timeout (s_config s)) 1 - s_ticks_awaiting s)
      | AwaitingLogout \<Rightarrow> max 1 (logout_ticks s - s_ticks_awaiting s)
      | LoggedOn \<Rightarrow> max 1 (nat \<lceil>timeout_ticks s\<rceil> - s_ticks_since_recv s) + logout_ticks s)"

text \<open>The timeouts are ones a 32-bit tick counter can reach.\<close>

definition timeouts_reachable :: "session \<Rightarrow> bool" where
  "timeouts_reachable s \<longleftrightarrow>
     timeout_ticks s \<le> of_nat (u32_size - 1) \<and> cfg_logon_timeout (s_config s) < u32_size \<and> cfg_logout_timeout (s_config s) < u32_size
     \<and> \<not> cfg_disable_heart_beat_check (s_config s)"

lemma timeouts_config: "s_config s' = s_config s \<Longrightarrow> timeouts_reachable s' = timeouts_reachable s \<and> timeout_ticks s' = timeout_ticks s"
  by (simp add: timeouts_reachable_def timeout_ticks_def hb_def)

lemma out_only_beat: "beat now s = (as, s') \<Longrightarrow> out_only s s'"
  by (auto simp: beat_def Let_def split: prod.splits if_splits dest!: out_only_sends intro: out_only_trans)


lemma probe_fields:
  assumes "probe now s = (ta, s1)"
  shows "s_config s1 = s_config s \<and> s_state s1 = s_state s \<and> s_ticks_since_recv s1 = s_ticks_since_recv s
     \<and> s_ticks_awaiting s1 = s_ticks_awaiting s"
proof (cases "test_request_delay s < of_nat (s_ticks_since_recv s) \<and> \<not> s_test_request_outstanding s")
  case True
  then obtain m a where "send_stored m (s\<lparr>s_next_out_seq := sat_add64 (s_next_out_seq s) 1, s_test_request_outstanding := True\<rparr>) = (a, s1)"
    using assms by (auto simp: probe_def next_seq_def Let_def split: prod.splits)
  from out_only_eqs [OF out_only_send_stored [OF this]] show ?thesis by simp
qed (use assms in \<open>auto simp: probe_def\<close>)

lemma beat_fields:
  "beat now s = (as, s') \<Longrightarrow> s_config s' = s_config s \<and> s_state s' = s_state s \<and> s_ticks_since_recv s' = s_ticks_since_recv s
     \<and> s_ticks_awaiting s' = s_ticks_awaiting s"
  using out_only_eqs [OF out_only_beat, of now s as s'] by simp

lemma drop_connection_config: "drop_connection s = (as, s') \<Longrightarrow> s_config s' = s_config s"
  by (auto simp: drop_connection_def enter_disconnected_def reset_sequences_def Let_def split: prod.splits if_splits)

lemma start_logout_fields:
  "start_logout now tx s = (as, s') \<Longrightarrow> s_config s' = s_config s \<and> s_state s' = AwaitingLogout \<and> s_ticks_awaiting s' = 0"
  by (auto simp: start_logout_def Let_def split: prod.splits dest!: out_only_sends out_only_eqs(1))

lemma tick_counters_fields [simp]:
  "s_config (tick_counters s) = s_config s" "s_state (tick_counters s) = s_state s"
  "s_ticks_since_recv (tick_counters s) = sat_add32 (s_ticks_since_recv s) 1"
  "s_ticks_awaiting (tick_counters s) = sat_add32 (s_ticks_awaiting s) 1"
  "timeout_ticks (tick_counters s) = timeout_ticks s"
  by (simp_all add: tick_counters_def timeout_ticks_def hb_def)

lemma on_tick_config: "on_tick E now s = (as, s') \<Longrightarrow> s_config s' = s_config s"
  by (cases "s_state s")
     (auto simp: on_tick_def Let_def split: if_splits prod.splits
        dest!: drop_connection_config start_logout_fields beat_fields probe_fields)

text \<open>A 32-bit counter still below a reachable timeout has not saturated.\<close>

lemma sat_add32_below: "sat_add32 a 1 < n \<Longrightarrow> n < u32_size \<Longrightarrow> sat_add32 a 1 = Suc a"
  by (auto simp: sat_add32_def)

lemma patience_decreases:
  assumes "on_tick E now s = (as, s')" "s_state s \<noteq> Disconnected" "timeouts_reachable s"
  shows "patience s' < patience s"
proof -
  let ?t = "tick_counters s"
  note c = on_tick_config [OF assms(1)]
  have same: "timeout_ticks s' = timeout_ticks s" "logout_ticks s' = logout_ticks s" using timeouts_config [OF c] c by (simp_all add: logout_ticks_def)
  have bound: "max (cfg_logon_timeout (s_config s)) 1 < u32_size" "logout_ticks s < u32_size"
    using assms(3) by (auto simp: timeouts_reachable_def logout_ticks_def)
  show ?thesis
  proof (cases "s_state s")
    case AwaitingLogon
    show ?thesis
    proof (cases "max (cfg_logon_timeout (s_config s)) 1 \<le> sat_add32 (s_ticks_awaiting s) 1")
      case True
      then show ?thesis
        using assms(1) AwaitingLogon drop_connection_tends [of ?t as s'] by (auto simp: on_tick_def patience_def Let_def)
    next
      case False
      then have "s' = ?t" using assms(1) AwaitingLogon by (simp add: on_tick_def Let_def split: if_splits)
      moreover have "sat_add32 (s_ticks_awaiting s) 1 = Suc (s_ticks_awaiting s)"
        by (rule sat_add32_below [OF _ bound(1)]) (use False in \<open>simp only: not_le\<close>)
      ultimately show ?thesis using False AwaitingLogon by (simp add: patience_def)
    qed
  next
    case AwaitingLogout
    show ?thesis
    proof (cases "logout_ticks s \<le> sat_add32 (s_ticks_awaiting s) 1")
      case True
      then show ?thesis
        using assms(1) AwaitingLogout drop_connection_tends [of ?t as s'] by (auto simp: on_tick_def patience_def Let_def logout_ticks_def)
    next
      case False
      then have "beat now ?t = (as, s')" using assms(1) AwaitingLogout by (auto simp: on_tick_def Let_def logout_ticks_def)
      from out_only_eqs [OF out_only_beat [OF this]] show ?thesis
        using False AwaitingLogout same sat_add32_below [OF _ bound(2), of "s_ticks_awaiting s"]
        by (auto simp: patience_def not_le)
    qed
  next
    case LoggedOn
    have on: "\<not> cfg_disable_heart_beat_check (s_config s)" "timeout_ticks s \<le> of_nat (u32_size - 1)"
      using assms(3) by (simp_all add: timeouts_reachable_def)
    consider (closed) "start_logout now (Some ''session schedule window closed'') ?t = (as, s')"
      | (timed_out) "drop_connection ?t = (as, s')"
      | (alive) ta s1 ha where "\<not> timeout_ticks s \<le> of_nat (s_ticks_since_recv ?t)" "probe now ?t = (ta, s1)" "beat now s1 = (ha, s')"
      using assms(1) LoggedOn on(1) by (auto simp: on_tick_def Let_def split: if_splits prod.splits)
    then show ?thesis
    proof cases
      case closed
      then show ?thesis using start_logout_fields LoggedOn same by (fastforce simp: patience_def logout_ticks_def)
    next
      case timed_out
      then show ?thesis using drop_connection_tends LoggedOn by (auto simp: patience_def)
    next
      case alive
      note q = probe_fields [OF alive(2)] beat_fields [OF alive(3)]
      let ?r = "s_ticks_since_recv s"
      have lt: "of_nat (sat_add32 ?r 1) < timeout_ticks s" using alive(1) by simp
      then have "sat_add32 ?r 1 < u32_size - 1" using on(2) order_less_le_trans of_nat_less_iff by blast
      then have r: "sat_add32 ?r 1 = Suc ?r" by (simp add: sat_add32_def)
      then have "int (Suc ?r) < \<lceil>timeout_ticks s\<rceil>" using lt by (simp add: less_ceiling_iff)
      then show ?thesis using q r same LoggedOn by (simp add: patience_def)
    qed
  qed (use assms(2) in simp)
qed

lemma tick_disconnected: "s_state s = Disconnected \<Longrightarrow> s_state (snd (on_tick E now s)) = Disconnected"
  by (simp add: on_tick_def Let_def)

lemma tick_all_disconnected: "s_state s = Disconnected \<Longrightarrow> s_state (tick_all E nows s) = Disconnected"
  by (induction nows arbitrary: s) (simp_all add: tick_disconnected)

lemma tick_all_closes:
  "timeouts_reachable s \<Longrightarrow> patience s \<le> length nows \<Longrightarrow> s_state (tick_all E nows s) = Disconnected"
proof (induction nows arbitrary: s)
  case Nil
  then show ?case by (auto simp: patience_def logout_ticks_def split: session_state.splits)
next
  case (Cons now nows)
  obtain as s' where t: "on_tick E now s = (as, s')" using prod.exhaust by blast
  show ?case
  proof (cases "s_state s = Disconnected")
    case True
    then show ?thesis using tick_all_disconnected tick_disconnected by simp
  next
    case False
    then show ?thesis
      using Cons patience_decreases [OF t False] t timeouts_config [OF on_tick_config [OF t]] by simp
  qed
qed


section \<open>Properties\<close>

text \<open>
  C7. The engine refines the abstract connection machine: whatever event a session handles, its state
  moves along an edge of \<open>lifecycle\<close>. In particular only a Logon received while one is awaited logs a
  session on, and a disconnected session stays so until it is connected again.
\<close>

theorem handle_refines_lifecycle:
  assumes "handle E now e s = Some (as, s')"
  shows "lifecycle (s_state s) e (s_state s')
    \<and> (s_state s' = LoggedOn \<and> s_state s \<noteq> LoggedOn \<longrightarrow> s_state s = AwaitingLogon \<and> (\<exists>m. e = Received m \<and> msg_type m = Some ''A''))"
proof -
  have l: "lifecycle (s_state s) e (s_state s')" using assms by (rule handle_lifecycle)
  then show ?thesis by (cases e) (auto simp: lifecycle_simps)
qed

theorem handle_refines_lifecycle_witness:
  "\<exists>as s'. handle utc_ext noon Connected (new_session acceptor_config) = Some (as, s') \<and> lifecycle Disconnected Connected (s_state s')"
proof -
  obtain as s' where h: "handle utc_ext noon Connected (new_session acceptor_config) = Some (as, s')"
    by (cases "on_connected noon (new_session acceptor_config)") (simp add: handle_def)
  then show ?thesis using handle_refines_lifecycle [OF h] by (auto simp: new_session_def)
qed

text \<open>
  The transport is told of every disconnect, and only of those: while a connection is up, an event
  other than its loss leaves the session disconnected exactly when \<open>Disconnect\<close> is among the actions.
\<close>

theorem disconnect_signalled:
  assumes "handle E now e s = Some (as, s')" "s_state s \<noteq> Disconnected" "\<And>r. e \<noteq> ConnectionLost r"
  shows "s_state s' = Disconnected \<longleftrightarrow> Disconnect \<in> set as"
  using assms by (rule handle_disconnects)

theorem disconnect_signalled_witness:
  "\<exists>as s'. handle utc_ext noon (Received (order_from_buyer 1)) accepted_session = Some (as, s')
     \<and> length as = 2 \<and> s_state s' = Disconnected"
proof -
  have "case handle utc_ext noon (Received (order_from_buyer 1)) accepted_session of None \<Rightarrow> False
        | Some (as, s') \<Rightarrow> length as = 2 \<and> Disconnect \<in> set as"
    by code_simp
  then obtain as s' where h: "handle utc_ext noon (Received (order_from_buyer 1)) accepted_session = Some (as, s')"
    "length as = 2" "Disconnect \<in> set as"
    by (auto split: option.splits)
  moreover have "s_state accepted_session \<noteq> Disconnected" by (simp add: accepted_session_def)
  ultimately show ?thesis using disconnect_signalled [OF h(1)] by blast
qed



text \<open>
  C6. A ResendRequest is answered in full. For a request from \<open>b\<close> to \<open>e\<close> (0 for everything) the answer
  covers every number from \<open>b\<close> to the last one asked for and sent, each exactly once and in order, so
  a peer that follows it ends up expecting the number after. Precisely the stored messages of the range
  that may be replayed are resent, marked as possible duplicates, under their own numbers and with their
  bodies unchanged; every other number is gap filled.
\<close>

theorem resend_request_answered:
  assumes "on_resend_request now msg s = (as, s')" "session_wf s" "s_next_out_seq s < 2 ^ 63"
    and "body_nonneg msg BEGIN_SEQ_NO = Some b" "body_nonneg msg END_SEQ_NO = Some e"
    and "0 < b" "b < s_next_out_seq s" "e = 0 \<or> b \<le> e" "e \<noteq> 999999"
  defines "l \<equiv> if e = 0 \<or> s_next_out_seq s \<le> e then s_next_out_seq s - 1 else e"
  shows "replayed b as = Some (Suc l)
    \<and> (\<forall>m q. Resend m q \<in> set as \<longleftrightarrow> b \<le> q \<and> q \<le> l \<and>
         (\<exists>m0. bt_get (s_store s) q = Some m0 \<and> resendable s m0 \<and> m = prepare_resend (s_config s) now m0))
    \<and> (\<forall>m q. Resend m q \<in> set as \<longrightarrow> is_poss_dup m \<and> seq_num m = Some q)"
proof -
  have present: "fm_get (m_body msg) BEGIN_SEQ_NO \<noteq> None" "fm_get (m_body msg) END_SEQ_NO \<noteq> None"
    using assms(4,5) by (auto simp: body_nonneg_def get_int_def bind_eq_Some_conv split: option.splits)
  have range: "b \<le> l" "Suc l < 2 ^ 63 \<or> Suc l \<le> s_next_out_seq s" using assms(6-8) by (auto simp: l_def)
  have r: "build_resend now b l s = (as, s')"
    using assms(1) present assms(4-9) range(1) by (auto simp: on_resend_request_def l_def Let_def split: if_splits)
  have own: "is_poss_dup m \<and> seq_num m = Some q" if "Resend m q \<in> set as" for m q
    using that build_resend_resends [OF r, of m q] assms(2) by (auto simp: prepare_resend_header session_wf_def)
  have "replayed b as = Some (Suc l)"
    using build_resend_replayed [OF r assms(6) range(1)] range(2) assms(3) by linarith
  then show ?thesis using build_resend_resends [OF r] own by blast
qed


text \<open>A session that has sent its Logon, one execution report and one message it did not keep.\<close>

definition traded_session :: session where
  "traded_session = accepted_session\<lparr>s_next_out_seq := 4,
     s_store := [(1, base acceptor_config noon ''A'' 1), (2, base acceptor_config noon ''8'' 2)]\<rparr>"

lemma traded_session_wf: "session_wf traded_session"
proof -
  have "seq_num (base acceptor_config noon t 1) = Some 1" "seq_num (base acceptor_config noon t 2) = Some 2" for t
    by (simp_all add: numbered_seq_num numbered_def base_header)
  then show ?thesis
    by (auto simp: session_wf_def traded_session_def accepted_session_def new_session_def bt_sorted_def)
qed

theorem resend_request_answered_witness:
  "\<exists>as s'. on_resend_request noon (resend_request initiator_config noon 2 1 0) traded_session = (as, s')
     \<and> length as = 3 \<and> replayed 1 as = Some 4"
proof -
  obtain as s' where r: "on_resend_request noon (resend_request initiator_config noon 2 1 0) traded_session = (as, s')"
    using prod.exhaust by blast
  have v: "s_next_out_seq traded_session < 2 ^ 63" "s_next_out_seq traded_session = 4"
    "body_nonneg (resend_request initiator_config noon 2 1 0) BEGIN_SEQ_NO = Some 1"
    "body_nonneg (resend_request initiator_config noon 2 1 0) END_SEQ_NO = Some 0"
    by code_simp+
  have "length (fst (on_resend_request noon (resend_request initiator_config noon 2 1 0) traded_session)) = 3" by code_simp
  then show ?thesis
    using resend_request_answered [OF r traded_session_wf v(1,3,4)] v(2) r by simp
qed

text \<open>
  C23. A silent peer is dropped. A session whose timeouts are within the range of its tick counters and
  whose heartbeat check is on is disconnected after at most \<open>patience\<close> ticks without a message, in
  whatever state it is, and whether or not its schedule window closes meanwhile.
\<close>

theorem silent_peer_dropped:
  assumes "timeouts_reachable s" "patience s \<le> length nows"
  shows "s_state (tick_all E nows s) = Disconnected"
  using assms by (rule tick_all_closes)

theorem silent_peer_dropped_witness:
  "s_state accepted_session = LoggedOn \<and> s_state (tick_all utc_ext (replicate 72 noon) accepted_session) = Disconnected"
proof -
  have t: "timeout_ticks accepted_session = 62" by code_simp
  have "timeouts_reachable accepted_session" "patience accepted_session \<le> 72" "s_state accepted_session = LoggedOn"
    using t by (simp_all add: timeouts_reachable_def patience_def logout_ticks_def accepted_session_def new_session_def acceptor_config_code)
  then show ?thesis using silent_peer_dropped [of accepted_session "replicate 72 noon"] by simp
qed

lemma beat_on_time: "beat now s = (as, s') \<Longrightarrow> s_ticks_since_send s' < hb s'"
  by (auto simp: beat_def send_stored_def next_seq_def hb_def Let_def split: if_splits option.splits)






definition gapped_session :: session where
  "gapped_session = (set_dictionary (hops_dict hops_groups) default_options accepted_session)
     \<lparr>s_queue := [(3, order_from_buyer 3)], s_resend_requested := True\<rparr>"

text \<open>
  A gap fill that fails validation moves the expected number on without draining the queue, so the
  queued message with that number stays behind for good: here number 3, after the session has gone on
  to expect 4.
\<close>

theorem invalid_gap_fill_leaves_entry:
  "case run_events utc_ext noon [Received (sequence_reset initiator_config noon 2 3 True), Received (order_from_buyer 3)] gapped_session of
     None \<Rightarrow> False
   | Some (as, s) \<Rightarrow> s_state s = LoggedOn \<and> s_next_in_seq s = 4 \<and> bt_get (s_queue s) 3 \<noteq> None \<and> s_resend_requested s"
  by code_simp

end
