(* ===== verification/Fix_Store.thy ===== *)
theory Fix_Store
  imports Fix_Text
begin

text \<open>
  The message stores that live in memory (\<^verbatim>\<open>store/memory.rs\<close>, \<^verbatim>\<open>store/noop.rs\<close>) and the interface every
  store offers (\<^verbatim>\<open>store/lib.rs\<close>, trait \<^verbatim>\<open>MessageStore\<close>): the next outbound and inbound sequence number and
  the bytes of the messages sent. A mutex guard is never held across a panic here, so the
  \<^verbatim>\<open>poisoned lock\<close> errors do not occur and are left out; the texts of errors are left out too.
  \<^verbatim>\<open>BTreeMap::range\<close> panics when its start is beyond its end, the outcome \<open>None\<close> of a read.
\<close>

datatype store_error = StoreIo | StoreBackend

text \<open>\<^verbatim>\<open>map.range(begin..=end)\<close>.\<close>

definition bt_range :: "nat \<Rightarrow> nat \<Rightarrow> (nat, 'v) btree \<Rightarrow> (nat, 'v) btree option" where
  "bt_range b e m = (if e < b then None else Some (filter (\<lambda>(k, v). b \<le> k \<and> k \<le> e) m))"

lemma map_of_filter_keys: "map_of (filter (\<lambda>(k, v). P k) m) k = (if P k then map_of m k else None)"
  by (induction m) auto

lemma bt_range_sorted: "bt_sorted m \<Longrightarrow> bt_range b e m = Some r \<Longrightarrow> bt_sorted r"
  by (auto simp: bt_range_def bt_sorted_filter split: if_splits)

section \<open>The interface\<close>

text \<open>What a client may rely on of the two counters of a store.\<close>

locale seq_store =
  fixes invar :: "'s \<Rightarrow> bool"
    and next_sender next_target :: "'s \<Rightarrow> nat"
    and set_sender set_target :: "nat \<Rightarrow> 's \<Rightarrow> 's"
    and clear :: "'s \<Rightarrow> 's"
  assumes invar_sender: "invar s \<Longrightarrow> invar (set_sender n s)"
    and invar_target: "invar s \<Longrightarrow> invar (set_target n s)"
    and invar_clear: "invar s \<Longrightarrow> invar (clear s)"
    and sender_sender: "next_sender (set_sender n s) = n"
    and target_sender: "next_target (set_sender n s) = next_target s"
    and sender_target: "next_sender (set_target n s) = next_sender s"
    and target_target: "next_target (set_target n s) = n"
    and sender_clear: "next_sender (clear s) = 1"
    and target_clear: "next_target (clear s) = 1"

text \<open>
  What it may rely on of the messages: reading a range gives, in order, exactly the messages saved
  under its numbers since the last reset, the latest for each number.
\<close>

locale message_store = seq_store +
  fixes fits :: "nat \<Rightarrow> bytes \<Rightarrow> bool"
    and save :: "nat \<Rightarrow> bytes \<Rightarrow> 's \<Rightarrow> 's"
    and fetch :: "nat \<Rightarrow> nat \<Rightarrow> 's \<Rightarrow> (nat \<times> bytes) list option"
  assumes invar_save: "invar s \<Longrightarrow> fits q m \<Longrightarrow> invar (save q m s)"
    and sender_save: "next_sender (save q m s) = next_sender s"
    and target_save: "next_target (save q m s) = next_target s"
    and fetch_range: "invar s \<Longrightarrow> b \<le> e \<Longrightarrow>
      \<exists>r. fetch b e s = Some r \<and> bt_sorted r \<and> (\<forall>k. map_of r k \<noteq> None \<longrightarrow> b \<le> k \<and> k \<le> e)"
    and fetch_save: "invar s \<Longrightarrow> fits q m \<Longrightarrow> fetch b e s = Some r \<Longrightarrow>
      \<exists>r'. fetch b e (save q m s) = Some r' \<and> (\<forall>k. map_of r' k = (if k = q \<and> b \<le> q \<and> q \<le> e then Some m else map_of r k))"
    and fetch_sender: "invar s \<Longrightarrow> fetch b e (set_sender n s) = fetch b e s"
    and fetch_target: "invar s \<Longrightarrow> fetch b e (set_target n s) = fetch b e s"
    and fetch_clear: "invar s \<Longrightarrow> b \<le> e \<Longrightarrow> fetch b e (clear s) = Some []"
begin

text \<open>
  The sends of a session: every message is saved under the next outbound number, which then
  advances.
\<close>

fun send_all :: "bytes list \<Rightarrow> 's \<Rightarrow> 's" where
  "send_all [] s = s"
| "send_all (m # ms) s = (let q = next_sender s in send_all ms (set_sender (Suc q) (save q m s)))"

definition stored :: "nat \<Rightarrow> 's \<Rightarrow> nat \<Rightarrow> bytes option" where
  "stored e s k = (case fetch 0 e s of None \<Rightarrow> None | Some r \<Rightarrow> map_of r k)"

lemma stored_save:
  assumes "invar s" "fits q m"
  shows "stored e (save q m s) k = (if k = q \<and> q \<le> e then Some m else stored e s k)"
proof -
  obtain r where r: "fetch 0 e s = Some r" using fetch_range [OF assms(1), of 0 e] by auto
  obtain r' where "fetch 0 e (save q m s) = Some r'" "\<forall>k. map_of r' k = (if k = q \<and> 0 \<le> q \<and> q \<le> e then Some m else map_of r k)"
    using fetch_save [OF assms r] by blast
  then show ?thesis using r by (simp add: stored_def)
qed

lemma send_all_stored:
  assumes "invar s" "\<And>i. i < length ms \<Longrightarrow> fits (next_sender s + i) (ms ! i)"
  shows "invar (send_all ms s) \<and> next_sender (send_all ms s) = next_sender s + length ms
    \<and> next_target (send_all ms s) = next_target s
    \<and> (\<forall>k\<le>e. stored e (send_all ms s) k =
         (if next_sender s \<le> k \<and> k < next_sender s + length ms then Some (ms ! (k - next_sender s)) else stored e s k))"
  using assms
proof (induction ms arbitrary: s)
  case (Cons m ms)
  let ?q = "next_sender s" and ?t = "set_sender (Suc (next_sender s)) (save (next_sender s) m s)"
  have f: "fits ?q m" using Cons.prems(2) [of 0] by simp
  have t: "invar ?t" "next_sender ?t = Suc ?q" "next_target ?t = next_target s"
    using Cons.prems(1) f by (auto intro: invar_sender invar_save simp: sender_sender target_sender target_save)
  have st: "stored e ?t k = (if k = ?q \<and> ?q \<le> e then Some m else stored e s k)" for k
    using stored_save [OF Cons.prems(1) f, of e k] fetch_sender [OF invar_save [OF Cons.prems(1) f]] by (simp add: stored_def)
  have "fits (next_sender ?t + i) (ms ! i)" if "i < length ms" for i
    using Cons.prems(2) [of "Suc i"] that t(2) by simp
  from Cons.IH [OF t(1) this] show ?case
    using t(2,3) st by (auto simp: Let_def nth_Cons' Suc_diff_le not_less_eq_eq)
qed auto

end

section \<open>The in-memory store\<close>

record mem_store =
  ms_sender :: nat
  ms_target :: nat
  ms_messages :: "(nat, bytes) btree"

definition mem_new :: mem_store where
  "mem_new = \<lparr>ms_sender = 1, ms_target = 1, ms_messages = []\<rparr>"

definition mem_set_sender :: "nat \<Rightarrow> mem_store \<Rightarrow> mem_store" where
  "mem_set_sender n s = s\<lparr>ms_sender := n\<rparr>"

definition mem_set_target :: "nat \<Rightarrow> mem_store \<Rightarrow> mem_store" where
  "mem_set_target n s = s\<lparr>ms_target := n\<rparr>"

definition mem_save :: "nat \<Rightarrow> bytes \<Rightarrow> mem_store \<Rightarrow> mem_store" where
  "mem_save q m s = s\<lparr>ms_messages := bt_insert q m (ms_messages s)\<rparr>"

definition mem_get :: "nat \<Rightarrow> nat \<Rightarrow> mem_store \<Rightarrow> (nat \<times> bytes) list option" where
  "mem_get b e s = bt_range b e (ms_messages s)"

definition mem_reset :: "mem_store \<Rightarrow> mem_store" where
  "mem_reset s = mem_new"

definition mem_contains :: "nat \<Rightarrow> mem_store \<Rightarrow> bool" where
  "mem_contains q s \<longleftrightarrow> bt_get (ms_messages s) q \<noteq> None"

text \<open>The trait's own default for saving a message and advancing past it; \<^verbatim>\<open>seq + 1\<close> wraps or panics at the top.\<close>

definition mem_save_and_advance :: "nat \<Rightarrow> bytes \<Rightarrow> mem_store \<Rightarrow> mem_store option" where
  "mem_save_and_advance q m s = (if q + 1 < u64_size then Some (mem_set_sender (q + 1) (mem_save q m s)) else None)"

lemmas mem_defs = mem_new_def mem_set_sender_def mem_set_target_def mem_save_def mem_get_def mem_reset_def mem_contains_def

interpretation mem: message_store "\<lambda>s. bt_sorted (ms_messages s)" ms_sender ms_target mem_set_sender mem_set_target mem_reset
  "\<lambda>q m. True" mem_save mem_get
proof (unfold_locales, goal_cases)
  case (13 s b e)
  then show ?case
    by (auto simp: mem_get_def bt_range_def bt_sorted_filter map_of_filter_keys)
next
  case (14 s q m b e r)
  then show ?case
    by (auto simp: mem_defs bt_range_def map_of_filter_keys map_of_bt_insert split: if_splits)
qed (auto simp: mem_defs bt_sorted_insert bt_range_def)

section \<open>The store that keeps only the counters\<close>

record noop_store =
  ns_sender :: nat
  ns_target :: nat

definition noop_new :: noop_store where
  "noop_new = \<lparr>ns_sender = 1, ns_target = 1\<rparr>"

definition noop_set_sender :: "nat \<Rightarrow> noop_store \<Rightarrow> noop_store" where
  "noop_set_sender n s = s\<lparr>ns_sender := n\<rparr>"

definition noop_set_target :: "nat \<Rightarrow> noop_store \<Rightarrow> noop_store" where
  "noop_set_target n s = s\<lparr>ns_target := n\<rparr>"

definition noop_save :: "nat \<Rightarrow> bytes \<Rightarrow> noop_store \<Rightarrow> noop_store" where
  "noop_save q m s = s"

definition noop_get :: "nat \<Rightarrow> nat \<Rightarrow> noop_store \<Rightarrow> (nat \<times> bytes) list" where
  "noop_get b e s = []"

definition noop_reset :: "noop_store \<Rightarrow> noop_store" where
  "noop_reset s = s\<lparr>ns_sender := 1, ns_target := 1\<rparr>"

interpretation noop: seq_store "\<lambda>s. True" ns_sender ns_target noop_set_sender noop_set_target noop_reset
  by unfold_locales (auto simp: noop_set_sender_def noop_set_target_def noop_reset_def)

end
