(* ===== verification/Fix_File_Store.thy ===== *)
theory Fix_File_Store
  imports Fix_Store
begin

text \<open>
  The file-backed stores (\<^verbatim>\<open>store/file.rs\<close>). A store is its in-memory part together with the directory it
  lives in. An operation computes the list of disk operations it performs; running them all gives the
  directory afterwards, and a crash leaves the directory after some of them, the last one possibly
  torn. The model assumes that the operating system completes the calls it is given, in their order,
  which is what \<^verbatim>\<open>FileStoreSync=Y\<close> asks of it.
\<close>

section \<open>The store directory\<close>

datatype seq_file = SenderFile | TargetFile

instantiation seq_file :: enum
begin

definition enum_seq_file :: "seq_file list" where
  "enum_seq_file = [SenderFile, TargetFile]"

definition enum_all_seq_file :: "(seq_file \<Rightarrow> bool) \<Rightarrow> bool" where
  "enum_all_seq_file P \<longleftrightarrow> P SenderFile \<and> P TargetFile"

definition enum_ex_seq_file :: "(seq_file \<Rightarrow> bool) \<Rightarrow> bool" where
  "enum_ex_seq_file P \<longleftrightarrow> P SenderFile \<or> P TargetFile"

instance
proof
  show "UNIV = set (enum_class.enum :: seq_file list)" by (auto simp: enum_seq_file_def intro: seq_file.exhaust)
qed (auto simp: enum_seq_file_def enum_all_seq_file_def enum_ex_seq_file_def, (metis seq_file.exhaust)+)

end

record disk =
  dk_seq :: "seq_file \<Rightarrow> bytes option"
  dk_tmp :: "seq_file \<Rightarrow> bytes option"
  dk_legacy :: "bytes option"
  dk_body :: "bytes option"
  dk_session :: "bytes option"

definition contents :: "bytes option \<Rightarrow> bytes" where
  "contents x = (case x of None \<Rightarrow> [] | Some b \<Rightarrow> b)"

datatype disk_op =
    CreateTmp seq_file
  | WriteTmp seq_file bytes
  | RenameTmp seq_file
  | RemoveSeq seq_file
  | OpenBody
  | WriteBody bytes
  | SetBodyLen nat
  | TruncateSession
  | WriteSession bytes

fun apply_op :: "disk_op \<Rightarrow> disk \<Rightarrow> disk" where
  "apply_op (CreateTmp f) d = d\<lparr>dk_tmp := (dk_tmp d)(f := Some [])\<rparr>"
| "apply_op (WriteTmp f bs) d = d\<lparr>dk_tmp := (dk_tmp d)(f := Some (contents (dk_tmp d f) @ bs))\<rparr>"
| "apply_op (RenameTmp f) d = d\<lparr>dk_seq := (dk_seq d)(f := dk_tmp d f), dk_tmp := (dk_tmp d)(f := None)\<rparr>"
| "apply_op (RemoveSeq f) d = d\<lparr>dk_seq := (dk_seq d)(f := None)\<rparr>"
| "apply_op OpenBody d = d\<lparr>dk_body := Some (contents (dk_body d))\<rparr>"
| "apply_op (WriteBody bs) d = d\<lparr>dk_body := Some (contents (dk_body d) @ bs)\<rparr>"
| "apply_op (SetBodyLen n) d = d\<lparr>dk_body := Some (take n (contents (dk_body d)))\<rparr>"
| "apply_op TruncateSession d = d\<lparr>dk_session := Some []\<rparr>"
| "apply_op (WriteSession bs) d = d\<lparr>dk_session := Some (contents (dk_session d) @ bs)\<rparr>"

definition apply_ops :: "disk_op list \<Rightarrow> disk \<Rightarrow> disk" where
  "apply_ops ops d = fold apply_op ops d"

text \<open>A write may reach the disk in part.\<close>

fun torn :: "nat \<Rightarrow> disk_op \<Rightarrow> disk_op" where
  "torn j (WriteTmp f bs) = WriteTmp f (take j bs)"
| "torn j (WriteBody bs) = WriteBody (take j bs)"
| "torn j (WriteSession bs) = WriteSession (take j bs)"
| "torn j p = p"

inductive crash :: "disk_op list \<Rightarrow> disk \<Rightarrow> disk \<Rightarrow> bool" where
  crash_before: "crash ops d d"
| crash_torn: "crash (p # ops) d (apply_op (torn j p) d)"
| crash_later: "crash ops (apply_op p d) d' \<Longrightarrow> crash (p # ops) d d'"

inductive_simps crash_simps: "crash [] d d'" "crash (p # ops) d d'"

lemma crash_append: "crash (ps @ ops) d d' \<longleftrightarrow> crash ps d d' \<or> crash ops (apply_ops ps d) d'"
proof (induction ps arbitrary: d)
  case Nil
  then show ?case by (auto simp: crash_simps apply_ops_def intro: crash_before)
next
  case (Cons p ps)
  then show ?case by (auto simp: crash_simps(2) apply_ops_def)
qed

section \<open>The record log\<close>

text \<open>A record: the number and the length, little-endian in eight and four bytes, then the message.\<close>

definition body_record :: "nat \<times> bytes \<Rightarrow> bytes" where
  "body_record r = to_le 8 (fst r) @ to_le 4 (length (snd r)) @ snd r"

type_synonym body_index = "(nat, nat \<times> nat) btree"

text \<open>
  \<^verbatim>\<open>load_index\<close>: walk the record headers. Positions are \<^verbatim>\<open>u64\<close>; only the end of a body is computed with
  a check, the rest stays within the length of the file.
\<close>

function load_loop :: "bytes \<Rightarrow> nat \<Rightarrow> body_index \<Rightarrow> body_index \<times> bool \<times> nat" where
  "load_loop file pos index =
     (if pos = length file then (index, False, pos)
      else if length file - pos < 12 then (index, True, pos)
      else
        (let seq = from_le (take 8 (drop pos file));
             len = from_le (take 4 (drop (pos + 8) file));
             body_end = pos + 12 + len
         in if u64_size \<le> body_end then (index, True, pos)
            else if length file < body_end then (index, True, pos)
            else load_loop file body_end (bt_insert seq (pos, len) index)))"
  by pat_completeness auto
termination
  by (relation "measure (\<lambda>(file, pos, index). length file - pos)") auto

declare load_loop.simps [simp del]

definition load_index :: "disk \<Rightarrow> body_index \<times> bool \<times> nat" where
  "load_index d = (case dk_body d of None \<Rightarrow> ([], False, 0) | Some file \<Rightarrow> load_loop file 0 [])"

function evict_oldest :: "nat \<Rightarrow> body_index \<Rightarrow> body_index" where
  "evict_oldest max_records index =
     (if max_records < length index
      then (case index of [] \<Rightarrow> [] | (oldest, _) # _ \<Rightarrow> evict_oldest max_records (bt_remove oldest index))
      else index)"
  by pat_completeness auto
termination
  by (relation "measure (\<lambda>(n, index). length index)") (auto simp: bt_remove_def less_Suc_eq_le)

declare evict_oldest.simps [simp del]

definition bounded :: "nat \<Rightarrow> body_index \<Rightarrow> body_index" where
  "bounded max_records index = (if 0 < max_records then evict_oldest max_records index else index)"

definition body_open :: "nat \<Rightarrow> disk \<Rightarrow> body_index \<times> bool \<times> disk_op list" where
  "body_open max_records d =
     (case load_index d of
        (index, corrupted, clean_len) \<Rightarrow>
          (bounded max_records index, corrupted, if corrupted then [OpenBody, SetBodyLen clean_len] else []))"

text \<open>
  The length is checked only after the number has been written: a message of \<^verbatim>\<open>2^32\<close> bytes or more
  leaves eight stray bytes in the log.
\<close>

definition body_append :: "nat \<Rightarrow> nat \<Rightarrow> bytes \<Rightarrow> disk \<Rightarrow> body_index \<Rightarrow> (store_error + unit) \<times> disk_op list \<times> body_index" where
  "body_append max_records seq msg d index =
     (let offset = length (contents (dk_body d)) in
      if length msg < u32_size
      then (Inr (), [OpenBody, WriteBody (to_le 8 seq), WriteBody (to_le 4 (length msg)), WriteBody msg],
            bounded max_records (bt_insert seq (offset, length msg) index))
      else (Inl StoreBackend, [OpenBody, WriteBody (to_le 8 seq)], index))"

text \<open>\<^verbatim>\<open>read_exact\<close> of no bytes succeeds anywhere.\<close>

definition read_body_at :: "bytes \<Rightarrow> nat \<Rightarrow> nat \<Rightarrow> store_error + bytes" where
  "read_body_at file offset len =
     (if len = 0 \<or> offset + 12 + len \<le> length file then Inr (take len (drop (offset + 12) file)) else Inl StoreIo)"

definition body_read :: "nat \<Rightarrow> disk \<Rightarrow> body_index \<Rightarrow> store_error + bytes option" where
  "body_read seq d index =
     (case bt_get index seq of
        None \<Rightarrow> Inr None
      | Some (offset, len) \<Rightarrow>
          (case dk_body d of None \<Rightarrow> Inl StoreIo
           | Some file \<Rightarrow> map_sum id Some (read_body_at file offset len)))"

definition seqs_in_range :: "nat \<Rightarrow> nat \<Rightarrow> body_index \<Rightarrow> nat list option" where
  "seqs_in_range b e index = map_option (map fst) (bt_range b e index)"

fun read_all :: "bytes \<Rightarrow> (nat \<times> nat \<times> nat) list \<Rightarrow> store_error + (nat \<times> bytes) list" where
  "read_all file [] = Inr []"
| "read_all file ((seq, offset, len) # es) =
     (case read_body_at file offset len of Inl e \<Rightarrow> Inl e
      | Inr bs \<Rightarrow> map_sum id ((#) (seq, bs)) (read_all file es))"

definition body_range :: "nat \<Rightarrow> nat \<Rightarrow> disk \<Rightarrow> body_index \<Rightarrow> (store_error + (nat \<times> bytes) list) option" where
  "body_range b e d index =
     (case bt_range b e index of
        None \<Rightarrow> None
      | Some [] \<Rightarrow> Some (Inr [])
      | Some es \<Rightarrow> Some (case dk_body d of None \<Rightarrow> Inl StoreIo | Some file \<Rightarrow> read_all file es))"

definition body_reset_ops :: "disk_op list" where
  "body_reset_ops = [OpenBody, SetBodyLen 0]"

section \<open>The sequence files\<close>

definition write_seq_value :: "seq_file \<Rightarrow> nat \<Rightarrow> disk_op list" where
  "write_seq_value f n = [CreateTmp f, WriteTmp f (show_nat n @ [CHR 0x0A]), RenameTmp f]"

definition parse_seq :: "bytes \<Rightarrow> nat option" where
  "parse_seq s = parse_unsigned u64_size (trim s)"

text \<open>\<^verbatim>\<open>read_to_string\<close> fails on bytes that are not UTF-8.\<close>

definition load_seq_value :: "disk \<Rightarrow> seq_file \<Rightarrow> store_error + nat" where
  "load_seq_value d f =
     (case dk_seq d f of
        None \<Rightarrow> Inr 1
      | Some s \<Rightarrow>
          if \<not> utf8_valid s then Inl StoreIo
          else (case parse_seq s of None \<Rightarrow> Inl StoreBackend | Some n \<Rightarrow> Inr n))"

definition load_legacy_seqnums :: "bytes \<Rightarrow> store_error + nat \<times> nat" where
  "load_legacy_seqnums s =
     (if \<not> utf8_valid s then Inl StoreIo
      else case text_lines s of
        sender # target # _ \<Rightarrow>
          (case (parse_seq sender, parse_seq target) of
             (Some a, Some b) \<Rightarrow> Inr (a, b)
           | _ \<Rightarrow> Inl StoreBackend)
      | _ \<Rightarrow> Inl StoreBackend)"

definition migrate_ops :: "disk \<Rightarrow> store_error + disk_op list" where
  "migrate_ops d =
     (case dk_legacy d of
        Some s \<Rightarrow>
          if dk_seq d SenderFile = None \<or> dk_seq d TargetFile = None then
            (case load_legacy_seqnums s of
               Inl e \<Rightarrow> Inl e
             | Inr (a, b) \<Rightarrow>
                 Inr ((if dk_seq d SenderFile = None then write_seq_value SenderFile a else [])
                      @ (if dk_seq d TargetFile = None then write_seq_value TargetFile b else [])))
          else Inr []
      | None \<Rightarrow> Inr [])"

definition seq_open :: "disk \<Rightarrow> (store_error + nat \<times> nat) \<times> disk_op list" where
  "seq_open d =
     (case migrate_ops d of
        Inl e \<Rightarrow> (Inl e, [])
      | Inr ops \<Rightarrow>
          (let d1 = apply_ops ops d in
           (case load_seq_value d1 SenderFile of Inl e \<Rightarrow> Inl e
            | Inr a \<Rightarrow> (case load_seq_value d1 TargetFile of Inl e \<Rightarrow> Inl e | Inr b \<Rightarrow> Inr (a, b)), ops)))"

definition seq_reset_ops :: "disk_op list" where
  "seq_reset_ops = [RemoveSeq SenderFile, RemoveSeq TargetFile] @ write_seq_value SenderFile 1 @ write_seq_value TargetFile 1"

section \<open>The creation time\<close>

text \<open>Seconds since the epoch; \<open>valid\<close> says which of them the \<^verbatim>\<open>time\<close> crate accepts.\<close>

definition reset_creation_time_file :: "int \<Rightarrow> disk_op list" where
  "reset_creation_time_file now = [TruncateSession, WriteSession (show_int now)]"

definition creation_time_file :: "(int \<Rightarrow> bool) \<Rightarrow> int \<Rightarrow> disk \<Rightarrow> (store_error + int) \<times> disk_op list" where
  "creation_time_file valid now d =
     (case dk_session d of
        None \<Rightarrow> (Inr now, reset_creation_time_file now)
      | Some s \<Rightarrow>
          (if \<not> utf8_valid s then Inl StoreIo
           else case parse_i64 (trim s) of
             None \<Rightarrow> Inl StoreBackend
           | Some t \<Rightarrow> if valid t then Inr t else Inl StoreBackend, []))"

section \<open>The file store\<close>

record file_store =
  fs_disk :: disk
  fs_sender :: nat
  fs_target :: nat
  fs_index :: body_index
  fs_corrupted :: bool
  fs_creation :: int
  fs_max_records :: nat

text \<open>\<^verbatim>\<open>open_with_options\<close>; the disk operations come in the order of the three parts.\<close>

definition file_open :: "(int \<Rightarrow> bool) \<Rightarrow> int \<Rightarrow> nat \<Rightarrow> disk \<Rightarrow> (store_error + file_store) \<times> disk_op list" where
  "file_open valid now max_records d =
     (case seq_open d of
        (Inl e, ops) \<Rightarrow> (Inl e, ops)
      | (Inr (a, b), ops1) \<Rightarrow>
          (case body_open max_records (apply_ops ops1 d) of
             (index, corrupted, ops2) \<Rightarrow>
               (case creation_time_file valid now (apply_ops (ops1 @ ops2) d) of
                  (Inl e, ops3) \<Rightarrow> (Inl e, ops1 @ ops2 @ ops3)
                | (Inr t, ops3) \<Rightarrow>
                    (Inr \<lparr>fs_disk = apply_ops (ops1 @ ops2 @ ops3) d, fs_sender = a, fs_target = b, fs_index = index,
                          fs_corrupted = corrupted, fs_creation = t, fs_max_records = max_records\<rparr>,
                     ops1 @ ops2 @ ops3))))"

definition run_on :: "disk_op list \<Rightarrow> file_store \<Rightarrow> file_store" where
  "run_on ops s = s\<lparr>fs_disk := apply_ops ops (fs_disk s)\<rparr>"

definition file_set_sender :: "nat \<Rightarrow> file_store \<Rightarrow> file_store" where
  "file_set_sender n s = (run_on (write_seq_value SenderFile n) s)\<lparr>fs_sender := n\<rparr>"

definition file_set_target :: "nat \<Rightarrow> file_store \<Rightarrow> file_store" where
  "file_set_target n s = (run_on (write_seq_value TargetFile n) s)\<lparr>fs_target := n\<rparr>"

definition file_save :: "nat \<Rightarrow> bytes \<Rightarrow> file_store \<Rightarrow> (store_error + unit) \<times> file_store" where
  "file_save q m s =
     (case body_append (fs_max_records s) q m (fs_disk s) (fs_index s) of
        (r, ops, index) \<Rightarrow> (r, (run_on ops s)\<lparr>fs_index := index\<rparr>))"

definition file_get :: "nat \<Rightarrow> nat \<Rightarrow> file_store \<Rightarrow> (store_error + (nat \<times> bytes) list) option" where
  "file_get b e s = body_range b e (fs_disk s) (fs_index s)"

definition file_contains :: "nat \<Rightarrow> file_store \<Rightarrow> bool" where
  "file_contains q s \<longleftrightarrow> bt_get (fs_index s) q \<noteq> None"

definition file_reset_ops :: "int \<Rightarrow> disk_op list" where
  "file_reset_ops now = body_reset_ops @ seq_reset_ops @ reset_creation_time_file now"

definition file_reset :: "int \<Rightarrow> file_store \<Rightarrow> file_store" where
  "file_reset now s =
     (run_on (file_reset_ops now) s)
       \<lparr>fs_sender := 1, fs_target := 1, fs_index := [], fs_corrupted := False, fs_creation := now\<rparr>"

text \<open>The number first, then the message; \<^verbatim>\<open>seq + 1\<close> overflows at the top of 64 bits.\<close>

definition file_save_and_advance :: "nat \<Rightarrow> bytes \<Rightarrow> file_store \<Rightarrow> ((store_error + unit) \<times> file_store) option" where
  "file_save_and_advance q m s = (if q + 1 < u64_size then Some (file_save q m (file_set_sender (q + 1) s)) else None)"

definition save_and_advance_ops :: "nat \<Rightarrow> bytes \<Rightarrow> file_store \<Rightarrow> disk_op list" where
  "save_and_advance_ops q m s =
     write_seq_value SenderFile (q + 1) @ fst (snd (body_append (fs_max_records s) q m (fs_disk s) (fs_index s)))"


section \<open>The cached file store\<close>

record body_cache =
  ca_map :: "(nat, bytes) btree"
  ca_order :: "nat list"
  ca_max :: nat

definition cache_new :: "nat \<Rightarrow> body_cache" where
  "cache_new n = \<lparr>ca_map = [], ca_order = [], ca_max = n\<rparr>"

fun cache_evict :: "nat \<Rightarrow> nat list \<Rightarrow> (nat, bytes) btree \<Rightarrow> nat list \<times> (nat, bytes) btree" where
  "cache_evict n [] m = ([], m)"
| "cache_evict n (oldest # order) m =
     (if n < length m then cache_evict n order (bt_remove oldest m) else (oldest # order, m))"

definition cache_insert :: "nat \<Rightarrow> bytes \<Rightarrow> body_cache \<Rightarrow> body_cache" where
  "cache_insert q bs c =
     (let order = (if bt_get (ca_map c) q = None then ca_order c @ [q] else ca_order c);
          m = bt_insert q bs (ca_map c)
      in if 0 < ca_max c
         then (case cache_evict (ca_max c) order m of (order', m') \<Rightarrow> c\<lparr>ca_map := m', ca_order := order'\<rparr>)
         else c\<lparr>ca_map := m, ca_order := order\<rparr>)"

definition cache_clear :: "body_cache \<Rightarrow> body_cache" where
  "cache_clear c = c\<lparr>ca_map := [], ca_order := []\<rparr>"

record cached_store =
  cs_files :: file_store
  cs_cache :: body_cache

fun warm_cache :: "disk \<Rightarrow> body_index \<Rightarrow> nat list \<Rightarrow> body_cache \<Rightarrow> store_error + body_cache" where
  "warm_cache d index [] c = Inr c"
| "warm_cache d index (q # qs) c =
     (case body_read q d index of
        Inl e \<Rightarrow> Inl e
      | Inr None \<Rightarrow> warm_cache d index qs c
      | Inr (Some bs) \<Rightarrow> warm_cache d index qs (cache_insert q bs c))"

text \<open>Opening warms the cache with the most recent messages, before the creation time is read.\<close>

definition cached_open ::
  "(int \<Rightarrow> bool) \<Rightarrow> int \<Rightarrow> nat \<Rightarrow> nat \<Rightarrow> disk \<Rightarrow> (store_error + cached_store) \<times> disk_op list" where
  "cached_open valid now max_records max_cached d =
     (case seq_open d of
        (Inl e, ops) \<Rightarrow> (Inl e, ops)
      | (Inr (a, b), ops1) \<Rightarrow>
          (case body_open max_records (apply_ops ops1 d) of
             (index, corrupted, ops2) \<Rightarrow>
               (let d2 = apply_ops (ops1 @ ops2) d;
                    seqs = map fst index;
                    warm_from = (if 0 < max_cached then length seqs - max_cached else 0)
                in case warm_cache d2 index (drop warm_from seqs) (cache_new max_cached) of
                     Inl e \<Rightarrow> (Inl e, ops1 @ ops2)
                   | Inr c \<Rightarrow>
                       (case creation_time_file valid now d2 of
                          (Inl e, ops3) \<Rightarrow> (Inl e, ops1 @ ops2 @ ops3)
                        | (Inr t, ops3) \<Rightarrow>
                            (Inr \<lparr>cs_files = \<lparr>fs_disk = apply_ops (ops1 @ ops2 @ ops3) d, fs_sender = a, fs_target = b,
                                   fs_index = index, fs_corrupted = corrupted, fs_creation = t,
                                   fs_max_records = max_records\<rparr>, cs_cache = c\<rparr>,
                             ops1 @ ops2 @ ops3)))))"

definition cached_save :: "nat \<Rightarrow> bytes \<Rightarrow> cached_store \<Rightarrow> (store_error + unit) \<times> cached_store" where
  "cached_save q m s =
     (case file_save q m (cs_files s) of
        (Inl e, fs) \<Rightarrow> (Inl e, s\<lparr>cs_files := fs\<rparr>)
      | (Inr u, fs) \<Rightarrow> (Inr u, s\<lparr>cs_files := fs, cs_cache := cache_insert q m (cs_cache s)\<rparr>))"

fun cached_loop ::
  "disk \<Rightarrow> body_index \<Rightarrow> nat list \<Rightarrow> body_cache \<Rightarrow> (store_error + (nat \<times> bytes) list) \<times> body_cache" where
  "cached_loop d index [] c = (Inr [], c)"
| "cached_loop d index (q # qs) c =
     (case bt_get (ca_map c) q of
        Some bs \<Rightarrow> (case cached_loop d index qs c of (r, c') \<Rightarrow> (map_sum id ((#) (q, bs)) r, c'))
      | None \<Rightarrow>
          (case body_read q d index of
             Inl e \<Rightarrow> (Inl e, c)
           | Inr None \<Rightarrow> cached_loop d index qs c
           | Inr (Some bs) \<Rightarrow>
               (case cached_loop d index qs (cache_insert q bs c) of (r, c') \<Rightarrow> (map_sum id ((#) (q, bs)) r, c'))))"

definition cached_get :: "nat \<Rightarrow> nat \<Rightarrow> cached_store \<Rightarrow> ((store_error + (nat \<times> bytes) list) \<times> cached_store) option" where
  "cached_get b e s =
     map_option (\<lambda>seqs. case cached_loop (fs_disk (cs_files s)) (fs_index (cs_files s)) seqs (cs_cache s) of
        (r, c) \<Rightarrow> (r, s\<lparr>cs_cache := c\<rparr>))
       (seqs_in_range b e (fs_index (cs_files s)))"

definition cached_reset :: "int \<Rightarrow> cached_store \<Rightarrow> cached_store" where
  "cached_reset now s = s\<lparr>cs_files := file_reset now (cs_files s), cs_cache := cache_clear (cs_cache s)\<rparr>"

definition cached_save_and_advance :: "nat \<Rightarrow> bytes \<Rightarrow> cached_store \<Rightarrow> ((store_error + unit) \<times> cached_store) option" where
  "cached_save_and_advance q m s =
     (if q + 1 < u64_size then Some (cached_save q m (s\<lparr>cs_files := file_set_sender (q + 1) (cs_files s)\<rparr>)) else None)"

definition cached_len :: "cached_store \<Rightarrow> nat" where
  "cached_len s = length (ca_map (cs_cache s))"

end
