(* ===== verification/Fix_File_Props.thy ===== *)
theory Fix_File_Props
  imports Fix_File_Store
begin

text \<open>
  The file store keeps its promises: it refines the interface of a message store, an opened directory
  gives back what was stored, and a crash loses at most the operation it interrupts.
\<close>

section \<open>The record log\<close>

definition valid_record :: "nat \<times> bytes \<Rightarrow> bool" where
  "valid_record r \<longleftrightarrow> fst r < u64_size \<and> length (snd r) < u32_size"

definition record_log :: "(nat \<times> bytes) list \<Rightarrow> bytes" where
  "record_log rs = concat (map body_record rs)"

lemma record_log_simps [simp]:
  "record_log [] = []" "record_log (r # rs) = body_record r @ record_log rs" "record_log (rs @ [r]) = record_log rs @ body_record r"
  by (simp_all add: record_log_def)

lemma length_body_record [simp]: "length (body_record r) = 12 + length (snd r)"
  by (simp add: body_record_def)

text \<open>The index of a log that starts at \<open>pos\<close>.\<close>

fun index_from :: "nat \<Rightarrow> body_index \<Rightarrow> (nat \<times> bytes) list \<Rightarrow> body_index" where
  "index_from pos idx [] = idx"
| "index_from pos idx (r # rs) = index_from (pos + 12 + length (snd r)) (bt_insert (fst r) (pos, length (snd r)) idx) rs"

lemma index_from_snoc:
  "index_from pos idx (rs @ [r]) = bt_insert (fst r) (pos + length (record_log rs), length (snd r)) (index_from pos idx rs)"
  by (induction rs arbitrary: pos idx) (simp_all add: add.assoc)

lemma index_from_sorted: "bt_sorted idx \<Longrightarrow> bt_sorted (index_from pos idx rs)"
  by (induction rs arbitrary: pos idx) (auto simp: bt_sorted_insert)

text \<open>A tail that does not hold a whole record: nothing, a torn header, or a torn body.\<close>

definition incomplete :: "bytes \<Rightarrow> bool" where
  "incomplete tail \<longleftrightarrow> length tail < 12 \<or> length tail < 12 + from_le (take 4 (drop 8 tail))"

lemma header_fields:
  assumes "valid_record r"
  shows "from_le (take 8 (body_record r @ x)) = fst r" "from_le (take 4 (drop 8 (body_record r @ x))) = length (snd r)"
proof -
  have "fst r < 256 ^ 8" "length (snd r) < 256 ^ 4" using assms by (simp_all add: valid_record_def)
  then show "from_le (take 8 (body_record r @ x)) = fst r" "from_le (take 4 (drop 8 (body_record r @ x))) = length (snd r)"
    by (simp_all add: body_record_def from_le_to_le)
qed

lemma torn_record_incomplete:
  assumes "valid_record r" "j < length (body_record r)"
  shows "incomplete (take j (body_record r))"
proof (cases "j < 12")
  case False
  then have "take 4 (drop 8 (take j (body_record r))) = take 4 (drop 8 (body_record r))"
    by (simp add: drop_take min_def)
  then have "from_le (take 4 (drop 8 (take j (body_record r)))) = length (snd r)"
    using header_fields(2) [OF assms(1), of "[]"] by simp
  then show ?thesis using assms(2) by (simp add: incomplete_def)
qed (simp add: incomplete_def)

lemma load_loop_tail:
  assumes "incomplete tail"
  shows "load_loop (pre @ tail) (length pre) idx = (idx, tail \<noteq> [], length pre)"
proof -
  have "length (pre @ tail) < length pre + 12 + from_le (take 4 (drop (length pre + 8) (pre @ tail)))"
    if "\<not> length tail < 12"
    using assms that by (simp add: incomplete_def)
  then show ?thesis by (subst load_loop.simps) (auto simp: Let_def)
qed

lemma load_loop_records:
  assumes "\<forall>r\<in>set rs. valid_record r" "incomplete tail" "length pre + length (record_log rs) < u64_size"
  shows "load_loop (pre @ record_log rs @ tail) (length pre) idx
    = (index_from (length pre) idx rs, tail \<noteq> [], length pre + length (record_log rs))"
  using assms
proof (induction rs arbitrary: pre idx)
  case Nil
  then show ?case using load_loop_tail [of tail pre idx] by simp
next
  case (Cons r rs)
  let ?file = "pre @ record_log (r # rs) @ tail"
  have v: "valid_record r" using Cons.prems by simp
  note h = header_fields [OF v, of "[]", simplified]
  have "load_loop ?file (length pre) idx
      = load_loop ?file (length pre + 12 + length (snd r)) (bt_insert (fst r) (length pre, length (snd r)) idx)"
    using Cons.prems(3) by (subst load_loop.simps) (simp add: h Let_def)
  also have "\<dots> = load_loop ((pre @ body_record r) @ record_log rs @ tail) (length (pre @ body_record r)) (bt_insert (fst r) (length pre, length (snd r)) idx)"
    by (simp add: add.assoc)
  also have "\<dots> = (index_from (length (pre @ body_record r)) (bt_insert (fst r) (length pre, length (snd r)) idx) rs, tail \<noteq> [],
      length (pre @ body_record r) + length (record_log rs))"
    by (rule Cons.IH) (use Cons.prems in auto)
  finally show ?case by (simp add: add.assoc)
qed

text \<open>Reading through the index gives the latest record of a number.\<close>

definition latest :: "(nat \<times> bytes) list \<Rightarrow> nat \<Rightarrow> bytes option" where
  "latest rs = map_of (rev rs)"

lemma index_from_None: "latest rs q = None \<Longrightarrow> bt_get (index_from pos idx rs) q = bt_get idx q"
  by (induction rs arbitrary: pos idx) (auto simp: latest_def map_add_None map_of_bt_insert split: if_splits)

lemma index_from_Some:
  "latest rs q = Some m \<Longrightarrow>
   \<exists>o'. bt_get (index_from (length pre) idx rs) q = Some (o', length m) \<and> o' + 12 + length m \<le> length pre + length (record_log rs)
     \<and> take (length m) (drop (o' + 12) (pre @ record_log rs @ post)) = m"
proof (induction rs arbitrary: pre idx)
  case (Cons r rs)
  show ?case
  proof (cases "latest rs q")
    case None
    then have "fst r = q" "snd r = m" using Cons.prems by (auto simp: latest_def map_add_def split: if_splits)
    moreover have "bt_get (index_from (length pre + 12 + length (snd r)) (bt_insert (fst r) (length pre, length (snd r)) idx) rs) q
        = bt_get (bt_insert (fst r) (length pre, length (snd r)) idx) q"
      by (rule index_from_None [OF None])
    ultimately show ?thesis by (simp add: map_of_bt_insert body_record_def)
  next
    case (Some m')
    then have "m' = m" using Cons.prems by (simp add: latest_def map_add_def)
    then show ?thesis using Cons.IH [of "pre @ body_record r" "bt_insert (fst r) (length pre, length (snd r)) idx"] Some
      by (simp add: add.assoc)
  qed
qed (simp add: latest_def)

lemma index_read:
  assumes "bt_get (index_from 0 [] rs) q = Some (o', l)"
  shows "read_body_at (record_log rs) o' l = Inr (the (latest rs q)) \<and> latest rs q \<noteq> None"
proof (cases "latest rs q")
  case None
  then show ?thesis using index_from_None [OF None, of 0 "[]"] assms by simp
next
  case (Some m)
  then show ?thesis using index_from_Some [OF Some, of "[]" "[]" "[]"] assms by (auto simp: read_body_at_def)
qed

lemma index_keys: "bt_get (index_from 0 [] rs) q = None \<longleftrightarrow> latest rs q = None"
  using index_from_None [of rs q 0 "[]"] index_from_Some [of rs q _ "[]" "[]" "[]"] by (cases "latest rs q") auto

lemma read_all_map:
  "(\<And>q o' l. (q, o', l) \<in> set es \<Longrightarrow> read_body_at file o' l = Inr (f q)) \<Longrightarrow>
   read_all file es = Inr (map (\<lambda>(q, _). (q, f q)) es)"
proof (induction es)
  case (Cons x es)
  obtain q o' l where x: "x = (q, o', l)" by (cases x)
  then have "read_body_at file o' l = Inr (f q)" using Cons.prems by simp
  moreover have "read_all file es = Inr (map (\<lambda>(q, _). (q, f q)) es)" using Cons by simp
  ultimately show ?case by (simp add: x)
qed simp

lemma map_of_map_keys: "map_of (map (\<lambda>(q, _). (q, f q)) es) k = (if k \<in> fst ` set es then Some (f k) else None)"
  by (induction es) auto

lemma index_range_keys:
  "fst ` set (filter (\<lambda>(k, v). b \<le> k \<and> k \<le> e) (index_from 0 [] rs)) = {k. b \<le> k \<and> k \<le> e \<and> latest rs k \<noteq> None}"
proof -
  have "k \<in> fst ` set (index_from 0 [] rs) \<longleftrightarrow> latest rs k \<noteq> None" for k
    using index_keys [of rs k] by (cases "latest rs k") (auto simp: map_of_eq_None_iff)
  then have "fst ` set (index_from 0 [] rs) = {k. latest rs k \<noteq> None}" by blast
  moreover have "fst ` set (filter (\<lambda>(k, v). b \<le> k \<and> k \<le> e) (index_from 0 [] rs)) = {k \<in> fst ` set (index_from 0 [] rs). b \<le> k \<and> k \<le> e}"
    by (auto simp: image_iff)
  ultimately show ?thesis by auto
qed

text \<open>A range read from a well-kept log.\<close>

lemma body_range_log:
  assumes "dk_body d = Some (record_log rs) \<or> (dk_body d = None \<and> rs = [])" "b \<le> e"
  shows "\<exists>r. body_range b e d (index_from 0 [] rs) = Some (Inr r) \<and> bt_sorted r
    \<and> (\<forall>k. map_of r k = (if b \<le> k \<and> k \<le> e then latest rs k else None))"
proof -
  let ?idx = "index_from 0 [] rs"
  define es where "es = filter (\<lambda>(k, v). b \<le> k \<and> k \<le> e) ?idx"
  have sorted: "bt_sorted ?idx" by (simp add: index_from_sorted)
  have entry: "bt_get ?idx q = Some (o', l)" if "(q, o', l) \<in> set es" for q o' l
    using that sorted by (auto simp: es_def bt_sorted_def strict_sorted_iff intro: map_of_is_SomeI)
  let ?r = "map (\<lambda>(q, _). (q, the (latest rs q))) es"
  have keys: "fst ` set es = {k. b \<le> k \<and> k \<le> e \<and> latest rs k \<noteq> None}" using index_range_keys by (simp add: es_def)
  have "read_all (record_log rs) es = Inr ?r"
    by (rule read_all_map) (use entry index_read in blast)
  then have "body_range b e d ?idx = Some (Inr ?r)"
    using assms by (auto simp: body_range_def bt_range_def es_def [symmetric] split: list.splits) (auto simp: es_def)
  moreover have same: "map fst ?r = map fst es" by auto
  have "bt_sorted ?r" unfolding bt_sorted_def same using bt_sorted_filter [OF sorted] by (simp add: bt_sorted_def es_def)
  moreover have "map_of ?r k = (if b \<le> k \<and> k \<le> e then latest rs k else None)" for k
    using keys by (auto simp: map_of_map_keys)
  ultimately show ?thesis by blast
qed


section \<open>The store refines the interface\<close>

text \<open>The in-memory index is the index of the log on disk, whose bodies are unbounded in number.\<close>

definition log_kept :: "(nat \<times> bytes) list \<Rightarrow> file_store \<Rightarrow> bool" where
  "log_kept rs s \<longleftrightarrow>
     (dk_body (fs_disk s) = Some (record_log rs) \<or> (dk_body (fs_disk s) = None \<and> rs = []))
     \<and> (\<forall>r\<in>set rs. valid_record r) \<and> fs_index s = index_from 0 [] rs \<and> fs_max_records s = 0"

definition file_fetch :: "nat \<Rightarrow> nat \<Rightarrow> file_store \<Rightarrow> (nat \<times> bytes) list option" where
  "file_fetch b e s = (case file_get b e s of Some (Inr r) \<Rightarrow> Some r | _ \<Rightarrow> None)"

lemma seq_ops_fields [simp]:
  "dk_body (apply_ops (write_seq_value f n) d) = dk_body d"
  "dk_session (apply_ops (write_seq_value f n) d) = dk_session d"
  "dk_legacy (apply_ops (write_seq_value f n) d) = dk_legacy d"
  "dk_seq (apply_ops (write_seq_value f n) d) = (dk_seq d)(f := Some (show_nat n @ [CHR 0x0A]))"
  by (simp_all add: write_seq_value_def apply_ops_def contents_def)

lemma log_kept_set [simp]:
  "log_kept rs (file_set_sender n s) = log_kept rs s" "log_kept rs (file_set_target n s) = log_kept rs s"
  by (simp_all add: log_kept_def file_set_sender_def file_set_target_def run_on_def)

lemma log_kept_save:
  assumes "log_kept rs s" "valid_record (q, m)"
  shows "file_save q m s = (Inr (), snd (file_save q m s)) \<and> log_kept (rs @ [(q, m)]) (snd (file_save q m s))"
proof -
  have "contents (dk_body (fs_disk s)) = record_log rs" using assms(1) by (auto simp: log_kept_def contents_def)
  then show ?thesis
    using assms
    by (auto simp: log_kept_def file_save_def body_append_def valid_record_def run_on_def apply_ops_def bounded_def
        index_from_snoc body_record_def contents_def Let_def split: option.splits)
qed

lemma log_kept_reset: "log_kept rs s \<Longrightarrow> log_kept [] (file_reset now s)"
  by (simp add: log_kept_def file_reset_def run_on_def file_reset_ops_def body_reset_ops_def seq_reset_ops_def
      reset_creation_time_file_def write_seq_value_def apply_ops_def)

lemma fetch_log:
  assumes "log_kept rs s" "b \<le> e"
  shows "\<exists>r. file_fetch b e s = Some r \<and> bt_sorted r \<and> (\<forall>k. map_of r k = (if b \<le> k \<and> k \<le> e then latest rs k else None))"
  using body_range_log [of "fs_disk s" rs b e] assms by (auto simp: log_kept_def file_fetch_def file_get_def)

lemma fetch_out_of_range: "e < b \<Longrightarrow> file_fetch b e s = None"
  by (simp add: file_fetch_def file_get_def body_range_def bt_range_def)

text \<open>Two stores with the same log answer alike: a sorted list is determined by its lookups.\<close>

lemma bt_sorted_unique: "bt_sorted m \<Longrightarrow> bt_sorted m' \<Longrightarrow> map_of m = map_of m' \<Longrightarrow> m = m'"
proof -
  assume s: "bt_sorted m" "bt_sorted m'" and eq: "map_of m = map_of m'"
  have d: "distinct (map fst m)" "sorted (map fst m)" "distinct (map fst m')" "sorted (map fst m')"
    using s by (auto simp: bt_sorted_def strict_sorted_iff)
  then have "set m = set m'" using eq by (metis map_of_eqI map_of_inject_set)
  then show "m = m'" using d by (intro map_sorted_distinct_set_unique [of fst]) (auto simp: distinct_map)
qed

lemma fetch_same_log: "log_kept rs s \<Longrightarrow> log_kept rs s' \<Longrightarrow> file_fetch b e s' = file_fetch b e s"
proof (cases "b \<le> e")
  case True
  assume "log_kept rs s" "log_kept rs s'"
  then obtain r r' where "file_fetch b e s = Some r" "bt_sorted r" "\<forall>k. map_of r k = (if b \<le> k \<and> k \<le> e then latest rs k else None)"
    "file_fetch b e s' = Some r'" "bt_sorted r'" "\<forall>k. map_of r' k = (if b \<le> k \<and> k \<le> e then latest rs k else None)"
    using fetch_log True by metis
  then show ?thesis using bt_sorted_unique [of r r'] by (simp add: fun_eq_iff)
qed (simp add: fetch_out_of_range)

interpretation fstore: message_store "\<lambda>s. \<exists>rs. log_kept rs s" fs_sender fs_target file_set_sender file_set_target "file_reset now"
  "\<lambda>q m. valid_record (q, m)" "\<lambda>q m s. snd (file_save q m s)" file_fetch for now
proof (unfold_locales, goal_cases)
  case (1 s n)
  then show ?case by simp
next
  case (2 s n)
  then show ?case by simp
next
  case (3 s)
  then show ?case using log_kept_reset by blast
next
  case (10 s q m)
  then show ?case using log_kept_save by blast
next
  case (13 s b e)
  then show ?case using fetch_log by fastforce
next
  case (14 s q m b e r)
  then obtain rs where rs: "log_kept rs s" by blast
  have be: "b \<le> e" using 14(3) fetch_out_of_range [of e b s] by (cases "b \<le> e") auto
  obtain r' where r': "file_fetch b e (snd (file_save q m s)) = Some r'"
    "\<forall>k. map_of r' k = (if b \<le> k \<and> k \<le> e then latest (rs @ [(q, m)]) k else None)"
    using fetch_log [OF conjunct2 [OF log_kept_save [OF rs 14(2)]] be] by blast
  have r: "\<forall>k. map_of r k = (if b \<le> k \<and> k \<le> e then latest rs k else None)"
  proof -
    obtain x where "file_fetch b e s = Some x" "\<forall>k. map_of x k = (if b \<le> k \<and> k \<le> e then latest rs k else None)"
      using fetch_log [OF rs be] by blast
    then show ?thesis using 14(3) by simp
  qed
  have "map_of r' k = (if k = q \<and> b \<le> q \<and> q \<le> e then Some m else map_of r k)" for k
    using spec [OF r, of k] spec [OF r'(2), of k] by (simp add: latest_def)
  then show ?case using r'(1) by blast
next
  case (15 s b e n)
  then obtain rs where "log_kept rs s" by blast
  then show ?case using fetch_same_log [of rs s "file_set_sender n s" b e] by simp
next
  case (16 s b e n)
  then obtain rs where "log_kept rs s" by blast
  then show ?case using fetch_same_log [of rs s "file_set_target n s" b e] by simp
next
  case (17 s b e)
  then obtain rs where "log_kept rs s" by blast
  then obtain r where "file_fetch b e (file_reset now s) = Some r" "\<forall>k. map_of r k = None"
    using fetch_log [OF log_kept_reset 17(2), of rs s now] by (auto simp: latest_def split: if_splits)
  then show ?case by (cases r) (auto split: if_splits)
qed (auto simp: file_set_sender_def file_set_target_def file_reset_def file_save_def run_on_def split: prod.splits)


section \<open>Opening\<close>

text \<open>The files of an open store agree with its counters, and no migration from the old layout is due.\<close>

definition settled :: "disk \<Rightarrow> bool" where
  "settled d \<longleftrightarrow> dk_legacy d = None \<or> (dk_seq d SenderFile \<noteq> None \<and> dk_seq d TargetFile \<noteq> None)"

definition created_at :: "(int \<Rightarrow> bool) \<Rightarrow> disk \<Rightarrow> int \<Rightarrow> bool" where
  "created_at valid d t \<longleftrightarrow> dk_session d \<noteq> None \<and> fst (creation_time_file valid t d) = Inr t"

lemma created_at_open: "created_at valid d t \<Longrightarrow> creation_time_file valid now d = (Inr t, [])"
  by (auto simp: created_at_def creation_time_file_def split: option.splits)

lemma created_at_cong: "dk_session d' = dk_session d \<Longrightarrow> created_at valid d' t = created_at valid d t"
  by (simp add: created_at_def creation_time_file_def)

lemma load_written: "n < u64_size \<Longrightarrow> dk_seq d f = Some (show_nat n @ [CHR 0x0A]) \<Longrightarrow> load_seq_value d f = Inr n"
proof -
  have "is_ascii (show_nat n @ [CHR 0x0A])" using is_ascii_show_nat [of n] by (simp add: is_ascii_def in_range_def)
  then have "utf8_valid (show_nat n @ [CHR 0x0A])" by (rule utf8_valid_ascii)
  then show "n < u64_size \<Longrightarrow> dk_seq d f = Some (show_nat n @ [CHR 0x0A]) \<Longrightarrow> load_seq_value d f = Inr n"
    by (simp add: load_seq_value_def parse_seq_def)
qed

lemma load_seq_cong: "dk_seq d' f = dk_seq d f \<Longrightarrow> load_seq_value d' f = load_seq_value d f"
  by (simp add: load_seq_value_def)

lemma seq_open_settled:
  "settled d \<Longrightarrow> load_seq_value d SenderFile = Inr a \<Longrightarrow> load_seq_value d TargetFile = Inr b \<Longrightarrow> seq_open d = (Inr (a, b), [])"
  by (auto simp: seq_open_def migrate_ops_def settled_def apply_ops_def split: option.splits)

text \<open>Opening recovers the complete records of a log and cuts off a torn one.\<close>

lemma file_open_log:
  assumes "settled d" "load_seq_value d SenderFile = Inr a" "load_seq_value d TargetFile = Inr b" "created_at valid d t"
    and "dk_body d = Some (record_log rs @ tail) \<or> (dk_body d = None \<and> rs = [] \<and> tail = [])"
    and "\<forall>r\<in>set rs. valid_record r" "incomplete tail" "length (record_log rs) < u64_size"
  shows "\<exists>s ops. file_open valid now 0 d = (Inr s, ops) \<and> log_kept rs s \<and> fs_sender s = a \<and> fs_target s = b
    \<and> fs_creation s = t \<and> (fs_corrupted s \<longleftrightarrow> tail \<noteq> []) \<and> (tail = [] \<longrightarrow> fs_disk s = d)"
proof -
  have idx: "load_index d = (index_from 0 [] rs, tail \<noteq> [], length (record_log rs))"
    using assms(5) load_loop_records [OF assms(6,7), of "[]" "[]"] assms(8) by (auto simp: load_index_def)
  let ?ops = "if tail \<noteq> [] then [OpenBody, SetBodyLen (length (record_log rs))] else []"
  have body: "body_open 0 d = (index_from 0 [] rs, tail \<noteq> [], ?ops)" by (simp add: body_open_def idx bounded_def)
  have sess: "creation_time_file valid now (apply_ops ?ops d) = (Inr t, [])"
    by (rule created_at_open) (use assms(4) created_at_cong [of "apply_ops ?ops d" d] in \<open>simp add: apply_ops_def split: if_splits\<close>)
  have nil: "apply_ops [] d = d" by (simp add: apply_ops_def)
  have "file_open valid now 0 d = (Inr \<lparr>fs_disk = apply_ops ?ops d, fs_sender = a, fs_target = b, fs_index = index_from 0 [] rs,
      fs_corrupted = (tail \<noteq> []), fs_creation = t, fs_max_records = 0\<rparr>, ?ops)"
    using sess unfolding file_open_def seq_open_settled [OF assms(1-3)] prod.case sum.case nil body by simp
  moreover have "dk_body (apply_ops ?ops d) = Some (record_log rs) \<or> (dk_body (apply_ops ?ops d) = None \<and> rs = [])"
    using assms(5) by (auto simp: apply_ops_def contents_def)
  ultimately show ?thesis using assms(6) nil by (auto simp: log_kept_def)
qed

text \<open>A store whose directory gives back exactly what it holds.\<close>

definition durable :: "(int \<Rightarrow> bool) \<Rightarrow> (nat \<times> bytes) list \<Rightarrow> file_store \<Rightarrow> bool" where
  "durable valid rs s \<longleftrightarrow>
     log_kept rs s \<and> settled (fs_disk s) \<and> created_at valid (fs_disk s) (fs_creation s)
     \<and> load_seq_value (fs_disk s) SenderFile = Inr (fs_sender s) \<and> load_seq_value (fs_disk s) TargetFile = Inr (fs_target s)"

lemma durable_open:
  assumes "durable valid rs s" "length (record_log rs) < u64_size"
  shows "\<exists>s' ops. file_open valid now 0 (fs_disk s) = (Inr s', ops) \<and> durable valid rs s' \<and> fs_sender s' = fs_sender s
    \<and> fs_target s' = fs_target s \<and> fs_creation s' = fs_creation s \<and> \<not> fs_corrupted s'"
proof -
  have "incomplete []" by (simp add: incomplete_def)
  then obtain s' ops where "file_open valid now 0 (fs_disk s) = (Inr s', ops)" "log_kept rs s'" "fs_sender s' = fs_sender s"
    "fs_target s' = fs_target s" "fs_creation s' = fs_creation s" "\<not> fs_corrupted s'" "fs_disk s' = fs_disk s"
    using file_open_log [of "fs_disk s" "fs_sender s" "fs_target s" valid "fs_creation s" rs "[]" now] assms
    by (auto simp: durable_def log_kept_def)
  then show ?thesis using assms(1) by (auto simp: durable_def)
qed


lemma durable_set_sender: "durable valid rs s \<Longrightarrow> n < u64_size \<Longrightarrow> durable valid rs (file_set_sender n s)"
  using load_written [of n "apply_ops (write_seq_value SenderFile n) (fs_disk s)" SenderFile]
    load_seq_cong [of "apply_ops (write_seq_value SenderFile n) (fs_disk s)" TargetFile "fs_disk s"]
    created_at_cong [of "apply_ops (write_seq_value SenderFile n) (fs_disk s)" "fs_disk s" valid "fs_creation s"]
  by (auto simp: durable_def settled_def) (auto simp: file_set_sender_def run_on_def)

lemma durable_set_target: "durable valid rs s \<Longrightarrow> n < u64_size \<Longrightarrow> durable valid rs (file_set_target n s)"
  using load_written [of n "apply_ops (write_seq_value TargetFile n) (fs_disk s)" TargetFile]
    load_seq_cong [of "apply_ops (write_seq_value TargetFile n) (fs_disk s)" SenderFile "fs_disk s"]
    created_at_cong [of "apply_ops (write_seq_value TargetFile n) (fs_disk s)" "fs_disk s" valid "fs_creation s"]
  by (auto simp: durable_def settled_def) (auto simp: file_set_target_def run_on_def)

lemma durable_save:
  assumes "durable valid rs s" "valid_record (q, m)"
  shows "durable valid (rs @ [(q, m)]) (snd (file_save q m s))"
proof -
  have "dk_seq (fs_disk (snd (file_save q m s))) = dk_seq (fs_disk s)" "dk_session (fs_disk (snd (file_save q m s))) = dk_session (fs_disk s)"
    "dk_legacy (fs_disk (snd (file_save q m s))) = dk_legacy (fs_disk s)" "fs_sender (snd (file_save q m s)) = fs_sender s"
    "fs_target (snd (file_save q m s)) = fs_target s" "fs_creation (snd (file_save q m s)) = fs_creation s"
    using assms(2) by (simp_all add: file_save_def body_append_def valid_record_def run_on_def apply_ops_def Let_def)
  then show ?thesis
    using assms log_kept_save [of rs s q m]
    by (simp add: durable_def settled_def load_seq_value_def created_at_def creation_time_file_def)
qed

section \<open>Crashes\<close>

lemma crash_write_seq:
  "crash (write_seq_value f n) d d' \<Longrightarrow>
   dk_body d' = dk_body d \<and> dk_session d' = dk_session d \<and> dk_legacy d' = dk_legacy d
   \<and> (dk_seq d' = dk_seq d \<or> dk_seq d' = (dk_seq d)(f := Some (show_nat n @ [CHR 0x0A])))"
  by (auto simp: write_seq_value_def crash_simps contents_def)

lemma prefix_take: "prefix (take j xs) (xs @ ys)"
  by (metis append.assoc append_take_drop_id prefixI)

lemma crash_append_record:
  assumes "crash [OpenBody, WriteBody x, WriteBody y, WriteBody z] d d'"
  shows "dk_seq d' = dk_seq d \<and> dk_session d' = dk_session d \<and> dk_legacy d' = dk_legacy d
    \<and> (dk_body d' = dk_body d \<or> (\<exists>t. prefix t (x @ y @ z) \<and> dk_body d' = Some (contents (dk_body d) @ t)))"
proof -
  have t: "contents (Some u) = u" for u by (simp add: contents_def)
  have p: "prefix [] (x @ y @ z)" "prefix x (x @ y @ z)" "prefix (x @ y) (x @ y @ z)" "prefix (take j x) (x @ y @ z)"
    "prefix (x @ take j y) (x @ y @ z)" "prefix (x @ y @ take j z) (x @ y @ z)" for j
    using prefix_take [of j z "[]"] by (simp_all add: prefix_take)
  show ?thesis
    using assms p by (auto simp: crash_simps t)
qed

lemma prefix_record: "prefix t (body_record r) \<Longrightarrow> valid_record r \<Longrightarrow> t = body_record r \<or> incomplete t"
proof -
  assume a: "prefix t (body_record r)" "valid_record r"
  then have "t = take (length t) (body_record r)" by (auto simp: prefix_def)
  then show ?thesis using torn_record_incomplete [OF a(2), of "length t"] by (cases "length t < length (body_record r)") auto
qed

text \<open>
  A crash while a message is saved and the outbound counter advanced past it. Whatever is left opens
  again, with every earlier message; the counter is the old or the new one, and it is the new one when
  the message is there.
\<close>

lemma crash_save_and_advance:
  assumes "durable valid rs s" "valid_record (q, m)" "q + 1 < u64_size" "length (record_log (rs @ [(q, m)])) < u64_size"
    and "crash (save_and_advance_ops q m s) (fs_disk s) d'"
  shows "\<exists>s' ops rs'. file_open valid now 0 d' = (Inr s', ops) \<and> log_kept rs' s' \<and> fs_target s' = fs_target s
    \<and> (fs_sender s' = fs_sender s \<and> rs' = rs \<or> fs_sender s' = q + 1 \<and> (rs' = rs \<or> rs' = rs @ [(q, m)]))"
proof -
  let ?d = "fs_disk s" and ?d1 = "apply_ops (write_seq_value SenderFile (q + 1)) (fs_disk s)"
  have s: "log_kept rs s" "settled ?d" "created_at valid ?d (fs_creation s)" "load_seq_value ?d SenderFile = Inr (fs_sender s)"
    "load_seq_value ?d TargetFile = Inr (fs_target s)"
    using assms(1) by (simp_all add: durable_def)
  have valid: "\<forall>r\<in>set rs. valid_record r" "length (record_log rs) < u64_size" using s(1) assms(4) by (auto simp: log_kept_def)
  have body: "contents (dk_body ?d) = record_log rs" "dk_body ?d = Some (record_log rs) \<or> (dk_body ?d = None \<and> rs = [])"
    using s(1) by (auto simp: log_kept_def contents_def)
  have nil: "incomplete []" by (simp add: incomplete_def)
  consider (number) "crash (write_seq_value SenderFile (q + 1)) ?d d'"
    | (entry) "crash [OpenBody, WriteBody (to_le 8 q), WriteBody (to_le 4 (length m)), WriteBody m] ?d1 d'"
    using assms(2,5) by (auto simp: save_and_advance_ops_def body_append_def valid_record_def crash_append Let_def)
  then show ?thesis
  proof cases
    case number
    note c = crash_write_seq [OF number]
    have d': "created_at valid d' (fs_creation s)" "dk_body d' = Some (record_log rs @ []) \<or> (dk_body d' = None \<and> rs = [] \<and> [] = ([] :: bytes))"
      "load_seq_value d' TargetFile = Inr (fs_target s)" "settled d'"
      using c body s created_at_cong [of d' ?d] load_seq_cong [of d' TargetFile ?d] by (auto simp: settled_def)
    have "load_seq_value d' SenderFile = Inr (fs_sender s) \<or> load_seq_value d' SenderFile = Inr (q + 1)"
      using c s(4) load_seq_cong [of d' SenderFile ?d] load_written [OF assms(3), of d' SenderFile] by auto
    then show ?thesis
      using file_open_log [OF d'(4) _ d'(3,1,2) valid(1) nil valid(2), of _ now] by blast
  next
    case entry
    note c = crash_append_record [OF entry]
    have d': "created_at valid d' (fs_creation s)" "load_seq_value d' TargetFile = Inr (fs_target s)" "settled d'"
      "load_seq_value d' SenderFile = Inr (q + 1)"
      using c s created_at_cong [of d' ?d] load_seq_cong [of d' TargetFile ?d] load_written [OF assms(3), of d' SenderFile]
      by (auto simp: settled_def)
    have "(\<exists>tail. incomplete tail \<and> (dk_body d' = Some (record_log rs @ tail) \<or> (dk_body d' = None \<and> rs = [] \<and> tail = [])))
       \<or> dk_body d' = Some (record_log (rs @ [(q, m)]) @ [])"
    proof (cases "dk_body d' = dk_body ?d")
      case True
      then show ?thesis using body(2) nil by auto
    next
      case False
      then obtain t where "prefix t (body_record (q, m))" "dk_body d' = Some (record_log rs @ t)"
        using c body(1) by (auto simp: body_record_def)
      then show ?thesis using prefix_record [OF _ assms(2)] by auto
    qed
    then show ?thesis
    proof
      assume "\<exists>tail. incomplete tail \<and> (dk_body d' = Some (record_log rs @ tail) \<or> (dk_body d' = None \<and> rs = [] \<and> tail = []))"
      then show ?thesis using file_open_log [OF d'(3,4,2,1) _ valid(1) _ valid(2), of _ now] by blast
    next
      assume b: "dk_body d' = Some (record_log (rs @ [(q, m)]) @ [])"
      have "\<forall>r\<in>set (rs @ [(q, m)]). valid_record r" using valid(1) assms(2) by simp
      then show ?thesis using file_open_log [OF d'(3,4,2,1) disjI1 [OF b] _ nil assms(4), of now] by blast
    qed
  qed
qed


section \<open>The cache\<close>

text \<open>The eviction order lists each cached number once, and a cached body is the latest in the log.\<close>

definition cache_wf :: "body_cache \<Rightarrow> bool" where
  "cache_wf c \<longleftrightarrow> bt_sorted (ca_map c) \<and> distinct (ca_order c) \<and> set (ca_order c) = fst ` set (ca_map c)
     \<and> (0 < ca_max c \<longrightarrow> length (ca_map c) \<le> ca_max c)"

definition coherent :: "(nat \<times> bytes) list \<Rightarrow> body_cache \<Rightarrow> bool" where
  "coherent rs c \<longleftrightarrow> (\<forall>q bs. bt_get (ca_map c) q = Some bs \<longrightarrow> latest rs q = Some bs)"

lemma length_keys: "bt_sorted m \<Longrightarrow> distinct order \<Longrightarrow> set order = fst ` set m \<Longrightarrow> length order = length m"
proof -
  assume a: "bt_sorted m" "distinct order" "set order = fst ` set m"
  have "distinct (map fst m)" using a(1) by (simp add: bt_sorted_def strict_sorted_iff)
  then show "length order = length m" using a(2,3) by (metis distinct_card length_map list.set_map)
qed

lemma cache_evict_wf:
  assumes "cache_evict n order m = (order', m')" "bt_sorted m" "distinct order" "set order = fst ` set m"
  shows "bt_sorted m' \<and> distinct order' \<and> set order' = fst ` set m' \<and> length m' \<le> n
    \<and> (\<forall>q bs. bt_get m' q = Some bs \<longrightarrow> bt_get m q = Some bs)"
  using assms
proof (induction n order m rule: cache_evict.induct)
  case (2 n oldest order m)
  show ?case
  proof (cases "n < length m")
    case True
    have "fst ` set (bt_remove oldest m) = fst ` set m - {oldest}" by (auto simp: bt_remove_def image_iff)
    moreover have "set order = fst ` set m - {oldest}" using 2(4,5) by auto
    moreover have "bt_get (bt_remove oldest m) q = Some bs \<Longrightarrow> bt_get m q = Some bs" for q bs
      by (simp add: map_of_bt_remove split: if_splits)
    ultimately show ?thesis using 2 True bt_sorted_remove [of m oldest] by auto
  next
    case False
    then show ?thesis using 2 by auto
  qed
qed auto

lemma cache_insert_wf:
  assumes "cache_wf c"
  shows "cache_wf (cache_insert q bs c) \<and> ca_max (cache_insert q bs c) = ca_max c"
proof -
  define order where "order = (if bt_get (ca_map c) q = None then ca_order c @ [q] else ca_order c)"
  define m where "m = bt_insert q bs (ca_map c)"
  have wf: "bt_sorted m" "distinct order" "set order = fst ` set m"
    using assms by (auto simp: cache_wf_def order_def m_def bt_sorted_insert set_bt_insert map_of_eq_None_iff)
  obtain order' m' where e: "cache_evict (ca_max c) order m = (order', m')" using prod.exhaust by blast
  show ?thesis
    using cache_evict_wf [OF e wf] wf e
    by (auto simp: cache_insert_def order_def [symmetric] m_def [symmetric] cache_wf_def Let_def)
qed

lemma cache_insert_entries:
  assumes "cache_wf c" "bt_get (ca_map (cache_insert q bs c)) k = Some x"
  shows "if k = q then x = bs else bt_get (ca_map c) k = Some x"
proof -
  define order where "order = (if bt_get (ca_map c) q = None then ca_order c @ [q] else ca_order c)"
  define m where "m = bt_insert q bs (ca_map c)"
  have wf: "bt_sorted m" "distinct order" "set order = fst ` set m"
    using assms(1) by (auto simp: cache_wf_def order_def m_def bt_sorted_insert set_bt_insert map_of_eq_None_iff)
  obtain order' m' where e: "cache_evict (ca_max c) order m = (order', m')" using prod.exhaust by blast
  have "bt_get m k = Some x"
    using assms(2) cache_evict_wf [OF e wf] e
    by (auto simp: cache_insert_def order_def [symmetric] m_def [symmetric] Let_def split: if_splits)
  then show ?thesis by (simp add: m_def map_of_bt_insert split: if_splits)
qed

lemma cache_insert_coherent:
  "cache_wf c \<Longrightarrow> coherent rs c \<Longrightarrow> latest rs q = Some bs \<Longrightarrow> coherent rs (cache_insert q bs c)"
  "cache_wf c \<Longrightarrow> coherent rs c \<Longrightarrow> coherent (rs @ [(q, bs)]) (cache_insert q bs c)"
  using cache_insert_entries [of c q bs] by (fastforce simp: coherent_def latest_def split: if_splits)+

lemma body_read_log:
  assumes "log_kept rs s" "latest rs q = Some m"
  shows "body_read q (fs_disk s) (fs_index s) = Inr (Some m)"
proof -
  have i: "fs_index s = index_from 0 [] rs" "dk_body (fs_disk s) = Some (record_log rs)"
    using assms by (auto simp: log_kept_def latest_def)
  obtain p l where "bt_get (index_from 0 [] rs) q = Some (p, l)" using index_keys [of rs q] assms(2) by auto
  then show ?thesis using index_read [of rs q p l] assms(2) i by (simp add: body_read_def)
qed

lemma cached_loop_reads:
  assumes "log_kept rs s" "cache_wf c" "coherent rs c" "\<forall>q\<in>set qs. latest rs q \<noteq> None"
  shows "\<exists>c'. cached_loop (fs_disk s) (fs_index s) qs c = (Inr (map (\<lambda>q. (q, the (latest rs q))) qs), c')
    \<and> cache_wf c' \<and> coherent rs c' \<and> ca_max c' = ca_max c"
  using assms
proof (induction qs arbitrary: c)
  case (Cons q qs)
  obtain m where m: "latest rs q = Some m" using Cons.prems by auto
  show ?case
  proof (cases "bt_get (ca_map c) q")
    case None
    have "cache_wf (cache_insert q m c)" "coherent rs (cache_insert q m c)" "ca_max (cache_insert q m c) = ca_max c"
      using cache_insert_wf cache_insert_coherent(1) Cons.prems m by blast+
    then show ?thesis
      using Cons.IH [of "cache_insert q m c"] Cons.prems None body_read_log [OF assms(1) m] m by auto
  next
    case (Some bs)
    then have "bs = m" using Cons.prems(3) m by (auto simp: coherent_def)
    then show ?thesis using Cons.IH [of c] Cons.prems Some m by auto
  qed
qed simp


lemma cached_save_log:
  assumes "log_kept rs (cs_files s)" "cache_wf (cs_cache s)" "coherent rs (cs_cache s)" "valid_record (q, m)"
  shows "\<exists>s'. cached_save q m s = (Inr (), s') \<and> log_kept (rs @ [(q, m)]) (cs_files s') \<and> cache_wf (cs_cache s')
    \<and> coherent (rs @ [(q, m)]) (cs_cache s')"
proof -
  note f = log_kept_save [OF assms(1,4)]
  have "coherent (rs @ [(q, m)]) (cache_insert q m (cs_cache s))" using cache_insert_coherent(2) assms(2,3) by blast
  then show ?thesis
    using f cache_insert_wf [OF assms(2), of q m] by (auto simp: cached_save_def split: prod.splits sum.splits)
qed


section \<open>Sends of a session\<close>

text \<open>Every message saved under the next number, as the transport does after a write.\<close>

fun file_send_all :: "bytes list \<Rightarrow> file_store \<Rightarrow> file_store option" where
  "file_send_all [] s = Some s"
| "file_send_all (m # ms) s =
     (case file_save_and_advance (fs_sender s) m s of
        Some (Inr _, s') \<Rightarrow> file_send_all ms s'
      | _ \<Rightarrow> None)"

lemma save_after_set_sender: "snd (file_save q m (file_set_sender n s)) = file_set_sender n (snd (file_save q m s))"
  by (simp add: file_save_def file_set_sender_def body_append_def run_on_def apply_ops_def write_seq_value_def contents_def Let_def
      split: option.splits)

lemma file_send_all_eq:
  "log_kept rs s \<Longrightarrow> \<forall>m\<in>set ms. length m < u32_size \<Longrightarrow> fs_sender s + length ms < u64_size \<Longrightarrow>
   file_send_all ms s = Some (fstore.send_all ms s)"
proof (induction ms arbitrary: rs s)
  case (Cons m ms)
  let ?q = "fs_sender s"
  have v: "valid_record (?q, m)" using Cons.prems by (simp add: valid_record_def)
  have k: "log_kept rs (file_set_sender (Suc ?q) s)" using Cons.prems(1) by simp
  note f = log_kept_save [OF k v]
  have "fs_sender (snd (file_save ?q m (file_set_sender (Suc ?q) s))) = Suc ?q"
    by (simp add: save_after_set_sender) (simp add: file_set_sender_def)
  then have "file_send_all ms (snd (file_save ?q m (file_set_sender (Suc ?q) s)))
      = Some (fstore.send_all ms (snd (file_save ?q m (file_set_sender (Suc ?q) s))))"
    using Cons.IH [OF conjunct2 [OF f]] Cons.prems by simp
  moreover have "file_save ?q m (file_set_sender (Suc ?q) s) = (Inr (), snd (file_save ?q m (file_set_sender (Suc ?q) s)))" using f by blast
  ultimately show ?case
    using Cons.prems(3) by (simp add: file_save_and_advance_def Let_def save_after_set_sender split: prod.splits)
qed simp


lemma file_send_all_durable:
  "durable valid rs s \<Longrightarrow> \<forall>m\<in>set ms. length m < u32_size \<Longrightarrow> fs_sender s + length ms < u64_size \<Longrightarrow>
   \<exists>s'. file_send_all ms s = Some s' \<and> durable valid (rs @ zip [fs_sender s..<fs_sender s + length ms] ms) s'
     \<and> fs_sender s' = fs_sender s + length ms \<and> fs_target s' = fs_target s"
proof (induction ms arbitrary: rs s)
  case (Cons m ms)
  let ?q = "fs_sender s" and ?t = "file_set_sender (Suc (fs_sender s)) s"
  have v: "valid_record (?q, m)" using Cons.prems by (simp add: valid_record_def)
  have d: "durable valid rs ?t" using durable_set_sender Cons.prems by simp
  then have f: "file_save ?q m ?t = (Inr (), snd (file_save ?q m ?t))" "durable valid (rs @ [(?q, m)]) (snd (file_save ?q m ?t))"
    using log_kept_save [OF _ v, of rs ?t] durable_save [OF d v] by (simp_all add: durable_def)
  have c: "fs_sender (snd (file_save ?q m ?t)) = Suc ?q" "fs_target (snd (file_save ?q m ?t)) = fs_target s"
    by (simp_all add: file_save_def file_set_sender_def run_on_def split: prod.splits)
  have "[?q..<?q + length (m # ms)] = ?q # [Suc ?q..<Suc ?q + length ms]" by (simp add: upt_conv_Cons del: upt_Suc)
  then show ?case
    using Cons.IH [OF f(2)] Cons.prems c f(1) by (auto simp: file_save_and_advance_def split: prod.splits)
qed simp

lemma latest_sent:
  assumes "q \<le> k" "k < q + length ms"
  shows "latest (rs @ zip [q..<q + length ms] ms) k = Some (ms ! (k - q))"
proof -
  let ?z = "zip [q..<q + length ms] ms"
  have "distinct (map fst (rev ?z))" by (simp flip: rev_map)
  moreover have "(k, ms ! (k - q)) \<in> set (rev ?z)" using assms by (force simp: set_zip)
  ultimately have "map_of (rev ?z) k = Some (ms ! (k - q))" by (rule map_of_is_SomeI)
  then show ?thesis by (simp add: latest_def map_add_Some_iff)
qed

lemma zip_upt_get:
  assumes "log_kept (rs @ zip [q..<q + length ms] ms) s" "ms \<noteq> []"
  shows "file_get q (q + length ms - 1) s = Some (Inr (zip [q..<q + length ms] ms))"
proof -
  let ?z = "zip [q..<q + length ms] ms" and ?e = "q + length ms - 1"
  have "0 < length ms" using assms(2) by simp
  then have qe: "q \<le> ?e" by linarith
  obtain r where r: "file_fetch q ?e s = Some r" "bt_sorted r"
    "\<And>k. map_of r k = (if q \<le> k \<and> k \<le> ?e then latest (rs @ ?z) k else None)"
    using fetch_log [OF assms(1) qe] by blast
  have z: "bt_sorted ?z" by (simp add: bt_sorted_def)
  have "map_of ?z k = (if q \<le> k \<and> k \<le> ?e then latest (rs @ ?z) k else None)" for k
  proof (cases "q \<le> k \<and> k < q + length ms")
    case True
    then have "(k, ms ! (k - q)) \<in> set ?z" by (force simp: set_zip)
    then have "map_of ?z k = Some (ms ! (k - q))" by (simp add: map_of_is_SomeI)
    then show ?thesis using True latest_sent [of q k ms rs] by auto
  next
    case False
    then have "k \<notin> fst ` set ?z" by (auto simp: set_zip)
    then have "map_of ?z k = None" by (simp add: map_of_eq_None_iff)
    moreover have "\<not> (q \<le> k \<and> k \<le> ?e)" using False \<open>0 < length ms\<close> by linarith
    ultimately show ?thesis by (simp only: if_False)
  qed
  then have "r = ?z" using bt_sorted_unique [OF r(2) z] r(3) by (simp add: fun_eq_iff)
  then show ?thesis using r(1) by (auto simp: file_fetch_def split: option.splits sum.splits)
qed


section \<open>Properties\<close>

text \<open>A fresh directory, and the store opened on it.\<close>

definition empty_disk :: disk where
  "empty_disk = \<lparr>dk_seq = (\<lambda>_. None), dk_tmp = (\<lambda>_. None), dk_legacy = None, dk_body = None, dk_session = None\<rparr>"

definition fresh_store :: file_store where
  "fresh_store = \<lparr>fs_disk = empty_disk\<lparr>dk_session := Some ''0''\<rparr>, fs_sender = 1, fs_target = 1, fs_index = [],
     fs_corrupted = False, fs_creation = 0, fs_max_records = 0\<rparr>"

lemma fresh_store_open: "file_open (\<lambda>_. True) 0 0 empty_disk = (Inr fresh_store, reset_creation_time_file 0)"
  by code_simp

lemma fresh_store_durable: "durable (\<lambda>_. True) [] fresh_store"
proof -
  have "fst (creation_time_file (\<lambda>_. True) 0 (fs_disk fresh_store)) = Inr 0" by code_simp
  then show ?thesis
    by (simp add: durable_def log_kept_def settled_def created_at_def load_seq_value_def fresh_store_def empty_disk_def)
qed

text \<open>
  C11. Sent messages survive a restart. Starting from any durable file store, a session that saves and
  numbers its messages leaves a directory that opens again with both counters as they were left and
  the messages readable, byte for byte, in order and under their numbers.
\<close>

theorem sent_messages_survive_restart:
  assumes "durable valid rs s" "ms \<noteq> []" "\<forall>m\<in>set ms. length m < u32_size" "fs_sender s + length ms < u64_size"
    and "length (record_log (rs @ zip [fs_sender s..<fs_sender s + length ms] ms)) < u64_size"
  shows "\<exists>s1 s2 ops. file_send_all ms s = Some s1 \<and> file_open valid now 0 (fs_disk s1) = (Inr s2, ops)
    \<and> fs_sender s2 = fs_sender s + length ms \<and> fs_target s2 = fs_target s \<and> \<not> fs_corrupted s2
    \<and> file_get (fs_sender s) (fs_sender s + length ms - 1) s2 = Some (Inr (zip [fs_sender s..<fs_sender s + length ms] ms))"
proof -
  obtain s1 where s1: "file_send_all ms s = Some s1" "durable valid (rs @ zip [fs_sender s..<fs_sender s + length ms] ms) s1"
    "fs_sender s1 = fs_sender s + length ms" "fs_target s1 = fs_target s"
    using file_send_all_durable [OF assms(1,3,4)] by blast
  obtain s2 ops where s2: "file_open valid now 0 (fs_disk s1) = (Inr s2, ops)"
    "durable valid (rs @ zip [fs_sender s..<fs_sender s + length ms] ms) s2" "fs_sender s2 = fs_sender s1" "fs_target s2 = fs_target s1"
    "\<not> fs_corrupted s2"
    using durable_open [OF s1(2) assms(5), of now] by blast
  have "log_kept (rs @ zip [fs_sender s..<fs_sender s + length ms] ms) s2" using s2(2) by (simp add: durable_def)
  from zip_upt_get [OF this assms(2)] show ?thesis using s1 s2 by auto
qed

theorem sent_messages_survive_restart_witness:
  "\<exists>s1 s2 ops. file_send_all [''first'', ''second''] fresh_store = Some s1
     \<and> file_open (\<lambda>_. True) 5 0 (fs_disk s1) = (Inr s2, ops) \<and> fs_sender s2 = 3
     \<and> file_get 1 2 s2 = Some (Inr [(1, ''first''), (2, ''second'')])"
proof -
  let ?ms = "[''first'', ''second'']"
  have c: "fs_sender fresh_store = 1" "[1..<1 + length ?ms] = [1, 2]" by (simp_all add: fresh_store_def upt_rec)
  have "?ms \<noteq> []" "\<forall>m\<in>set ?ms. length m < u32_size" "fs_sender fresh_store + length ?ms < u64_size"
    "length (record_log ([] @ zip [fs_sender fresh_store..<fs_sender fresh_store + length ?ms] ?ms)) < u64_size"
    unfolding c by (simp_all add: record_log_def)
  from sent_messages_survive_restart [OF fresh_store_durable this, of 5] show ?thesis
    unfolding c by (auto simp: numeral_2_eq_2 numeral_3_eq_3 simp del: file_send_all.simps)
qed

text \<open>
  C22. A crash loses at most the message being sent. Interrupted anywhere while a message is saved and the
  counter advanced past it, even in the middle of a write, the directory opens again; every earlier
  message is there, the inbound counter is as it was, the outbound counter is the old or the new one,
  and while it is the old one the message is not there; the message is stored whole or not at all.
\<close>

theorem crash_keeps_earlier_messages:
  assumes "durable valid rs s" "valid_record (q, m)" "q + 1 < u64_size" "length (record_log (rs @ [(q, m)])) < u64_size"
    and "crash (save_and_advance_ops q m s) (fs_disk s) d'" "b \<le> e"
  shows "\<exists>s' ops r. file_open valid now 0 d' = (Inr s', ops) \<and> fs_target s' = fs_target s \<and> file_get b e s' = Some (Inr r)
    \<and> (fs_sender s' = fs_sender s \<and> (\<forall>k. map_of r k = (if b \<le> k \<and> k \<le> e then latest rs k else None))
       \<or> fs_sender s' = q + 1 \<and> (\<forall>k. k \<noteq> q \<longrightarrow> map_of r k = (if b \<le> k \<and> k \<le> e then latest rs k else None))
         \<and> map_of r q \<in> {if b \<le> q \<and> q \<le> e then latest rs q else None, if b \<le> q \<and> q \<le> e then Some m else None})"
proof -
  obtain s' ops rs' where s': "file_open valid now 0 d' = (Inr s', ops)" "log_kept rs' s'" "fs_target s' = fs_target s"
    "fs_sender s' = fs_sender s \<and> rs' = rs \<or> fs_sender s' = q + 1 \<and> (rs' = rs \<or> rs' = rs @ [(q, m)])"
    using crash_save_and_advance [OF assms(1-5), of now] by blast
  obtain r where r: "file_get b e s' = Some (Inr r)" "\<And>k. map_of r k = (if b \<le> k \<and> k \<le> e then latest rs' k else None)"
    using fetch_log [OF s'(2) assms(6)] by (auto simp: file_fetch_def split: option.splits sum.splits)
  have "latest (rs @ [(q, m)]) k = latest rs k" if "k \<noteq> q" for k using that by (simp add: latest_def)
  moreover have "latest (rs @ [(q, m)]) q = Some m" by (simp add: latest_def)
  ultimately show ?thesis using s'(1,3,4) r by (auto simp del: split_paired_Ex)
qed

theorem crash_keeps_earlier_messages_witness:
  "\<exists>s' ops r. file_open (\<lambda>_. True) 5 0 (apply_op (CreateTmp SenderFile) (fs_disk fresh_store)) = (Inr s', ops)
     \<and> fs_target s' = 1 \<and> file_get 1 9 s' = Some (Inr r) \<and> map_of r 3 = None"
proof -
  have c: "crash (save_and_advance_ops 1 ''first'' fresh_store) (fs_disk fresh_store) (apply_op (CreateTmp SenderFile) (fs_disk fresh_store))"
    by (simp add: save_and_advance_ops_def write_seq_value_def crash_later crash_before)
  have v: "valid_record (1, ''first'')" by (simp add: valid_record_def)
  have n: "1 + 1 < u64_size" "length (record_log ([] @ [(1, ''first'')])) < u64_size" "(1::nat) \<le> 9" by simp_all
  obtain s' ops r where s': "file_open (\<lambda>_. True) 5 0 (apply_op (CreateTmp SenderFile) (fs_disk fresh_store)) = (Inr s', ops)"
    "fs_target s' = fs_target fresh_store" "file_get 1 9 s' = Some (Inr r)"
    "fs_sender s' = fs_sender fresh_store \<and> (\<forall>k. map_of r k = (if 1 \<le> k \<and> k \<le> 9 then latest [] k else None))
       \<or> fs_sender s' = 1 + 1 \<and> (\<forall>k. k \<noteq> 1 \<longrightarrow> map_of r k = (if 1 \<le> k \<and> k \<le> 9 then latest [] k else None))"
    using crash_keeps_earlier_messages [OF fresh_store_durable v n(1,2) c n(3), of 5] by blast
  then have "map_of r 3 = None" by (auto simp: latest_def dest: spec [of _ 3])
  then show ?thesis using s' by (auto simp: fresh_store_def)
qed

text \<open>
  C27. The cache is transparent. A cached file store answers every read exactly as the plain file store
  under it, and afterwards its cache still agrees with the log and holds no more messages than its
  bound allows.
\<close>

theorem cached_get_transparent:
  assumes "log_kept rs (cs_files s)" "cache_wf (cs_cache s)" "coherent rs (cs_cache s)" "b \<le> e"
  shows "\<exists>r c. cached_get b e s = Some (Inr r, s\<lparr>cs_cache := c\<rparr>) \<and> file_get b e (cs_files s) = Some (Inr r)
    \<and> cache_wf c \<and> coherent rs c \<and> (0 < ca_max (cs_cache s) \<longrightarrow> cached_len (s\<lparr>cs_cache := c\<rparr>) \<le> ca_max (cs_cache s))"
proof -
  let ?f = "cs_files s"
  have i: "fs_index ?f = index_from 0 [] rs" using assms(1) by (simp add: log_kept_def)
  define es where "es = filter (\<lambda>(k, v). b \<le> k \<and> k \<le> e) (fs_index ?f)"
  have seqs: "seqs_in_range b e (fs_index ?f) = Some (map fst es)" using assms(4) by (simp add: seqs_in_range_def bt_range_def es_def)
  have range: "fst ` set es = {k. b \<le> k \<and> k \<le> e \<and> latest rs k \<noteq> None}" using index_range_keys i by (simp add: es_def)
  have keys: "latest rs q \<noteq> None" if "q \<in> set (map fst es)" for q using that range by auto
  obtain c where c: "cached_loop (fs_disk ?f) (fs_index ?f) (map fst es) (cs_cache s) = (Inr (map (\<lambda>q. (q, the (latest rs q))) (map fst es)), c)"
    "cache_wf c" "coherent rs c" "ca_max c = ca_max (cs_cache s)"
    using cached_loop_reads [OF assms(1-3), of "map fst es"] keys by blast
  let ?r = "map (\<lambda>q. (q, the (latest rs q))) (map fst es)"
  obtain r where r: "file_get b e ?f = Some (Inr r)" "bt_sorted r" "\<And>k. map_of r k = (if b \<le> k \<and> k \<le> e then latest rs k else None)"
    using fetch_log [OF assms(1,4)] by (auto simp: file_fetch_def split: option.splits sum.splits)
  have sorted: "bt_sorted es" using index_from_sorted [of "[]" 0 rs] i by (simp add: es_def bt_sorted_filter)
  have same: "map fst ?r = map fst es" by (simp add: comp_def)
  have "bt_sorted ?r" using sorted unfolding bt_sorted_def same .
  moreover have "map_of ?r k = map_of r k" for k
  proof -
    have "?r = map (\<lambda>(q, _). (q, the (latest rs q))) es" by auto
    then have "map_of ?r k = (if k \<in> fst ` set es then Some (the (latest rs k)) else None)" by (simp only: map_of_map_keys)
    then show ?thesis using r(3) [of k] range by auto
  qed
  ultimately have "?r = r" using bt_sorted_unique [OF _ r(2)] by (simp add: fun_eq_iff)
  then show ?thesis
    using c r(1) seqs by (auto simp: cached_get_def cached_len_def cache_wf_def)
qed


theorem cached_get_transparent_witness:
  "\<exists>s r c. cached_save 1 ''first'' \<lparr>cs_files = fresh_store, cs_cache = cache_new 1\<rparr> = (Inr (), s)
     \<and> cached_get 1 5 s = Some (Inr r, s\<lparr>cs_cache := c\<rparr>) \<and> file_get 1 5 (cs_files s) = Some (Inr r)"
proof -
  let ?s = "\<lparr>cs_files = fresh_store, cs_cache = cache_new 1\<rparr>"
  have "log_kept [] (cs_files ?s)" "cache_wf (cs_cache ?s)" "coherent [] (cs_cache ?s)" "valid_record (1, ''first'')"
    using fresh_store_durable by (simp_all add: durable_def cache_wf_def coherent_def cache_new_def valid_record_def)
  from cached_save_log [OF this] obtain s' where s': "cached_save 1 ''first'' ?s = (Inr (), s')"
    "log_kept [(1, ''first'')] (cs_files s')" "cache_wf (cs_cache s')" "coherent [(1, ''first'')] (cs_cache s')"
    by auto
  show ?thesis using cached_get_transparent [OF s'(2-4), of 1 5] s'(1) by auto
qed

text \<open>
  An interrupted reset can leave a store that does not open. The creation time is rewritten in place,
  so from any directory a crash in the last step of a reset leaves an empty creation-time file, and
  opening the store then fails as corrupted.
\<close>

theorem reset_crash_unopenable:
  "\<exists>d'. crash (file_reset_ops t) d d' \<and> fst (file_open valid now 0 d') = Inl StoreBackend"
proof -
  let ?ops = "body_reset_ops @ seq_reset_ops @ [TruncateSession]" and ?w = "[WriteSession (show_int t)]"
  let ?d = "apply_ops ?ops d"
  have "file_reset_ops t = ?ops @ ?w" by (simp add: file_reset_ops_def reset_creation_time_file_def)
  then have c: "crash (file_reset_ops t) d ?d" by (simp only: crash_append crash_before simp_thms)
  have f: "dk_seq ?d f = Some (show_nat 1 @ [CHR 0x0A])" "dk_session ?d = Some []" "dk_body ?d = Some []" for f
    by (cases f) (simp_all add: apply_ops_def body_reset_ops_def seq_reset_ops_def write_seq_value_def contents_def)
  have "seq_open ?d = (Inr (1, 1), [])"
    by (rule seq_open_settled) (simp_all add: settled_def f load_written)
  moreover have "body_open 0 ?d = ([], False, [])"
    by (simp add: body_open_def load_index_def f(3) load_loop.simps bounded_def)
  moreover have "fst (creation_time_file valid now ?d) = Inl StoreBackend"
    by (simp add: creation_time_file_def f(2) trim_visible parse_i64_def utf8_valid.simps)
  moreover have nil: "apply_ops [] ?d = ?d" by (simp add: apply_ops_def)
  ultimately have "fst (file_open valid now 0 ?d) = Inl StoreBackend"
    by (auto simp: file_open_def split: prod.splits sum.splits)
  then show ?thesis using c by blast
qed

text \<open>
  An interrupted reset of a migrated store brings the old sequence numbers back: the legacy file is
  kept, so after a crash between the removal of a sequence file and its rewrite the next opening
  migrates from it again. Here a store at number 42, once migrated from 17, opens at 17.
\<close>

theorem reset_crash_restores_legacy:
  "let d = empty_disk\<lparr>dk_seq := (\<lambda>f. Some ''42''), dk_legacy := Some (''17'' @ [CHR 0x0A] @ ''9'' @ [CHR 0x0A]), dk_session := Some ''0''\<rparr>;
       d' = apply_ops (body_reset_ops @ [RemoveSeq SenderFile]) d
   in crash (file_reset_ops 7) d d'
      \<and> (case file_open (\<lambda>_. True) 8 0 d of (Inr s, _) \<Rightarrow> fs_sender s = 42 | _ \<Rightarrow> False)
      \<and> (case file_open (\<lambda>_. True) 8 0 d' of (Inr s, _) \<Rightarrow> fs_sender s = 17 | _ \<Rightarrow> False)"
proof -
  let ?d = "empty_disk\<lparr>dk_seq := (\<lambda>f. Some ''42''), dk_legacy := Some (''17'' @ [CHR 0x0A] @ ''9'' @ [CHR 0x0A]), dk_session := Some ''0''\<rparr>"
  have "file_reset_ops 7 = (body_reset_ops @ [RemoveSeq SenderFile])
      @ RemoveSeq TargetFile # write_seq_value SenderFile 1 @ write_seq_value TargetFile 1 @ reset_creation_time_file 7"
    by (simp add: file_reset_ops_def seq_reset_ops_def)
  then have c: "crash (file_reset_ops 7) ?d (apply_ops (body_reset_ops @ [RemoveSeq SenderFile]) ?d)"
    by (simp only: crash_append crash_before simp_thms)
  have "case file_open (\<lambda>_. True) 8 0 ?d of (Inr s, _) \<Rightarrow> fs_sender s = 42 | _ \<Rightarrow> False" by code_simp
  moreover have "case file_open (\<lambda>_. True) 8 0 (apply_ops (body_reset_ops @ [RemoveSeq SenderFile]) ?d) of (Inr s, _) \<Rightarrow> fs_sender s = 17 | _ \<Rightarrow> False"
    by code_simp
  ultimately show ?thesis using c by (simp add: Let_def)
qed

end
