(* ===== verification/Fix_Dict_Parser.thy ===== *)
theory Fix_Dict_Parser
  imports Fix_Dict Fix_Text
begin

unbundle bit_operations_syntax

text \<open>
  The parser of normalised dictionary documents (\<^verbatim>\<open>dict/parser.rs\<close>) with the content hash of
  \<^verbatim>\<open>dict/hash.rs\<close> and the type names of \<^verbatim>\<open>dict/model.rs\<close>: directives line by line, then the expansion of
  component references, the child dictionaries of groups and the member tags of messages.
\<close>

section \<open>Errors and raw members\<close>

datatype parse_error =
    MissingVersion
  | DictMalformed nat string
  | UnknownType nat bytes
  | DuplicateDefinition nat string bytes
  | UnknownComponent bytes
  | ComponentCycle bytes

datatype raw_member = RTag tag | RComponent bytes

section \<open>Tokens\<close>

definition parse_field_type :: "bytes \<Rightarrow> field_type option" where
  "parse_field_type token = map_of
     [(''INT'', TInt), (''LENGTH'', TLength), (''SEQNUM'', TSeqNum), (''NUMINGROUP'', TNumInGroup), (''FLOAT'', TFloat),
      (''PRICE'', TPrice), (''QTY'', TQty), (''AMT'', TAmt), (''PERCENTAGE'', TPercentage), (''CHAR'', TChar),
      (''BOOLEAN'', TBoolean), (''STRING'', TString), (''DATA'', TData), (''UTCTIMESTAMP'', TUtcTimestamp),
      (''UTCTIMEONLY'', TUtcTimeOnly), (''UTCDATEONLY'', TUtcDateOnly), (''MONTHYEAR'', TMonthYear),
      (''PRICEOFFSET'', TPriceOffset), (''LOCALMKTDATE'', TLocalMktDate), (''DAYOFMONTH'', TDayOfMonth),
      (''UTCDATE'', TUtcDate), (''TIME'', TTime), (''CURRENCY'', TCurrency), (''EXCHANGE'', TExchange),
      (''MULTIPLEVALUESTRING'', TMultipleValueString), (''MULTIPLESTRINGVALUE'', TMultipleStringValue),
      (''MULTIPLECHARVALUE'', TMultipleCharValue), (''COUNTRY'', TCountry)] token"

definition fnv1a :: "bytes \<Rightarrow> nat" where
  "fnv1a bs = fold (\<lambda>b h. (h XOR of_char b) * 0x100000001b3 mod u64_size) bs 0xcbf29ce484222325"

text \<open>A hash starts a comment at the start of the line or after a blank or tabulator; \<open>seen\<close> is reversed.\<close>

fun dict_strip_from :: "bytes \<Rightarrow> bytes \<Rightarrow> bytes" where
  "dict_strip_from seen [] = rev seen"
| "dict_strip_from seen (c # cs) =
     (if c = CHR ''#'' \<and> (seen = [] \<or> hd seen \<in> {CHR 0x20, CHR 0x09}) then rev seen
      else dict_strip_from (c # seen) cs)"

definition dict_strip_comment :: "bytes \<Rightarrow> bytes" where
  "dict_strip_comment line = dict_strip_from [] line"

definition next_token :: "bytes list \<Rightarrow> bytes option" where
  "next_token ts = (case ts of [] \<Rightarrow> None | t # _ \<Rightarrow> Some t)"

definition parse_tag :: "bytes option \<Rightarrow> nat \<Rightarrow> parse_error + tag" where
  "parse_tag token line =
     ok_or (Option.bind token (parse_unsigned u32_size)) (DictMalformed line ''expected a numeric tag'')"

definition parse_member :: "nat \<Rightarrow> bytes \<Rightarrow> parse_error + raw_member" where
  "parse_member line s =
     (case strip_pfx ''component:'' s of
        Some name \<Rightarrow> Inr (RComponent name)
      | None \<Rightarrow> map_sum id RTag (ok_or (parse_unsigned u32_size s) (DictMalformed line ''expected a tag number or component:<Name>'')))"

definition parse_member_list :: "bytes \<Rightarrow> nat \<Rightarrow> parse_error + raw_member list" where
  "parse_member_list lst line = try_map (parse_member line) (filter (\<lambda>s. s \<noteq> []) (split_all (CHR '','') lst))"

section \<open>Directives\<close>

record dict_parser =
  dp_version :: "bytes option"
  dp_version_meta :: "version_meta option"
  dp_fields :: "(tag, field_def) btree"
  dp_field_by_name :: "(bytes, tag) btree"
  dp_header :: "tag list"
  dp_trailer :: "tag list"
  dp_messages :: "(bytes, bytes \<times> raw_member list \<times> raw_member list \<times> bool) btree"
  dp_groups :: "(tag, tag \<times> raw_member list \<times> raw_member list) btree"
  dp_components :: "(bytes, raw_member list) btree"

definition new_dict_parser :: dict_parser where
  "new_dict_parser = \<lparr>dp_version = None, dp_version_meta = None, dp_fields = [], dp_field_by_name = [], dp_header = [],
     dp_trailer = [], dp_messages = [], dp_groups = [], dp_components = []\<rparr>"

text \<open>The key-value tokens of \<^verbatim>\<open>version-meta\<close>: the last one of a key counts, also when it does not parse.\<close>

fun version_meta_tokens :: "bytes list \<Rightarrow> nat option \<times> nat option \<times> nat option \<times> nat option \<Rightarrow> nat option \<times> nat option \<times> nat option \<times> nat option" where
  "version_meta_tokens [] acc = acc"
| "version_meta_tokens (t # ts) (maj, mnr, sp, ep) =
     version_meta_tokens ts
       (case strip_pfx ''major='' t of Some v \<Rightarrow> (parse_u8 v, mnr, sp, ep)
        | None \<Rightarrow> (case strip_pfx ''minor='' t of Some v \<Rightarrow> (maj, parse_u8 v, sp, ep)
        | None \<Rightarrow> (case strip_pfx ''sp='' t of Some v \<Rightarrow> (maj, mnr, parse_u8 v, ep)
        | None \<Rightarrow> (case strip_pfx ''ep='' t of Some v \<Rightarrow> (maj, mnr, sp, parse_u8 v)
        | None \<Rightarrow> (maj, mnr, sp, ep)))))"

definition version_meta_directive :: "nat \<Rightarrow> bytes list \<Rightarrow> dict_parser \<Rightarrow> parse_error + dict_parser" where
  "version_meta_directive n ts p =
     (case version_meta_tokens ts (None, None, None, None) of
        (maj, mnr, sp, ep) \<Rightarrow>
          try_then (ok_or maj (DictMalformed n ''version-meta requires major=N'')) (\<lambda>major.
          try_then (ok_or mnr (DictMalformed n ''version-meta requires minor=N'')) (\<lambda>minor.
            Inr (p\<lparr>dp_version_meta := Some \<lparr>vm_major = major, vm_minor = minor, vm_service_pack = sp, vm_extension_pack = ep\<rparr>\<rparr>))))"

text \<open>The values of a field: an optional label after an equals sign.\<close>

fun field_values :: "bytes list \<Rightarrow> bytes list \<times> (bytes, bytes) btree \<Rightarrow> bytes list \<times> (bytes, bytes) btree" where
  "field_values [] acc = acc"
| "field_values (t # ts) (vs, ls) =
     field_values ts
       (case split_once (CHR ''='') t of
          Some (v, lab) \<Rightarrow> (vs @ [v], bt_insert v lab ls)
        | None \<Rightarrow> (vs @ [t], ls))"

definition field_directive :: "nat \<Rightarrow> bytes list \<Rightarrow> dict_parser \<Rightarrow> parse_error + dict_parser" where
  "field_directive n ts p =
     try_then (parse_tag (next_token ts) n) (\<lambda>t.
     try_then (ok_or (next_token (drop 1 ts)) (DictMalformed n ''field requires a name'')) (\<lambda>name.
     try_then (ok_or (next_token (drop 2 ts)) (DictMalformed n ''field requires a type'')) (\<lambda>type_token.
     try_then (ok_or (parse_field_type type_token) (UnknownType n type_token)) (\<lambda>field_type.
       let remaining = drop 3 ts;
           open_enum = (next_token remaining = Some ''open'');
           (vals, labels) = field_values (if open_enum then tl remaining else remaining) ([], [])
       in if bt_get (dp_fields p) t \<noteq> None then Inl (DuplicateDefinition n ''field tag'' (show_nat t))
          else if bt_get (dp_field_by_name p) name \<noteq> None then Inl (DuplicateDefinition n ''field name'' name)
          else Inr (p\<lparr>dp_fields := bt_insert t \<lparr>fd_tag = t, fd_name = name, fd_type = field_type, fd_values = vals,
                        fd_open_enum = open_enum, fd_value_labels = labels\<rparr> (dp_fields p),
                      dp_field_by_name := bt_insert name t (dp_field_by_name p)\<rparr>)))))"

definition set_insert :: "tag \<Rightarrow> tag list \<Rightarrow> tag list" where
  "set_insert t s = (if t \<in> set s then s else insort t s)"

text \<open>The tags of a \<^verbatim>\<open>header\<close> or \<^verbatim>\<open>trailer\<close> line.\<close>

definition section_tags :: "nat \<Rightarrow> bytes list \<Rightarrow> tag list \<Rightarrow> parse_error + tag list" where
  "section_tags n ts s = map_sum id (\<lambda>tags. fold set_insert tags s) (try_map (\<lambda>t. parse_tag (Some t) n) ts)"

fun message_tokens ::
  "nat \<Rightarrow> bytes list \<Rightarrow> raw_member list \<times> raw_member list \<times> bool \<Rightarrow> parse_error + raw_member list \<times> raw_member list \<times> bool" where
  "message_tokens n [] acc = Inr acc"
| "message_tokens n (t # ts) (req, opt, ordered) =
     (if t = ''ordered'' then message_tokens n ts (req, opt, True)
      else
        (case strip_pfx ''req:'' t of
           Some lst \<Rightarrow> try_then (parse_member_list lst n) (\<lambda>r. message_tokens n ts (r, opt, ordered))
         | None \<Rightarrow>
             (case strip_pfx ''opt:'' t of
                Some lst \<Rightarrow> try_then (parse_member_list lst n) (\<lambda>o'. message_tokens n ts (req, o', ordered))
              | None \<Rightarrow> message_tokens n ts (req, opt, ordered))))"

definition message_directive :: "nat \<Rightarrow> bytes list \<Rightarrow> dict_parser \<Rightarrow> parse_error + dict_parser" where
  "message_directive n ts p =
     try_then (ok_or (next_token ts) (DictMalformed n ''message requires a MsgType'')) (\<lambda>mt.
     try_then (ok_or (next_token (drop 1 ts)) (DictMalformed n ''message requires a name'')) (\<lambda>name.
     try_then (message_tokens n (drop 2 ts) ([], [], False)) (\<lambda>(req, opt, ordered).
       if bt_get (dp_messages p) mt \<noteq> None then Inl (DuplicateDefinition n ''message type'' mt)
       else Inr (p\<lparr>dp_messages := bt_insert mt (name, req, opt, ordered) (dp_messages p)\<rparr>))))"

fun group_tokens :: "nat \<Rightarrow> bytes list \<Rightarrow> raw_member list \<Rightarrow> parse_error + raw_member list" where
  "group_tokens n [] req = Inr req"
| "group_tokens n (t # ts) req =
     (case strip_pfx ''req:'' t of
        Some lst \<Rightarrow> try_then (parse_member_list lst n) (group_tokens n ts)
      | None \<Rightarrow> group_tokens n ts req)"

definition group_directive :: "nat \<Rightarrow> bytes list \<Rightarrow> dict_parser \<Rightarrow> parse_error + dict_parser" where
  "group_directive n ts p =
     try_then (parse_tag (next_token ts) n) (\<lambda>count_tag.
     try_then (ok_or (next_token (drop 1 ts)) (DictMalformed n ''group requires a name'')) (\<lambda>_.
     try_then (parse_tag (next_token (drop 2 ts)) n) (\<lambda>delimiter.
     try_then (ok_or (next_token (drop 3 ts)) (DictMalformed n ''group requires a member list'')) (\<lambda>lst.
     try_then (parse_member_list lst n) (\<lambda>members.
     try_then (group_tokens n (drop 4 ts) []) (\<lambda>req.
       Inr (p\<lparr>dp_groups := bt_insert count_tag (delimiter, members, req) (dp_groups p)\<rparr>)))))))"

definition component_directive :: "nat \<Rightarrow> bytes list \<Rightarrow> dict_parser \<Rightarrow> parse_error + dict_parser" where
  "component_directive n ts p =
     try_then (ok_or (next_token ts) (DictMalformed n ''component requires a name'')) (\<lambda>name.
     try_then (ok_or (next_token (drop 1 ts)) (DictMalformed n ''component requires a member list'')) (\<lambda>lst.
     try_then (parse_member_list lst n) (\<lambda>members.
       Inr (p\<lparr>dp_components := bt_insert name members (dp_components p)\<rparr>))))"

definition dict_line :: "nat \<Rightarrow> bytes \<Rightarrow> dict_parser \<Rightarrow> parse_error + dict_parser" where
  "dict_line n raw p =
     (let line = trim (dict_strip_comment raw) in
      if line = [] then Inr p
      else
        (let tokens = split_whitespace line;
             directive = (case next_token tokens of None \<Rightarrow> [] | Some d \<Rightarrow> d);
             ts = drop 1 tokens
         in if directive = ''version'' then
              try_then (ok_or (next_token ts) (DictMalformed n ''version requires a value'')) (\<lambda>v. Inr (p\<lparr>dp_version := Some v\<rparr>))
            else if directive = ''version-meta'' then version_meta_directive n ts p
            else if directive = ''field'' then field_directive n ts p
            else if directive = ''header'' then
              try_then (section_tags n ts (dp_header p)) (\<lambda>s. Inr (p\<lparr>dp_header := s\<rparr>))
            else if directive = ''trailer'' then
              try_then (section_tags n ts (dp_trailer p)) (\<lambda>s. Inr (p\<lparr>dp_trailer := s\<rparr>))
            else if directive = ''message'' then message_directive n ts p
            else if directive = ''group'' then group_directive n ts p
            else if directive = ''component'' then component_directive n ts p
            else Inl (DictMalformed n ''unknown directive'')))"

fun dict_lines :: "nat \<Rightarrow> bytes list \<Rightarrow> dict_parser \<Rightarrow> parse_error + dict_parser" where
  "dict_lines n [] p = Inr p"
| "dict_lines n (l # ls) p = try_then (dict_line n l p) (dict_lines (Suc n) ls)"

section \<open>Components\<close>

lemma components_left:
  assumes "bt_get raw n = Some ns" "n \<notin> set resolving"
  shows "card (fst ` set raw - set (n # resolving)) < card (fst ` set raw - set resolving)"
proof (rule psubset_card_mono)
  have "n \<in> fst ` set raw" using map_of_SomeD [OF assms(1)] by force
  then show "fst ` set raw - set (n # resolving) \<subset> fst ` set raw - set resolving" using assms(2) by auto
qed simp

text \<open>
  \<^verbatim>\<open>resolve_component\<close> as the loop over a member list, the call for a component inlined: \<open>resolving\<close> are the
  components being expanded on the call stack, \<open>acc\<close> the members so far.
\<close>

function resolve_members ::
  "(bytes, raw_member list) btree \<Rightarrow> raw_member list \<Rightarrow> bytes list \<Rightarrow> (bytes, component_def) btree \<Rightarrow> tag list
    \<Rightarrow> parse_error + tag list \<times> (bytes, component_def) btree" where
  "resolve_members raw [] resolving resolved acc = Inr (acc, resolved)"
| "resolve_members raw (RTag t # ms) resolving resolved acc = resolve_members raw ms resolving resolved (acc @ [t])"
| "resolve_members raw (RComponent n # ms) resolving resolved acc =
     (case bt_get resolved n of
        Some d \<Rightarrow> resolve_members raw ms resolving resolved (acc @ cd_members d)
      | None \<Rightarrow>
          if n \<in> set resolving then Inl (ComponentCycle n)
          else
            (case bt_get raw n of
               None \<Rightarrow> Inl (UnknownComponent n)
             | Some ns \<Rightarrow>
                 try_then (resolve_members raw ns (n # resolving) resolved [])
                   (\<lambda>(members, resolved').
                      resolve_members raw ms resolving (bt_insert n \<lparr>cd_name = n, cd_members = members\<rparr> resolved')
                        (acc @ members))))"
  by pat_completeness auto

termination
  by (relation "inv_image (less_than <*lex*> less_than)
        (\<lambda>(raw, ms, resolving, resolved, acc). (card (fst ` set raw - set resolving), length ms))")
     (auto simp: wf_lex_prod simp del: list.set intro: components_left)

definition resolve_component ::
  "bytes \<Rightarrow> (bytes, raw_member list) btree \<Rightarrow> (bytes, component_def) btree \<Rightarrow> parse_error + (bytes, component_def) btree" where
  "resolve_component name raw resolved = map_sum id snd (resolve_members raw [RComponent name] [] resolved [])"

fun resolve_names ::
  "(bytes, raw_member list) btree \<Rightarrow> bytes list \<Rightarrow> (bytes, component_def) btree \<Rightarrow> parse_error + (bytes, component_def) btree" where
  "resolve_names raw [] resolved = Inr resolved"
| "resolve_names raw (n # ns) resolved =
     (if bt_get resolved n \<noteq> None then resolve_names raw ns resolved
      else try_then (resolve_component n raw resolved) (resolve_names raw ns))"

definition resolve_all_components :: "(bytes, raw_member list) btree \<Rightarrow> parse_error + (bytes, component_def) btree" where
  "resolve_all_components raw = resolve_names raw (map fst raw) []"

definition expand_member :: "(bytes, component_def) btree \<Rightarrow> raw_member \<Rightarrow> parse_error + tag list" where
  "expand_member components m =
     (case m of
        RTag t \<Rightarrow> Inr [t]
      | RComponent name \<Rightarrow> map_sum id cd_members (ok_or (bt_get components name) (UnknownComponent name)))"

definition expand_members :: "(bytes, component_def) btree \<Rightarrow> raw_member list \<Rightarrow> parse_error + tag list" where
  "expand_members components ms = map_sum id concat (try_map (expand_member components) ms)"

section \<open>Child dictionaries\<close>

definition MAX_DEPTH :: nat where "MAX_DEPTH = 16"

function build_child :: "tag list \<Rightarrow> (tag, field_def) btree \<Rightarrow> (tag, tag \<times> tag list) btree \<Rightarrow> nat \<Rightarrow> data_dictionary option" where
  "build_child members fds groups depth =
     (if MAX_DEPTH < depth then None
      else
        (let child_fields = bt_of_list (List.map_filter (\<lambda>t. map_option (Pair t) (bt_get fds t)) members)
         in if child_fields = [] then None
            else Some (DataDictionary [] child_fields (bt_of_list (map (\<lambda>(_, f). (fd_name f, fd_tag f)) child_fields)) [] [] []
              (bt_of_list (concat (map
                 (\<lambda>t. case bt_get groups t of
                        None \<Rightarrow> []
                      | Some (delimiter, nested) \<Rightarrow> [(t, GroupDef t delimiter nested [] (build_child nested fds groups (depth + 1)))])
                 members)))
              [] 0 None)))"
  by pat_completeness auto
termination
  by (relation "measure (\<lambda>(members, fds, groups, depth). Suc MAX_DEPTH - depth)") auto

declare build_child.simps [simp del]

section \<open>Documents\<close>

definition expand_group ::
  "(bytes, component_def) btree \<Rightarrow> tag \<times> tag \<times> raw_member list \<times> raw_member list \<Rightarrow> parse_error + tag \<times> tag \<times> tag list \<times> tag list" where
  "expand_group components = (\<lambda>(count_tag, delimiter, raw_members, raw_required).
     try_then (expand_members components raw_members) (\<lambda>members.
     try_then (expand_members components raw_required) (\<lambda>req. Inr (count_tag, delimiter, members, req))))"

definition expand_message ::
  "(bytes, component_def) btree \<Rightarrow> bytes \<times> bytes \<times> raw_member list \<times> raw_member list \<times> bool \<Rightarrow> parse_error + bytes \<times> message_def" where
  "expand_message components = (\<lambda>(mt, name, req_raw, opt_raw, ordered).
     try_then (expand_members components req_raw) (\<lambda>req.
     try_then (expand_members components opt_raw) (\<lambda>opt.
       Inr (mt, \<lparr>md_msg_type = mt, md_name = name, md_required = req, md_optional = opt, md_member_tags = [],
                 md_field_order = (if ordered then Some (req @ opt) else None)\<rparr>))))"

definition parse_dictionary :: "bytes \<Rightarrow> parse_error + data_dictionary" where
  "parse_dictionary input =
     try_then (dict_lines 1 (text_lines input) new_dict_parser) (\<lambda>p.
     try_then (ok_or (dp_version p) MissingVersion) (\<lambda>version.
     try_then (resolve_all_components (dp_components p)) (\<lambda>components.
     try_then (try_map (expand_group components) (dp_groups p)) (\<lambda>gs.
       let expanded = bt_of_list gs;
           for_child = map (\<lambda>(t, d, m, _). (t, d, m)) expanded;
           groups = bt_of_list (map (\<lambda>(t, d, m, r). (t, GroupDef t d m r (build_child m (dp_fields p) for_child 0))) expanded)
       in try_then (try_map (expand_message components) (dp_messages p)) (\<lambda>ms.
            Inr (DataDictionary version (dp_fields p) (dp_field_by_name p)
              (map (\<lambda>(mt, md). (mt, expand_member_tags groups md)) (bt_of_list ms))
              (dp_header p) (dp_trailer p) groups components (fnv1a input) (dp_version_meta p)))))))"

section \<open>Files\<close>

text \<open>
  \<^verbatim>\<open>load_from_file\<close> of \<^verbatim>\<open>dict/lib.rs\<close> as built without the \<^verbatim>\<open>dict-tooling\<close> feature; reading a file, or the text of the
  failure, is a parameter.
\<close>

datatype dict_load_error = DictIo bytes bytes | DictParse bytes parse_error

definition load_from_file :: "(bytes \<Rightarrow> bytes + bytes) \<Rightarrow> bytes \<Rightarrow> dict_load_error + data_dictionary" where
  "load_from_file read_to_string path =
     (case read_to_string path of
        Inl why \<Rightarrow> Inl (DictIo path why)
      | Inr content \<Rightarrow> map_sum (DictParse path) id (parse_dictionary content))"

end
