(* ===== verification/Fix_Settings.thy ===== *)
theory Fix_Settings
  imports Fix_Dict_Parser "HOL-Library.List_Lexorder" "HOL-Library.Char_ord"
begin

text \<open>
  Settings files (\<^verbatim>\<open>config/lib.rs\<close>): the \<^verbatim>\<open>[DEFAULT]\<close>/\<^verbatim>\<open>[SESSION]\<close> dialect with comments, inheritance of the
  default section and \<^verbatim>\<open>${name}\<close> interpolation. The process environment is the parameter \<open>env\<close>. Ordered
  maps are keyed by strings in byte order.
\<close>

section \<open>Data\<close>

text \<open>Why a value is invalid: the text of the message, the value it shows, or the error of a dictionary that did not load.\<close>

datatype reason = Because string | Got string bytes | NotParsed parse_error | NotLoaded dict_load_error

datatype config_error =
    Malformed nat bytes
  | UnresolvedVariable nat bytes
  | CircularVariableReference nat bytes
  | MissingRequired bytes bytes
  | InvalidValue bytes bytes reason
  | UnsupportedBackend bytes bytes
  | UnknownConnectionType bytes bytes
  | DuplicateSession bytes

text \<open>A section as read: every value with the number of its line.\<close>

type_synonym raw_section = "(bytes, bytes \<times> nat) btree"

record session_settings =
  set_default :: "(bytes, bytes) btree"
  set_sessions :: "(bytes, bytes) btree list"

section \<open>Lines\<close>

definition is_ascii_whitespace :: "char \<Rightarrow> bool" where
  "is_ascii_whitespace c \<longleftrightarrow> c \<in> {CHR 0x09, CHR 0x0A, CHR 0x0C, CHR 0x0D, CHR 0x20}"

text \<open>The search for a hash at the start or after white space; \<open>seen\<close> is the text before, reversed.\<close>

fun strip_comment_from :: "bytes \<Rightarrow> bytes \<Rightarrow> bytes" where
  "strip_comment_from seen [] = rev seen"
| "strip_comment_from seen (c # cs) =
     (if c = CHR ''#'' \<and> (seen = [] \<or> is_ascii_whitespace (hd seen)) then rev seen
      else strip_comment_from (c # seen) cs)"

definition strip_comment :: "bytes \<Rightarrow> bytes" where
  "strip_comment line = strip_comment_from [] line"

definition section_header :: "bytes \<Rightarrow> bytes option" where
  "section_header line =
     (case strip_pfx ''['' line of
        None \<Rightarrow> None
      | Some inner \<Rightarrow> if inner \<noteq> [] \<and> last inner = CHR '']'' then Some (trim (butlast inner)) else None)"

section \<open>Sections\<close>

definition bt_extend :: "('k::linorder, 'v) btree \<Rightarrow> ('k, 'v) btree \<Rightarrow> ('k, 'v) btree" where
  "bt_extend m base = fold (\<lambda>(k, v). bt_insert k v) m base"

text \<open>The state of the parser: the default section, the sessions, which section is open, and its lines so far.\<close>

record parser =
  pa_default :: raw_section
  pa_sessions :: "raw_section list"
  pa_in_default :: "bool option"
  pa_current :: raw_section

definition flush_section :: "parser \<Rightarrow> parser" where
  "flush_section p =
     (case pa_in_default p of
        Some True \<Rightarrow> p\<lparr>pa_default := bt_extend (pa_current p) (pa_default p), pa_current := []\<rparr>
      | Some False \<Rightarrow>
          if pa_current p \<noteq> [] then p\<lparr>pa_sessions := pa_sessions p @ [pa_current p], pa_current := []\<rparr>
          else p\<lparr>pa_current := []\<rparr>
      | None \<Rightarrow> p\<lparr>pa_current := []\<rparr>)"

definition parse_line :: "nat \<Rightarrow> bytes \<Rightarrow> parser \<Rightarrow> config_error + parser" where
  "parse_line line_no raw p =
     (let line = trim (strip_comment raw) in
      if line = [] then Inr p
      else
        (case section_header line of
           Some name \<Rightarrow>
             Inr ((flush_section p)\<lparr>pa_in_default := Some (eq_ignore_ascii_case name ''DEFAULT''), pa_current := []\<rparr>)
         | None \<Rightarrow>
             (case split_once (CHR ''='') line of
                None \<Rightarrow> Inl (Malformed line_no line)
              | Some (key, val) \<Rightarrow> Inr (p\<lparr>pa_current := bt_insert (trim key) (trim val, line_no) (pa_current p)\<rparr>))))"

fun parse_lines :: "nat \<Rightarrow> bytes list \<Rightarrow> parser \<Rightarrow> config_error + parser" where
  "parse_lines n [] p = Inr p"
| "parse_lines n (l # ls) p =
     (case parse_line n l p of Inl e \<Rightarrow> Inl e | Inr p' \<Rightarrow> parse_lines (Suc n) ls p')"

section \<open>Interpolation\<close>

fun find_ref :: "bytes \<Rightarrow> nat option" where
  "find_ref (c # d # cs) = (if c = CHR ''$'' \<and> d = CHR ''{'' then Some 0 else map_option Suc (find_ref (d # cs)))"
| "find_ref _ = None"

lemma find_ref_bound: "find_ref s = Some i \<Longrightarrow> i + 2 \<le> length s"
  by (induction s arbitrary: i rule: find_ref.induct) (auto split: if_splits)

text \<open>
  A reference is followed as often as the map has names not yet being resolved, so the recursion ends:
  in each nested call the name is a key that was not among them.
\<close>

definition open_names :: "raw_section \<Rightarrow> bytes list \<Rightarrow> nat" where
  "open_names lookup resolving = card (fst ` set lookup - set resolving)"

lemma open_names_less: "bt_get lookup name = Some v \<Longrightarrow> name \<notin> set resolving \<Longrightarrow> open_names lookup (resolving @ [name]) < open_names lookup resolving"
proof -
  assume a: "bt_get lookup name = Some v" "name \<notin> set resolving"
  then have "name \<in> fst ` set lookup - set resolving" using map_of_SomeD [OF a(1)] by force
  moreover have "fst ` set lookup - set (resolving @ [name]) = (fst ` set lookup - set resolving) - {name}" by auto
  ultimately show ?thesis unfolding open_names_def by (simp only: card_Diff1_less finite_Diff finite_imageI finite_set)
qed

definition splice :: "bytes \<Rightarrow> config_error + bytes \<Rightarrow> config_error + bytes \<Rightarrow> config_error + bytes" where
  "splice before replacement tail =
     (case replacement of Inl e \<Rightarrow> Inl e
      | Inr r \<Rightarrow> (case tail of Inl e \<Rightarrow> Inl e | Inr t \<Rightarrow> Inr (before @ r @ t)))"

function interpolate_value ::
  "(bytes \<Rightarrow> bytes option) \<Rightarrow> raw_section \<Rightarrow> nat \<Rightarrow> bytes list \<Rightarrow> bytes \<Rightarrow> config_error + bytes" where
  "interpolate_value env lookup line resolving rest =
     (case find_ref rest of
        None \<Rightarrow> Inr rest
      | Some start \<Rightarrow>
          (let after = drop (start + 2) rest in
           case find_byte (CHR ''}'') after of
             None \<Rightarrow> Inl (UnresolvedVariable line after)
           | Some stop \<Rightarrow>
               (let name = take stop after in
                if name \<in> set resolving then Inl (CircularVariableReference line name)
                else splice (take start rest)
                       (case bt_get lookup name of
                          Some v \<Rightarrow> interpolate_value env lookup line (resolving @ [name]) (fst v)
                        | None \<Rightarrow> (case env name of None \<Rightarrow> Inl (UnresolvedVariable line name) | Some v \<Rightarrow> Inr v))
                       (interpolate_value env lookup line resolving (drop (Suc stop) after)))))"
  by pat_completeness auto
termination
proof (relation "inv_image (less_than <*lex*> less_than) (\<lambda>(env, lookup, line, resolving, rest). (open_names lookup resolving, length rest))", goal_cases)
  case 1
  then show ?case by (simp add: wf_inv_image wf_lex_prod)
next
  case (2 env lookup line resolving rest start after stop name v)
  then show ?case using open_names_less [of lookup name v resolving] by simp
next
  case (3 env lookup line resolving rest start after stop name)
  then show ?case using find_ref_bound [of rest start] by simp
qed

declare interpolate_value.simps [simp del]

fun interpolate_entries :: "(bytes \<Rightarrow> bytes option) \<Rightarrow> raw_section \<Rightarrow> raw_section \<Rightarrow> raw_section \<Rightarrow> config_error + raw_section" where
  "interpolate_entries env lookup [] acc = Inr acc"
| "interpolate_entries env lookup ((k, v, line) # m) acc =
     (case interpolate_value env lookup line [] v of
        Inl e \<Rightarrow> Inl e
      | Inr resolved \<Rightarrow> interpolate_entries env lookup m (bt_insert k (resolved, line) acc))"

definition interpolate_map :: "(bytes \<Rightarrow> bytes option) \<Rightarrow> raw_section \<Rightarrow> raw_section \<Rightarrow> config_error + raw_section" where
  "interpolate_map env m lookup = interpolate_entries env lookup m []"

section \<open>Parsing\<close>

definition strip_lines :: "raw_section \<Rightarrow> (bytes, bytes) btree" where
  "strip_lines m = map (\<lambda>(k, v, line). (k, v)) m"

definition identity_of :: "(bytes, bytes) btree \<Rightarrow> bytes list" where
  "identity_of m = map (\<lambda>k. case bt_get m k of None \<Rightarrow> [] | Some v \<Rightarrow> v)
     [''BeginString'', ''SenderCompID'', ''SenderSubID'', ''SenderLocationID'', ''TargetCompID'', ''TargetSubID'',
      ''TargetLocationID'', ''SessionQualifier'']"

fun join_with :: "bytes \<Rightarrow> bytes list \<Rightarrow> bytes" where
  "join_with sep [] = []"
| "join_with sep [x] = x"
| "join_with sep (x # y # ys) = x @ sep @ join_with sep (y # ys)"

fun check_duplicate_sessions :: "bytes list list \<Rightarrow> (bytes, bytes) btree list \<Rightarrow> config_error + unit" where
  "check_duplicate_sessions seen [] = Inr ()"
| "check_duplicate_sessions seen (m # ms) =
     (let i = identity_of m in
      if i \<in> set seen then Inl (DuplicateSession (join_with ''/'' i)) else check_duplicate_sessions (seen @ [i]) ms)"

fun resolve_sessions :: "(bytes \<Rightarrow> bytes option) \<Rightarrow> raw_section \<Rightarrow> raw_section list \<Rightarrow> config_error + raw_section list" where
  "resolve_sessions env default_map [] = Inr []"
| "resolve_sessions env default_map (m # ms) =
     (let merged = bt_extend m default_map in
      case interpolate_map env merged merged of
        Inl e \<Rightarrow> Inl e
      | Inr r \<Rightarrow> map_sum id ((#) r) (resolve_sessions env default_map ms))"

definition parse_settings :: "(bytes \<Rightarrow> bytes option) \<Rightarrow> bytes \<Rightarrow> config_error + session_settings" where
  "parse_settings env input =
     (case parse_lines 1 (text_lines input) \<lparr>pa_default = [], pa_sessions = [], pa_in_default = None, pa_current = []\<rparr> of
        Inl e \<Rightarrow> Inl e
      | Inr p0 \<Rightarrow>
          (let p = flush_section p0 in
           case interpolate_map env (pa_default p) (pa_default p) of
             Inl e \<Rightarrow> Inl e
           | Inr dflt \<Rightarrow>
               (case resolve_sessions env dflt (pa_sessions p) of
                  Inl e \<Rightarrow> Inl e
                | Inr rs \<Rightarrow>
                    (let ms = map strip_lines rs in
                     case check_duplicate_sessions [] ms of
                       Inl e \<Rightarrow> Inl e
                     | Inr _ \<Rightarrow> Inr \<lparr>set_default = strip_lines dflt, set_sessions = ms\<rparr>))))"

end
