(* ===== verification/Fix_Settings_Props.thy ===== *)
theory Fix_Settings_Props
  imports Fix_Settings
begin

text \<open>
  What a settings file means: a printed document of plain keys and values parses back to the
  sections it was printed from, every session inheriting the default section, and no accepted
  document defines the same session twice.
\<close>

section \<open>Ordered maps filled in order\<close>

lemma bt_insert_last: "\<forall>x\<in>fst ` set m. x < k \<Longrightarrow> bt_insert k v m = m @ [(k, v)]"
  by (induction k v m rule: bt_insert.induct) auto

lemma bt_extend_snoc: "bt_extend (m @ [(k, v)]) base = bt_insert k v (bt_extend m base)"
  by (simp add: bt_extend_def)

lemma bt_extend_Nil [simp]: "bt_extend [] base = base"
  by (simp add: bt_extend_def)

lemma bt_sorted_snoc: "bt_sorted (m @ [(k, v)]) \<longleftrightarrow> bt_sorted m \<and> (\<forall>x\<in>fst ` set m. x < k)"
  by (auto simp: bt_sorted_def sorted_wrt_append)

lemma bt_extend_empty: "bt_sorted m \<Longrightarrow> bt_extend m [] = m"
proof (induction m rule: rev_induct)
  case (snoc x m)
  then show ?case by (cases x) (auto simp: bt_extend_snoc bt_sorted_snoc bt_insert_last)
qed simp

lemma bt_extend_sorted: "bt_sorted base \<Longrightarrow> bt_sorted (bt_extend m base)"
  by (induction m arbitrary: base) (auto simp: bt_extend_def bt_sorted_insert)

lemma set_bt_insert_subset: "set (bt_insert k v m) \<subseteq> insert (k, v) (set m)"
  by (induction k v m rule: bt_insert.induct) auto

lemma bt_extend_entries: "set (bt_extend m base) \<subseteq> set m \<union> set base"
proof (induction m arbitrary: base)
  case (Cons x m)
  obtain k v where x: "x = (k, v)" by (cases x)
  have "set (bt_extend (x # m) base) \<subseteq> set m \<union> set (bt_insert k v base)" using Cons [of "bt_insert k v base"] by (simp add: x bt_extend_def)
  then show ?case using set_bt_insert_subset [of k v base] x by auto
qed simp

lemma bt_extend_keys: "fst ` set (bt_extend m base) = fst ` set m \<union> fst ` set base"
proof (induction m arbitrary: base)
  case (Cons x m)
  obtain k v where x: "x = (k, v)" by (cases x)
  show ?case using Cons [of "bt_insert k v base"] by (simp add: x bt_extend_def set_bt_insert)
qed simp

section \<open>Line numbers\<close>

fun tag_lines :: "nat \<Rightarrow> (bytes, bytes) btree \<Rightarrow> raw_section" where
  "tag_lines n [] = []"
| "tag_lines n ((k, v) # m) = (k, v, n) # tag_lines (Suc n) m"

lemma strip_tag [simp]: "strip_lines (tag_lines n m) = m"
  by (induction n m rule: tag_lines.induct) (auto simp: strip_lines_def)

lemma strip_insert: "strip_lines (bt_insert k (v, n) m) = bt_insert k v (strip_lines m)"
  by (induction k "(v, n)" m rule: bt_insert.induct) (auto simp: strip_lines_def)

lemma strip_extend: "strip_lines (bt_extend m base) = bt_extend (strip_lines m) (strip_lines base)"
proof (induction m arbitrary: base)
  case (Cons x m)
  obtain k v n where x: "x = (k, v, n)" by (cases x)
  show ?case using Cons [of "bt_insert k (v, n) base"] by (simp add: x bt_extend_def strip_insert) (simp add: strip_lines_def)
qed (simp add: strip_lines_def)

lemma strip_keys: "map fst (strip_lines m) = map fst m"
  by (auto simp: strip_lines_def)

lemma strip_sorted: "bt_sorted (strip_lines m) \<longleftrightarrow> bt_sorted m"
  by (simp add: bt_sorted_def strip_keys)

lemma strip_empty [simp]: "strip_lines m = [] \<longleftrightarrow> m = []"
  by (simp add: strip_lines_def)

section \<open>Interpolation\<close>

definition no_refs :: "raw_section \<Rightarrow> bool" where
  "no_refs m \<longleftrightarrow> (\<forall>(k, v, n)\<in>set m. find_ref v = None)"

lemma interpolate_plain: "find_ref v = None \<Longrightarrow> interpolate_value env lookup n rs v = Inr v"
  by (simp add: interpolate_value.simps)

lemma interpolate_entries_plain:
  "no_refs m \<Longrightarrow> interpolate_entries env lookup m acc = Inr (bt_extend m acc)"
proof (induction m arbitrary: acc)
  case (Cons x m)
  obtain k v n where x: "x = (k, v, n)" by (cases x)
  then have "find_ref v = None" "no_refs m" using Cons.prems by (auto simp: no_refs_def)
  then show ?case using Cons.IH [of "bt_insert k (v, n) acc"] by (simp add: x interpolate_plain bt_extend_def)
qed simp

lemma interpolate_map_plain: "no_refs m \<Longrightarrow> bt_sorted m \<Longrightarrow> interpolate_map env m lookup = Inr m"
  by (simp add: interpolate_map_def interpolate_entries_plain bt_extend_empty)

lemma no_refs_extend: "no_refs m \<Longrightarrow> no_refs base \<Longrightarrow> no_refs (bt_extend m base)"
  using bt_extend_entries [of m base] by (auto simp: no_refs_def)

lemma resolve_plain:
  "no_refs d \<Longrightarrow> bt_sorted d \<Longrightarrow> \<forall>m\<in>set ms. no_refs m \<Longrightarrow> resolve_sessions env d ms = Inr (map (\<lambda>m. bt_extend m d) ms)"
  by (induction ms) (simp_all add: no_refs_extend interpolate_map_plain bt_extend_sorted)

text \<open>Interpolation keeps the keys of a map.\<close>

lemma interpolate_entries_keys:
  "interpolate_entries env lookup m acc = Inr r \<Longrightarrow> fst ` set r = fst ` set m \<union> fst ` set acc"
proof (induction m arbitrary: acc)
  case (Cons x m)
  obtain k v n where x: "x = (k, v, n)" by (cases x)
  obtain y where "interpolate_entries env lookup m (bt_insert k (y, n) acc) = Inr r"
    using Cons.prems by (auto simp: x split: sum.splits)
  from Cons.IH [OF this] show ?case by (auto simp: x set_bt_insert)
qed simp

lemma interpolate_map_keys: "interpolate_map env m lookup = Inr r \<Longrightarrow> fst ` set r = fst ` set m"
  using interpolate_entries_keys [of env lookup m "[]" r] by (simp add: interpolate_map_def)

lemma resolve_keys:
  "resolve_sessions env d ms = Inr rs \<Longrightarrow> r \<in> set rs \<Longrightarrow> fst ` set d \<subseteq> fst ` set r"
proof (induction ms arbitrary: rs)
  case (Cons m ms)
  obtain r0 rs' where "interpolate_map env (bt_extend m d) (bt_extend m d) = Inr r0" "resolve_sessions env d ms = Inr rs'" "rs = r0 # rs'"
    using Cons.prems(1) by (cases "resolve_sessions env d ms") (auto simp: Let_def split: sum.splits)
  then show ?case using Cons interpolate_map_keys [of env "bt_extend m d" "bt_extend m d" r0] bt_extend_keys [of m d] by auto
qed simp

section \<open>Duplicate sessions\<close>

lemma check_duplicates_distinct:
  "check_duplicate_sessions seen ms = Inr () \<Longrightarrow> distinct seen \<Longrightarrow> distinct (seen @ map identity_of ms)"
  by (induction seen ms rule: check_duplicate_sessions.induct) (auto simp: Let_def split: if_splits)

lemma check_duplicates_ok:
  "distinct (seen @ map identity_of ms) \<Longrightarrow> check_duplicate_sessions seen ms = Inr ()"
  by (induction seen ms rule: check_duplicate_sessions.induct) (auto simp: Let_def)

section \<open>Printed documents\<close>

definition entry_line :: "bytes \<times> bytes \<Rightarrow> bytes" where
  "entry_line e = fst e @ ''='' @ snd e"

definition section_lines :: "bytes \<Rightarrow> (bytes, bytes) btree \<Rightarrow> bytes list" where
  "section_lines name m = (''['' @ name @ '']'') # map entry_line m"

definition document_lines :: "(bytes, bytes) btree \<Rightarrow> (bytes, bytes) btree list \<Rightarrow> bytes list" where
  "document_lines d ms = section_lines ''DEFAULT'' d @ concat (map (section_lines ''SESSION'') ms)"

definition print_settings :: "(bytes, bytes) btree \<Rightarrow> (bytes, bytes) btree list \<Rightarrow> bytes" where
  "print_settings d ms = concat (map (\<lambda>l. l @ [CHR 0x0A]) (document_lines d ms))"

definition plain_key :: "bytes \<Rightarrow> bool" where
  "plain_key k \<longleftrightarrow> k \<noteq> [] \<and> hd k \<noteq> CHR ''['' \<and> list_all (\<lambda>c. visible c \<and> c \<noteq> CHR ''='' \<and> c \<noteq> CHR ''#'') k"

definition plain_value :: "bytes \<Rightarrow> bool" where
  "plain_value v \<longleftrightarrow> (v = [] \<or> visible (hd v) \<and> visible (last v))
     \<and> list_all (\<lambda>c. (visible c \<or> c = CHR '' '') \<and> c \<noteq> CHR ''#'') v \<and> find_ref v = None"

definition plain_entries :: "(bytes, bytes) btree \<Rightarrow> bool" where
  "plain_entries m \<longleftrightarrow> bt_sorted m \<and> list_all (\<lambda>e. plain_key (fst e) \<and> plain_value (snd e)) m"

lemma strip_comment_none: "CHR ''#'' \<notin> set cs \<Longrightarrow> strip_comment_from seen cs = rev seen @ cs"
  by (induction cs arbitrary: seen) auto

lemma entry_line_shape:
  assumes "plain_key k" "plain_value v"
  shows "CHR ''#'' \<notin> set (entry_line (k, v))" "trim (entry_line (k, v)) = entry_line (k, v)"
    "section_header (entry_line (k, v)) = None" "split_once (CHR ''='') (entry_line (k, v)) = Some (k, v)"
    "trim k = k" "trim v = v"
proof -
  obtain c k' where k: "k = c # k'" "visible c" "c \<noteq> CHR ''[''" using assms(1) by (cases k) (auto simp: plain_key_def)
  have eq: "visible (CHR ''='')" by (simp add: visible_def)
  show "CHR ''#'' \<notin> set (entry_line (k, v))" using assms by (auto simp: entry_line_def plain_key_def plain_value_def list_all_iff)
  show "trim (entry_line (k, v)) = entry_line (k, v)"
    by (rule trim_visible) (use assms(2) k eq in \<open>auto simp: entry_line_def plain_value_def\<close>)
  show "section_header (entry_line (k, v)) = None" using k(1,3) by (simp add: section_header_def entry_line_def strip_pfx_def)
  have "CHR ''='' \<notin> set k" using assms(1) by (auto simp: plain_key_def list_all_iff)
  then show "split_once (CHR ''='') (entry_line (k, v)) = Some (k, v)"
    using find_byte_append [of "CHR ''=''" k v] by (simp add: split_once_def entry_line_def)
  have "last k \<in> set k" using k(1) by simp
  then have "visible (last k)" using assms(1) by (auto simp: plain_key_def list_all_iff)
  then show "trim k = k" using k by (intro trim_visible) simp
  show "trim v = v" using assms(2) by (intro trim_visible) (auto simp: plain_value_def)
qed

lemma parse_entry_line:
  "plain_key k \<Longrightarrow> plain_value v \<Longrightarrow>
   parse_line n (entry_line (k, v)) p = Inr (p\<lparr>pa_current := bt_insert k (v, n) (pa_current p)\<rparr>)"
proof -
  assume a: "plain_key k" "plain_value v"
  note e = entry_line_shape [OF a]
  have "strip_comment (entry_line (k, v)) = entry_line (k, v)" using e(1) by (simp add: strip_comment_def strip_comment_none)
  moreover have "entry_line (k, v) \<noteq> []" by (simp add: entry_line_def)
  ultimately show ?thesis using e by (simp add: parse_line_def Let_def)
qed

lemma parse_entry_lines:
  "list_all (\<lambda>e. plain_key (fst e) \<and> plain_value (snd e)) m \<Longrightarrow>
   parse_lines n (map entry_line m @ ls) p = parse_lines (n + length m) ls (p\<lparr>pa_current := bt_extend (tag_lines n m) (pa_current p)\<rparr>)"
proof (induction m arbitrary: n p)
  case (Cons x m)
  obtain k v where x: "x = (k, v)" by (cases x)
  show ?case using Cons by (simp add: x parse_entry_line bt_extend_def)
qed simp


lemma parse_header_line:
  "parse_line n ''[DEFAULT]'' p = Inr ((flush_section p)\<lparr>pa_in_default := Some True, pa_current := []\<rparr>)"
  "parse_line n ''[SESSION]'' p = Inr ((flush_section p)\<lparr>pa_in_default := Some False, pa_current := []\<rparr>)"
proof -
  have "trim (strip_comment ''[DEFAULT]'') = ''[DEFAULT]''" "section_header ''[DEFAULT]'' = Some ''DEFAULT''"
    "eq_ignore_ascii_case ''DEFAULT'' ''DEFAULT''" by code_simp+
  then show "parse_line n ''[DEFAULT]'' p = Inr ((flush_section p)\<lparr>pa_in_default := Some True, pa_current := []\<rparr>)"
    by (simp add: parse_line_def)
  have "trim (strip_comment ''[SESSION]'') = ''[SESSION]''" "section_header ''[SESSION]'' = Some ''SESSION''"
    "\<not> eq_ignore_ascii_case ''SESSION'' ''DEFAULT''" by code_simp+
  then show "parse_line n ''[SESSION]'' p = Inr ((flush_section p)\<lparr>pa_in_default := Some False, pa_current := []\<rparr>)"
    by (simp add: parse_line_def)
qed

lemma tag_sorted: "bt_sorted m \<Longrightarrow> bt_sorted (tag_lines n m)"
  using strip_sorted [of "tag_lines n m"] by simp

lemma tag_empty [simp]: "tag_lines n m = [] \<longleftrightarrow> m = []"
  by (cases m) auto

text \<open>Reading the session sections one after the other.\<close>

fun tag_sessions :: "nat \<Rightarrow> (bytes, bytes) btree list \<Rightarrow> raw_section list" where
  "tag_sessions n [] = []"
| "tag_sessions n (m # ms) = tag_lines (Suc n) m # tag_sessions (n + 1 + length m) ms"

lemma parse_sessions:
  assumes "\<forall>m\<in>set ms. plain_entries m \<and> m \<noteq> []"
  shows "\<exists>p'. parse_lines n (concat (map (section_lines ''SESSION'') ms)) p = Inr p'
    \<and> flush_section p' = (flush_section p)\<lparr>pa_sessions := pa_sessions (flush_section p) @ tag_sessions n ms,
         pa_in_default := pa_in_default p'\<rparr>"
  using assms
proof (induction ms arbitrary: n p)
  case Nil
  then show ?case by (simp add: flush_section_def split: option.splits bool.splits)
next
  case (Cons m ms)
  have m: "list_all (\<lambda>e. plain_key (fst e) \<and> plain_value (snd e)) m" "bt_sorted m" "m \<noteq> []"
    using Cons.prems by (auto simp: plain_entries_def)
  define p1 where "p1 = (flush_section p)\<lparr>pa_in_default := Some False, pa_current := tag_lines (Suc n) m\<rparr>"
  have "parse_lines n (concat (map (section_lines ''SESSION'') (m # ms))) p
      = parse_lines (n + 1 + length m) (concat (map (section_lines ''SESSION'') ms)) p1"
    using parse_entry_lines [OF m(1), of "Suc n"]
    by (simp add: section_lines_def parse_header_line p1_def bt_extend_empty tag_sorted m(2))
  moreover obtain p' where "parse_lines (n + 1 + length m) (concat (map (section_lines ''SESSION'') ms)) p1 = Inr p'"
    "flush_section p' = (flush_section p1)\<lparr>pa_sessions := pa_sessions (flush_section p1) @ tag_sessions (n + 1 + length m) ms, pa_in_default := pa_in_default p'\<rparr>"
    using Cons.IH Cons.prems by (metis list.set_intros(2))
  moreover have "flush_section p1 = (flush_section p)\<lparr>pa_sessions := pa_sessions (flush_section p) @ [tag_lines (Suc n) m], pa_in_default := Some False\<rparr>"
    using m(3) by (auto simp: p1_def flush_section_def split: option.splits bool.splits)
  ultimately show ?case by auto
qed

lemma parse_document:
  assumes "plain_entries d" "\<forall>m\<in>set ms. plain_entries m \<and> m \<noteq> []"
  shows "\<exists>p. parse_lines 1 (document_lines d ms) \<lparr>pa_default = [], pa_sessions = [], pa_in_default = None, pa_current = []\<rparr> = Inr p
    \<and> pa_default (flush_section p) = tag_lines 2 d \<and> pa_sessions (flush_section p) = tag_sessions (2 + length d) ms"
proof -
  let ?p0 = "\<lparr>pa_default = [], pa_sessions = [], pa_in_default = None, pa_current = []\<rparr>"
  have d: "list_all (\<lambda>e. plain_key (fst e) \<and> plain_value (snd e)) d" "bt_sorted d" using assms(1) by (auto simp: plain_entries_def)
  define p1 where "p1 = \<lparr>pa_default = [], pa_sessions = [], pa_in_default = Some True, pa_current = tag_lines 2 d\<rparr>"
  have "parse_lines 1 (document_lines d ms) ?p0 = parse_lines (2 + length d) (concat (map (section_lines ''SESSION'') ms)) p1"
    using parse_entry_lines [OF d(1), of 2]
    by (simp add: document_lines_def section_lines_def parse_header_line flush_section_def p1_def bt_extend_empty tag_sorted d(2)
        numeral_2_eq_2)
  moreover have "flush_section p1 = p1\<lparr>pa_default := tag_lines 2 d, pa_current := []\<rparr>"
    by (simp add: p1_def flush_section_def bt_extend_empty tag_sorted d(2))
  ultimately show ?thesis using parse_sessions [OF assms(2), of "2 + length d" p1] by (auto simp: p1_def)
qed


lemma split_all_first: "c \<notin> set l \<Longrightarrow> split_all c (l @ c # rest) = l # split_all c rest"
  by (induction l) auto

lemma text_lines_printed:
  assumes "\<forall>l\<in>set ls. CHR 0x0A \<notin> set l \<and> (l = [] \<or> last l \<noteq> CHR 0x0D)"
  shows "text_lines (concat (map (\<lambda>l. l @ [CHR 0x0A]) ls)) = ls"
proof -
  have "split_all (CHR 0x0A) (concat (map (\<lambda>l. l @ [CHR 0x0A]) ls)) = ls @ [[]]"
    using assms by (induction ls) (auto simp: split_all_first)
  moreover have "map drop_cr ls = ls" using assms by (intro map_idI) (auto simp: drop_cr_def)
  ultimately show ?thesis by (simp add: text_lines_def)
qed

lemma visible_not_break: "visible c \<or> c = CHR '' '' \<Longrightarrow> c \<noteq> CHR 0x0A \<and> c \<noteq> CHR 0x0D"
  by (auto simp: visible_def)

lemma section_lines_unbroken:
  assumes "plain_entries m" "l \<in> set (section_lines name m)" "CHR 0x0A \<notin> set name"
  shows "CHR 0x0A \<notin> set l \<and> (l = [] \<or> last l \<noteq> CHR 0x0D)"
proof (cases "l = ''['' @ name @ '']''")
  case True
  then show ?thesis using assms(3) by simp
next
  case False
  then obtain k v where kv: "(k, v) \<in> set m" "l = entry_line (k, v)" using assms(2) by (auto simp: section_lines_def)
  then have p: "plain_key k" "plain_value v" using assms(1) by (auto simp: plain_entries_def list_all_iff)
  then have "\<forall>c\<in>set l. visible c \<or> c = CHR '' ''"
    using kv(2) by (auto simp: entry_line_def plain_key_def plain_value_def list_all_iff visible_def)
  then show ?thesis using visible_not_break last_in_set by blast
qed

lemma document_unbroken:
  assumes "plain_entries d" "\<forall>m\<in>set ms. plain_entries m" "l \<in> set (document_lines d ms)"
  shows "CHR 0x0A \<notin> set l \<and> (l = [] \<or> last l \<noteq> CHR 0x0D)"
proof -
  have names: "CHR 0x0A \<notin> set ''DEFAULT''" "CHR 0x0A \<notin> set ''SESSION''" by simp_all
  show ?thesis
    using assms section_lines_unbroken [OF _ _ names(1)] section_lines_unbroken [OF _ _ names(2)]
    unfolding document_lines_def by fastforce
qed

lemma no_refs_tag: "plain_entries m \<Longrightarrow> no_refs (tag_lines n m)"
proof -
  have "list_all (\<lambda>e. plain_key (fst e) \<and> plain_value (snd e)) m \<Longrightarrow> no_refs (tag_lines n m)" for n
    by (induction n m rule: tag_lines.induct) (auto simp: no_refs_def plain_value_def)
  then show "plain_entries m \<Longrightarrow> no_refs (tag_lines n m)" by (simp add: plain_entries_def)
qed

lemma tag_sessions_plain: "\<forall>m\<in>set ms. plain_entries m \<Longrightarrow> \<forall>t\<in>set (tag_sessions n ms). no_refs t"
  by (induction n ms rule: tag_sessions.induct) (auto simp: no_refs_tag)

lemma strip_tag_sessions: "map strip_lines (map (\<lambda>m. bt_extend m (tag_lines k d)) (tag_sessions n ms)) = map (\<lambda>m. bt_extend m d) ms"
  by (induction n ms rule: tag_sessions.induct) (auto simp: strip_extend)

section \<open>Properties\<close>

text \<open>
  C28. Settings files mean what they say. A document printed from a default section and session sections
  of plain keys and values parses back to exactly those: the default section as it was, and every
  session with its own settings over the inherited ones, in the order they were printed.
\<close>

theorem parse_printed_settings:
  assumes "plain_entries d" "\<forall>m\<in>set ms. plain_entries m \<and> m \<noteq> []" "distinct (map (\<lambda>m. identity_of (bt_extend m d)) ms)"
  shows "parse_settings env (print_settings d ms) = Inr \<lparr>set_default = d, set_sessions = map (\<lambda>m. bt_extend m d) ms\<rparr>"
proof -
  have plain: "\<forall>m\<in>set ms. plain_entries m" using assms(2) by blast
  have lines: "text_lines (print_settings d ms) = document_lines d ms"
    unfolding print_settings_def by (rule text_lines_printed) (use document_unbroken [OF assms(1) plain] in blast)
  obtain p where p: "parse_lines 1 (document_lines d ms) \<lparr>pa_default = [], pa_sessions = [], pa_in_default = None, pa_current = []\<rparr> = Inr p"
    "pa_default (flush_section p) = tag_lines 2 d" "pa_sessions (flush_section p) = tag_sessions (2 + length d) ms"
    using parse_document [OF assms(1,2)] by blast
  have d: "no_refs (tag_lines 2 d)" "bt_sorted (tag_lines 2 d)"
    using assms(1) by (simp_all add: no_refs_tag tag_sorted plain_entries_def)
  have r: "resolve_sessions env (tag_lines 2 d) (tag_sessions (2 + length d) ms) = Inr (map (\<lambda>m. bt_extend m (tag_lines 2 d)) (tag_sessions (2 + length d) ms))"
    using resolve_plain [OF d] tag_sessions_plain [OF plain] by blast
  have "check_duplicate_sessions [] (map (\<lambda>m. bt_extend m d) ms) = Inr ()"
    by (rule check_duplicates_ok) (use assms(3) in \<open>simp add: comp_def\<close>)
  then show ?thesis
    unfolding parse_settings_def lines p(1) sum.case Let_def p(2,3) interpolate_map_plain [OF d] r strip_tag_sessions by simp
qed

theorem parse_printed_settings_witness:
  "parse_settings (\<lambda>_. None) (print_settings [(''HeartBtInt'', ''30'')]
       [[(''SenderCompID'', ''A B'')], [(''HeartBtInt'', ''10''), (''SenderCompID'', ''C'')]])
   = Inr \<lparr>set_default = [(''HeartBtInt'', ''30'')],
          set_sessions = [[(''HeartBtInt'', ''30''), (''SenderCompID'', ''A B'')], [(''HeartBtInt'', ''10''), (''SenderCompID'', ''C'')]]\<rparr>"
proof -
  let ?d = "[(''HeartBtInt'', ''30'')]" and ?ms = "[[(''SenderCompID'', ''A B'')], [(''HeartBtInt'', ''10''), (''SenderCompID'', ''C'')]]"
  have "plain_entries ?d" "\<forall>m\<in>set ?ms. plain_entries m \<and> m \<noteq> []" "distinct (map (\<lambda>m. identity_of (bt_extend m ?d)) ?ms)" by code_simp+
  from parse_printed_settings [OF this, of "\<lambda>_. None"] show ?thesis by (simp add: bt_extend_def)
qed

text \<open>
  Whatever document is accepted, its sessions have pairwise different identities, and every key of
  the default section is a key of every session.
\<close>

theorem settings_sessions_distinct:
  assumes "parse_settings env input = Inr r"
  shows "distinct (map identity_of (set_sessions r)) \<and> (\<forall>m\<in>set (set_sessions r). fst ` set (set_default r) \<subseteq> fst ` set m)"
proof -
  obtain ss dflt rs where p: "resolve_sessions env dflt ss = Inr rs" "check_duplicate_sessions [] (map strip_lines rs) = Inr ()" "r = \<lparr>set_default = strip_lines dflt, set_sessions = map strip_lines rs\<rparr>"
    using assms by (auto simp: parse_settings_def Let_def split: sum.splits)
  have "fst ` set (strip_lines m) = fst ` set m" for m
    using arg_cong [OF strip_keys [of m], of set] by simp
  then show ?thesis
    using check_duplicates_distinct [OF p(2)] resolve_keys [OF p(1)] p(3) by auto
qed

theorem settings_sessions_distinct_witness:
  "distinct (map identity_of [[(''SenderCompID'', ''A'')], [(''SenderCompID'', ''B'')]])"
proof -
  let ?in = "''[session]'' @ [CHR 0x0A] @ ''SenderCompID=A # first'' @ [CHR 0x0A] @ ''[session]'' @ [CHR 0x0A] @ ''SenderCompID = B''"
  have "parse_settings (\<lambda>_. None) ?in = Inr \<lparr>set_default = [], set_sessions = [[(''SenderCompID'', ''A'')], [(''SenderCompID'', ''B'')]]\<rparr>"
    by code_simp
  from settings_sessions_distinct [OF this] show ?thesis by simp
qed

end
