(* ===== verification/Fix_Fast_Wire.thy ===== *)
theory Fix_Fast_Wire
  imports Fix_Text "HOL-Library.Word"
begin

text \<open>
  The wire primitives of the FAST codec: stop-bit integers (\<^verbatim>\<open>fast/varint.rs\<close>) on 64-bit words and
  presence maps (\<^verbatim>\<open>fast/presence_map.rs\<close>) on 8-bit words, with the errors of \<^verbatim>\<open>fast/error.rs\<close>. The locale
  \<open>offset_codec\<close> is what the message codec relies on: reading at an offset what was written there.
\<close>

unbundle bit_operations_syntax

section \<open>Errors\<close>

text \<open>The reason of an unsupported value; the text of a failed integer parse comes from the standard library.\<close>

datatype unsupported = Reason string | ParseIntError

datatype fast_error =
    FastTruncated nat
  | InvalidStopBit nat
  | PresenceMapMismatch tag nat
  | FastUnknownTemplateId nat
  | FastUnsupportedValue tag unsupported

section \<open>Bytes as words\<close>

type_synonym u8 = "8 word"
type_synonym u64 = "64 word"

definition to_u8 :: "char \<Rightarrow> u8" where
  "to_u8 c = of_char c"

definition of_u8 :: "u8 \<Rightarrow> char" where
  "of_u8 w = char_of (unat w)"

lemma to_of_u8 [simp]: "to_u8 (of_u8 w) = w"
proof -
  have "to_u8 (of_u8 w) = of_nat (of_char (char_of (unat w) :: char))" by (simp only: to_u8_def of_u8_def of_nat_of_char)
  also have "\<dots> = of_nat (unat w mod 256)" by (simp only: of_char_of)
  also have "\<dots> = w" using unsigned_less [where ?'a = nat, of w] by simp
  finally show ?thesis .
qed

section \<open>Stop-bit integers\<close>

lemma unat_drop7: "unat (drop_bit 7 v) = unat v div 128" for v :: u64
  by (simp only: unat_drop_bit_eq) (simp add: drop_bit_eq_div)

text \<open>The groups of seven bits, the least significant one first.\<close>

function split7 :: "u64 \<Rightarrow> u8 list" where
  "split7 val = ucast (val AND 0x7F) # (if drop_bit 7 val = 0 then [] else split7 (drop_bit 7 val))"
  by pat_completeness auto
termination
proof (relation "measure unat")
  fix val :: u64
  assume "drop_bit 7 val \<noteq> 0"
  then have "val \<noteq> 0" by auto
  then have "unat val div 128 < unat val" by (simp add: unat_gt_0)
  then show "(drop_bit 7 val, val) \<in> measure unat" by (simp only: in_measure unat_drop7)
qed simp

declare split7.simps [simp del]

text \<open>The groups as bytes, the stop bit set in the last one.\<close>

fun with_stop :: "u8 list \<Rightarrow> bytes" where
  "with_stop [] = []"
| "with_stop [p] = [of_u8 (p OR 0x80)]"
| "with_stop (p # q # ps) = of_u8 p # with_stop (q # ps)"

definition encode_u64 :: "u64 \<Rightarrow> bytes" where
  "encode_u64 val = with_stop (rev (split7 val))"

function decode_loop7 :: "bytes \<Rightarrow> nat \<Rightarrow> u64 \<Rightarrow> nat \<Rightarrow> nat \<Rightarrow> fast_error + u64 \<times> nat" where
  "decode_loop7 bs offset val n pos =
     (case get_at bs pos of
        None \<Rightarrow> Inl (FastTruncated pos)
      | Some c \<Rightarrow>
          if 10 \<le> n then Inl (InvalidStopBit offset)
          else
            (let v = push_bit 7 val OR ucast (to_u8 c AND 0x7F)
             in if to_u8 c AND 0x80 \<noteq> 0 then Inr (v, Suc pos)
                else decode_loop7 bs offset v (Suc n) (Suc pos)))"
  by pat_completeness auto
termination
  by (relation "measure (\<lambda>(bs, offset, val, n, pos). 10 - n)") auto

declare decode_loop7.simps [simp del]

definition decode_u64 :: "bytes \<Rightarrow> nat \<Rightarrow> fast_error + u64 \<times> nat" where
  "decode_u64 bs offset = decode_loop7 bs offset 0 0 offset"

text \<open>Signed integers, a word read as two's complement: zig-zag before and after.\<close>

definition encode_i64 :: "u64 \<Rightarrow> bytes" where
  "encode_i64 val = encode_u64 (push_bit 1 val XOR signed_drop_bit 63 val)"

definition decode_i64 :: "bytes \<Rightarrow> nat \<Rightarrow> fast_error + u64 \<times> nat" where
  "decode_i64 bs offset =
     (case decode_u64 bs offset of
        Inl e \<Rightarrow> Inl e
      | Inr (raw, next) \<Rightarrow> Inr (drop_bit 1 raw XOR - (raw AND 1), next))"

section \<open>Presence maps\<close>

definition pmap_bit :: "bool list \<Rightarrow> nat \<Rightarrow> bool" where
  "pmap_bit bits i = (case get_at bits i of None \<Rightarrow> False | Some b \<Rightarrow> b)"

fun pmap_pack :: "u8 \<Rightarrow> nat \<Rightarrow> bool list \<Rightarrow> u8 list" where
  "pmap_pack current n [] = (if n \<noteq> 0 then [push_bit (7 - n) current] else [])"
| "pmap_pack current n (b # bs) =
     (let c = (if b then push_bit 1 current OR 1 else push_bit 1 current)
      in if Suc n = 7 then c # pmap_pack 0 0 bs else pmap_pack c (Suc n) bs)"

definition pmap_encode :: "bool list \<Rightarrow> bytes" where
  "pmap_encode bits =
     (let out = pmap_pack 0 0 bits
      in if out = [] then [of_u8 0x80] else with_stop out)"

text \<open>The seven bits of a byte, the highest first.\<close>

definition row :: "u8 \<Rightarrow> bool list" where
  "row w = map (\<lambda>shift. w AND push_bit shift 1 \<noteq> 0) (rev [0..<7])"

function pmap_loop :: "bytes \<Rightarrow> nat \<Rightarrow> bool list \<Rightarrow> nat \<Rightarrow> fast_error + bool list \<times> nat" where
  "pmap_loop bs offset bits pos =
     (case get_at bs pos of
        None \<Rightarrow> Inl (FastTruncated pos)
      | Some c \<Rightarrow>
          (let bits' = bits @ row (to_u8 c)
           in if to_u8 c AND 0x80 \<noteq> 0 then Inr (bits', Suc pos)
              else if 16 < Suc pos - offset then Inl (InvalidStopBit offset)
              else pmap_loop bs offset bits' (Suc pos)))"
  by pat_completeness auto
termination
  by (relation "measure (\<lambda>(bs, offset, bits, pos). length bs - pos)") (auto simp: get_at_def split: if_splits)

declare pmap_loop.simps [simp del]

definition pmap_decode :: "bytes \<Rightarrow> nat \<Rightarrow> fast_error + bool list \<times> nat" where
  "pmap_decode bs offset = pmap_loop bs offset [] offset"

section \<open>Reading what was written\<close>

text \<open>
  The contract between a writer and a reader at an offset, and what it gives for a sequence of values:
  the reader, started where the first was written, returns them all and stops behind the last.
\<close>

locale offset_codec =
  fixes fits :: "'a \<Rightarrow> bool"
    and put :: "'a \<Rightarrow> bytes"
    and fetch :: "bytes \<Rightarrow> nat \<Rightarrow> 'e + 'b \<times> nat"
    and view :: "'a \<Rightarrow> 'b"
  assumes fetch_put: "fits x \<Longrightarrow> fetch (pre @ put x @ post) (length pre) = Inr (view x, length pre + length (put x))"
begin

fun fetch_all :: "nat \<Rightarrow> bytes \<Rightarrow> nat \<Rightarrow> 'e + 'b list \<times> nat" where
  "fetch_all 0 bs pos = Inr ([], pos)"
| "fetch_all (Suc n) bs pos =
     (case fetch bs pos of Inl e \<Rightarrow> Inl e
      | Inr (x, pos') \<Rightarrow> (case fetch_all n bs pos' of Inl e \<Rightarrow> Inl e | Inr (xs, q) \<Rightarrow> Inr (x # xs, q)))"

lemma fetch_all_put:
  "\<forall>x\<in>set xs. fits x \<Longrightarrow>
     fetch_all (length xs) (pre @ concat (map put xs) @ post) (length pre) = Inr (map view xs, length pre + length (concat (map put xs)))"
proof (induction xs arbitrary: pre)
  case (Cons x xs)
  show ?case
    using Cons.IH [of "pre @ put x"] Cons.prems fetch_put [of x pre "concat (map put xs) @ post"] by simp
qed simp

lemma fetch_put_end: "fits x \<Longrightarrow> fetch (pre @ put x) (length pre) = Inr (view x, length pre + length (put x))"
  using fetch_put [of x pre "[]"] by simp

lemma fetch_put_start: "fits x \<Longrightarrow> fetch (put x @ post) 0 = Inr (view x, length (put x))"
  using fetch_put [of x "[]" post] by simp

end

section \<open>Integers read back\<close>

lemma bit_7F: "bit (0x7F :: int) n \<longleftrightarrow> n < 7"
proof -
  have "(0x7F :: int) = mask 7" by (simp add: mask_eq_exp_minus_1)
  then show ?thesis by (simp only: bit_mask_iff) simp
qed

lemma bit_80: "bit (0x80 :: int) n \<longleftrightarrow> n = 7"
proof -
  have "(0x80 :: int) = 2 ^ 7" by simp
  then show ?thesis by (simp only: bit_exp_iff) auto
qed

lemma stop_bit: "c AND 0x80 \<noteq> 0 \<longleftrightarrow> bit c 7" for c :: u8
  using and_exp_eq_0_iff_not_bit [of c 7] by simp

lemma stop_bit_set: "(p OR 0x80) AND 0x80 \<noteq> (0 :: u8)"
  unfolding stop_bit by (simp add: bit_or_iff bit_80)

lemma stop_group [simp]: "(p OR 0x80) AND 0x7F = p AND (0x7F :: u8)"
  by (rule bit_eqI) (auto simp: bit_simps bit_7F bit_80)

lemma group_word: "ucast (ucast (v AND 0x7F) AND 0x7F :: u8) = v AND (0x7F :: u64)"
  by (rule bit_eqI) (auto simp: bit_simps bit_7F)

lemma join7: "push_bit 7 (drop_bit 7 v) OR (v AND 0x7F) = (v :: u64)"
  by (rule bit_eqI) (auto simp: bit_simps bit_7F)

lemma zigzag: "drop_bit 1 z XOR - (z AND 1) = v" if "z = push_bit 1 v XOR signed_drop_bit 63 v" for v z :: u64
proof -
  have b: "bit z 0 \<longleftrightarrow> bit v 63" unfolding that bit_xor_iff bit_push_bit_iff bit_signed_drop_bit_iff by simp
  then have m: "- (z AND 1) = (if bit v 63 then - 1 else 0)" using and_exp_eq_0_iff_not_bit [of z 0] by (auto simp: and_one_eq bit_0 mod_2_eq_odd)
  have "bit (drop_bit 1 z) n \<longleftrightarrow> n < 63 \<and> (bit v n \<noteq> bit v 63)" if "n < 64" for n
    unfolding \<open>z = _\<close> bit_drop_bit_eq bit_xor_iff bit_push_bit_iff bit_signed_drop_bit_iff comp_def using that by (auto simp: bit_word_def less_Suc_eq)
  moreover have "n < 64 \<longleftrightarrow> n < 63 \<or> n = 63" for n :: nat by auto
  ultimately show ?thesis unfolding m by (intro bit_eqI) (auto simp: bit_xor_iff)
qed

lemma get_at_middle [simp]: "get_at (pre @ x # post) (length pre) = Some x"
  by (simp add: get_at_def)

text \<open>Reading groups without the stop bit shifts them in one by one.\<close>

lemma decode_loop7_groups:
  assumes "\<forall>p\<in>set ps. \<not> bit p 7" "n + length ps \<le> 10"
  shows "decode_loop7 (pre @ map of_u8 ps @ post) offset val n (length pre)
    = decode_loop7 (pre @ map of_u8 ps @ post) offset (fold (\<lambda>p v. push_bit 7 v OR ucast (p AND 0x7F)) ps val) (n + length ps)
        (length pre + length ps)"
  using assms
proof (induction ps arbitrary: pre val n)
  case (Cons p ps)
  then show ?case
    using Cons.IH [of "Suc n" "pre @ [of_u8 p]"]
    by (subst decode_loop7.simps) (simp add: stop_bit Let_def)
qed simp

lemma with_stop_snoc: "with_stop (ps @ [p]) = map of_u8 ps @ [of_u8 (p OR 0x80)]"
  by (induction ps rule: with_stop.induct) auto

lemma split7_groups: "p \<in> set (split7 v) \<Longrightarrow> \<not> bit p 7"
  by (induction v rule: split7.induct) (subst (asm) (2) split7.simps, auto simp: bit_simps bit_7F split: if_splits)

lemma split7_fold: "fold (\<lambda>p v. push_bit 7 v OR ucast (p AND 0x7F)) (rev (split7 v)) 0 = v"
proof (induction v rule: split7.induct)
  case (1 v)
  show ?case
  proof (cases "drop_bit 7 v = 0")
    case True
    then have "v AND 0x7F = v" using join7 [of v] by simp
    then show ?thesis using True group_word [of v] by (simp only: split7.simps [of v]) simp
  next
    case False
    then show ?thesis using join7 [of v] 1 by (subst split7.simps) (simp add: group_word)
  qed
qed

lemma split7_length: "unat v < 2 ^ (7 * Suc k) \<Longrightarrow> length (split7 v) \<le> Suc k"
proof (induction k arbitrary: v)
  case 0
  then have "unat (drop_bit 7 v) = 0" unfolding unat_drop7 by simp
  then have "drop_bit 7 v = 0" unfolding unat_eq_zero .
  then show ?case by (subst split7.simps) simp
next
  case (Suc k)
  then have "unat (drop_bit 7 v) < 2 ^ (7 * Suc k)"
    unfolding unat_drop7 by (simp add: div_less_iff_less_mult power_add mult.commute)
  from Suc.IH [OF this] show ?case by (subst split7.simps) simp
qed

lemma split7_length_10: "length (split7 v) \<le> 10"
  using split7_length [of v 9] unsigned_less [where ?'a = nat, of v] by simp

lemma encode_u64_length: "length (encode_u64 v) \<le> 10"
  using split7_length_10 [of v] length_rev [of "split7 v"]
  by (cases "rev (split7 v)" rule: rev_cases) (simp_all add: encode_u64_def with_stop_snoc del: length_rev)

lemma decode_encode_u64:
  "decode_u64 (pre @ encode_u64 v @ post) (length pre) = Inr (v, length pre + length (encode_u64 v))"
proof -
  obtain ps p where g: "rev (split7 v) = ps @ [p]" by (cases "rev (split7 v)" rule: rev_cases) (simp_all add: split7.simps)
  then have l: "length ps < 10" using split7_length_10 [of v] length_rev [of "split7 v"] by simp
  have "\<forall>q\<in>set ps. \<not> bit q 7" using split7_groups [of _ v] g by (metis Un_iff set_append set_rev)
  then show ?thesis
    using decode_loop7_groups [of ps 0 pre "of_u8 (p OR 0x80) # post" "length pre" 0] l split7_fold [of v]
      get_at_middle [of "pre @ map of_u8 ps" "of_u8 (p OR 0x80)" post]
    by (simp add: decode_u64_def encode_u64_def with_stop_snoc g) (subst decode_loop7.simps, simp add: stop_bit_set Let_def)
qed

interpretation varint: offset_codec "\<lambda>_. True" encode_u64 decode_u64 "\<lambda>v. v"
  by unfold_locales (rule decode_encode_u64)

interpretation svarint: offset_codec "\<lambda>_. True" encode_i64 decode_i64 "\<lambda>v. v"
  by unfold_locales (simp only: encode_i64_def decode_i64_def decode_encode_u64 zigzag [OF refl] sum.case prod.case)

section \<open>Presence maps read back\<close>

abbreviation packed :: "bool list \<Rightarrow> u8" where
  "packed bs \<equiv> horner_sum of_bool 2 (rev bs)"

lemma row_nth: "n < 7 \<Longrightarrow> row w ! n = bit w (6 - n)"
proof -
  assume "n < 7"
  then have "row w ! n \<longleftrightarrow> w AND 2 ^ (6 - n) \<noteq> 0" by (simp add: row_def rev_nth nth_append push_bit_of_1 del: upt_Suc)
  then show ?thesis by (simp add: and_exp_eq_0_iff_not_bit)
qed

lemma packed_snoc: "packed (bs @ [b]) = (if b then push_bit 1 (packed bs) OR 1 else push_bit 1 (packed bs))"
proof -
  have "push_bit 1 w OR 1 = 1 + 2 * w" for w :: u8
  proof -
    have "push_bit 1 w AND 1 = 0" by (rule bit_eqI) (unfold bit_and_iff bit_push_bit_iff bit_1_iff, simp)
    then show ?thesis using disjunctive_add_eq_or [of "push_bit 1 w" 1, symmetric] by (simp add: push_bit_Suc ac_simps)
  qed
  then show ?thesis by (simp add: push_bit_Suc)
qed

lemma row_packed:
  assumes "length bs \<le> 7"
  shows "row (push_bit (7 - length bs) (packed bs)) = bs @ replicate (7 - length bs) False"
    "\<not> bit (push_bit (7 - length bs) (packed bs)) 7"
proof -
  have b: "bit (push_bit (7 - length bs) (packed bs)) k \<longleftrightarrow> 7 - length bs \<le> k \<and> k < 7 \<and> bs ! (6 - k)" if "k < 8" for k
    using that assms by (auto simp: bit_push_bit_iff bit_horner_sum_bit_word_iff rev_nth Suc_diff_le)
  show "\<not> bit (push_bit (7 - length bs) (packed bs)) 7" by (simp add: b)
  show "row (push_bit (7 - length bs) (packed bs)) = bs @ replicate (7 - length bs) False"
  proof (rule nth_equalityI)
    fix i assume "i < length (row (push_bit (7 - length bs) (packed bs)))"
    then have "i < 7" by (simp add: row_def)
    then show "row (push_bit (7 - length bs) (packed bs)) ! i = (bs @ replicate (7 - length bs) False) ! i"
      using assms by (auto simp: row_nth b nth_append)
  qed (use assms in \<open>simp add: row_def\<close>)
qed

text \<open>The bytes of a presence map, seven bits each, the last row filled up with absent bits.\<close>

lemma pmap_pack_rows:
  "length cs < 7 \<Longrightarrow> \<exists>k<7. concat (map row (pmap_pack (packed cs) (length cs) bits)) = cs @ bits @ replicate k False
     \<and> (\<forall>w\<in>set (pmap_pack (packed cs) (length cs) bits). \<not> bit w 7)"
proof (induction bits arbitrary: cs)
  case Nil
  show ?case
  proof (cases "cs = []")
    case False
    then show ?thesis using row_packed [of cs] Nil by (intro exI [of _ "7 - length cs"]) (simp add: Suc_le_eq)
  qed (intro exI [of _ 0], simp)
next
  case (Cons b bits)
  show ?case
  proof (cases "length cs = 6")
    case True
    from Cons.IH [of "[]"] obtain k where "k < 7" "concat (map row (pmap_pack 0 0 bits)) = bits @ replicate k False"
      "\<forall>w\<in>set (pmap_pack 0 0 bits). \<not> bit w 7" by auto
    moreover have "row (packed (cs @ [b])) = cs @ [b]" "\<not> bit (packed (cs @ [b])) 7"
      using row_packed [of "cs @ [b]"] True by simp_all
    ultimately show ?thesis using True packed_snoc [of cs b] by (intro exI [of _ k]) (simp add: Let_def split: if_splits)
  next
    case False
    then show ?thesis using Cons.IH [of "cs @ [b]"] Cons.prems packed_snoc [of cs b] by (simp add: Let_def split: if_splits)
  qed
qed

lemma length_row [simp]: "length (row w) = 7"
  by (simp add: row_def)

lemma row_stop [simp]: "row (w OR 0x80) = row w"
proof (rule nth_equalityI)
  fix i assume "i < length (row (w OR 0x80))"
  then show "row (w OR 0x80) ! i = row w ! i" by (auto simp: row_nth bit_or_iff bit_80)
qed simp

lemma length_rows: "length (concat (map row ws)) = 7 * length ws"
  by (induction ws) auto

lemma pmap_loop_rows:
  assumes "\<forall>w\<in>set ws. \<not> bit w 7" "length pre + length ws - offset \<le> 16"
  shows "pmap_loop (pre @ map of_u8 ws @ post) offset bits (length pre)
    = pmap_loop (pre @ map of_u8 ws @ post) offset (bits @ concat (map row ws)) (length pre + length ws)"
  using assms
proof (induction ws arbitrary: pre bits)
  case (Cons w ws)
  moreover have "\<not> 16 < Suc (length pre) - offset" using Cons.prems(2) by simp
  ultimately show ?case
    using Cons.IH [of "pre @ [of_u8 w]"] by (subst pmap_loop.simps) (simp add: stop_bit Let_def)
qed simp

lemma pmap_loop_long:
  assumes "\<forall>w\<in>set ws. \<not> bit w 7" "length pre - offset \<le> 16" "16 < length pre + length ws - offset"
  shows "pmap_loop (pre @ map of_u8 ws @ post) offset bits (length pre) = Inl (InvalidStopBit offset)"
  using assms
proof (induction ws arbitrary: pre bits)
  case (Cons w ws)
  then show ?case
    using Cons.IH [of "pre @ [of_u8 w]"] by (subst pmap_loop.simps) (simp add: stop_bit Let_def)
qed simp

text \<open>A map of at most seventeen bytes reads back with the missing bits of its last byte; a longer one is refused.\<close>

lemma pmap_decode_encode:
  "pmap_decode (pre @ pmap_encode bits @ post) (length pre) =
     (if length bits \<le> 119
      then Inr (bits @ replicate (7 * max 1 ((length bits + 6) div 7) - length bits) False, length pre + length (pmap_encode bits))
      else Inl (InvalidStopBit (length pre)))"
proof -
  obtain k where k: "k < 7" "concat (map row (pmap_pack 0 0 bits)) = bits @ replicate k False"
    "\<forall>w\<in>set (pmap_pack 0 0 bits). \<not> bit w 7" using pmap_pack_rows [of "[]" bits] by auto
  then have n: "7 * length (pmap_pack 0 0 bits) = length bits + k" using length_rows [of "pmap_pack 0 0 bits"] by simp
  show ?thesis
  proof (cases "pmap_pack 0 0 bits" rule: rev_cases)
    case Nil
    then have "bits = []" using n by simp
    moreover have "row 0x80 = replicate 7 False" by (rule nth_equalityI) (auto simp: row_nth bit_80)
    moreover have "(0x80 :: u8) AND 0x80 \<noteq> 0" by simp
    ultimately show ?thesis
      by (simp add: pmap_decode_def pmap_encode_def Nil, subst pmap_loop.simps) (simp add: Let_def)
  next
    case (snoc ws w)
    then have e: "pmap_encode bits = map of_u8 ws @ [of_u8 (w OR 0x80)]" by (simp add: pmap_encode_def with_stop_snoc)
    have m: "Suc (length ws) = (length bits + 6) div 7" using n k(1) snoc by simp
    show ?thesis
    proof (cases "length ws \<le> 16")
      case True
      then have "length bits \<le> 119" using n snoc by simp
      moreover have "pmap_decode (pre @ pmap_encode bits @ post) (length pre)
        = pmap_loop (pre @ pmap_encode bits @ post) (length pre) (concat (map row ws)) (length pre + length ws)"
        using pmap_loop_rows [of ws pre "length pre" "of_u8 (w OR 0x80) # post" "[]"] True k(3) snoc
        by (simp add: pmap_decode_def e)
      moreover have "get_at (pre @ pmap_encode bits @ post) (length pre + length ws) = Some (of_u8 (w OR 0x80))"
        using get_at_middle [of "pre @ map of_u8 ws" "of_u8 (w OR 0x80)" post] by (simp add: e)
      ultimately show ?thesis
        using k(2) n snoc m [symmetric] by (simp add: pmap_loop.simps stop_bit_set Let_def e)
    next
      case False
      then have "\<not> length bits \<le> 119" using m by simp
      then show ?thesis
        using pmap_loop_long [of ws pre "length pre" "of_u8 (w OR 0x80) # post" "[]"] False k(3) snoc
        by (simp add: pmap_decode_def e)
    qed
  qed
qed

lemma pmap_bit_padded [simp]: "pmap_bit (bits @ replicate k False) i = pmap_bit bits i"
  by (auto simp: pmap_bit_def get_at_def nth_append)

interpretation pmap: offset_codec "\<lambda>bits. length bits \<le> 119" pmap_encode pmap_decode
    "\<lambda>bits. bits @ replicate (7 * max 1 ((length bits + 6) div 7) - length bits) False"
  by unfold_locales (simp add: pmap_decode_encode)

end
