(* ===== verification/Fix_Fast.thy ===== *)
theory Fix_Fast
  imports Fix_Message Fix_Fast_Wire
begin

text \<open>
  The FAST message codec (\<^verbatim>\<open>fast/mod.rs\<close>, \<^verbatim>\<open>fast/context.rs\<close>) over the templates of
  \<^verbatim>\<open>truefix-dict/src/fast_template.rs\<close>. The interior-mutable table of encoding contexts is passed and
  returned explicitly, also when an operation fails. Tracing and metrics are left out.
\<close>

section \<open>Templates\<close>

datatype fast_data_type = FUInt32 | FInt32 | FUInt64 | FInt64 | FAsciiString | FUnicodeString | FDecimal

datatype fast_operator = OpCopy | OpIncrement | OpDelta | OpDefault "bytes option" | OpNone

datatype fast_field_def =
    FastFieldDef (ff_tag: tag) (ff_name: bytes) (ff_type: fast_data_type) (ff_operator: fast_operator) (ff_nullable: bool)
      (ff_group: "fast_group_def option")
and fast_group_def =
    FastGroupDef (fg_count_field: fast_field_def) (fg_members: "fast_field_def list")

record fast_template =
  ft_id :: nat
  ft_name :: bytes
  ft_fields :: "fast_field_def list"

section \<open>Contexts\<close>

type_synonym encoding_context = "(tag, bytes) btree"

definition ctx_previous :: "tag \<Rightarrow> encoding_context \<Rightarrow> bytes option" where
  "ctx_previous t ctx = bt_get ctx t"

definition ctx_set_previous :: "tag \<Rightarrow> bytes \<Rightarrow> encoding_context \<Rightarrow> encoding_context" where
  "ctx_set_previous t v ctx = bt_insert t v ctx"

definition ctx_reset :: "encoding_context \<Rightarrow> encoding_context" where
  "ctx_reset ctx = []"

record fast_codec =
  fc_templates :: "(nat, fast_template) btree"
  fc_contexts :: "(nat, encoding_context) btree"
  fc_session :: bytes

definition new_fast_codec :: "(nat, fast_template) btree \<Rightarrow> fast_codec" where
  "new_fast_codec ts = \<lparr>fc_templates = ts, fc_contexts = [], fc_session = ''unknown''\<rparr>"

text \<open>\<^verbatim>\<open>entry(id).or_default()\<close>\<close>

definition context_of :: "nat \<Rightarrow> fast_codec \<Rightarrow> encoding_context" where
  "context_of tid c = (case bt_get (fc_contexts c) tid of None \<Rightarrow> [] | Some ctx \<Rightarrow> ctx)"

definition put_context :: "nat \<Rightarrow> encoding_context \<Rightarrow> fast_codec \<Rightarrow> fast_codec" where
  "put_context tid ctx c = c\<lparr>fc_contexts := bt_insert tid ctx (fc_contexts c)\<rparr>"

definition reset_context :: "nat \<Rightarrow> fast_codec \<Rightarrow> fast_codec" where
  "reset_context tid c = put_context tid (ctx_reset (context_of tid c)) c"

section \<open>Field values\<close>

definition int_text :: "bytes \<Rightarrow> (bytes \<Rightarrow> 'a option) \<Rightarrow> unsupported + 'a" where
  "int_text v parse =
     (if utf8_valid v then (case parse v of None \<Rightarrow> Inl ParseIntError | Some x \<Rightarrow> Inr x)
      else Inl (Reason ''integer field is not UTF-8 text''))"

definition encode_field_value :: "fast_field_def \<Rightarrow> bytes \<Rightarrow> fast_error + bytes" where
  "encode_field_value d v =
     (if ff_type d \<in> {FUInt32, FUInt64} then
        (case int_text v (parse_unsigned u64_size) of
           Inl r \<Rightarrow> Inl (FastUnsupportedValue (ff_tag d) r)
         | Inr n \<Rightarrow> Inr (encode_u64 (of_nat n)))
      else if ff_type d \<in> {FInt32, FInt64} then
        (case int_text v parse_i64 of
           Inl r \<Rightarrow> Inl (FastUnsupportedValue (ff_tag d) r)
         | Inr i \<Rightarrow> Inr (encode_i64 (of_int i)))
      else Inr (encode_u64 (of_nat (length v)) @ v))"

definition decode_field_value :: "fast_field_def \<Rightarrow> bytes \<Rightarrow> nat \<Rightarrow> fast_error + bytes \<times> nat" where
  "decode_field_value d bs offset =
     (if ff_type d \<in> {FUInt32, FUInt64} then
        map_sum id (map_prod (\<lambda>v. show_nat (unat v)) id) (decode_u64 bs offset)
      else if ff_type d \<in> {FInt32, FInt64} then
        map_sum id (map_prod (\<lambda>v. show_int (sint v)) id) (decode_i64 bs offset)
      else
        (case decode_u64 bs offset of
           Inl e \<Rightarrow> Inl e
         | Inr (len, start) \<Rightarrow>
             (let stop = start + unat len in
              if u64_size \<le> stop then Inl (FastTruncated start)
              else
                (case get_range bs start stop of
                   None \<Rightarrow> Inl (FastTruncated stop)
                 | Some s \<Rightarrow> Inr (s, stop)))))"

definition recover_omitted_value :: "fast_field_def \<Rightarrow> encoding_context \<Rightarrow> fast_error + bytes option" where
  "recover_omitted_value d ctx =
     (case ff_operator d of
        OpDefault v \<Rightarrow> Inr v
      | OpNone \<Rightarrow> Inr None
      | _ \<Rightarrow> (case ctx_previous (ff_tag d) ctx of None \<Rightarrow> Inl (PresenceMapMismatch (ff_tag d) 0) | Some v \<Rightarrow> Inr (Some v)))"

section \<open>Messages\<close>

fun fast_reject_unknown :: "fast_field_def list \<Rightarrow> field_map \<Rightarrow> fast_error + unit" where
  "fast_reject_unknown defs [] = Inr ()"
| "fast_reject_unknown defs (m # ms) =
     (if member_tag m \<in> ff_tag ` set defs then fast_reject_unknown defs ms
      else Inl (FastUnsupportedValue (member_tag m) (Reason ''field is not declared by FAST template'')))"

definition fast_value :: "message \<Rightarrow> tag \<Rightarrow> field option" where
  "fast_value m t =
     (case fm_get (m_body m) t of Some f \<Rightarrow> Some f
      | None \<Rightarrow> (case fm_get (m_header m) t of Some f \<Rightarrow> Some f | None \<Rightarrow> fm_get (m_trailer m) t))"

text \<open>The loop over the fields of the template: presence bits, field bytes and the context.\<close>

fun fast_encode_loop ::
  "message \<Rightarrow> fast_field_def list \<Rightarrow> bool list \<Rightarrow> bytes \<Rightarrow> encoding_context \<Rightarrow> (fast_error + bool list \<times> bytes) \<times> encoding_context" where
  "fast_encode_loop m [] bits out ctx = (Inr (bits, out), ctx)"
| "fast_encode_loop m (d # ds) bits out ctx =
     (case fast_value m (ff_tag d) of
        None \<Rightarrow> fast_encode_loop m ds (bits @ [False]) out ctx
      | Some f \<Rightarrow>
          (case encode_field_value d (f_value f) of
             Inl e \<Rightarrow> (Inl e, ctx)
           | Inr bs \<Rightarrow>
               fast_encode_loop m ds (bits @ [True]) (out @ bs) (ctx_set_previous (ff_tag d) (f_value f) ctx)))"

definition fast_encode :: "message \<Rightarrow> nat \<Rightarrow> fast_codec \<Rightarrow> (fast_error + bytes) \<times> fast_codec" where
  "fast_encode m tid c =
     (case bt_get (fc_templates c) tid of
        None \<Rightarrow> (Inl (FastUnknownTemplateId tid), c)
      | Some tpl \<Rightarrow>
          (let ctx = context_of tid c in
           case fast_reject_unknown (ft_fields tpl) (m_body m) of
             Inl e \<Rightarrow> (Inl e, put_context tid ctx c)
           | Inr _ \<Rightarrow>
               (case fast_encode_loop m (ft_fields tpl) [] [] ctx of
                  (Inl e, ctx') \<Rightarrow> (Inl e, put_context tid ctx' c)
                | (Inr (bits, out), ctx') \<Rightarrow>
                    (Inr (encode_u64 (of_nat tid) @ pmap_encode bits @ out), put_context tid ctx' c))))"

fun fast_decode_loop ::
  "bytes \<Rightarrow> bool list \<Rightarrow> fast_field_def list \<Rightarrow> nat \<Rightarrow> nat \<Rightarrow> field_map \<Rightarrow> encoding_context
    \<Rightarrow> (fast_error + field_map) \<times> encoding_context" where
  "fast_decode_loop bs pmap [] i offset body ctx = (Inr body, ctx)"
| "fast_decode_loop bs pmap (d # ds) i offset body ctx =
     (if pmap_bit pmap i then
        (case decode_field_value d bs offset of
           Inl e \<Rightarrow> (Inl e, ctx)
         | Inr (v, next) \<Rightarrow>
             fast_decode_loop bs pmap ds (Suc i) next (fm_set (mk_field (ff_tag d) v) body)
               (ctx_set_previous (ff_tag d) v ctx))
      else
        (case recover_omitted_value d ctx of
           Inl e \<Rightarrow> (Inl e, ctx)
         | Inr None \<Rightarrow> fast_decode_loop bs pmap ds (Suc i) offset body ctx
         | Inr (Some v) \<Rightarrow> fast_decode_loop bs pmap ds (Suc i) offset (fm_set (mk_field (ff_tag d) v) body) ctx))"

definition fast_decode :: "bytes \<Rightarrow> fast_codec \<Rightarrow> (fast_error + message \<times> nat) \<times> fast_codec" where
  "fast_decode bs c =
     (case decode_u64 bs 0 of
        Inl e \<Rightarrow> (Inl e, c)
      | Inr (id64, offset) \<Rightarrow>
          if u32_size \<le> unat id64 then (Inl (InvalidStopBit 0), c)
          else
            (let tid = unat id64 in
             case bt_get (fc_templates c) tid of
               None \<Rightarrow> (Inl (FastUnknownTemplateId tid), c)
             | Some tpl \<Rightarrow>
                 (case pmap_decode bs offset of
                    Inl e \<Rightarrow> (Inl e, c)
                  | Inr (pmap, offset') \<Rightarrow>
                      (case fast_decode_loop bs pmap (ft_fields tpl) 0 offset' [] (context_of tid c) of
                         (Inl e, ctx) \<Rightarrow> (Inl e, put_context tid ctx c)
                       | (Inr body, ctx) \<Rightarrow> (Inr (new_message\<lparr>m_body := body\<rparr>, tid), put_context tid ctx c)))))"

end
