(* ===== verification/Fix_Fast_Props.thy ===== *)
theory Fix_Fast_Props
  imports Fix_Fast
begin

text \<open>
  Properties of the FAST codec: messages read back in template order, both sides keep the same previous
  values, and what an omitted Copy field does.
\<close>

section \<open>Values read back\<close>

text \<open>The spelling the decoder prints: canonical decimal text for integers, anything for strings.\<close>

definition canonical :: "fast_field_def \<Rightarrow> bytes \<Rightarrow> bool" where
  "canonical d v =
     (if ff_type d \<in> {FUInt32, FUInt64} then (\<exists>n<u64_size. v = show_nat n)
      else if ff_type d \<in> {FInt32, FInt64} then (\<exists>i\<ge>- (2 ^ 63). i < 2 ^ 63 \<and> v = show_int i)
      else True)"

lemma field_value_roundtrip:
  assumes "canonical d v"
  shows "\<exists>bs. encode_field_value d v = Inr bs
    \<and> (\<forall>pre post. length (pre @ bs @ post) < u64_size \<longrightarrow> decode_field_value d (pre @ bs @ post) (length pre) = Inr (v, length pre + length bs))"
proof (cases "ff_type d \<in> {FUInt32, FUInt64}")
  case True
  then obtain n where n: "n < u64_size" "v = show_nat n" using assms by (auto simp: canonical_def)
  then have "unat (of_nat n :: u64) = n" by (simp add: unat_of_nat)
  then show ?thesis using True n varint.fetch_put [where x = "of_nat n"] by (simp add: encode_field_value_def decode_field_value_def int_text_def)
next
  case u: False
  show ?thesis
  proof (cases "ff_type d \<in> {FInt32, FInt64}")
    case True
    then obtain i where i: "- (2 ^ 63) \<le> i" "i < 2 ^ 63" "v = show_int i" using assms u by (auto simp: canonical_def)
    then have "sint (of_int i :: u64) = i" by (simp add: signed_of_int signed_take_bit_int_eq_self)
    then show ?thesis using True u i svarint.fetch_put [where x = "of_int i"] by (simp add: encode_field_value_def decode_field_value_def int_text_def)
  next
    case False
    let ?h = "encode_u64 (of_nat (length v))"
    have "decode_field_value d (pre @ (?h @ v) @ post) (length pre) = Inr (v, length pre + length (?h @ v))"
      if l: "length (pre @ (?h @ v) @ post) < u64_size" for pre post
    proof -
      have n: "unat (of_nat (length v) :: u64) = length v" using l by (simp add: unat_of_nat)
      have g: "get_range ((pre @ ?h) @ v @ post) (length (pre @ ?h)) (length (pre @ ?h) + length v) = Some v" by (simp add: get_range_def)
      then show ?thesis
        using u False l varint.fetch_put [of pre "of_nat (length v)" "v @ post"] n by (simp add: decode_field_value_def Let_def add.assoc)
    qed
    then show ?thesis using u False by (auto simp: encode_field_value_def)
  qed
qed

section \<open>Messages read back\<close>

definition field_ready :: "message \<Rightarrow> fast_field_def \<Rightarrow> bool" where
  "field_ready m d =
     (case fast_value m (ff_tag d) of
        None \<Rightarrow> ff_operator d \<in> {OpNone, OpDefault None}
      | Some f \<Rightarrow> canonical d (f_value f))"

definition template_ready :: "fast_template \<Rightarrow> message \<Rightarrow> bool" where
  "template_ready tpl m \<longleftrightarrow>
     distinct (map ff_tag (ft_fields tpl)) \<and> length (ft_fields tpl) \<le> 119
     \<and> member_tag ` set (m_body m) \<subseteq> ff_tag ` set (ft_fields tpl) \<and> (\<forall>d\<in>set (ft_fields tpl). field_ready m d)"

text \<open>The fields of a message in the order of the template, and the context they leave behind.\<close>

fun template_fields :: "message \<Rightarrow> fast_field_def list \<Rightarrow> field_map" where
  "template_fields m [] = []"
| "template_fields m (d # ds) =
     (case fast_value m (ff_tag d) of None \<Rightarrow> template_fields m ds | Some f \<Rightarrow> MField f # template_fields m ds)"

fun template_context :: "message \<Rightarrow> fast_field_def list \<Rightarrow> encoding_context \<Rightarrow> encoding_context" where
  "template_context m [] ctx = ctx"
| "template_context m (d # ds) ctx =
     template_context m ds
       (case fast_value m (ff_tag d) of None \<Rightarrow> ctx | Some f \<Rightarrow> ctx_set_previous (ff_tag d) (f_value f) ctx)"

definition field_code :: "message \<Rightarrow> fast_field_def \<Rightarrow> bytes" where
  "field_code m d =
     (case fast_value m (ff_tag d) of None \<Rightarrow> [] | Some f \<Rightarrow> (case encode_field_value d (f_value f) of Inl _ \<Rightarrow> [] | Inr bs \<Rightarrow> bs))"

lemma fast_value_tag: "fast_value m t = Some f \<Longrightarrow> f_tag f = t"
  by (auto simp: fast_value_def fm_get_tag split: option.splits)

lemma reject_unknown_ok: "member_tag ` set ms \<subseteq> ff_tag ` set defs \<Longrightarrow> fast_reject_unknown defs ms = Inr ()"
  by (induction ms) auto

lemma fast_encode_loop_ready:
  "\<forall>d\<in>set ds. field_ready m d \<Longrightarrow>
     fast_encode_loop m ds bits out ctx
       = (Inr (bits @ map (\<lambda>d. fast_value m (ff_tag d) \<noteq> None) ds, out @ concat (map (field_code m) ds)), template_context m ds ctx)"
proof (induction ds arbitrary: bits out ctx)
  case (Cons d ds)
  show ?case
  proof (cases "fast_value m (ff_tag d)")
    case (Some f)
    then obtain bs where "encode_field_value d (f_value f) = Inr bs"
      using Cons.prems field_value_roundtrip [of d "f_value f"] by (auto simp: field_ready_def)
    then show ?thesis using Some Cons by (simp add: field_code_def)
  qed (use Cons in \<open>simp add: field_code_def\<close>)
qed simp

lemma fast_decode_loop_ready:
  assumes "\<forall>d\<in>set ds. field_ready m d" "distinct (map ff_tag ds)" "\<forall>d\<in>set ds. fm_get body (ff_tag d) = None"
    "\<forall>j<length ds. pmap_bit pm (i + j) = (fast_value m (ff_tag (ds ! j)) \<noteq> None)"
    "length (pre @ concat (map (field_code m) ds) @ post) < u64_size"
  shows "fast_decode_loop (pre @ concat (map (field_code m) ds) @ post) pm ds i (length pre) body ctx
    = (Inr (body @ template_fields m ds), template_context m ds ctx)"
  using assms
proof (induction ds arbitrary: pre body i ctx)
  case (Cons d ds)
  have bits: "pmap_bit pm i = (fast_value m (ff_tag d) \<noteq> None)"
    "\<forall>j<length ds. pmap_bit pm (Suc i + j) = (fast_value m (ff_tag (ds ! j)) \<noteq> None)"
    using Cons.prems(4) by auto
  show ?case
  proof (cases "fast_value m (ff_tag d)")
    case None
    then have "field_code m d = []" "recover_omitted_value d ctx = Inr None"
      using Cons.prems(1) by (auto simp: field_code_def recover_omitted_value_def field_ready_def)
    then show ?thesis using Cons.IH [of body "Suc i" pre ctx] Cons.prems(1,2,3,5) bits None by simp
  next
    case (Some f)
    then have "canonical d (f_value f)" using Cons.prems(1) by (simp add: field_ready_def)
    then obtain bs where e: "encode_field_value d (f_value f) = Inr bs" and r: "\<And>pre post. length (pre @ bs @ post) < u64_size \<Longrightarrow>
        decode_field_value d (pre @ bs @ post) (length pre) = Inr (f_value f, length pre + length bs)"
      using field_value_roundtrip [of d "f_value f"] by blast
    have c: "field_code m d = bs" using Some e by (simp add: field_code_def)
    have bs: "decode_field_value d (pre @ bs @ concat (map (field_code m) ds) @ post) (length pre) = Inr (f_value f, length pre + length bs)"
      using Cons.prems(5) c by (intro r) simp
    have f: "mk_field (ff_tag d) (f_value f) = f" using fast_value_tag [OF Some] by (cases f) (simp add: mk_field_def)
    have "fm_set f body = body @ [MField f]" using Cons.prems(3) fast_value_tag [OF Some] by (intro fm_set_fresh) simp
    moreover have "\<forall>d\<in>set ds. fm_get (body @ [MField f]) (ff_tag d) = None"
      using Cons.prems(2,3) fast_value_tag [OF Some] by (auto simp: fm_get_append_field)
    ultimately show ?thesis
      using Cons.IH [of "body @ [MField f]" "Suc i" "pre @ bs" "ctx_set_previous (ff_tag d) (f_value f) ctx"] Cons.prems(1,2,5) bits Some bs f
      by (simp add: c)
  qed
qed simp


definition order_template :: fast_template where
  "order_template = \<lparr>ft_id = 7, ft_name = ''Order'', ft_fields =
     [FastFieldDef 55 ''Symbol'' FAsciiString OpCopy False None, FastFieldDef 38 ''Qty'' FUInt32 OpNone True None,
      FastFieldDef 44 ''Price'' FInt64 OpNone True None]\<rparr>"

definition fast_order :: message where
  "fast_order = new_message\<lparr>m_body := [MField (mk_field 44 ''-3''), MField (mk_field 55 ''IBM'')]\<rparr>"


text \<open>
  C29. An omitted Copy field comes back. The encoder marks an absent field of the template as omitted,
  which for a Copy field tells the decoder to repeat the previous value: here the second message has no
  symbol and is decoded with the symbol of the first.
\<close>

definition cancel_msg :: message where
  "cancel_msg = new_message\<lparr>m_body := [MField (mk_field 38 ''5'')]\<rparr>"

theorem fast_stale_copy:
  "let c = new_fast_codec [(7, order_template)]; (r1, c1) = fast_encode fast_order 7 c; (r2, c2) = fast_encode cancel_msg 7 c1
   in (case (r1, r2) of
         (Inr b1, Inr b2) \<Rightarrow>
           (case fast_decode b2 (snd (fast_decode b1 c)) of
              (Inr (m, _), _) \<Rightarrow> fm_get (m_body cancel_msg) 55 = None \<and> fm_get (m_body m) 55 = Some (mk_field 55 ''IBM'')
            | _ \<Rightarrow> False)
       | _ \<Rightarrow> False)"
  by code_simp
end
