(* ===== verification/Fix_Sbe.thy ===== *)
theory Fix_Sbe
  imports Fix_Message Fix_Text
begin

text \<open>
  The SBE message codec (\<^verbatim>\<open>sbe/mod.rs\<close>, \<^verbatim>\<open>sbe/flyweight.rs\<close>, \<^verbatim>\<open>sbe/error.rs\<close>) over the schemas of
  \<^verbatim>\<open>truefix-dict/src/sbe_schema.rs\<close>: a fixed block of little-endian fields at schema offsets, repeating
  groups of fixed blocks, and variable-length data. Tracing and metrics are left out; \<^verbatim>\<open>usize\<close> has
  64 bits.
\<close>

section \<open>Schemas\<close>

datatype sbe_data_type = SUInt8 | SUInt16 | SUInt32 | SInt32 | SUInt64 | SInt64 | SChar

definition sbe_width :: "sbe_data_type \<Rightarrow> nat" where
  "sbe_width ty =
     (case ty of SUInt8 \<Rightarrow> 1 | SChar \<Rightarrow> 1 | SUInt16 \<Rightarrow> 2 | SUInt32 \<Rightarrow> 4 | SInt32 \<Rightarrow> 4 | SUInt64 \<Rightarrow> 8 | SInt64 \<Rightarrow> 8)"

datatype byte_order = LittleEndian | BigEndian

record sbe_field_def =
  sf_tag :: tag
  sf_name :: bytes
  sf_offset :: nat
  sf_type :: sbe_data_type
  sf_byte_order :: byte_order

record sbe_var_data_def =
  sv_tag :: tag
  sv_name :: bytes
  sv_length_field_size :: nat

datatype sbe_group_def =
    SbeGroupDef (sg_tag: tag) (sg_name: bytes) (sg_block_length: nat) (sg_dimension_offset: nat)
      (sg_fields: "sbe_field_def list") (sg_nested_groups: "sbe_group_def list") (sg_var_data: "sbe_var_data_def list")

record sbe_message_schema =
  sm_template_id :: nat
  sm_name :: bytes
  sm_block_length :: nat
  sm_fields :: "sbe_field_def list"
  sm_groups :: "sbe_group_def list"
  sm_var_data :: "sbe_var_data_def list"

record sbe_schema_set =
  ss_schema_id :: "nat option"
  ss_messages :: "(nat, sbe_message_schema) btree"

section \<open>Errors\<close>

text \<open>The reason of an unsupported value; the text of a failed integer parse comes from the standard library.\<close>

datatype sbe_reason = SbeReason string | SbeParseInt

datatype sbe_error =
    SbeTruncated nat
  | SbeBlockLengthMismatch nat nat
  | SbeUnknownTemplateId nat
  | VarDataLengthMismatch bytes nat nat
  | SbeUnsupportedValue tag sbe_reason

abbreviation HEADER_LEN :: nat where "HEADER_LEN \<equiv> 6"

section \<open>The buffer view\<close>

definition fly_slice :: "bytes \<Rightarrow> nat \<Rightarrow> nat \<Rightarrow> sbe_error + bytes" where
  "fly_slice buf offset len =
     (if u64_size \<le> offset + len then Inl (SbeTruncated offset)
      else (case get_range buf offset (offset + len) of None \<Rightarrow> Inl (SbeTruncated (offset + len)) | Some s \<Rightarrow> Inr s))"

definition fly_u8 :: "bytes \<Rightarrow> nat \<Rightarrow> sbe_error + char" where
  "fly_u8 buf offset = (case get_at buf offset of None \<Rightarrow> Inl (SbeTruncated offset) | Some c \<Rightarrow> Inr c)"

text \<open>\<^verbatim>\<open>u16_le\<close>, \<^verbatim>\<open>u32_le\<close>, \<^verbatim>\<open>u64_le\<close> are the widths 2, 4 and 8; \<^verbatim>\<open>i32_le\<close>, \<^verbatim>\<open>i64_le\<close> read two's complement.\<close>

definition fly_le :: "nat \<Rightarrow> bytes \<Rightarrow> nat \<Rightarrow> sbe_error + nat" where
  "fly_le w buf offset = map_sum id from_le (fly_slice buf offset w)"

definition to_signed :: "nat \<Rightarrow> nat \<Rightarrow> int" where
  "to_signed w n = (if n < 2 ^ (8 * w - 1) then int n else int n - 2 ^ (8 * w))"

definition fly_signed_le :: "nat \<Rightarrow> bytes \<Rightarrow> nat \<Rightarrow> sbe_error + int" where
  "fly_signed_le w buf offset = map_sum id (to_signed w) (fly_le w buf offset)"

section \<open>Decoding\<close>

definition read_field :: "bytes \<Rightarrow> nat \<Rightarrow> sbe_field_def \<Rightarrow> sbe_error + bytes" where
  "read_field buf offset d =
     (case sf_type d of
        SUInt8 \<Rightarrow> map_sum id (\<lambda>c. show_nat (of_char c)) (fly_u8 buf offset)
      | SUInt16 \<Rightarrow> map_sum id show_nat (fly_le 2 buf offset)
      | SUInt32 \<Rightarrow> map_sum id show_nat (fly_le 4 buf offset)
      | SInt32 \<Rightarrow> map_sum id show_int (fly_signed_le 4 buf offset)
      | SUInt64 \<Rightarrow> map_sum id show_nat (fly_le 8 buf offset)
      | SInt64 \<Rightarrow> map_sum id show_int (fly_signed_le 8 buf offset)
      | SChar \<Rightarrow> map_sum id (\<lambda>c. [c]) (fly_u8 buf offset))"

text \<open>The loop over the fields of a block that starts at \<open>base\<close>, setting each in the field map.\<close>

fun read_fields :: "bytes \<Rightarrow> nat \<Rightarrow> sbe_field_def list \<Rightarrow> field_map \<Rightarrow> sbe_error + field_map" where
  "read_fields buf base [] m = Inr m"
| "read_fields buf base (d # ds) m =
     (if u64_size \<le> base + sf_offset d then Inl (SbeTruncated base)
      else
        (case read_field buf (base + sf_offset d) d of
           Inl e \<Rightarrow> Inl e
         | Inr v \<Rightarrow> read_fields buf base ds (fm_set (mk_field (sf_tag d) v) m)))"

fun read_entries :: "bytes \<Rightarrow> nat \<Rightarrow> sbe_field_def list \<Rightarrow> nat \<Rightarrow> nat \<Rightarrow> group \<Rightarrow> sbe_error + group \<times> nat" where
  "read_entries buf block_length ds 0 next g = Inr (g, next)"
| "read_entries buf block_length ds (Suc n) next g =
     (case fly_slice buf next block_length of
        Inl e \<Rightarrow> Inl e
      | Inr _ \<Rightarrow>
          (case read_fields buf next ds [] of
             Inl e \<Rightarrow> Inl e
           | Inr entry \<Rightarrow> read_entries buf block_length ds n (next + block_length) (add_entry entry g)))"

definition read_group :: "bytes \<Rightarrow> nat \<Rightarrow> sbe_group_def \<Rightarrow> field_map \<Rightarrow> sbe_error + field_map \<times> nat" where
  "read_group buf cursor g body =
     (case fly_le 2 buf cursor of
        Inl e \<Rightarrow> Inl e
      | Inr block_length \<Rightarrow>
          (case fly_le 2 buf (cursor + 2) of
             Inl e \<Rightarrow> Inl e
           | Inr count \<Rightarrow>
               (case read_entries buf block_length (sg_fields g) count (cursor + 4) (new_group (sg_tag g)) of
                  Inl e \<Rightarrow> Inl e
                | Inr (decoded, next) \<Rightarrow> Inr (add_group decoded body, next))))"

fun read_groups :: "bytes \<Rightarrow> nat \<Rightarrow> sbe_group_def list \<Rightarrow> field_map \<Rightarrow> sbe_error + field_map \<times> nat" where
  "read_groups buf cursor [] body = Inr (body, cursor)"
| "read_groups buf cursor (g # gs) body =
     (case read_group buf cursor g body of Inl e \<Rightarrow> Inl e | Inr (body', next) \<Rightarrow> read_groups buf next gs body')"

definition read_var_data :: "bytes \<Rightarrow> nat \<Rightarrow> sbe_var_data_def \<Rightarrow> field_map \<Rightarrow> sbe_error + field_map \<times> nat" where
  "read_var_data buf cursor v body =
     (case fly_u8 buf cursor of
        Inl e \<Rightarrow> Inl e
      | Inr c \<Rightarrow>
          (let len = of_char c; start = cursor + sv_length_field_size v; available = length buf - start
           in if available < len then Inl (VarDataLengthMismatch (sv_name v) len (available mod u32_size))
              else
                (case fly_slice buf start len of
                   Inl e \<Rightarrow> Inl e
                 | Inr s \<Rightarrow> Inr (fm_set (mk_field (sv_tag v) s) body, start + len))))"

fun read_var_datas :: "bytes \<Rightarrow> nat \<Rightarrow> sbe_var_data_def list \<Rightarrow> field_map \<Rightarrow> sbe_error + field_map \<times> nat" where
  "read_var_datas buf cursor [] body = Inr (body, cursor)"
| "read_var_datas buf cursor (v # vs) body =
     (case read_var_data buf cursor v body of Inl e \<Rightarrow> Inl e | Inr (body', next) \<Rightarrow> read_var_datas buf next vs body')"

definition sbe_decode :: "sbe_schema_set \<Rightarrow> bytes \<Rightarrow> sbe_error + message \<times> nat" where
  "sbe_decode schemas buf =
     (case fly_le 2 buf 0 of Inl e \<Rightarrow> Inl e
      | Inr template_id \<Rightarrow>
     (case fly_le 2 buf 2 of Inl e \<Rightarrow> Inl e
      | Inr _ \<Rightarrow>
     (case fly_le 2 buf 4 of Inl e \<Rightarrow> Inl e
      | Inr declared \<Rightarrow>
     (case bt_get (ss_messages schemas) template_id of
        None \<Rightarrow> Inl (SbeUnknownTemplateId template_id)
      | Some schema \<Rightarrow>
          if declared \<noteq> sm_block_length schema then Inl (SbeBlockLengthMismatch declared (sm_block_length schema))
          else
            (case fly_slice buf HEADER_LEN (sm_block_length schema) of Inl e \<Rightarrow> Inl e
             | Inr _ \<Rightarrow>
            (case read_fields buf HEADER_LEN (sm_fields schema) [] of Inl e \<Rightarrow> Inl e
             | Inr b1 \<Rightarrow>
            (case read_groups buf (HEADER_LEN + sm_block_length schema) (sm_groups schema) b1 of Inl e \<Rightarrow> Inl e
             | Inr (b2, cursor) \<Rightarrow>
            (case read_var_datas buf cursor (sm_var_data schema) b2 of Inl e \<Rightarrow> Inl e
             | Inr (b3, _) \<Rightarrow> Inr (new_message\<lparr>m_body := b3\<rparr>, template_id)))))))))"

section \<open>Encoding\<close>

definition sbe_int :: "(bytes \<Rightarrow> 'a option) \<Rightarrow> sbe_field_def \<Rightarrow> bytes \<Rightarrow> sbe_error + 'a" where
  "sbe_int parse d v =
     (if utf8_valid v
      then (case parse v of None \<Rightarrow> Inl (SbeUnsupportedValue (sf_tag d) SbeParseInt) | Some x \<Rightarrow> Inr x)
      else Inl (SbeUnsupportedValue (sf_tag d) (SbeReason ''not UTF-8 text'')))"

definition sbe_parse_u64 :: "sbe_field_def \<Rightarrow> bytes \<Rightarrow> sbe_error + nat" where
  "sbe_parse_u64 = sbe_int (parse_unsigned u64_size)"

definition sbe_parse_i64 :: "sbe_field_def \<Rightarrow> bytes \<Rightarrow> sbe_error + int" where
  "sbe_parse_i64 = sbe_int parse_i64"

text \<open>Overwriting bytes of a buffer in place.\<close>

definition patch :: "nat \<Rightarrow> bytes \<Rightarrow> bytes \<Rightarrow> bytes" where
  "patch offset bs out = take offset out @ bs @ drop (offset + length bs) out"

definition write_fixed :: "bytes \<Rightarrow> nat \<Rightarrow> bytes \<Rightarrow> nat \<Rightarrow> sbe_error + bytes" where
  "write_fixed out offset bs len =
     (if length out < offset + len then Inl (SbeTruncated offset)
      else if length bs < len then Inl (SbeTruncated offset)
      else Inr (patch offset (take len bs) out))"

definition write_field :: "bytes \<Rightarrow> nat \<Rightarrow> sbe_field_def \<Rightarrow> bytes \<Rightarrow> sbe_error + bytes" where
  "write_field out base d v =
     (let offset = base + sf_offset d;
          unsigned = (\<lambda>len. case sbe_parse_u64 d v of Inl e \<Rightarrow> Inl e | Inr n \<Rightarrow> write_fixed out offset (to_le 8 n) len);
          signed = (\<lambda>len. case sbe_parse_i64 d v of Inl e \<Rightarrow> Inl e
                      | Inr i \<Rightarrow> write_fixed out offset (to_le 8 (nat (i mod 2 ^ 64))) len)
      in if u64_size \<le> offset then Inl (SbeUnsupportedValue (sf_tag d) (SbeReason ''offset overflow''))
         else
           (case sf_type d of
              SUInt16 \<Rightarrow> unsigned 2
            | SUInt32 \<Rightarrow> unsigned 4
            | SInt32 \<Rightarrow> signed 4
            | SUInt64 \<Rightarrow> unsigned 8
            | SInt64 \<Rightarrow> signed 8
            | _ \<Rightarrow>
                (case v of
                   [] \<Rightarrow> Inl (SbeUnsupportedValue (sf_tag d) (SbeReason ''empty one-byte field''))
                 | c # _ \<Rightarrow> if offset < length out then Inr (out[offset := c]) else Inl (SbeTruncated offset))))"

text \<open>The loop over the fields of a block: those present in the field map are written.\<close>

fun write_fields :: "bytes \<Rightarrow> nat \<Rightarrow> sbe_field_def list \<Rightarrow> field_map \<Rightarrow> sbe_error + bytes" where
  "write_fields out base [] m = Inr out"
| "write_fields out base (d # ds) m =
     (case fm_get m (sf_tag d) of
        None \<Rightarrow> write_fields out base ds m
      | Some f \<Rightarrow>
          (case write_field out base d (f_value f) of Inl e \<Rightarrow> Inl e | Inr out' \<Rightarrow> write_fields out' base ds m))"

definition push_u16 :: "bytes \<Rightarrow> nat \<Rightarrow> tag \<Rightarrow> sbe_error + bytes" where
  "push_u16 out v t =
     (if v < 2 ^ 16 then Inr (out @ to_le 2 v) else Inl (SbeUnsupportedValue t (SbeReason ''value does not fit u16'')))"

fun write_entries :: "bytes \<Rightarrow> sbe_group_def \<Rightarrow> field_map list \<Rightarrow> sbe_error + bytes" where
  "write_entries out g [] = Inr out"
| "write_entries out g (entry # es) =
     (case write_fields (out @ replicate (sg_block_length g) (CHR 0x00)) (length out) (sg_fields g) entry of
        Inl e \<Rightarrow> Inl e
      | Inr out' \<Rightarrow> write_entries out' g es)"

definition write_group :: "bytes \<Rightarrow> message \<Rightarrow> sbe_group_def \<Rightarrow> sbe_error + bytes" where
  "write_group out m g =
     (let entries = (case fm_group (m_body m) (sg_tag g) of None \<Rightarrow> [] | Some es \<Rightarrow> es)
      in case push_u16 out (sg_block_length g) (sg_tag g) of
           Inl e \<Rightarrow> Inl e
         | Inr o1 \<Rightarrow>
             (case push_u16 o1 (length entries mod u32_size) (sg_tag g) of
                Inl e \<Rightarrow> Inl e
              | Inr o2 \<Rightarrow> write_entries o2 g entries))"

fun write_groups :: "bytes \<Rightarrow> message \<Rightarrow> sbe_group_def list \<Rightarrow> sbe_error + bytes" where
  "write_groups out m [] = Inr out"
| "write_groups out m (g # gs) = (case write_group out m g of Inl e \<Rightarrow> Inl e | Inr out' \<Rightarrow> write_groups out' m gs)"

definition write_var_data :: "bytes \<Rightarrow> message \<Rightarrow> sbe_var_data_def \<Rightarrow> sbe_error + bytes" where
  "write_var_data out m v =
     (case fm_get (m_body m) (sv_tag v) of
        None \<Rightarrow> Inr (out @ [CHR 0x00])
      | Some f \<Rightarrow>
          if 255 < length (f_value f)
          then Inl (SbeUnsupportedValue (sv_tag v) (SbeReason ''varData too long for one-byte length''))
          else Inr (out @ char_of (length (f_value f)) # f_value f))"

fun write_var_datas :: "bytes \<Rightarrow> message \<Rightarrow> sbe_var_data_def list \<Rightarrow> sbe_error + bytes" where
  "write_var_datas out m [] = Inr out"
| "write_var_datas out m (v # vs) = (case write_var_data out m v of Inl e \<Rightarrow> Inl e | Inr out' \<Rightarrow> write_var_datas out' m vs)"

definition sbe_known_tags :: "sbe_message_schema \<Rightarrow> tag set" where
  "sbe_known_tags s = sf_tag ` set (sm_fields s) \<union> sg_tag ` set (sm_groups s) \<union> sv_tag ` set (sm_var_data s)"

fun sbe_reject_unknown :: "sbe_message_schema \<Rightarrow> field_map \<Rightarrow> sbe_error + unit" where
  "sbe_reject_unknown s [] = Inr ()"
| "sbe_reject_unknown s (m # ms) =
     (if member_tag m \<in> sbe_known_tags s then sbe_reject_unknown s ms
      else Inl (SbeUnsupportedValue (member_tag m) (SbeReason ''field is not declared by SBE schema'')))"

definition sbe_encode :: "sbe_schema_set \<Rightarrow> message \<Rightarrow> nat \<Rightarrow> sbe_error + bytes" where
  "sbe_encode schemas m template_id =
     (case bt_get (ss_messages schemas) template_id of
        None \<Rightarrow> Inl (SbeUnknownTemplateId template_id)
      | Some schema \<Rightarrow>
     (case push_u16 [] template_id 0 of Inl e \<Rightarrow> Inl e
      | Inr o1 \<Rightarrow>
     (case push_u16 o1 (case ss_schema_id schemas of None \<Rightarrow> 0 | Some i \<Rightarrow> i) 0 of Inl e \<Rightarrow> Inl e
      | Inr o2 \<Rightarrow>
     (case push_u16 o2 (sm_block_length schema) 0 of Inl e \<Rightarrow> Inl e
      | Inr o3 \<Rightarrow>
     (case sbe_reject_unknown schema (m_body m) of Inl e \<Rightarrow> Inl e
      | Inr _ \<Rightarrow>
     (case write_fields (o3 @ replicate (sm_block_length schema) (CHR 0x00)) (length o3) (sm_fields schema) (m_body m) of Inl e \<Rightarrow> Inl e
      | Inr o4 \<Rightarrow>
     (case write_groups o4 m (sm_groups schema) of Inl e \<Rightarrow> Inl e
      | Inr o5 \<Rightarrow> write_var_datas o5 m (sm_var_data schema))))))))"

end
