(* ===== verification/Fix_Schema.thy ===== *)
theory Fix_Schema
  imports Fix_Fast Fix_Sbe
begin

text \<open>
  The loaders of FAST templates (\<^verbatim>\<open>truefix-dict/src/fast_template.rs\<close>) and SBE schemas
  (\<^verbatim>\<open>truefix-dict/src/sbe_schema.rs\<close>) as state machines over XML events. The XML reader is the
  quick-xml library: a document is the sequence of events it delivers, an attribute either an error or a
  key with its normalised value or an error in it.
\<close>

section \<open>XML events\<close>

datatype xml_attr = AttrError bytes | Attr bytes "bytes + bytes"

record xml_elem =
  xe_local_name :: bytes
  xe_attributes :: "xml_attr list"

datatype xml_event = XStart xml_elem | XEmpty xml_elem | XEnd bytes | XOther | XFailure nat bytes

datatype xml_error =
    XmlError nat bytes
  | MissingAttr string string
  | NotANumber string string bytes

definition local_name_bytes :: "bytes \<Rightarrow> bytes" where
  "local_name_bytes bs =
     (if utf8_valid bs then rev (takeWhile (\<lambda>c. c \<noteq> CHR '':'') (rev bs)) else [])"

definition local_name :: "xml_elem \<Rightarrow> bytes" where
  "local_name e = local_name_bytes (xe_local_name e)"

fun attr_in :: "xml_attr list \<Rightarrow> bytes \<Rightarrow> xml_error + bytes option" where
  "attr_in [] key = Inr None"
| "attr_in (AttrError r # as) key = Inl (XmlError 0 r)"
| "attr_in (Attr k v # as) key =
     (if local_name_bytes k = key
      then (case v of Inl r \<Rightarrow> Inl (XmlError 0 r) | Inr s \<Rightarrow> Inr (Some s))
      else attr_in as key)"

definition attr :: "xml_elem \<Rightarrow> bytes \<Rightarrow> xml_error + bytes option" where
  "attr e key = attr_in (xe_attributes e) key"

definition required_attr :: "xml_elem \<Rightarrow> string \<Rightarrow> bytes \<Rightarrow> xml_error + bytes" where
  "required_attr e elem key = try_then (attr e key) (\<lambda>v. ok_or v (MissingAttr elem key))"

definition attr_num :: "xml_elem \<Rightarrow> string \<Rightarrow> bytes \<Rightarrow> xml_error + nat" where
  "attr_num e elem key =
     try_then (required_attr e elem key) (\<lambda>v. ok_or (parse_unsigned u32_size v) (NotANumber elem key v))"

definition attr_opt_num :: "xml_elem \<Rightarrow> string \<Rightarrow> bytes \<Rightarrow> xml_error + nat option" where
  "attr_opt_num e elem key =
     try_then (attr e key)
       (\<lambda>v. case v of None \<Rightarrow> Inr None
            | Some s \<Rightarrow> map_sum id Some (ok_or (parse_unsigned u32_size s) (NotANumber elem key s)))"

text \<open>A loader folds its handler over the events; the first failure ends it.\<close>

fun run_events :: "(nat \<Rightarrow> bytes \<Rightarrow> 'e) \<Rightarrow> (xml_elem \<Rightarrow> bool \<Rightarrow> 's \<Rightarrow> 'e + 's) \<Rightarrow> (bytes \<Rightarrow> 's \<Rightarrow> 'e + 's) \<Rightarrow> xml_event list \<Rightarrow> 's \<Rightarrow> 'e + 's" where
  "run_events fail start_or_empty end_of [] s = Inr s"
| "run_events fail start_or_empty end_of (ev # evs) s =
     (case ev of
        XStart e \<Rightarrow> try_then (start_or_empty e False s) (run_events fail start_or_empty end_of evs)
      | XEmpty e \<Rightarrow> try_then (start_or_empty e True s) (run_events fail start_or_empty end_of evs)
      | XEnd n \<Rightarrow> try_then (end_of (local_name_bytes n) s) (run_events fail start_or_empty end_of evs)
      | XOther \<Rightarrow> run_events fail start_or_empty end_of evs s
      | XFailure pos r \<Rightarrow> Inl (fail pos r))"

section \<open>FAST templates\<close>

datatype fast_template_error =
    FastXml xml_error
  | UnknownOperator bytes bytes
  | FastUnknownDataType bytes bytes
  | FastDuplicateTemplateId nat

record template_frame =
  tf_id :: nat
  tf_name :: bytes
  tf_fields :: "fast_field_def list"

record group_frame =
  gf_count_field :: fast_field_def
  gf_members :: "fast_field_def list"

record fast_parser =
  fp_templates :: "(nat, fast_template) btree"
  fp_current :: "template_frame option"
  fp_groups :: "group_frame list"

definition parse_fast_operator :: "bytes \<Rightarrow> bytes \<Rightarrow> bytes option \<Rightarrow> fast_template_error + fast_operator" where
  "parse_fast_operator name op val =
     (let s = to_ascii_lowercase op in
      if s = ''copy'' then Inr OpCopy
      else if s = ''increment'' then Inr OpIncrement
      else if s = ''delta'' then Inr OpDelta
      else if s = ''default'' then Inr (OpDefault val)
      else if s = ''none'' then Inr OpNone
      else Inl (UnknownOperator name op))"

definition parse_fast_data_type :: "bytes \<Rightarrow> fast_data_type option" where
  "parse_fast_data_type type_name =
     map_of [(''uint32'', FUInt32), (''u32'', FUInt32), (''uint'', FUInt32), (''int32'', FInt32), (''i32'', FInt32), (''int'', FInt32),
             (''uint64'', FUInt64), (''u64'', FUInt64), (''int64'', FInt64), (''i64'', FInt64), (''long'', FInt64),
             (''asciistring'', FAsciiString), (''ascii'', FAsciiString), (''string'', FAsciiString),
             (''unicodestring'', FUnicodeString), (''unicode'', FUnicodeString), (''decimal'', FDecimal)]
       (to_ascii_lowercase type_name)"

definition fast_field_from_attrs :: "xml_elem \<Rightarrow> fast_data_type option \<Rightarrow> fast_template_error + fast_field_def" where
  "fast_field_from_attrs e fallback_type =
     try_then (map_sum FastXml id (required_attr e ''field'' ''name'')) (\<lambda>name.
     try_then (map_sum FastXml id (attr_num e ''field'' ''id'')) (\<lambda>t.
     try_then
       (try_then (map_sum FastXml id (attr e ''type'')) (\<lambda>ty.
          case ty of
            Some type_name \<Rightarrow> ok_or (parse_fast_data_type type_name) (FastUnknownDataType name type_name)
          | None \<Rightarrow> ok_or fallback_type (FastXml (MissingAttr ''field'' ''type'')))) (\<lambda>data_type.
     try_then
       (try_then (map_sum FastXml id (attr e ''operator'')) (\<lambda>op.
          case op of
            Some o' \<Rightarrow> try_then (map_sum FastXml id (attr e ''value'')) (parse_fast_operator name o')
          | None \<Rightarrow> Inr OpNone)) (\<lambda>operator.
     try_then (map_sum FastXml id (attr e ''nullable'')) (\<lambda>n.
       Inr (FastFieldDef t name data_type operator
         (case n of None \<Rightarrow> False | Some v \<Rightarrow> v \<in> {''true'', ''1'', ''Y'', ''y''}) None))))))"

definition push_fast_field :: "fast_field_def \<Rightarrow> fast_parser \<Rightarrow> fast_parser" where
  "push_fast_field d p =
     (if fp_groups p \<noteq> [] then
        p\<lparr>fp_groups := butlast (fp_groups p) @ [(last (fp_groups p))\<lparr>gf_members := gf_members (last (fp_groups p)) @ [d]\<rparr>]\<rparr>
      else
        (case fp_current p of
           None \<Rightarrow> p
         | Some t \<Rightarrow> p\<lparr>fp_current := Some (t\<lparr>tf_fields := tf_fields t @ [d]\<rparr>)\<rparr>))"

definition finish_fast_group :: "fast_parser \<Rightarrow> fast_parser" where
  "finish_fast_group p =
     (if fp_groups p = [] then p
      else
        (let g = last (fp_groups p); c = gf_count_field g
         in push_fast_field
              (FastFieldDef (ff_tag c) (ff_name c) (ff_type c) (ff_operator c) (ff_nullable c) (Some (FastGroupDef c (gf_members g))))
              (p\<lparr>fp_groups := butlast (fp_groups p)\<rparr>)))"

text \<open>A replaced template is reported with the largest identifier of the table, as the code does.\<close>

definition insert_template :: "fast_template \<Rightarrow> fast_parser \<Rightarrow> fast_template_error + fast_parser" where
  "insert_template t p =
     (let ts = bt_insert (ft_id t) t (fp_templates p)
      in if bt_get (fp_templates p) (ft_id t) = None then Inr (p\<lparr>fp_templates := ts\<rparr>)
         else Inl (FastDuplicateTemplateId (if ts = [] then 0 else fst (last ts))))"

definition fast_start :: "xml_elem \<Rightarrow> bool \<Rightarrow> fast_parser \<Rightarrow> fast_template_error + fast_parser" where
  "fast_start e is_empty p =
     (let n = local_name e in
      if n = ''template'' then
        try_then (map_sum FastXml id (attr_num e ''template'' ''id'')) (\<lambda>i.
          if bt_get (fp_templates p) i \<noteq> None then Inl (FastDuplicateTemplateId i)
          else
            try_then (map_sum FastXml id (attr e ''name'')) (\<lambda>nm.
              let name = (case nm of None \<Rightarrow> show_nat i | Some s \<Rightarrow> s)
              in if is_empty then insert_template \<lparr>ft_id = i, ft_name = name, ft_fields = []\<rparr> p
                 else Inr (p\<lparr>fp_current := Some \<lparr>tf_id = i, tf_name = name, tf_fields = []\<rparr>\<rparr>)))
      else if n = ''group'' then
        try_then (fast_field_from_attrs e (Some FUInt32)) (\<lambda>c.
          let p' = p\<lparr>fp_groups := fp_groups p @ [\<lparr>gf_count_field = c, gf_members = []\<rparr>]\<rparr>
          in Inr (if is_empty then finish_fast_group p' else p'))
      else if n = ''field'' then
        try_then (fast_field_from_attrs e None) (\<lambda>d. Inr (push_fast_field d p))
      else if n \<in> {''uInt32'', ''int32'', ''uInt64'', ''int64'', ''string'', ''ascii'', ''unicode'', ''decimal''} then
        try_then (ok_or (parse_fast_data_type n) (FastUnknownDataType n n)) (\<lambda>ty.
          try_then (fast_field_from_attrs e (Some ty)) (\<lambda>d. Inr (push_fast_field d p)))
      else Inr p)"

definition fast_end :: "bytes \<Rightarrow> fast_parser \<Rightarrow> fast_template_error + fast_parser" where
  "fast_end n p =
     (if n = ''group'' then Inr (finish_fast_group p)
      else if n = ''template'' then
        (case fp_current p of
           None \<Rightarrow> Inr p
         | Some t \<Rightarrow> insert_template \<lparr>ft_id = tf_id t, ft_name = tf_name t, ft_fields = tf_fields t\<rparr> (p\<lparr>fp_current := None\<rparr>))
      else Inr p)"

definition parse_fast_templates :: "xml_event list \<Rightarrow> fast_template_error + (nat, fast_template) btree" where
  "parse_fast_templates evs =
     map_sum id fp_templates
       (run_events (\<lambda>pos r. FastXml (XmlError pos r)) fast_start fast_end evs
          \<lparr>fp_templates = [], fp_current = None, fp_groups = []\<rparr>)"

section \<open>SBE schemas\<close>

datatype sbe_schema_error =
    SbeXml xml_error
  | SbeUnknownDataType bytes bytes
  | SbeDuplicateTemplateId nat
  | OverlappingOffset bytes nat

record sbe_parser =
  sp_schema_id :: "nat option"
  sp_messages :: "(nat, sbe_message_schema) btree"
  sp_current :: "sbe_message_schema option"
  sp_groups :: "sbe_group_def list"

definition parse_sbe_data_type :: "bytes \<Rightarrow> sbe_data_type option" where
  "parse_sbe_data_type type_name =
     map_of [(''uint8'', SUInt8), (''uint16'', SUInt16), (''uint32'', SUInt32), (''int32'', SInt32), (''uint64'', SUInt64),
             (''int64'', SInt64), (''char'', SChar)]
       (to_ascii_lowercase type_name)"

definition sbe_field_from_attrs :: "xml_elem \<Rightarrow> sbe_schema_error + sbe_field_def" where
  "sbe_field_from_attrs e =
     try_then (map_sum SbeXml id (required_attr e ''field'' ''name'')) (\<lambda>name.
     try_then (map_sum SbeXml id (required_attr e ''field'' ''type'')) (\<lambda>type_name.
     try_then (ok_or (parse_sbe_data_type type_name) (SbeUnknownDataType name type_name)) (\<lambda>data_type.
     try_then (map_sum SbeXml id (attr e ''byteOrder'')) (\<lambda>b.
     try_then (map_sum SbeXml id (attr_num e ''field'' ''id'')) (\<lambda>t.
     try_then (map_sum SbeXml id (attr_num e ''field'' ''offset'')) (\<lambda>off.
       Inr \<lparr>sf_tag = t, sf_name = name, sf_offset = off, sf_type = data_type,
            sf_byte_order = (if b \<in> {Some ''bigEndian'', Some ''big''} then BigEndian else LittleEndian)\<rparr>))))))"

text \<open>The bytes of the fields must not overlap; \<open>used\<close> are those taken by earlier fields.\<close>

fun claim_offsets :: "bytes \<Rightarrow> nat list \<Rightarrow> nat list \<Rightarrow> sbe_schema_error + nat list" where
  "claim_offsets name [] used = Inr used"
| "claim_offsets name (o' # os) used =
     (if o' \<in> set used then Inl (OverlappingOffset name o') else claim_offsets name os (o' # used))"

fun validate_offsets :: "sbe_field_def list \<Rightarrow> nat list \<Rightarrow> sbe_schema_error + unit" where
  "validate_offsets [] used = Inr ()"
| "validate_offsets (d # ds) used =
     try_then (claim_offsets (sf_name d) [sf_offset d..<sat_add32 (sf_offset d) (sbe_width (sf_type d))] used) (validate_offsets ds)"

definition add_group_field :: "sbe_field_def \<Rightarrow> sbe_group_def \<Rightarrow> sbe_group_def" where
  "add_group_field d g = SbeGroupDef (sg_tag g) (sg_name g) (sg_block_length g) (sg_dimension_offset g) (sg_fields g @ [d]) (sg_nested_groups g) (sg_var_data g)"

definition add_group_data :: "sbe_var_data_def \<Rightarrow> sbe_group_def \<Rightarrow> sbe_group_def" where
  "add_group_data v g = SbeGroupDef (sg_tag g) (sg_name g) (sg_block_length g) (sg_dimension_offset g) (sg_fields g) (sg_nested_groups g) (sg_var_data g @ [v])"

definition add_nested_group :: "sbe_group_def \<Rightarrow> sbe_group_def \<Rightarrow> sbe_group_def" where
  "add_nested_group n g = SbeGroupDef (sg_tag g) (sg_name g) (sg_block_length g) (sg_dimension_offset g) (sg_fields g) (sg_nested_groups g @ [n]) (sg_var_data g)"

text \<open>Adding to the innermost open group, or else to the open message.\<close>

definition into_open :: "(sbe_group_def \<Rightarrow> sbe_group_def) \<Rightarrow> (sbe_message_schema \<Rightarrow> sbe_message_schema) \<Rightarrow> sbe_parser \<Rightarrow> sbe_parser" where
  "into_open f h p =
     (if sp_groups p \<noteq> [] then p\<lparr>sp_groups := butlast (sp_groups p) @ [f (last (sp_groups p))]\<rparr>
      else p\<lparr>sp_current := map_option h (sp_current p)\<rparr>)"

definition push_sbe_field :: "sbe_field_def \<Rightarrow> sbe_parser \<Rightarrow> sbe_parser" where
  "push_sbe_field d = into_open (add_group_field d) (\<lambda>m. m\<lparr>sm_fields := sm_fields m @ [d]\<rparr>)"

definition push_var_data :: "sbe_var_data_def \<Rightarrow> sbe_parser \<Rightarrow> sbe_parser" where
  "push_var_data v = into_open (add_group_data v) (\<lambda>m. m\<lparr>sm_var_data := sm_var_data m @ [v]\<rparr>)"

definition finish_sbe_group :: "sbe_parser \<Rightarrow> sbe_parser" where
  "finish_sbe_group p =
     (if sp_groups p = [] then p
      else
        (let g = last (sp_groups p)
         in into_open (add_nested_group g) (\<lambda>m. m\<lparr>sm_groups := sm_groups m @ [g]\<rparr>) (p\<lparr>sp_groups := butlast (sp_groups p)\<rparr>)))"

definition insert_message :: "sbe_message_schema \<Rightarrow> sbe_parser \<Rightarrow> sbe_schema_error + sbe_parser" where
  "insert_message m p =
     (let i = sm_template_id m
      in if bt_get (sp_messages p) i = None then Inr (p\<lparr>sp_messages := bt_insert i m (sp_messages p)\<rparr>)
         else Inl (SbeDuplicateTemplateId i))"

definition sbe_start :: "xml_elem \<Rightarrow> bool \<Rightarrow> sbe_parser \<Rightarrow> sbe_schema_error + sbe_parser" where
  "sbe_start e is_empty p =
     (let n = local_name e in
      if n = ''messageSchema'' then
        try_then (map_sum SbeXml id (attr_opt_num e ''messageSchema'' ''id'')) (\<lambda>i. Inr (p\<lparr>sp_schema_id := i\<rparr>))
      else if n = ''message'' then
        try_then (map_sum SbeXml id (attr_num e ''message'' ''id'')) (\<lambda>i.
          if bt_get (sp_messages p) i \<noteq> None then Inl (SbeDuplicateTemplateId i)
          else
            try_then (map_sum SbeXml id (required_attr e ''message'' ''name'')) (\<lambda>name.
            try_then (map_sum SbeXml id (attr_num e ''message'' ''blockLength'')) (\<lambda>bl.
              let m = \<lparr>sm_template_id = i, sm_name = name, sm_block_length = bl, sm_fields = [], sm_groups = [], sm_var_data = []\<rparr>
              in if is_empty then insert_message m p else Inr (p\<lparr>sp_current := Some m\<rparr>))))
      else if n = ''field'' then
        try_then (sbe_field_from_attrs e) (\<lambda>d. Inr (push_sbe_field d p))
      else if n = ''group'' then
        try_then (map_sum SbeXml id (required_attr e ''group'' ''name'')) (\<lambda>name.
        try_then (map_sum SbeXml id (attr_num e ''group'' ''blockLength'')) (\<lambda>bl.
        try_then (map_sum SbeXml id (attr_opt_num e ''group'' ''dimensionOffset'')) (\<lambda>dim.
        try_then (map_sum SbeXml id (attr_num e ''group'' ''id'')) (\<lambda>t.
          let p' = p\<lparr>sp_groups := sp_groups p @ [SbeGroupDef t name bl (case dim of None \<Rightarrow> 0 | Some i \<Rightarrow> i) [] [] []]\<rparr>
          in Inr (if is_empty then finish_sbe_group p' else p')))))
      else if n \<in> {''data'', ''varData''} then
        try_then (map_sum SbeXml id (attr_num e ''data'' ''id'')) (\<lambda>t.
        try_then (map_sum SbeXml id (required_attr e ''data'' ''name'')) (\<lambda>name.
        try_then (map_sum SbeXml id (attr_opt_num e ''data'' ''lengthFieldSize'')) (\<lambda>l.
          let size = (case l of None \<Rightarrow> 1 | Some i \<Rightarrow> i)
          in if 256 \<le> size then Inl (SbeXml (NotANumber ''data'' ''lengthFieldSize'' ''too large''))
             else Inr (push_var_data \<lparr>sv_tag = t, sv_name = name, sv_length_field_size = size\<rparr> p))))
      else Inr p)"

definition sbe_end :: "bytes \<Rightarrow> sbe_parser \<Rightarrow> sbe_schema_error + sbe_parser" where
  "sbe_end n p =
     (if n = ''group'' then Inr (finish_sbe_group p)
      else if n = ''message'' then
        (case sp_current p of
           None \<Rightarrow> Inr p
         | Some m \<Rightarrow>
             try_then (validate_offsets (sm_fields m) []) (\<lambda>_. insert_message m (p\<lparr>sp_current := None\<rparr>)))
      else Inr p)"

definition parse_sbe_schemas :: "xml_event list \<Rightarrow> sbe_schema_error + sbe_schema_set" where
  "parse_sbe_schemas evs =
     map_sum id (\<lambda>p. \<lparr>ss_schema_id = sp_schema_id p, ss_messages = sp_messages p\<rparr>)
       (run_events (\<lambda>pos r. SbeXml (XmlError pos r)) sbe_start sbe_end evs
          \<lparr>sp_schema_id = None, sp_messages = [], sp_current = None, sp_groups = []\<rparr>)"

end
