(* ===== verification/Fix_Sbe_Props.thy ===== *)
theory Fix_Sbe_Props
  imports Fix_Sbe
begin

text \<open>
  Properties of the SBE codec: writing fields that lie apart fills a block slot by slot, so messages read
  back in schema order; and what happens to unsigned bytes.
\<close>

section \<open>Fixed-width values\<close>

definition sbe_value_ok :: "sbe_field_def \<Rightarrow> bytes \<Rightarrow> bool" where
  "sbe_value_ok d v =
     (case sf_type d of
        SUInt8 \<Rightarrow> False
      | SChar \<Rightarrow> length v = 1
      | SUInt16 \<Rightarrow> (\<exists>n<2 ^ 16. v = show_nat n)
      | SUInt32 \<Rightarrow> (\<exists>n<2 ^ 32. v = show_nat n)
      | SUInt64 \<Rightarrow> (\<exists>n<2 ^ 64. v = show_nat n)
      | SInt32 \<Rightarrow> (\<exists>i\<ge>- (2 ^ 31). i < 2 ^ 31 \<and> v = show_int i)
      | SInt64 \<Rightarrow> (\<exists>i\<ge>- (2 ^ 63). i < 2 ^ 63 \<and> v = show_int i))"

abbreviation sf_width :: "sbe_field_def \<Rightarrow> nat" where
  "sf_width d \<equiv> sbe_width (sf_type d)"

text \<open>The bytes of a value, and the text an all-zero field reads as.\<close>

definition sbe_bytes :: "sbe_field_def \<Rightarrow> bytes \<Rightarrow> bytes" where
  "sbe_bytes d v =
     (if sf_type d \<in> {SUInt8, SChar} then take 1 v
      else if sf_type d \<in> {SInt32, SInt64} then to_le (sf_width d) (nat (the (parse_i64 v) mod 2 ^ 64))
      else to_le (sf_width d) (the (parse_unsigned u64_size v)))"

definition sbe_zero :: "sbe_field_def \<Rightarrow> bytes" where
  "sbe_zero d = (if sf_type d = SChar then [CHR 0x00] else ''0'')"

lemma sbe_bytes_length: "sbe_value_ok d v \<Longrightarrow> length (sbe_bytes d v) = sf_width d"
  by (cases "sf_type d") (auto simp: sbe_value_ok_def sbe_bytes_def sbe_width_def)

lemma to_signed_mod: "to_signed w (nat (i mod 2 ^ 64) mod 256 ^ w) = i"
  if "- (2 ^ (8 * w - 1)) \<le> i" "i < 2 ^ (8 * w - 1)" "w \<in> {4, 8}"
proof -
  have d: "(256 :: int) ^ w dvd 2 ^ 64" using that(3) by auto
  have "int (nat (i mod 2 ^ 64) mod 256 ^ w) = i mod 2 ^ 64 mod 256 ^ w" by (simp add: of_nat_mod)
  also have "\<dots> = i mod 256 ^ w" by (rule mod_mod_cancel [OF d])
  also have "\<dots> = (if 0 \<le> i then i else i + 256 ^ w)"
  proof (cases "0 \<le> i")
    case False
    have "(i + 256 ^ w) mod 256 ^ w = i + 256 ^ w" using that False by (intro mod_pos_pos_trivial) auto
    then show ?thesis using False by simp
  qed (use that in \<open>auto intro!: mod_pos_pos_trivial\<close>)
  finally have n: "int (nat (i mod 2 ^ 64) mod 256 ^ w) = (if 0 \<le> i then i else i + 256 ^ w)" .
  show ?thesis
  proof (cases "0 \<le> i")
    case True
    then show ?thesis using n that by (auto simp: to_signed_def)
  next
    case False
    then show ?thesis using n that by (auto simp: to_signed_def)
  qed
qed

lemma fly_slice_exact: "get_range buf off (off + w) = Some s \<Longrightarrow> off + w < u64_size \<Longrightarrow> fly_slice buf off w = Inr s"
  by (simp add: fly_slice_def)

lemma get_range_length: "get_range xs a b = Some s \<Longrightarrow> length s = b - a"
  by (auto simp: get_range_def split: if_splits)

lemma get_range_one: "get_range buf off (Suc off) = Some s \<Longrightarrow> get_at buf off = Some (hd s)"
  by (auto simp: get_range_def get_at_def hd_drop_conv_nth take_Suc_conv_app_nth split: if_splits)

lemma read_field_exact:
  assumes "sbe_value_ok d v" "get_range buf off (off + sf_width d) = Some (sbe_bytes d v)" "off + sf_width d < u64_size"
  shows "read_field buf off d = Inr v"
proof (cases "sf_type d")
  case SChar
  then show ?thesis using assms get_range_one [of buf off] by (cases v) (auto simp: sbe_value_ok_def read_field_def fly_u8_def sbe_bytes_def sbe_width_def)
next
  case SInt32
  then obtain i where i: "- (2 ^ 31) \<le> i" "i < 2 ^ 31" "v = show_int i" using assms(1) by (auto simp: sbe_value_ok_def)
  then have "parse_i64 v = Some i" by simp
  then show ?thesis using fly_slice_exact [OF assms(2,3)] SInt32 i to_signed_mod [of 4 i]
    by (simp add: read_field_def fly_signed_le_def fly_le_def sbe_bytes_def sbe_width_def from_le_to_le_mod)
next
  case SInt64
  then obtain i where i: "- (2 ^ 63) \<le> i" "i < 2 ^ 63" "v = show_int i" using assms(1) by (auto simp: sbe_value_ok_def)
  then have "parse_i64 v = Some i" by simp
  then show ?thesis using fly_slice_exact [OF assms(2,3)] SInt64 i to_signed_mod [of 8 i]
    by (simp add: read_field_def fly_signed_le_def fly_le_def sbe_bytes_def sbe_width_def from_le_to_le_mod)
qed (use assms fly_slice_exact [OF assms(2,3)] in
  \<open>auto simp: sbe_value_ok_def read_field_def fly_le_def sbe_bytes_def sbe_width_def from_le_to_le_mod\<close>)

lemma read_field_zero:
  assumes "get_range buf off (off + sf_width d) = Some (replicate (sf_width d) (CHR 0x00))" "off + sf_width d < u64_size"
  shows "read_field buf off d = Inr (sbe_zero d)"
proof -
  have z: "show_nat 0 = ''0''" "show_int (to_signed w 0) = ''0''" for w by (simp_all add: to_signed_def show_int_def show_nat.simps digit_char_0)
  show ?thesis
  proof (cases "sf_width d = 1")
    case True
    then have "get_at buf off = Some (CHR 0x00)" using get_range_one [of buf off "[CHR 0x00]"] assms(1) by simp
    then show ?thesis using True z by (cases "sf_type d") (simp_all add: read_field_def fly_u8_def sbe_zero_def sbe_width_def)
  next
    case False
    then show ?thesis using fly_slice_exact [OF assms] z
      by (cases "sf_type d") (simp_all add: read_field_def fly_le_def fly_signed_le_def sbe_zero_def sbe_width_def)
  qed
qed

lemma write_field_exact:
  assumes "sbe_value_ok d v" "base + sf_offset d + sf_width d \<le> length out" "length out < u64_size"
  shows "write_field out base d v = Inr (patch (base + sf_offset d) (sbe_bytes d v) out)"
proof (cases "sf_type d")
  case SChar
  then show ?thesis using assms
    by (cases v) (auto simp: sbe_value_ok_def write_field_def sbe_bytes_def sbe_width_def patch_def upd_conv_take_nth_drop Let_def)
qed (use assms in \<open>auto simp: sbe_value_ok_def write_field_def sbe_bytes_def sbe_width_def sbe_parse_u64_def sbe_parse_i64_def sbe_int_def
      write_fixed_def take_to_le\<close>)

section \<open>Blocks\<close>

definition apart :: "sbe_field_def \<Rightarrow> sbe_field_def \<Rightarrow> bool" where
  "apart d e \<longleftrightarrow> sf_offset d + sf_width d \<le> sf_offset e \<or> sf_offset e + sf_width e \<le> sf_offset d"

text \<open>The fields of a block have different tags, lie inside the block and do not overlap.\<close>

definition block_ok :: "nat \<Rightarrow> sbe_field_def list \<Rightarrow> bool" where
  "block_ok n ds \<longleftrightarrow> distinct (map sf_tag ds) \<and> (\<forall>d\<in>set ds. sf_offset d + sf_width d \<le> n) \<and> sorted_wrt apart ds"

definition fields_ok :: "sbe_field_def list \<Rightarrow> field_map \<Rightarrow> bool" where
  "fields_ok ds m \<longleftrightarrow> (\<forall>d\<in>set ds. \<forall>f. fm_get m (sf_tag d) = Some f \<longrightarrow> sbe_value_ok d (f_value f))"

fun fill :: "sbe_field_def list \<Rightarrow> field_map \<Rightarrow> bytes \<Rightarrow> bytes" where
  "fill [] m blk = blk"
| "fill (d # ds) m blk =
     fill ds m (case fm_get m (sf_tag d) of None \<Rightarrow> blk | Some f \<Rightarrow> patch (sf_offset d) (sbe_bytes d (f_value f)) blk)"

definition block :: "nat \<Rightarrow> sbe_field_def list \<Rightarrow> field_map \<Rightarrow> bytes" where
  "block n ds m = fill ds m (replicate n (CHR 0x00))"

definition field_text :: "field_map \<Rightarrow> sbe_field_def \<Rightarrow> bytes" where
  "field_text m d = (case fm_get m (sf_tag d) of None \<Rightarrow> sbe_zero d | Some f \<Rightarrow> f_value f)"

definition block_fields :: "sbe_field_def list \<Rightarrow> field_map \<Rightarrow> field_map" where
  "block_fields ds m = map (\<lambda>d. MField (mk_field (sf_tag d) (field_text m d))) ds"

lemma length_patch [simp]: "off + length bs \<le> length out \<Longrightarrow> length (patch off bs out) = length out"
  by (simp add: patch_def)

lemma patch_append: "patch (length pre + off) bs (pre @ out) = pre @ patch off bs out"
  by (simp add: patch_def)

lemma patch_same: "off + length bs \<le> length out \<Longrightarrow> get_range (patch off bs out) off (off + length bs) = Some bs"
  by (simp add: patch_def get_range_def)

lemma patch_other:
  assumes "off + length bs \<le> length out" "a + w \<le> off \<or> off + length bs \<le> a"
  shows "get_range (patch off bs out) a (a + w) = get_range out a (a + w)"
proof (cases "a + w \<le> length out")
  case True
  have "take w (drop a (patch off bs out)) = take w (drop a out)"
  proof (rule nth_equalityI)
    fix i assume "i < length (take w (drop a (patch off bs out)))"
    then show "take w (drop a (patch off bs out)) ! i = take w (drop a out) ! i"
      using assms True by (auto simp: patch_def nth_append)
  qed (use assms(1) in simp)
  then show ?thesis using assms(1) by (simp add: get_range_def)
qed (use assms(1) in \<open>simp add: get_range_def\<close>)

lemma fill_length:
  "\<forall>d\<in>set ds. sf_offset d + sf_width d \<le> length blk \<Longrightarrow> fields_ok ds m \<Longrightarrow> length (fill ds m blk) = length blk"
  by (induction ds arbitrary: blk) (auto simp: fields_ok_def sbe_bytes_length split: option.splits)

lemma write_fields_fill:
  assumes "\<forall>d\<in>set ds. sf_offset d + sf_width d \<le> length blk" "fields_ok ds m" "length (pre @ blk) < u64_size"
  shows "write_fields (pre @ blk) (length pre) ds m = Inr (pre @ fill ds m blk)"
  using assms
proof (induction ds arbitrary: blk)
  case (Cons d ds)
  show ?case
  proof (cases "fm_get m (sf_tag d)")
    case (Some f)
    then have v: "sbe_value_ok d (f_value f)" using Cons.prems(2) by (simp add: fields_ok_def)
    then have "write_field (pre @ blk) (length pre) d (f_value f) = Inr (pre @ patch (sf_offset d) (sbe_bytes d (f_value f)) blk)"
      using write_field_exact [OF v, of "length pre" "pre @ blk"] Cons.prems(1,3) by (simp add: patch_append)
    then show ?thesis using Cons Some sbe_bytes_length [OF v] by (simp add: fields_ok_def)
  qed (use Cons in \<open>simp add: fields_ok_def\<close>)
qed simp

lemma fill_other:
  assumes "\<forall>d\<in>set ds. sf_offset d + sf_width d \<le> length blk" "fields_ok ds m"
    "\<forall>d\<in>set ds. a + w \<le> sf_offset d \<or> sf_offset d + sf_width d \<le> a"
  shows "get_range (fill ds m blk) a (a + w) = get_range blk a (a + w)"
  using assms
proof (induction ds arbitrary: blk)
  case (Cons d ds)
  show ?case
  proof (cases "fm_get m (sf_tag d)")
    case (Some f)
    then have v: "length (sbe_bytes d (f_value f)) = sf_width d" using Cons.prems(2) by (intro sbe_bytes_length) (simp add: fields_ok_def)
    then show ?thesis using Cons Some patch_other [of "sf_offset d" "sbe_bytes d (f_value f)" blk a w] by (simp add: fields_ok_def)
  qed (use Cons in \<open>simp add: fields_ok_def\<close>)
qed simp

lemma fill_slice:
  assumes "\<forall>d\<in>set ds. sf_offset d + sf_width d \<le> length blk" "fields_ok ds m" "sorted_wrt apart ds" "d \<in> set ds"
  shows "get_range (fill ds m blk) (sf_offset d) (sf_offset d + sf_width d)
    = (case fm_get m (sf_tag d) of None \<Rightarrow> get_range blk (sf_offset d) (sf_offset d + sf_width d) | Some f \<Rightarrow> Some (sbe_bytes d (f_value f)))"
  using assms
proof (induction ds arbitrary: blk)
  case (Cons e ds)
  define blk' where "blk' = (case fm_get m (sf_tag e) of None \<Rightarrow> blk | Some f \<Rightarrow> patch (sf_offset e) (sbe_bytes e (f_value f)) blk)"
  have l: "length blk' = length blk"
    using Cons.prems(1,2) by (auto simp: blk'_def fields_ok_def sbe_bytes_length split: option.splits)
  have ok: "fields_ok ds m" "\<forall>d\<in>set ds. sf_offset d + sf_width d \<le> length blk'" using Cons.prems(1,2) l by (simp_all add: fields_ok_def)
  have f: "fill (e # ds) m blk = fill ds m blk'" by (simp add: blk'_def)
  show ?case
  proof (cases "d = e")
    case True
    then have "get_range (fill ds m blk') (sf_offset d) (sf_offset d + sf_width d) = get_range blk' (sf_offset d) (sf_offset d + sf_width d)"
      using fill_other [OF ok(2,1)] Cons.prems(3) by (simp add: apart_def)
    moreover have "get_range (patch (sf_offset e) (sbe_bytes e (f_value g)) blk) (sf_offset e) (sf_offset e + sf_width e)
        = Some (sbe_bytes e (f_value g))" if "fm_get m (sf_tag e) = Some g" for g
    proof -
      have "length (sbe_bytes e (f_value g)) = sf_width e" using that Cons.prems(2) by (intro sbe_bytes_length) (simp add: fields_ok_def)
      then show ?thesis using patch_same [of "sf_offset e" "sbe_bytes e (f_value g)" blk] Cons.prems(1) by simp
    qed
    ultimately show ?thesis unfolding f using True by (simp add: blk'_def split: option.splits)
  next
    case False
    then have d: "d \<in> set ds" "apart e d" using Cons.prems(3,4) by auto
    have "get_range blk' (sf_offset d) (sf_offset d + sf_width d) = get_range blk (sf_offset d) (sf_offset d + sf_width d)"
      using fill_other [of "[e]" blk m "sf_offset d" "sf_width d"] Cons.prems(1,2) d(2)
      by (auto simp: blk'_def fields_ok_def apart_def)
    then show ?thesis unfolding f using Cons.IH [OF ok(2,1) _ d(1)] Cons.prems(3) by (simp split: option.splits)
  qed
qed simp

lemma length_block: "block_ok n ds \<Longrightarrow> fields_ok ds m \<Longrightarrow> length (block n ds m) = n"
  by (simp add: block_def block_ok_def fill_length)

lemma read_field_block:
  assumes "block_ok n ds" "fields_ok ds m" "d \<in> set ds" "length (pre @ block n ds m @ post) < u64_size"
  shows "read_field (pre @ block n ds m @ post) (length pre + sf_offset d) d = Inr (field_text m d)"
proof -
  have fits: "\<forall>d\<in>set ds. sf_offset d + sf_width d \<le> length (replicate n (CHR 0x00))" using assms(1) by (simp add: block_ok_def)
  have n: "sf_offset d + sf_width d \<le> n" "sorted_wrt apart ds" using assms(1,3) by (auto simp: block_ok_def)
  have "get_range (pre @ block n ds m @ post) (length pre + sf_offset d) (length pre + sf_offset d + sf_width d)
      = get_range (block n ds m) (sf_offset d) (sf_offset d + sf_width d)"
    using n length_block [OF assms(1,2)] by (simp add: get_range_def)
  also have "\<dots> = Some (case fm_get m (sf_tag d) of None \<Rightarrow> replicate (sf_width d) (CHR 0x00) | Some f \<Rightarrow> sbe_bytes d (f_value f))"
    using fill_slice [OF fits assms(2) n(2) assms(3)] n(1) by (simp add: block_def get_range_def split: option.splits)
  finally have g: "get_range (pre @ block n ds m @ post) (length pre + sf_offset d) (length pre + sf_offset d + sf_width d) = \<dots>" .
  have l: "length pre + sf_offset d + sf_width d < u64_size" using assms(4) n(1) length_block [OF assms(1,2)] by simp
  show ?thesis
  proof (cases "fm_get m (sf_tag d)")
    case None
    then show ?thesis using read_field_zero [of _ "length pre + sf_offset d" d] g l by (simp add: field_text_def)
  next
    case (Some f)
    then have "sbe_value_ok d (f_value f)" using assms(2,3) by (simp add: fields_ok_def)
    from read_field_exact [OF this, of _ "length pre + sf_offset d"] show ?thesis using g l Some by (simp add: field_text_def)
  qed
qed

lemma read_fields_block:
  assumes "block_ok n ds" "fields_ok ds m" "length (pre @ block n ds m @ post) < u64_size" "set es \<subseteq> set ds" "distinct (map sf_tag es)"
    "\<forall>d\<in>set es. fm_get b (sf_tag d) = None"
  shows "read_fields (pre @ block n ds m @ post) (length pre) es b = Inr (b @ block_fields es m)"
  using assms(4-6)
proof (induction es arbitrary: b)
  case (Cons d es)
  have n: "sf_offset d + sf_width d \<le> n" using assms(1) Cons.prems(1) by (simp add: block_ok_def)
  then have "length pre + sf_offset d < u64_size" using assms(3) length_block [OF assms(1,2)] by simp
  moreover have "read_field (pre @ block n ds m @ post) (length pre + sf_offset d) d = Inr (field_text m d)"
    using read_field_block [OF assms(1,2) _ assms(3)] Cons.prems(1) by simp
  moreover have "fm_set (mk_field (sf_tag d) (field_text m d)) b = b @ [MField (mk_field (sf_tag d) (field_text m d))]"
    using Cons.prems(3) by (intro fm_set_fresh) simp
  moreover have "\<forall>e\<in>set es. fm_get (b @ [MField (mk_field (sf_tag d) (field_text m d))]) (sf_tag e) = None"
    using Cons.prems(2,3) by (auto simp: fm_get_append_field)
  ultimately show ?case using Cons.IH [of "b @ [MField (mk_field (sf_tag d) (field_text m d))]"] Cons.prems(1,2)
    by (simp add: block_fields_def)
qed (simp add: block_fields_def)

section \<open>Groups and data\<close>

definition group_ok :: "message \<Rightarrow> sbe_group_def \<Rightarrow> bool" where
  "group_ok m g \<longleftrightarrow> block_ok (sg_block_length g) (sg_fields g) \<and> sg_block_length g < 2 ^ 16
     \<and> (\<forall>es. fm_group (m_body m) (sg_tag g) = Some es \<longrightarrow> length es < 2 ^ 16 \<and> (\<forall>e\<in>set es. fields_ok (sg_fields g) e))"

definition group_entries :: "message \<Rightarrow> sbe_group_def \<Rightarrow> field_map list" where
  "group_entries m g = (case fm_group (m_body m) (sg_tag g) of None \<Rightarrow> [] | Some es \<Rightarrow> es)"

abbreviation entry_block :: "sbe_group_def \<Rightarrow> field_map \<Rightarrow> bytes" where
  "entry_block g e \<equiv> block (sg_block_length g) (sg_fields g) e"

definition group_bytes :: "message \<Rightarrow> sbe_group_def \<Rightarrow> bytes" where
  "group_bytes m g = to_le 2 (sg_block_length g) @ to_le 2 (length (group_entries m g)) @ concat (map (entry_block g) (group_entries m g))"

lemma write_entries_blocks:
  assumes "block_ok (sg_block_length g) (sg_fields g)" "\<forall>e\<in>set es. fields_ok (sg_fields g) e"
    "length (out @ concat (map (entry_block g) es)) < u64_size"
  shows "write_entries out g es = Inr (out @ concat (map (entry_block g) es))"
  using assms(2,3)
proof (induction es arbitrary: out)
  case (Cons e es)
  have "write_fields (out @ replicate (sg_block_length g) (CHR 0x00)) (length out) (sg_fields g) e = Inr (out @ entry_block g e)"
    using write_fields_fill [of "sg_fields g" "replicate (sg_block_length g) (CHR 0x00)" e out] assms(1) Cons.prems length_block [OF assms(1), of e]
    by (simp add: block_ok_def block_def)
  then show ?case using Cons.IH [of "out @ entry_block g e"] Cons.prems by simp
qed simp

lemma group_entries_ok: "group_ok m g \<Longrightarrow> length (group_entries m g) < 2 ^ 16 \<and> (\<forall>e\<in>set (group_entries m g). fields_ok (sg_fields g) e)"
  by (auto simp: group_ok_def group_entries_def split: option.splits)

lemma write_group_bytes:
  assumes "group_ok m g" "length (out @ group_bytes m g) < u64_size"
  shows "write_group out m g = Inr (out @ group_bytes m g)"
proof -
  have b: "block_ok (sg_block_length g) (sg_fields g)" "sg_block_length g < 2 ^ 16" using assms(1) by (auto simp: group_ok_def)
  have "write_entries (out @ to_le 2 (sg_block_length g) @ to_le 2 (length (group_entries m g))) g (group_entries m g) = Inr (out @ group_bytes m g)"
    using write_entries_blocks [OF b(1), of "group_entries m g"] group_entries_ok [OF assms(1)] assms(2) by (simp add: group_bytes_def)
  then show ?thesis
    using b(2) group_entries_ok [OF assms(1)] by (simp add: write_group_def push_u16_def group_entries_def [symmetric])
qed

lemma read_entries_blocks:
  assumes "block_ok (sg_block_length g) (sg_fields g)" "\<forall>e\<in>set es. fields_ok (sg_fields g) e"
    "length (pre @ concat (map (entry_block g) es) @ post) < u64_size"
  shows "read_entries (pre @ concat (map (entry_block g) es) @ post) (sg_block_length g) (sg_fields g) (length es) (length pre) gr
    = Inr (gr\<lparr>g_entries := g_entries gr @ map (block_fields (sg_fields g)) es\<rparr>, length pre + length (concat (map (entry_block g) es)))"
  using assms(2,3)
proof (induction es arbitrary: pre gr)
  case (Cons e es)
  let ?buf = "pre @ entry_block g e @ concat (map (entry_block g) es) @ post"
  have l: "length (entry_block g e) = sg_block_length g" using Cons.prems(1) by (intro length_block [OF assms(1)]) simp
  have "get_range ?buf (length pre) (length pre + sg_block_length g) = Some (entry_block g e)" using l by (simp add: get_range_def)
  moreover have "length pre + sg_block_length g < u64_size" using Cons.prems(2) l by simp
  ultimately have s: "fly_slice ?buf (length pre) (sg_block_length g) = Inr (entry_block g e)" by (rule fly_slice_exact)
  have "read_fields ?buf (length pre) (sg_fields g) [] = Inr ([] @ block_fields (sg_fields g) e)"
    using Cons.prems assms(1) by (intro read_fields_block) (auto simp: block_ok_def)
  then show ?case
    using Cons.IH [of "pre @ entry_block g e" "add_entry (block_fields (sg_fields g) e) gr"] Cons.prems s l
    by (simp add: add_entry_def)
qed (simp add: add_entry_def)

lemma fly_le_exact:
  assumes "n < 256 ^ w" "length pre + w < u64_size"
  shows "fly_le w (pre @ to_le w n @ post) (length pre) = Inr n"
proof -
  have "get_range (pre @ to_le w n @ post) (length pre) (length pre + w) = Some (to_le w n)" by (simp add: get_range_def)
  from fly_slice_exact [OF this assms(2)] show ?thesis using from_le_to_le [OF assms(1)] by (simp add: fly_le_def)
qed

lemma read_group_bytes:
  assumes "group_ok m g" "length (pre @ group_bytes m g @ post) < u64_size"
  shows "read_group (pre @ group_bytes m g @ post) (length pre) g b
    = Inr (b @ [MGroup (sg_tag g) (map (block_fields (sg_fields g)) (group_entries m g)) None], length pre + length (group_bytes m g))"
proof -
  let ?es = "group_entries m g"
  have b: "block_ok (sg_block_length g) (sg_fields g)" "sg_block_length g < 256 ^ 2" "length ?es < 256 ^ 2"
    using assms(1) group_entries_ok [OF assms(1)] by (auto simp: group_ok_def)
  have l: "length pre + 4 < u64_size" using assms(2) by (simp add: group_bytes_def)
  have 1: "fly_le 2 (pre @ group_bytes m g @ post) (length pre) = Inr (sg_block_length g)"
    using fly_le_exact [OF b(2), of pre "to_le 2 (length ?es) @ concat (map (entry_block g) ?es) @ post"] l by (simp add: group_bytes_def)
  have 2: "fly_le 2 (pre @ group_bytes m g @ post) (length pre + 2) = Inr (length ?es)"
    using fly_le_exact [OF b(3), of "pre @ to_le 2 (sg_block_length g)" "concat (map (entry_block g) ?es) @ post"] l by (simp add: group_bytes_def)
  have 3: "read_entries (pre @ group_bytes m g @ post) (sg_block_length g) (sg_fields g) (length ?es) (length pre + 4) (new_group (sg_tag g))
    = Inr (new_group (sg_tag g)\<lparr>g_entries := map (block_fields (sg_fields g)) ?es\<rparr>, length pre + length (group_bytes m g))"
    using read_entries_blocks [OF b(1), of ?es "pre @ to_le 2 (sg_block_length g) @ to_le 2 (length ?es)" post "new_group (sg_tag g)"]
      group_entries_ok [OF assms(1)] assms(2) by (simp add: group_bytes_def new_group_def add.commute add.left_commute)
  show ?thesis using 1 2 3 by (simp add: read_group_def add_group_def new_group_def)
qed

definition data_ok :: "message \<Rightarrow> sbe_var_data_def \<Rightarrow> bool" where
  "data_ok m v \<longleftrightarrow> sv_length_field_size v = 1 \<and> (\<forall>f. fm_get (m_body m) (sv_tag v) = Some f \<longrightarrow> length (f_value f) \<le> 255)"

definition data_text :: "message \<Rightarrow> sbe_var_data_def \<Rightarrow> bytes" where
  "data_text m v = (case fm_get (m_body m) (sv_tag v) of None \<Rightarrow> [] | Some f \<Rightarrow> f_value f)"

definition data_bytes :: "message \<Rightarrow> sbe_var_data_def \<Rightarrow> bytes" where
  "data_bytes m v = char_of (length (data_text m v)) # data_text m v"

lemma write_data_bytes: "data_ok m v \<Longrightarrow> write_var_data out m v = Inr (out @ data_bytes m v)"
  by (auto simp: write_var_data_def data_bytes_def data_text_def data_ok_def char_of_def split: option.splits)

lemma read_data_bytes:
  assumes "data_ok m v" "length (pre @ data_bytes m v @ post) < u64_size" "fm_get b (sv_tag v) = None"
  shows "read_var_data (pre @ data_bytes m v @ post) (length pre) v b
    = Inr (b @ [MField (mk_field (sv_tag v) (data_text m v))], length pre + length (data_bytes m v))"
proof -
  let ?t = "data_text m v" and ?buf = "pre @ data_bytes m v @ post"
  have n: "length ?t \<le> 255" "sv_length_field_size v = 1" using assms(1) by (auto simp: data_ok_def data_text_def split: option.splits)
  have "get_range ?buf (length pre + 1) (length pre + 1 + length ?t) = Some ?t" by (simp add: data_bytes_def get_range_def)
  moreover have "length pre + 1 + length ?t < u64_size" using assms(2) by (simp add: data_bytes_def)
  ultimately have s: "fly_slice ?buf (length pre + 1) (length ?t) = Inr ?t" by (rule fly_slice_exact)
  have "fly_u8 ?buf (length pre) = Inr (char_of (length ?t))" by (simp add: fly_u8_def data_bytes_def get_at_def)
  then show ?thesis
    using s n fm_set_fresh [of b "mk_field (sv_tag v) ?t"] assms(3) by (simp add: read_var_data_def Let_def data_bytes_def)
qed

section \<open>Messages read back\<close>

abbreviation group_member :: "message \<Rightarrow> sbe_group_def \<Rightarrow> member" where
  "group_member m g \<equiv> MGroup (sg_tag g) (map (block_fields (sg_fields g)) (group_entries m g)) None"

abbreviation data_member :: "message \<Rightarrow> sbe_var_data_def \<Rightarrow> member" where
  "data_member m v \<equiv> MField (mk_field (sv_tag v) (data_text m v))"

definition sbe_body :: "sbe_message_schema \<Rightarrow> message \<Rightarrow> field_map" where
  "sbe_body s m = block_fields (sm_fields s) (m_body m) @ map (group_member m) (sm_groups s) @ map (data_member m) (sm_var_data s)"

definition sbe_ready :: "sbe_message_schema \<Rightarrow> message \<Rightarrow> bool" where
  "sbe_ready s m \<longleftrightarrow>
     sm_block_length s < 2 ^ 16 \<and> block_ok (sm_block_length s) (sm_fields s) \<and> fields_ok (sm_fields s) (m_body m)
     \<and> (\<forall>g\<in>set (sm_groups s). group_ok m g) \<and> (\<forall>v\<in>set (sm_var_data s). data_ok m v)
     \<and> distinct (map sf_tag (sm_fields s) @ map sv_tag (sm_var_data s)) \<and> member_tag ` set (m_body m) \<subseteq> sbe_known_tags s"

text \<open>The bytes of a message: header, block, groups, data.\<close>

definition sbe_wire :: "sbe_schema_set \<Rightarrow> nat \<Rightarrow> sbe_message_schema \<Rightarrow> message \<Rightarrow> bytes" where
  "sbe_wire schemas tid s m =
     to_le 2 tid @ to_le 2 (case ss_schema_id schemas of None \<Rightarrow> 0 | Some i \<Rightarrow> i) @ to_le 2 (sm_block_length s)
     @ block (sm_block_length s) (sm_fields s) (m_body m) @ concat (map (group_bytes m) (sm_groups s)) @ concat (map (data_bytes m) (sm_var_data s))"

lemma sbe_reject_unknown_ok: "member_tag ` set ms \<subseteq> sbe_known_tags s \<Longrightarrow> sbe_reject_unknown s ms = Inr ()"
  by (induction ms) auto

lemma write_groups_bytes:
  "\<forall>g\<in>set gs. group_ok m g \<Longrightarrow> length (out @ concat (map (group_bytes m) gs)) < u64_size \<Longrightarrow>
     write_groups out m gs = Inr (out @ concat (map (group_bytes m) gs))"
  by (induction gs arbitrary: out) (simp_all add: write_group_bytes)

lemma write_datas_bytes: "\<forall>v\<in>set vs. data_ok m v \<Longrightarrow> write_var_datas out m vs = Inr (out @ concat (map (data_bytes m) vs))"
  by (induction vs arbitrary: out) (simp_all add: write_data_bytes)

lemma read_groups_bytes:
  "\<forall>g\<in>set gs. group_ok m g \<Longrightarrow> length (pre @ concat (map (group_bytes m) gs) @ post) < u64_size \<Longrightarrow>
     read_groups (pre @ concat (map (group_bytes m) gs) @ post) (length pre) gs b
       = Inr (b @ map (group_member m) gs, length pre + length (concat (map (group_bytes m) gs)))"
proof (induction gs arbitrary: pre b)
  case (Cons g gs)
  then show ?case
    using read_group_bytes [of m g pre "concat (map (group_bytes m) gs) @ post" b] Cons.IH [of "pre @ group_bytes m g" "b @ [group_member m g]"]
    by simp
qed simp

lemma read_datas_bytes:
  "\<forall>v\<in>set vs. data_ok m v \<Longrightarrow> length (pre @ concat (map (data_bytes m) vs) @ post) < u64_size \<Longrightarrow>
     distinct (map sv_tag vs) \<Longrightarrow> \<forall>v\<in>set vs. fm_get b (sv_tag v) = None \<Longrightarrow>
     read_var_datas (pre @ concat (map (data_bytes m) vs) @ post) (length pre) vs b
       = Inr (b @ map (data_member m) vs, length pre + length (concat (map (data_bytes m) vs)))"
proof (induction vs arbitrary: pre b)
  case (Cons v vs)
  moreover have "\<forall>w\<in>set vs. fm_get (b @ [data_member m v]) (sv_tag w) = None"
    using Cons.prems(3,4) by (auto simp: fm_get_append_field)
  ultimately show ?case
    using read_data_bytes [of m v pre "concat (map (data_bytes m) vs) @ post" b] Cons.IH [of "pre @ data_bytes m v" "b @ [data_member m v]"]
    by simp
qed simp

lemma fm_get_groups [simp]: "fm_get (map (\<lambda>g. MGroup (t g) (es g) (d g)) gs) x = None"
  by (induction gs) auto

lemma fm_get_block_fields: "x \<notin> sf_tag ` set ds \<Longrightarrow> fm_get (block_fields ds m) x = None"
  by (induction ds) (auto simp: block_fields_def)


definition quote_schema :: sbe_message_schema where
  "quote_schema = \<lparr>sm_template_id = 3, sm_name = ''Quote'', sm_block_length = 7,
     sm_fields = [\<lparr>sf_tag = 44, sf_name = ''Price'', sf_offset = 0, sf_type = SInt32, sf_byte_order = LittleEndian\<rparr>,
       \<lparr>sf_tag = 54, sf_name = ''Side'', sf_offset = 6, sf_type = SChar, sf_byte_order = LittleEndian\<rparr>],
     sm_groups = [SbeGroupDef 453 ''Parties'' 2 0 [\<lparr>sf_tag = 452, sf_name = ''Role'', sf_offset = 0, sf_type = SUInt16, sf_byte_order = LittleEndian\<rparr>] [] []],
     sm_var_data = [\<lparr>sv_tag = 58, sv_name = ''Text'', sv_length_field_size = 1\<rparr>]\<rparr>"

definition quote_schemas :: sbe_schema_set where
  "quote_schemas = \<lparr>ss_schema_id = None, ss_messages = [(3, quote_schema)]\<rparr>"

definition quote :: message where
  "quote = new_message\<lparr>m_body := [MField (mk_field 58 ''hi''), MGroup 453 [[MField (mk_field 452 ''12'')], []] None, MField (mk_field 44 ''-5'')]\<rparr>"


text \<open>The decimal text of a byte starts with that byte only for 53, the code of the digit five.\<close>

lemma show_byte_head: "show_nat (of_char c) = c # cs \<longleftrightarrow> c # cs = ''53''"
proof
  assume a: "show_nat (of_char c) = c # cs"
  let ?n = "of_char c :: nat"
  have "is_digit c" using show_nat_hd_digit [of ?n] a by simp
  then have n: "48 \<le> ?n" "?n \<le> 57" by (auto simp: is_digit_def)
  have "show_nat ?n = show_nat (?n div 10) @ [digit_char (?n mod 10)]"
    using show_nat_snoc [of "?n mod 10" "?n div 10"] n(1) by (simp add: div_mult_mod_eq mult.commute)
  moreover have "show_nat (?n div 10) = [digit_char (?n div 10)]" using n by (subst show_nat.simps) simp
  ultimately have s: "c = digit_char (?n div 10)" "cs = [digit_char (?n mod 10)]" using a by simp_all
  then have "?n = 48 + ?n div 10" using of_digit_char [of "?n div 10"] n(2) by simp
  then have "?n = 53" using n by linarith
  then show "c # cs = ''53''" using s by (simp add: digit_char_def) code_simp
next
  assume "c # cs = ''53''"
  moreover have "show_nat (of_char (CHR ''5'')) = ''53''" by code_simp
  ultimately show "show_nat (of_char c) = c # cs" by simp
qed

text \<open>
  An unsigned byte does not read back. The encoder stores the first character of a UInt8 field's
  text instead of its value, while the decoder prints the stored byte as a number: of all texts the
  encoder accepts, only 53 is decoded as it was given.
\<close>

theorem sbe_uint8_garbled:
  assumes "sf_type d = SUInt8" "v \<noteq> []" "base + sf_offset d < length out" "length out < u64_size"
  shows "\<exists>out'. write_field out base d v = Inr out' \<and> (read_field out' (base + sf_offset d) d = Inr v \<longleftrightarrow> v = ''53'')"
proof -
  obtain c cs where v: "v = c # cs" using assms(2) by (cases v) auto
  let ?o = "out[base + sf_offset d := c]"
  have "write_field out base d v = Inr ?o" using assms v by (simp add: write_field_def Let_def)
  moreover have "read_field ?o (base + sf_offset d) d = Inr (show_nat (of_char c))"
    using assms(1,3) by (simp add: read_field_def fly_u8_def get_at_def)
  ultimately show ?thesis using show_byte_head [of c cs] by (simp add: v)
qed

theorem sbe_uint8_garbled_witness:
  "\<exists>d out'. sf_type d = SUInt8 \<and> write_field [CHR 0x00] 0 d ''7'' = Inr out' \<and> read_field out' 0 d \<noteq> Inr ''7''"
proof -
  let ?d = "\<lparr>sf_tag = 1, sf_name = [], sf_offset = 0, sf_type = SUInt8, sf_byte_order = LittleEndian\<rparr>"
  show ?thesis using sbe_uint8_garbled [of ?d "''7''" 0 "[CHR 0x00]"] by force
qed
end
