(* ===== verification/Fix_Schema_Props.thy ===== *)
theory Fix_Schema_Props
  imports Fix_Schema Fix_Sbe_Props
begin

text \<open>
  Properties of the schema loaders: the tables are filed under the identifiers of their entries, and the
  fields of an accepted SBE message do not overlap. The locale \<open>event_loader\<close> carries an invariant of the
  handlers over a whole document.
\<close>

section \<open>Invariants of a loader\<close>

text \<open>What a loader promises: its handlers keep an invariant whenever they succeed.\<close>

locale event_loader =
  fixes start_or_empty :: "xml_elem \<Rightarrow> bool \<Rightarrow> 's \<Rightarrow> 'e + 's"
    and end_of :: "bytes \<Rightarrow> 's \<Rightarrow> 'e + 's"
    and inv :: "'s \<Rightarrow> bool"
  assumes start_inv: "start_or_empty e b s = Inr s' \<Longrightarrow> inv s \<Longrightarrow> inv s'"
    and end_inv: "end_of n s = Inr s' \<Longrightarrow> inv s \<Longrightarrow> inv s'"
begin

lemma run_inv: "run_events fail start_or_empty end_of evs s = Inr s' \<Longrightarrow> inv s \<Longrightarrow> inv s'"
proof (induction evs arbitrary: s)
  case (Cons ev evs)
  show ?case
  proof (cases ev)
    case (XEnd n)
    then obtain t where "end_of (local_name_bytes n) s = Inr t" "run_events fail start_or_empty end_of evs t = Inr s'"
      using Cons.prems(1) by (auto simp: try_then_Inr)
    then show ?thesis using Cons.IH end_inv Cons.prems(2) by blast
  next
    case XOther
    then show ?thesis using Cons by simp
  qed (use Cons start_inv in \<open>auto simp: try_then_Inr\<close>)
qed simp

end

section \<open>FAST templates\<close>

definition fast_inv :: "fast_parser \<Rightarrow> bool" where
  "fast_inv p \<longleftrightarrow> bt_sorted (fp_templates p) \<and> (\<forall>(i, t) \<in> set (fp_templates p). ft_id t = i)"

lemma bt_insert_all: "(\<forall>x\<in>set m. P x) \<Longrightarrow> P (k, v) \<Longrightarrow> \<forall>x\<in>set (bt_insert k v m). P x"
  by (induction m rule: bt_insert.induct) (auto split: if_splits)

lemma insert_template_inv: "insert_template t p = Inr p' \<Longrightarrow> fast_inv p \<Longrightarrow> fast_inv p'"
  using bt_insert_all [of "fp_templates p" "\<lambda>(i, t). ft_id t = i" "ft_id t" t]
  by (auto simp: insert_template_def fast_inv_def Let_def bt_sorted_insert split: if_splits)

lemma push_fast_field_templates [simp]: "fp_templates (push_fast_field d p) = fp_templates p"
  by (simp add: push_fast_field_def split: option.splits)

lemma finish_fast_group_templates [simp]: "fp_templates (finish_fast_group p) = fp_templates p"
  by (simp add: finish_fast_group_def Let_def)

lemma fast_start_inv: "fast_start e b p = Inr p' \<Longrightarrow> fast_inv p \<Longrightarrow> fast_inv p'"
  by (auto simp: fast_start_def Let_def try_then_Inr dest: insert_template_inv split: if_splits) (auto simp: fast_inv_def)

lemma fast_end_inv: "fast_end n p = Inr p' \<Longrightarrow> fast_inv p \<Longrightarrow> fast_inv p'"
  by (auto simp: fast_end_def split: if_splits option.splits dest!: insert_template_inv) (auto simp: fast_inv_def)

interpretation fast_loader: event_loader fast_start fast_end fast_inv
  by unfold_locales (rule fast_start_inv fast_end_inv; assumption)+

section \<open>SBE schemas\<close>

text \<open>The bytes a field occupies, as the overlap check sees them.\<close>

abbreviation claimed :: "sbe_field_def \<Rightarrow> nat set" where
  "claimed d \<equiv> {sf_offset d..<sat_add32 (sf_offset d) (sf_width d)}"

lemma claim_offsets_ok: "claim_offsets name os used = Inr used' \<Longrightarrow> set os \<inter> set used = {} \<and> set used' = set os \<union> set used"
proof (induction os arbitrary: used)
  case (Cons o' os)
  then show ?case using Cons.IH [of "o' # used"] by (auto split: if_splits)
qed simp

lemma validate_offsets_ok:
  "validate_offsets ds used = Inr () \<Longrightarrow>
     sorted_wrt (\<lambda>d e. claimed d \<inter> claimed e = {}) ds \<and> (\<forall>d\<in>set ds. claimed d \<inter> set used = {})"
proof (induction ds arbitrary: used)
  case (Cons d ds)
  then obtain u where "claim_offsets (sf_name d) [sf_offset d..<sat_add32 (sf_offset d) (sf_width d)] used = Inr u" "validate_offsets ds u = Inr ()"
    by (auto simp: try_then_Inr)
  moreover from claim_offsets_ok [OF this(1)] have "claimed d \<inter> set used = {}" "set u = claimed d \<union> set used" by simp_all
  ultimately show ?case using Cons.IH [of u] by (simp add: Int_Un_distrib) blast
qed simp

lemma claimed_apart:
  assumes "claimed d \<inter> claimed e = {}" "sf_offset d + sf_width d < u32_size" "sf_offset e + sf_width e < u32_size"
  shows "apart d e"
proof (rule ccontr)
  assume n: "\<not> apart d e"
  have "0 < sf_width x" for x by (cases "sf_type x") (simp_all add: sbe_width_def)
  then have "max (sf_offset d) (sf_offset e) \<in> claimed d \<inter> claimed e"
    using n assms(2,3) by (auto simp: apart_def sat_add32_def max_def)
  then show False using assms(1) by blast
qed

definition schema_ok :: "nat \<Rightarrow> sbe_message_schema \<Rightarrow> bool" where
  "schema_ok i m \<longleftrightarrow> sm_template_id m = i \<and> sm_block_length m < u32_size \<and> sorted_wrt (\<lambda>d e. claimed d \<inter> claimed e = {}) (sm_fields m)"

definition sbe_inv :: "sbe_parser \<Rightarrow> bool" where
  "sbe_inv p \<longleftrightarrow> bt_sorted (sp_messages p) \<and> (\<forall>(i, m) \<in> set (sp_messages p). schema_ok i m)
     \<and> (\<forall>m. sp_current p = Some m \<longrightarrow> sm_block_length m < u32_size)"

lemma insert_message_inv:
  "insert_message m p = Inr p' \<Longrightarrow> sbe_inv p \<Longrightarrow> schema_ok (sm_template_id m) m \<Longrightarrow> sbe_inv p'"
  using bt_insert_all [of "sp_messages p" "\<lambda>(i, m). schema_ok i m" "sm_template_id m" m]
  by (auto simp: insert_message_def sbe_inv_def Let_def bt_sorted_insert split: if_splits)

lemma into_open_inv: "sbe_inv p \<Longrightarrow> (\<And>m. sm_block_length (h m) = sm_block_length m) \<Longrightarrow> sbe_inv (into_open f h p)"
  by (auto simp: into_open_def sbe_inv_def)

lemma push_inv [simp]: "sbe_inv p \<Longrightarrow> sbe_inv (push_sbe_field d p)" "sbe_inv p \<Longrightarrow> sbe_inv (push_var_data v p)"
  by (simp_all add: push_sbe_field_def push_var_data_def into_open_inv)

lemma sbe_inv_groups [simp]: "sbe_inv (p\<lparr>sp_groups := gs\<rparr>) = sbe_inv p" "sbe_inv (p\<lparr>sp_schema_id := i\<rparr>) = sbe_inv p"
  by (simp_all add: sbe_inv_def)

lemma finish_sbe_group_inv [simp]: "sbe_inv p \<Longrightarrow> sbe_inv (finish_sbe_group p)"
  by (simp add: finish_sbe_group_def Let_def into_open_inv)

lemma attr_num_bound: "map_sum f id (attr_num e n k) = Inr i \<Longrightarrow> i < u32_size"
  using parse_unsigned_bound [of u32_size] by (auto simp: attr_num_def try_then_def ok_or_def split: sum.splits option.splits)

lemma open_message_inv: "sbe_inv p \<Longrightarrow> sm_block_length m < u32_size \<Longrightarrow> sbe_inv (p\<lparr>sp_current := Some m\<rparr>)"
  by (simp add: sbe_inv_def)

lemma sbe_start_inv: "sbe_start e b p = Inr p' \<Longrightarrow> sbe_inv p \<Longrightarrow> sbe_inv p'"
  using attr_num_bound [of SbeXml e "''message''" "''blockLength''"]
  by (auto simp: sbe_start_def Let_def try_then_Inr schema_ok_def split: if_splits intro!: open_message_inv elim!: insert_message_inv)

lemma sbe_end_inv: "sbe_end n p = Inr p' \<Longrightarrow> sbe_inv p \<Longrightarrow> sbe_inv p'"
proof -
  assume a: "sbe_end n p = Inr p'" "sbe_inv p"
  show "sbe_inv p'"
  proof (cases "n = ''message'' \<and> sp_current p \<noteq> None")
    case True
    then obtain m where m: "sp_current p = Some m" "n = ''message''" by auto
    then have v: "validate_offsets (sm_fields m) [] = Inr ()" and "insert_message m (p\<lparr>sp_current := None\<rparr>) = Inr p'"
      using a(1) by (auto simp: sbe_end_def try_then_Inr)
    moreover have "sbe_inv (p\<lparr>sp_current := None\<rparr>)" "sm_block_length m < u32_size" using a(2) m(1) by (auto simp: sbe_inv_def)
    moreover from validate_offsets_ok [OF v] have "sorted_wrt (\<lambda>d e. claimed d \<inter> claimed e = {}) (sm_fields m)" ..
    ultimately show ?thesis using insert_message_inv [of m "p\<lparr>sp_current := None\<rparr>" p'] by (simp add: schema_ok_def)
  qed (use a in \<open>auto simp: sbe_end_def split: if_splits option.splits\<close>)
qed

interpretation sbe_loader: event_loader sbe_start sbe_end sbe_inv
  by unfold_locales (rule sbe_start_inv sbe_end_inv; assumption)+


definition quote_document :: "xml_event list" where
  "quote_document =
     [XStart \<lparr>xe_local_name = ''messageSchema'', xe_attributes = [Attr ''id'' (Inr ''9'')]\<rparr>,
      XStart \<lparr>xe_local_name = ''message'', xe_attributes = [Attr ''id'' (Inr ''3''), Attr ''name'' (Inr ''Quote''), Attr ''blockLength'' (Inr ''6'')]\<rparr>,
      XEmpty \<lparr>xe_local_name = ''field'', xe_attributes =
        [Attr ''name'' (Inr ''Price''), Attr ''id'' (Inr ''44''), Attr ''type'' (Inr ''int32''), Attr ''offset'' (Inr ''0'')]\<rparr>,
      XEmpty \<lparr>xe_local_name = ''field'', xe_attributes =
        [Attr ''name'' (Inr ''Qty''), Attr ''id'' (Inr ''38''), Attr ''type'' (Inr ''uint16''), Attr ''offset'' (Inr ''4'')]\<rparr>,
      XEnd ''message'', XEnd ''messageSchema'']"

end
