(* ===== verification/Fix_Net.thy ===== *)
theory Fix_Net
  imports Fix_Text
begin

text \<open>
  IP address literals as the standard library reads them (\<^verbatim>\<open>IpAddr::from_str\<close>). Every reader takes the input and
  returns what it read with the rest of the input, or \<open>None\<close> and the input is left where it was.
\<close>

datatype ip_addr = V4 "nat list" | V6 "nat list"

definition hex_digit :: "char \<Rightarrow> nat option" where
  "hex_digit c =
     (let n = of_char c :: nat in
      if 48 \<le> n \<and> n \<le> 57 then Some (n - 48)
      else if 97 \<le> n \<and> n \<le> 102 then Some (n - 87)
      else if 65 \<le> n \<and> n \<le> 70 then Some (n - 55)
      else None)"

definition radix_digit :: "nat \<Rightarrow> char \<Rightarrow> nat option" where
  "radix_digit radix c = (case hex_digit c of Some d \<Rightarrow> if d < radix then Some d else None | None \<Rightarrow> None)"

fun take_digits :: "nat \<Rightarrow> bytes \<Rightarrow> nat list \<times> bytes" where
  "take_digits radix [] = ([], [])"
| "take_digits radix (c # cs) =
     (case radix_digit radix c of
        None \<Rightarrow> ([], c # cs)
      | Some d \<Rightarrow> (let (ds, rest) = take_digits radix cs in (d # ds, rest)))"

text \<open>At most \<open>width\<close> digits, a value below \<open>bd\<close>, and no leading zero unless allowed.\<close>

definition read_number :: "nat \<Rightarrow> nat \<Rightarrow> bool \<Rightarrow> nat \<Rightarrow> bytes \<Rightarrow> (nat \<times> bytes) option" where
  "read_number radix width zero_prefix bd s =
     (let (ds, rest) = take_digits radix s;
          n = foldl (\<lambda>a d. a * radix + d) 0 ds
      in if ds = [] \<or> width < length ds \<or> (\<not> zero_prefix \<and> hd ds = 0 \<and> 1 < length ds) \<or> bd \<le> n then None
         else Some (n, rest))"

definition read_separator :: "char \<Rightarrow> nat \<Rightarrow> (bytes \<Rightarrow> ('a \<times> bytes) option) \<Rightarrow> bytes \<Rightarrow> ('a \<times> bytes) option" where
  "read_separator sep i inner s =
     (if 0 < i then (case s of c # cs \<Rightarrow> if c = sep then inner cs else None | [] \<Rightarrow> None) else inner s)"

fun read_octets :: "nat \<Rightarrow> nat \<Rightarrow> bytes \<Rightarrow> (nat list \<times> bytes) option" where
  "read_octets i 0 s = Some ([], s)"
| "read_octets i (Suc n) s =
     (case read_separator (CHR ''.'') i (read_number 10 3 False 256) s of
        None \<Rightarrow> None
      | Some (x, rest) \<Rightarrow> map_option (\<lambda>(xs, r). (x # xs, r)) (read_octets (Suc i) n rest))"

definition read_ipv4_addr :: "bytes \<Rightarrow> (nat list \<times> bytes) option" where
  "read_ipv4_addr s = read_octets 0 4 s"

text \<open>Groups of an IPv6 address, from index \<open>i\<close> up to \<open>limit\<close>; the flag says that they end in an IPv4 address.\<close>

fun read_groups :: "nat \<Rightarrow> nat \<Rightarrow> nat \<Rightarrow> bytes \<Rightarrow> nat list \<times> bool \<times> bytes" where
  "read_groups limit i 0 s = ([], False, s)"
| "read_groups limit i (Suc n) s =
     (case if i < limit - 1 then read_separator (CHR '':'') i read_ipv4_addr s else None of
        Some (v4, rest) \<Rightarrow> ([256 * v4 ! 0 + v4 ! 1, 256 * v4 ! 2 + v4 ! 3], True, rest)
      | None \<Rightarrow>
          (case read_separator (CHR '':'') i (read_number 16 4 True 65536) s of
             None \<Rightarrow> ([], False, s)
           | Some (g, rest) \<Rightarrow> (let (gs, v4, r) = read_groups limit (Suc i) n rest in (g # gs, v4, r))))"

definition read_ipv6_addr :: "bytes \<Rightarrow> (nat list \<times> bytes) option" where
  "read_ipv6_addr s =
     (let (front, v4, rest) = read_groups 8 0 8 s in
      if length front = 8 then Some (front, rest)
      else if v4 then None
      else if \<not> prefix ''::'' rest then None
      else
        (let limit = 8 - (length front + 1);
             (back, _, rest') = read_groups limit 0 limit (drop 2 rest)
         in Some (front @ replicate (8 - length front - length back) 0 @ back, rest')))"

definition parse_ip_addr :: "bytes \<Rightarrow> ip_addr option" where
  "parse_ip_addr s =
     (case read_ipv4_addr s of
        Some (v, rest) \<Rightarrow> if rest = [] then Some (V4 v) else None
      | None \<Rightarrow> (case read_ipv6_addr s of Some (v, rest) \<Rightarrow> if rest = [] then Some (V6 v) else None | None \<Rightarrow> None))"

section \<open>What an accepted address is\<close>

definition ip_addr_ok :: "ip_addr \<Rightarrow> bool" where
  "ip_addr_ok a = (case a of V4 os \<Rightarrow> length os = 4 \<and> (\<forall>x\<in>set os. x < 256) | V6 gs \<Rightarrow> length gs = 8 \<and> (\<forall>x\<in>set gs. x < 65536))"

lemma read_number_bound: "read_number r w z bd s = Some (n, rest) \<Longrightarrow> n < bd"
  by (auto simp: read_number_def Let_def split: prod.splits if_splits)

lemma read_octets_ok: "read_octets i n s = Some (xs, rest) \<Longrightarrow> length xs = n \<and> (\<forall>x\<in>set xs. x < 256)"
  by (induction i n s arbitrary: xs rest rule: read_octets.induct)
     (auto simp: read_separator_def split: option.splits list.splits if_splits dest!: read_number_bound)

lemma octet_pair: "a < 256 \<Longrightarrow> b < 256 \<Longrightarrow> 256 * a + b < (65536 :: nat)"
  by simp

lemma read_groups_ok:
  "read_groups limit i n s = (gs, v4, rest) \<Longrightarrow> i + n = limit \<Longrightarrow> length gs \<le> n \<and> (\<forall>x\<in>set gs. x < 65536)"
proof (induction limit i n s arbitrary: gs v4 rest rule: read_groups.induct)
  case (2 limit i n s)
  show ?case
  proof (cases "if i < limit - 1 then read_separator (CHR '':'') i read_ipv4_addr s else None")
    case None
    show ?thesis
    proof (cases "read_separator (CHR '':'') i (read_number 16 4 True 65536) s")
      case (Some p)
      obtain g r where g: "p = (g, r)" by (cases p)
      obtain gs' v' r' where r: "read_groups limit (Suc i) n r = (gs', v', r')" by (metis prod_cases3)
      have "g < 65536" using Some g by (auto simp: read_separator_def split: list.splits if_splits dest!: read_number_bound)
      moreover have "length gs' \<le> n \<and> (\<forall>x\<in>set gs'. x < 65536)" using 2(1) [OF None Some g [symmetric] r] 2(3) by simp
      ultimately show ?thesis using 2(2) None Some g r by (auto split: if_splits)
    qed (use 2(2) None in \<open>auto split: if_splits\<close>)
  next
    case (Some p)
    obtain v r where v: "p = (v, r)" by (cases p)
    have i: "i < limit - 1" using Some by (auto split: if_splits)
    have "length v = 4 \<and> (\<forall>x\<in>set v. x < 256)"
      using Some v i by (auto simp: read_separator_def read_ipv4_addr_def split: list.splits if_splits dest!: read_octets_ok)
    then have "v ! 0 < 256 \<and> v ! 1 < 256 \<and> v ! 2 < 256 \<and> v ! 3 < 256" by simp
    moreover have "gs = [256 * v ! 0 + v ! 1, 256 * v ! 2 + v ! 3]" using 2(2) Some v i by auto
    ultimately show ?thesis using i 2(3) by (auto intro: octet_pair)
  qed
qed auto

lemma parse_ip_addr_ok: "parse_ip_addr s = Some a \<Longrightarrow> ip_addr_ok a"
proof -
  assume a: "parse_ip_addr s = Some a"
  show ?thesis
  proof (cases "read_ipv4_addr s")
    case (Some p)
    then show ?thesis using a by (cases p) (auto simp: parse_ip_addr_def ip_addr_ok_def read_ipv4_addr_def split: if_splits dest!: read_octets_ok)
  next
    case None
    then obtain gs where g: "read_ipv6_addr s = Some (gs, [])" "a = V6 gs"
      using a by (auto simp: parse_ip_addr_def split: option.splits if_splits)
    obtain f v r where f: "read_groups 8 0 8 s = (f, v, r)" by (metis prod_cases3)
    obtain b w q where b: "read_groups (8 - (length f + 1)) 0 (8 - (length f + 1)) (drop 2 r) = (b, w, q)" by (metis prod_cases3)
    have "length f \<le> 8 \<and> (\<forall>x\<in>set f. x < 65536)" using read_groups_ok [OF f] by simp
    moreover have "length b \<le> 8 - (length f + 1) \<and> (\<forall>x\<in>set b. x < 65536)" using read_groups_ok [OF b] by simp
    ultimately show ?thesis using g f b by (auto simp: read_ipv6_addr_def ip_addr_ok_def split: if_splits)
  qed
qed

end
