(* ===== verification/Fix_Builder_Keys.thy ===== *)
theory Fix_Builder_Keys
  imports Fix_Settings Fix_Config Fix_Net
begin

text \<open>
  Reading the keys of one session section (\<^verbatim>\<open>config/builder.rs\<close>): typed values with defaults, numbered keys, the
  session schedule. Every failure names the key and the session label.
\<close>

section \<open>Environment\<close>

text \<open>
  What the resolver asks of its surroundings: the calendar, the first address of a host (\<^verbatim>\<open>to_socket_addrs\<close>), the text
  of a file, the bundled dictionary documents by version, the known time-zone names, and which optional backends are
  compiled in.
\<close>

record builder_env =
  be_ext :: ext
  be_lookup_host :: "bytes \<Rightarrow> nat \<Rightarrow> (ip_addr \<times> nat) option"
  be_read_to_string :: "bytes \<Rightarrow> bytes + bytes"
  be_dicts :: "(bytes \<times> bytes) list"
  be_time_zone :: "bytes \<Rightarrow> bool"
  be_sql :: bool
  be_mssql :: bool

type_synonym section_map = "(bytes, bytes) btree"

section \<open>Typed keys\<close>

definition session_label :: "section_map \<Rightarrow> nat \<Rightarrow> bytes" where
  "session_label m i =
     (case (bt_get m ''SenderCompID'', bt_get m ''TargetCompID'') of
        (Some s, Some t) \<Rightarrow> s @ ''->'' @ t
      | _ \<Rightarrow> ''#'' @ show_nat i)"

definition required :: "section_map \<Rightarrow> bytes \<Rightarrow> bytes \<Rightarrow> config_error + bytes" where
  "required m key session = ok_or (bt_get m key) (MissingRequired key session)"

text \<open>A value through a partial reader, or the default when the key is absent.\<close>

definition read_key :: "(bytes \<Rightarrow> 'a option) \<Rightarrow> string \<Rightarrow> section_map \<Rightarrow> bytes \<Rightarrow> bytes \<Rightarrow> 'a \<Rightarrow> config_error + 'a" where
  "read_key reader expected m key session dflt =
     (case bt_get m key of
        None \<Rightarrow> Inr dflt
      | Some v \<Rightarrow> ok_or (reader v) (InvalidValue key session (Got expected v)))"

definition u32_key :: "section_map \<Rightarrow> bytes \<Rightarrow> bytes \<Rightarrow> nat \<Rightarrow> config_error + nat" where
  "u32_key = read_key (parse_unsigned u32_size) ''expected an integer, got ''"

definition parse_yn :: "bytes \<Rightarrow> bool option" where
  "parse_yn v = (if eq_ignore_ascii_case v ''Y'' then Some True else if eq_ignore_ascii_case v ''N'' then Some False else None)"

definition bool_key :: "section_map \<Rightarrow> bytes \<Rightarrow> bytes \<Rightarrow> bool \<Rightarrow> config_error + bool" where
  "bool_key = read_key parse_yn ''expected Y/N, got ''"

definition lenient_bool_key :: "section_map \<Rightarrow> bytes \<Rightarrow> bool \<Rightarrow> bool" where
  "lenient_bool_key m key dflt = (case bt_get m key of None \<Rightarrow> dflt | Some v \<Rightarrow> eq_ignore_ascii_case v ''Y'')"

text \<open>
  \<^verbatim>\<open>f64::from_str\<close> on decimal notation: digits with an optional point and exponent, correctly rounded. The words for
  infinity and not-a-number have no counterpart among the rationals and are left out.
\<close>

definition digits_value :: "bytes \<Rightarrow> nat" where
  "digits_value s = foldl (\<lambda>a c. a * 10 + digit_val c) 0 s"

definition parse_exponent :: "bytes \<Rightarrow> int option" where
  "parse_exponent s =
     (case s of
        [] \<Rightarrow> Some 0
      | c # cs \<Rightarrow>
          if c \<noteq> CHR ''e'' \<and> c \<noteq> CHR ''E'' then None
          else
            (let negative = (cs \<noteq> [] \<and> hd cs = CHR ''-'');
                 ds = (if cs \<noteq> [] \<and> hd cs \<in> {CHR ''+'', CHR ''-''} then tl cs else cs)
             in if ds = [] \<or> \<not> list_all is_digit ds then None
                else Some (if negative then - int (digits_value ds) else int (digits_value ds))))"

definition parse_f64 :: "bytes \<Rightarrow> rat option" where
  "parse_f64 s =
     (let negative = (s \<noteq> [] \<and> hd s = CHR ''-'');
          body = (if s \<noteq> [] \<and> hd s \<in> {CHR ''+'', CHR ''-''} then tl s else s);
          whole = takeWhile is_digit body;
          r = dropWhile is_digit body;
          dot = (r \<noteq> [] \<and> hd r = CHR ''.'');
          frac = (if dot then takeWhile is_digit (tl r) else []);
          r' = (if dot then dropWhile is_digit (tl r) else r)
      in if whole @ frac = [] then None
         else map_option
           (\<lambda>e. f64_round ((if negative then - 1 else 1) * of_nat (digits_value (whole @ frac)) * 10 powi (e - int (length frac))))
           (parse_exponent r'))"

definition f64_key :: "section_map \<Rightarrow> bytes \<Rightarrow> bytes \<Rightarrow> rat \<Rightarrow> config_error + rat" where
  "f64_key = read_key parse_f64 ''expected a number, got ''"

definition usize_key :: "section_map \<Rightarrow> bytes \<Rightarrow> bytes \<Rightarrow> nat option \<Rightarrow> config_error + nat option" where
  "usize_key = read_key (map_option Some \<circ> parse_unsigned u64_size) ''expected a non-negative integer, got ''"

definition opt_u32_key :: "section_map \<Rightarrow> bytes \<Rightarrow> bytes \<Rightarrow> config_error + nat option" where
  "opt_u32_key m key session = read_key (map_option Some \<circ> parse_unsigned u32_size) ''expected an integer, got '' m key session None"

text \<open>Durations are whole seconds; a negative linger means none.\<close>

definition linger_key :: "section_map \<Rightarrow> bytes \<Rightarrow> bytes \<Rightarrow> config_error + nat option" where
  "linger_key m key session =
     read_key (map_option (\<lambda>secs. if 0 \<le> secs then Some (nat secs) else None) \<circ> parse_i64)
       ''expected an integer number of seconds, got '' m key session None"

definition parse_precision :: "bytes \<Rightarrow> timestamp_precision option" where
  "parse_precision v =
     map_of [(''SECONDS'', Seconds), (''MILLIS'', Milliseconds), (''MICROS'', Microseconds), (''NANOS'', Nanoseconds)]
       (to_ascii_uppercase v)"

definition precision_key :: "section_map \<Rightarrow> bytes \<Rightarrow> bytes \<Rightarrow> timestamp_precision \<Rightarrow> config_error + timestamp_precision" where
  "precision_key = read_key parse_precision ''expected SECONDS/MILLIS/MICROS/NANOS, got ''"

datatype protocol = Soh | Fast | Sbe

definition parse_protocol :: "bytes \<Rightarrow> protocol option" where
  "parse_protocol v = map_of [(''SOH'', Soh), (''FAST'', Fast), (''SBE'', Sbe)] (to_ascii_uppercase v)"

definition protocol_key :: "section_map \<Rightarrow> bytes \<Rightarrow> bytes \<Rightarrow> protocol \<Rightarrow> config_error + protocol" where
  "protocol_key = read_key parse_protocol ''expected SOH/FAST/SBE, got ''"

definition port_value :: "bytes \<Rightarrow> bytes \<Rightarrow> bytes \<Rightarrow> config_error + nat" where
  "port_value key session v = ok_or (parse_unsigned 65536 v) (InvalidValue key session (Got ''expected a port number, got '' v))"

text \<open>A comma-separated list of IP addresses, empty pieces skipped.\<close>

definition ip_list :: "bytes \<Rightarrow> bytes \<Rightarrow> bytes \<Rightarrow> config_error + ip_addr list" where
  "ip_list key session v =
     try_map (\<lambda>s. ok_or (parse_ip_addr s) (InvalidValue key session (Got ''expected an IP address, got '' s)))
       (filter (\<lambda>s. s \<noteq> []) (map trim (split_all (CHR '','') v)))"

section \<open>Numbered keys\<close>

definition numbered_left :: "section_map \<Rightarrow> bytes \<Rightarrow> nat \<Rightarrow> nat" where
  "numbered_left m pre n = card {k. n \<le> k \<and> bt_get m (pre @ show_nat k) \<noteq> None}"

lemma show_nat_eq: "show_nat a = show_nat b \<longleftrightarrow> a = b"
proof
  assume e: "show_nat a = show_nat b"
  have "parse_unsigned (Suc (max a b)) (show_nat a) = Some a" by (rule parse_unsigned_show_nat) linarith
  moreover have "parse_unsigned (Suc (max a b)) (show_nat b) = Some b" by (rule parse_unsigned_show_nat) linarith
  ultimately show "a = b" unfolding e by simp
qed simp

lemma finite_numbered: "finite {k. n \<le> k \<and> bt_get m (pre @ show_nat k) \<noteq> None}"
proof (rule finite_subset)
  have "inj (\<lambda>k. pre @ show_nat k)" by (simp add: inj_def show_nat_eq)
  then show "finite ((\<lambda>k. pre @ show_nat k) -` fst ` set m)" by (intro finite_vimageI) auto
qed (auto simp: map_of_eq_None_iff)

lemma numbered_left_less: "bt_get m (pre @ show_nat n) \<noteq> None \<Longrightarrow> numbered_left m pre (Suc n) < numbered_left m pre n"
  unfolding numbered_left_def
proof (rule psubset_card_mono [OF finite_numbered])
  assume "bt_get m (pre @ show_nat n) \<noteq> None"
  then have "n \<in> {k. n \<le> k \<and> bt_get m (pre @ show_nat k) \<noteq> None} - {k. Suc n \<le> k \<and> bt_get m (pre @ show_nat k) \<noteq> None}" by simp
  moreover have "{k. Suc n \<le> k \<and> bt_get m (pre @ show_nat k) \<noteq> None} \<subseteq> {k. n \<le> k \<and> bt_get m (pre @ show_nat k) \<noteq> None}"
    by (auto intro: Suc_leD)
  ultimately show "{k. Suc n \<le> k \<and> bt_get m (pre @ show_nat k) \<noteq> None} \<subset> {k. n \<le> k \<and> bt_get m (pre @ show_nat k) \<noteq> None}"
    by blast
qed

definition parse_logon_tag :: "bytes \<Rightarrow> bytes \<Rightarrow> bytes \<Rightarrow> config_error + nat \<times> bytes" where
  "parse_logon_tag key session raw =
     try_then (ok_or (split_once (CHR ''='') raw) (InvalidValue key session (Got ''expected `<tag>=<value>`, got '' raw)))
       (\<lambda>(t, v). map_sum id (\<lambda>n. (n, v))
          (ok_or (parse_unsigned u32_size t) (InvalidValue key session (Got ''expected an integer tag, got '' t))))"

function logon_tag_loop :: "section_map \<Rightarrow> bytes \<Rightarrow> nat \<Rightarrow> config_error + (nat \<times> bytes) list" where
  "logon_tag_loop m session n =
     (case bt_get m (''LogonTag'' @ show_nat n) of
        None \<Rightarrow> Inr []
      | Some raw \<Rightarrow>
          try_then (parse_logon_tag (''LogonTag'' @ show_nat n) session raw)
            (\<lambda>x. map_sum id (Cons x) (logon_tag_loop m session (Suc n))))"
  by pat_completeness auto
termination
  by (relation "measure (\<lambda>(m, session, n). numbered_left m ''LogonTag'' n)") (auto intro!: numbered_left_less)

declare logon_tag_loop.simps [simp del]

definition resolve_logon_tags :: "section_map \<Rightarrow> bytes \<Rightarrow> config_error + (nat \<times> bytes) list" where
  "resolve_logon_tags m session =
     (case bt_get m ''LogonTag'' of
        None \<Rightarrow> logon_tag_loop m session 1
      | Some raw \<Rightarrow> try_then (parse_logon_tag ''LogonTag'' session raw) (\<lambda>x. map_sum id (Cons x) (logon_tag_loop m session 1)))"

record socket_endpoint =
  ep_host :: bytes
  ep_port :: nat

function failover_loop :: "section_map \<Rightarrow> bytes \<Rightarrow> nat \<Rightarrow> config_error + socket_endpoint list" where
  "failover_loop m session n =
     (case bt_get m (''SocketConnectHost'' @ show_nat n) of
        None \<Rightarrow>
          if bt_get m (''SocketConnectPort'' @ show_nat n) = None then Inr []
          else Inl (InvalidValue (''SocketConnectHost'' @ show_nat n @ ''/SocketConnectPort'' @ show_nat n) session
                      (Because ''both host and port must be set for a numbered backup endpoint''))
      | Some host \<Rightarrow>
          (case bt_get m (''SocketConnectPort'' @ show_nat n) of
             None \<Rightarrow> Inl (InvalidValue (''SocketConnectHost'' @ show_nat n @ ''/SocketConnectPort'' @ show_nat n) session
                           (Because ''both host and port must be set for a numbered backup endpoint''))
           | Some port_str \<Rightarrow>
               try_then (port_value (''SocketConnectPort'' @ show_nat n) session port_str)
                 (\<lambda>port. map_sum id (Cons \<lparr>ep_host = host, ep_port = port\<rparr>) (failover_loop m session (Suc n)))))"
  by pat_completeness auto
termination
  by (relation "measure (\<lambda>(m, session, n). numbered_left m ''SocketConnectHost'' n)") (auto intro!: numbered_left_less)

declare failover_loop.simps [simp del]

definition resolve_failover_addresses :: "section_map \<Rightarrow> bytes \<Rightarrow> config_error + socket_endpoint list" where
  "resolve_failover_addresses m session = failover_loop m session 1"

section \<open>Schedules\<close>

text \<open>A time zone that is a number wraps as 32-bit arithmetic does.\<close>

definition as_i32 :: "int \<Rightarrow> int" where
  "as_i32 x = (x + 2 ^ 31) mod 2 ^ 32 - 2 ^ 31"

definition parse_i32 :: "bytes \<Rightarrow> int option" where
  "parse_i32 s = (case parse_i64 s of Some i \<Rightarrow> if - (2 ^ 31) \<le> i \<and> i < 2 ^ 31 then Some i else None | None \<Rightarrow> None)"

definition nth_piece :: "'a list \<Rightarrow> nat \<Rightarrow> 'a option" where
  "nth_piece xs i = (if i < length xs then Some (xs ! i) else None)"

definition parse_time :: "ext \<Rightarrow> bytes \<Rightarrow> bytes \<Rightarrow> bytes \<Rightarrow> config_error + tod" where
  "parse_time E v key session =
     (let bad = InvalidValue key session (Got ''expected HH:MM:SS, got '' v); parts = splitn 3 (CHR '':'') v in
      try_then (ok_or (Option.bind (nth_piece parts 0) (parse_unsigned 256)) bad) (\<lambda>hour.
      try_then (ok_or (Option.bind (nth_piece parts 1) (parse_unsigned 256)) bad) (\<lambda>minute.
      try_then (case nth_piece parts 2 of None \<Rightarrow> Inr 0 | Some s \<Rightarrow> ok_or (parse_unsigned 256 s) bad) (\<lambda>second.
        ok_or (from_hms_nano E hour minute second 0) bad))))"

definition parse_weekday :: "bytes \<Rightarrow> bytes \<Rightarrow> bytes \<Rightarrow> config_error + nat" where
  "parse_weekday v key session =
     ok_or (map_of [(''monday'', 1), (''mon'', 1), (''tuesday'', 2), (''tue'', 2), (''wednesday'', 3), (''wed'', 3),
                    (''thursday'', 4), (''thu'', 4), (''friday'', 5), (''fri'', 5), (''saturday'', 6), (''sat'', 6),
                    (''sunday'', 0), (''sun'', 0)] (to_ascii_lowercase (trim v)))
       (InvalidValue key session (Got ''expected a weekday name, got '' v))"

definition parse_utc_offset :: "bytes \<Rightarrow> bytes \<Rightarrow> config_error + int" where
  "parse_utc_offset v session =
     (let bad = InvalidValue ''TimeZone'' session
                  (Got ''expected a numeric offset like +05:00/-03:00 or an IANA zone name like America/New_York, got '' v)
      in case v of
           [] \<Rightarrow> Inl bad
         | c # rest \<Rightarrow>
             if c \<noteq> CHR ''+'' \<and> c \<noteq> CHR ''-'' then Inl bad
             else
               (let parts = splitn 2 (CHR '':'') rest in
                try_then (ok_or (Option.bind (nth_piece parts 0) parse_i32) bad) (\<lambda>hours.
                try_then (case nth_piece parts 1 of None \<Rightarrow> Inr 0 | Some s \<Rightarrow> ok_or (parse_i32 s) bad) (\<lambda>minutes.
                  Inr (as_i32 ((if c = CHR ''+'' then 1 else - 1) * as_i32 (as_i32 (hours * 3600) + as_i32 (minutes * 60))))))))"

text \<open>An optional key with a fallible reader.\<close>

definition opt_key :: "section_map \<Rightarrow> bytes \<Rightarrow> (bytes \<Rightarrow> config_error + 'a) \<Rightarrow> config_error + 'a option" where
  "opt_key m key f = (case bt_get m key of None \<Rightarrow> Inr None | Some v \<Rightarrow> map_sum id Some (f v))"

definition schedule_zone :: "builder_env \<Rightarrow> section_map \<Rightarrow> bytes \<Rightarrow> schedule \<Rightarrow> config_error + schedule" where
  "schedule_zone E m session s =
     (case bt_get m ''TimeZone'' of
        None \<Rightarrow> Inr s
      | Some tz \<Rightarrow>
          (case parse_utc_offset tz session of
             Inr seconds \<Rightarrow> Inr (s\<lparr>sch_utc_offset_seconds := seconds\<rparr>)
           | Inl numeric_err \<Rightarrow> if be_time_zone E tz then Inr (s\<lparr>sch_named_time_zone := Some tz\<rparr>) else Inl numeric_err))"

definition schedule_window :: "nat option \<Rightarrow> nat option \<Rightarrow> tod option \<Rightarrow> tod option \<Rightarrow> bytes \<Rightarrow> config_error + schedule option" where
  "schedule_window start_day end_day start_time end_time session =
     (case (start_day, end_day, start_time, end_time) of
        (Some sd, Some ed, Some s, Some e) \<Rightarrow> Inr (Some (weekly sd s ed e))
      | (None, None, Some s, Some e) \<Rightarrow> Inr (Some (daily s e))
      | (None, None, None, None) \<Rightarrow> Inr None
      | _ \<Rightarrow> Inl (InvalidValue ''StartTime/EndTime/StartDay/EndDay'' session
                   (Because ''StartDay/EndDay require both, alongside StartTime/EndTime'')))"

definition schedule_days :: "section_map \<Rightarrow> bytes \<Rightarrow> schedule \<Rightarrow> config_error + schedule" where
  "schedule_days m session s =
     (case bt_get m ''Weekdays'' of
        None \<Rightarrow> Inr s
      | Some lst \<Rightarrow>
          map_sum id (\<lambda>days. with_weekdays days s)
            (try_map (\<lambda>d. parse_weekday (trim d) ''Weekdays'' session) (split_all (CHR '','') lst)))"

definition resolve_schedule :: "builder_env \<Rightarrow> section_map \<Rightarrow> bytes \<Rightarrow> config_error + schedule option" where
  "resolve_schedule E m session =
     try_then (bool_key m ''NonStopSession'' session False) (\<lambda>always.
       if always then Inr (Some non_stop)
       else
         try_then (opt_key m ''StartTime'' (\<lambda>v. parse_time (be_ext E) v ''StartTime'' session)) (\<lambda>start_time.
         try_then (opt_key m ''EndTime'' (\<lambda>v. parse_time (be_ext E) v ''EndTime'' session)) (\<lambda>end_time.
         try_then (opt_key m ''StartDay'' (\<lambda>v. parse_weekday v ''StartDay'' session)) (\<lambda>start_day.
         try_then (opt_key m ''EndDay'' (\<lambda>v. parse_weekday v ''EndDay'' session)) (\<lambda>end_day.
         try_then (schedule_window start_day end_day start_time end_time session) (\<lambda>window.
           case window of
             None \<Rightarrow> Inr None
           | Some s \<Rightarrow>
               try_then (schedule_days m session s) (\<lambda>s'.
                 map_sum id Some (schedule_zone E m session s'))))))))"

end
