(* ===== verification/Fix_Builder.thy ===== *)
theory Fix_Builder
  imports Fix_Builder_Keys
begin

text \<open>
  From a session section to a runnable session (\<^verbatim>\<open>config/builder.rs\<close>): the session configuration key by key, then the
  address, store, TLS, socket, log, proxy and dictionary settings, in the order the source reads them.
\<close>

section \<open>Configuration\<close>

text \<open>The configuration of a session with the settings only the transport and the engine facade read.\<close>

record full_config = session_config +
  cfg_reconnect_interval :: nat
  cfg_closed_resend_interval :: bool
  cfg_reject_message_on_unhandled_exception :: bool
  cfg_max_scheduled_write_requests :: "nat option"
  cfg_continue_initialization_on_error :: bool
  cfg_in_chan_capacity :: "nat option"
  cfg_reconnect_interval_steps :: "nat list"
  cfg_local_bind_addr :: "(ip_addr \<times> nat) option"
  cfg_connect_timeout :: "nat option"
  cfg_protocol :: protocol
  cfg_fast_template_path :: "bytes option"
  cfg_sbe_schema_path :: "bytes option"

definition new_full_config :: "bytes \<Rightarrow> bytes \<Rightarrow> bytes \<Rightarrow> role \<Rightarrow> full_config" where
  "new_full_config bstr sender target rl =
     session_config.extend (new_config bstr sender target rl) (full_config.fields 30 False False None False None [] None None Soh None None)"

definition resolve_reconnect_interval :: "section_map \<Rightarrow> bytes \<Rightarrow> config_error + nat \<times> nat list" where
  "resolve_reconnect_interval m session =
     (case bt_get m ''ReconnectInterval'' of
        None \<Rightarrow> Inr (30, [])
      | Some raw \<Rightarrow>
          map_sum id (\<lambda>steps. case steps of [] \<Rightarrow> (30, []) | [first] \<Rightarrow> (first, []) | first # _ \<Rightarrow> (first, steps))
            (try_map (\<lambda>t. ok_or (parse_unsigned u32_size t)
                 (InvalidValue ''ReconnectInterval'' session (Got ''expected an integer or space/comma-separated list of integers, got '' raw)))
               (filter (\<lambda>s. s \<noteq> []) (split_any ([CHR '',''] # whitespace) [] raw))))"

definition resolve_local_bind_addr :: "builder_env \<Rightarrow> section_map \<Rightarrow> bytes \<Rightarrow> config_error + (ip_addr \<times> nat) option" where
  "resolve_local_bind_addr E m session =
     (case (bt_get m ''SocketLocalHost'', bt_get m ''SocketLocalPort'') of
        (None, None) \<Rightarrow> Inr None
      | (Some host, Some port_str) \<Rightarrow>
          try_then (port_value ''SocketLocalPort'' session port_str) (\<lambda>port.
            map_sum id Some (ok_or (be_lookup_host E host port)
              (InvalidValue ''SocketLocalHost'' session (Got ''could not resolve address '' (host @ '':'' @ show_nat port)))))
      | _ \<Rightarrow> Inl (InvalidValue ''SocketLocalHost/SocketLocalPort'' session
                   (Because ''both SocketLocalHost and SocketLocalPort must be set together'')))"

definition resolve_protocol_paths :: "section_map \<Rightarrow> bytes \<Rightarrow> full_config \<Rightarrow> config_error + full_config" where
  "resolve_protocol_paths m session c =
     (let c' = c\<lparr>cfg_fast_template_path := bt_get m ''FastTemplatePath'', cfg_sbe_schema_path := bt_get m ''SbeSchemaPath''\<rparr>
      in case cfg_protocol c' of
           Soh \<Rightarrow> Inr c'
         | Fast \<Rightarrow> if cfg_fast_template_path c' = None then Inl (MissingRequired ''FastTemplatePath'' session) else Inr c'
         | Sbe \<Rightarrow> if cfg_sbe_schema_path c' = None then Inl (MissingRequired ''SbeSchemaPath'' session) else Inr c')"

text \<open>
  The assignments of \<^verbatim>\<open>resolve_one\<close> as a list of steps, each reading a key and storing its value; the first failure
  ends the list.
\<close>

type_synonym config_step = "full_config \<Rightarrow> config_error + full_config"

fun run_steps :: "config_step list \<Rightarrow> config_step" where
  "run_steps [] c = Inr c"
| "run_steps (f # fs) c = try_then (f c) (run_steps fs)"

definition assign :: "('a \<Rightarrow> full_config \<Rightarrow> full_config) \<Rightarrow> (full_config \<Rightarrow> config_error + 'a) \<Rightarrow> config_step" where
  "assign put rd c = map_sum id (\<lambda>v. put v c) (rd c)"

definition bool_step :: "section_map \<Rightarrow> bytes \<Rightarrow> bytes \<Rightarrow> bool \<Rightarrow> (bool \<Rightarrow> full_config \<Rightarrow> full_config) \<Rightarrow> config_step" where
  "bool_step m session key dflt put = assign put (\<lambda>_. bool_key m key session dflt)"

definition u32_step :: "section_map \<Rightarrow> bytes \<Rightarrow> bytes \<Rightarrow> nat \<Rightarrow> (nat \<Rightarrow> full_config \<Rightarrow> full_config) \<Rightarrow> config_step" where
  "u32_step m session key dflt put = assign put (\<lambda>_. u32_key m key session dflt)"

definition text_step :: "section_map \<Rightarrow> bytes \<Rightarrow> (bytes option \<Rightarrow> full_config \<Rightarrow> full_config) \<Rightarrow> config_step" where
  "text_step m key put = assign put (\<lambda>_. Inr (bt_get m key))"

definition timer_steps :: "section_map \<Rightarrow> bytes \<Rightarrow> config_step list" where
  "timer_steps m session =
     [u32_step m session ''HeartBtInt'' 30 (\<lambda>v c. c\<lparr>cfg_heartbeat_interval := v\<rparr>),
      assign (\<lambda>v c. c\<lparr>cfg_reset_on_logon := v\<rparr>) (\<lambda>c. bool_key m ''ResetOnLogon'' session (cfg_reset_on_logon c)),
      bool_step m session ''ResetOnLogout'' False (\<lambda>v c. c\<lparr>cfg_reset_on_logout := v\<rparr>),
      bool_step m session ''ResetOnDisconnect'' False (\<lambda>v c. c\<lparr>cfg_reset_on_disconnect := v\<rparr>),
      bool_step m session ''PersistMessages'' True (\<lambda>v c. c\<lparr>cfg_persist_messages := v\<rparr>),
      bool_step m session ''CheckLatency'' True (\<lambda>v c. c\<lparr>cfg_check_latency := v\<rparr>),
      u32_step m session ''MaxLatency'' 120 (\<lambda>v c. c\<lparr>cfg_max_latency := v\<rparr>),
      u32_step m session ''LogonTimeout'' 10 (\<lambda>v c. c\<lparr>cfg_logon_timeout := v\<rparr>),
      u32_step m session ''LogoutTimeout'' 2 (\<lambda>v c. c\<lparr>cfg_logout_timeout := v\<rparr>),
      assign (\<lambda>(i, steps) c. c\<lparr>cfg_reconnect_interval := i, cfg_reconnect_interval_steps := steps\<rparr>)
        (\<lambda>_. resolve_reconnect_interval m session),
      u32_step m session ''ResendRequestChunkSize'' 0 (\<lambda>v c. c\<lparr>cfg_resend_request_chunk_size := v\<rparr>),
      bool_step m session ''EnableLastMsgSeqNumProcessed'' False (\<lambda>v c. c\<lparr>cfg_enable_last_msg_seq_num_processed := v\<rparr>),
      bool_step m session ''EnableNextExpectedMsgSeqNum'' False (\<lambda>v c. c\<lparr>cfg_enable_next_expected_msg_seq_num := v\<rparr>),
      assign (\<lambda>v c. c\<lparr>cfg_check_comp_id := v\<rparr>) (\<lambda>c. bool_key m ''CheckCompID'' session (cfg_check_comp_id c)),
      assign (\<lambda>v c. c\<lparr>cfg_reject_garbled_message := v\<rparr>)
        (\<lambda>c. bool_key m ''RejectGarbledMessage'' session (cfg_reject_garbled_message c)),
      assign (\<lambda>v c. c\<lparr>cfg_heartbeat_timeout_multiplier := v\<rparr>)
        (\<lambda>c. f64_key m ''HeartBeatTimeoutMultiplier'' session (cfg_heartbeat_timeout_multiplier c)),
      assign (\<lambda>v c. c\<lparr>cfg_test_request_delay_multiplier := v\<rparr>)
        (\<lambda>c. f64_key m ''TestRequestDelayMultiplier'' session (cfg_test_request_delay_multiplier c)),
      assign (\<lambda>v c. c\<lparr>cfg_timestamp_precision := v\<rparr>)
        (\<lambda>c. precision_key m ''TimeStampPrecision'' session (cfg_timestamp_precision c))]"

definition behaviour_steps :: "builder_env \<Rightarrow> section_map \<Rightarrow> bytes \<Rightarrow> config_step list" where
  "behaviour_steps E m session =
     [assign (\<lambda>v c. c\<lparr>cfg_protocol := v\<rparr>) (\<lambda>c. protocol_key m ''Protocol'' session (cfg_protocol c)),
      resolve_protocol_paths m session,
      assign (\<lambda>v c. c\<lparr>cfg_schedule := v\<rparr>) (\<lambda>_. resolve_schedule E m session),
      bool_step m session ''SendRedundantResendRequests'' False (\<lambda>v c. c\<lparr>cfg_send_redundant_resend_requests := v\<rparr>),
      bool_step m session ''ResetOnError'' False (\<lambda>v c. c\<lparr>cfg_reset_on_error := v\<rparr>),
      bool_step m session ''DisconnectOnError'' False (\<lambda>v c. c\<lparr>cfg_disconnect_on_error := v\<rparr>),
      bool_step m session ''DisableHeartBeatCheck'' False (\<lambda>v c. c\<lparr>cfg_disable_heart_beat_check := v\<rparr>),
      bool_step m session ''RefreshOnLogon'' False (\<lambda>v c. c\<lparr>cfg_refresh_on_logon := v\<rparr>),
      bool_step m session ''ForceResendWhenCorruptedStore'' False (\<lambda>v c. c\<lparr>cfg_force_resend_when_corrupted_store := v\<rparr>),
      bool_step m session ''ContinueInitializationOnError'' False (\<lambda>v c. c\<lparr>cfg_continue_initialization_on_error := v\<rparr>),
      bool_step m session ''RequiresOrigSendingTime'' False (\<lambda>v c. c\<lparr>cfg_requires_orig_sending_time_on_low_seq := v\<rparr>),
      assign (\<lambda>v c. c\<lparr>cfg_logon_tags := v\<rparr>) (\<lambda>_. resolve_logon_tags m session),
      assign (\<lambda>v c. c\<lparr>cfg_in_chan_capacity := v\<rparr>) (\<lambda>_. usize_key m ''InChanCapacity'' session None),
      text_step m ''SenderSubID'' (\<lambda>v c. c\<lparr>cfg_sender_sub_id := v\<rparr>),
      text_step m ''SenderLocationID'' (\<lambda>v c. c\<lparr>cfg_sender_location_id := v\<rparr>),
      text_step m ''TargetSubID'' (\<lambda>v c. c\<lparr>cfg_target_sub_id := v\<rparr>),
      text_step m ''TargetLocationID'' (\<lambda>v c. c\<lparr>cfg_target_location_id := v\<rparr>),
      text_step m ''SessionQualifier'' (\<lambda>v c. c\<lparr>cfg_session_qualifier := v\<rparr>),
      assign (\<lambda>v c. c\<lparr>cfg_local_bind_addr := v\<rparr>) (\<lambda>_. resolve_local_bind_addr E m session),
      assign (\<lambda>v c. c\<lparr>cfg_connect_timeout := v\<rparr>) (\<lambda>_. opt_u32_key m ''SocketConnectTimeout'' session)]"

definition resolve_config :: "builder_env \<Rightarrow> section_map \<Rightarrow> bytes \<Rightarrow> config_step" where
  "resolve_config E m session = run_steps (timer_steps m session @ behaviour_steps E m session)"

section \<open>Address and transport\<close>

datatype connection_type = CAcceptor | CInitiator

definition resolve_address :: "section_map \<Rightarrow> connection_type \<Rightarrow> bytes \<Rightarrow> config_error + socket_endpoint" where
  "resolve_address m connection session =
     try_then (case connection of
         CAcceptor \<Rightarrow> Inr (case bt_get m ''SocketAcceptAddress'' of None \<Rightarrow> ''0.0.0.0'' | Some h \<Rightarrow> h, ''SocketAcceptPort'')
       | CInitiator \<Rightarrow> map_sum id (\<lambda>h. (h, ''SocketConnectPort'')) (required m ''SocketConnectHost'' session)) (\<lambda>(host, port_key).
     try_then (required m port_key session) (\<lambda>port_str.
     try_then (port_value port_key session port_str) (\<lambda>port. Inr \<lparr>ep_host = host, ep_port = port\<rparr>)))"

record socket_options_spec =
  so_tcp_no_delay :: bool
  so_keep_alive :: bool
  so_reuse_address :: bool
  so_linger :: "nat option"
  so_oob_inline :: bool
  so_recv_buffer_size :: "nat option"
  so_send_buffer_size :: "nat option"
  so_traffic_class :: "nat option"
  so_backlog :: nat

definition default_socket_options :: socket_options_spec where
  "default_socket_options = \<lparr>so_tcp_no_delay = True, so_keep_alive = False, so_reuse_address = False, so_linger = None,
     so_oob_inline = False, so_recv_buffer_size = None, so_send_buffer_size = None, so_traffic_class = None, so_backlog = 1024\<rparr>"

definition resolve_socket_options :: "section_map \<Rightarrow> bytes \<Rightarrow> config_error + socket_options_spec" where
  "resolve_socket_options m session =
     (let d = default_socket_options in
      try_then (bool_key m ''SocketTcpNoDelay'' session (so_tcp_no_delay d)) (\<lambda>no_delay.
      try_then (bool_key m ''SocketKeepAlive'' session (so_keep_alive d)) (\<lambda>keep_alive.
      try_then (bool_key m ''SocketReuseAddress'' session (so_reuse_address d)) (\<lambda>reuse.
      try_then (linger_key m ''SocketLinger'' session) (\<lambda>linger.
      try_then (bool_key m ''SocketOobInline'' session (so_oob_inline d)) (\<lambda>oob.
      try_then (usize_key m ''SocketReceiveBufferSize'' session (so_recv_buffer_size d)) (\<lambda>recv.
      try_then (usize_key m ''SocketSendBufferSize'' session (so_send_buffer_size d)) (\<lambda>send.
      try_then (opt_u32_key m ''SocketTrafficClass'' session) (\<lambda>traffic.
      try_then (u32_key m ''SocketBacklog'' session (so_backlog d)) (\<lambda>backlog.
        Inr \<lparr>so_tcp_no_delay = no_delay, so_keep_alive = keep_alive, so_reuse_address = reuse, so_linger = linger,
             so_oob_inline = oob, so_recv_buffer_size = recv, so_send_buffer_size = send, so_traffic_class = traffic,
             so_backlog = backlog\<rparr>))))))))))"

datatype tls_version = Tls12 | Tls13

definition tls_token :: "bytes \<Rightarrow> tls_version option" where
  "tls_token token =
     (let t = replace_all ''TLSV'' ''TLS'' (to_ascii_uppercase (trim token)) in
      if t = ''TLS1.2'' \<or> t = ''1.2'' then Some Tls12 else if t = ''TLS1.3'' \<or> t = ''1.3'' then Some Tls13 else None)"

definition resolve_enabled_protocols :: "section_map \<Rightarrow> bytes \<Rightarrow> config_error + tls_version option" where
  "resolve_enabled_protocols m session =
     (case bt_get m ''EnabledProtocols'' of
        None \<Rightarrow> Inr None
      | Some raw \<Rightarrow>
          (let bad = InvalidValue ''EnabledProtocols'' session (Got ''expected a comma-separated list of TLSv1.2/TLSv1.3, got '' raw) in
           try_then (try_map (\<lambda>token. ok_or (tls_token token) bad) (split_all (CHR '','') raw)) (\<lambda>vs.
             if Tls12 \<in> set vs then Inr (Some Tls12) else if Tls13 \<in> set vs then Inr (Some Tls13) else Inl bad)))"

definition pem_bytes_key :: "section_map \<Rightarrow> bytes \<Rightarrow> bytes option" where
  "pem_bytes_key m key = map_option (replace_all [CHR 0x5C, CHR ''n''] [CHR 0x0A]) (bt_get m key)"

record tls_spec =
  tls_key_store_path :: "bytes option"
  tls_key_store_bytes :: "bytes option"
  tls_trust_store_path :: "bytes option"
  tls_trust_store_bytes :: "bytes option"
  tls_need_client_auth :: bool
  tls_min_version :: "tls_version option"
  tls_server_name :: "bytes option"
  tls_cipher_suites :: "bytes list"

definition resolve_tls :: "section_map \<Rightarrow> bytes \<Rightarrow> config_error + tls_spec option" where
  "resolve_tls m session =
     try_then (bool_key m ''SocketUseSSL'' session False) (\<lambda>use.
       if \<not> use then Inr None
       else
         (let key_store_bytes = pem_bytes_key m ''SocketKeyStoreBytes'' in
          try_then (case (bt_get m ''SocketKeyStore'', key_store_bytes) of
              (Some p, _) \<Rightarrow> Inr (Some p)
            | (None, Some _) \<Rightarrow> Inr None
            | (None, None) \<Rightarrow> Inl (MissingRequired ''SocketKeyStore or SocketKeyStoreBytes'' session)) (\<lambda>key_store_path.
          try_then (bool_key m ''NeedClientAuth'' session False) (\<lambda>need.
          try_then (resolve_enabled_protocols m session) (\<lambda>min_version.
          try_then (bool_key m ''UseSNI'' session False) (\<lambda>sni.
            Inr (Some \<lparr>tls_key_store_path = key_store_path, tls_key_store_bytes = key_store_bytes,
              tls_trust_store_path = bt_get m ''SocketTrustStore'', tls_trust_store_bytes = pem_bytes_key m ''SocketTrustStoreBytes'',
              tls_need_client_auth = need, tls_min_version = min_version,
              tls_server_name = (if sni then Some (case bt_get m ''SNIHostName'' of None \<Rightarrow> ''localhost'' | Some h \<Rightarrow> h) else None),
              tls_cipher_suites = (case bt_get m ''CipherSuites'' of None \<Rightarrow> []
                | Some v \<Rightarrow> filter (\<lambda>s. s \<noteq> []) (map trim (split_all (CHR '','') v)))\<rparr>)))))))"

datatype proxy_kind = Socks4 | Socks5 | HttpConnect

record proxy_spec =
  px_type :: proxy_kind
  px_host :: bytes
  px_port :: nat
  px_username :: "bytes option"
  px_password :: "bytes option"

definition proxy_kind_of :: "bytes \<Rightarrow> bytes \<Rightarrow> config_error + proxy_kind" where
  "proxy_kind_of v session =
     (let other = to_ascii_lowercase v in
      ok_or (map_of [(''socks4'', Socks4), (''socks5'', Socks5), (''httpconnect'', HttpConnect), (''http_connect'', HttpConnect),
                     (''http'', HttpConnect)] other)
        (InvalidValue ''ProxyType'' session (Got ''unknown proxy type (expected Socks4, Socks5, or HttpConnect): '' other)))"

definition resolve_proxy :: "section_map \<Rightarrow> bytes \<Rightarrow> config_error + proxy_spec option" where
  "resolve_proxy m session =
     (case bt_get m ''ProxyType'' of
        None \<Rightarrow> Inr None
      | Some v \<Rightarrow>
          try_then (proxy_kind_of v session) (\<lambda>kind.
          try_then (required m ''ProxyHost'' session) (\<lambda>host.
          try_then (required m ''ProxyPort'' session) (\<lambda>port_str.
          try_then (port_value ''ProxyPort'' session port_str) (\<lambda>port.
            Inr (Some \<lparr>px_type = kind, px_host = host, px_port = port, px_username = bt_get m ''ProxyUser'',
                       px_password = bt_get m ''ProxyPassword''\<rparr>))))))"

definition resolve_trusted_proxy_addresses :: "section_map \<Rightarrow> bytes \<Rightarrow> config_error + ip_addr list" where
  "resolve_trusted_proxy_addresses m session =
     try_then (bool_key m ''UseTCPProxy'' session False) (\<lambda>use.
       if \<not> use then Inr []
       else (case bt_get m ''TrustedProxyAddresses'' of None \<Rightarrow> Inr [] | Some v \<Rightarrow> ip_list ''TrustedProxyAddresses'' session v))"

definition resolve_allowed_remote_addresses :: "section_map \<Rightarrow> bytes \<Rightarrow> config_error + ip_addr list" where
  "resolve_allowed_remote_addresses m session =
     (case bt_get m ''AllowedRemoteAddresses'' of None \<Rightarrow> Inr [] | Some v \<Rightarrow> ip_list ''AllowedRemoteAddresses'' session v)"

definition resolve_sync_write_timeout :: "section_map \<Rightarrow> bytes \<Rightarrow> config_error + nat option" where
  "resolve_sync_write_timeout m session =
     try_then (bool_key m ''SocketSynchronousWrites'' session False) (\<lambda>sync.
       if \<not> sync then Inr None
       else read_key (map_option Some \<circ> parse_unsigned u64_size) ''expected a whole number of seconds, got '' m
              ''SocketSynchronousWriteTimeout'' session None)"

section \<open>Database addresses\<close>

definition starts_with_any :: "bytes list \<Rightarrow> bytes \<Rightarrow> bool" where
  "starts_with_any ps s = list_ex (\<lambda>p. prefix p s) ps"

definition is_sql_scheme :: "bytes \<Rightarrow> bool" where
  "is_sql_scheme = starts_with_any [''postgres://'', ''postgresql://'', ''mysql://'', ''sqlite:'']"

definition is_mssql_scheme :: "bytes \<Rightarrow> bool" where
  "is_mssql_scheme = starts_with_any [''mssql://'', ''sqlserver://'']"

definition is_jdbc_sql_scheme :: "bytes \<Rightarrow> bool" where
  "is_jdbc_sql_scheme = starts_with_any [''jdbc:postgres://'', ''jdbc:postgresql://'', ''jdbc:mysql://'', ''jdbc:sqlite:'']"

definition is_jdbc_mssql_scheme :: "bytes \<Rightarrow> bool" where
  "is_jdbc_mssql_scheme = starts_with_any [''jdbc:mssql://'', ''jdbc:sqlserver://'']"

definition strip_jdbc :: "bytes \<Rightarrow> bytes" where
  "strip_jdbc url = (case strip_pfx ''jdbc:'' url of None \<Rightarrow> url | Some r \<Rightarrow> r)"

definition jdbc_scheme_of :: "bytes \<Rightarrow> bytes" where
  "jdbc_scheme_of url = (let u = strip_jdbc url in case split_once (CHR '':'') u of None \<Rightarrow> u | Some (s, _) \<Rightarrow> s)"

fun percent_encode_userinfo :: "bytes \<Rightarrow> bytes" where
  "percent_encode_userinfo [] = []"
| "percent_encode_userinfo (c # cs) =
     (if c = CHR ''%'' then ''%25'' else if c = CHR ''@'' then ''%40'' else if c = CHR '':'' then ''%3A''
      else if c = CHR ''/'' then ''%2F'' else [c]) @ percent_encode_userinfo cs"

text \<open>\<^verbatim>\<open>str::split_once\<close> with the separator \<^verbatim>\<open>://\<close>.\<close>

fun split_scheme :: "bytes \<Rightarrow> (bytes \<times> bytes) option" where
  "split_scheme [] = None"
| "split_scheme (c # cs) =
     (if prefix ''://'' (c # cs) then Some ([], drop 2 cs)
      else map_option (\<lambda>(a, b). (c # a, b)) (split_scheme cs))"

definition splice_credentials :: "bytes \<Rightarrow> bytes option \<Rightarrow> bytes option \<Rightarrow> bytes" where
  "splice_credentials url user password =
     (case (user, password) of
        (Some u, Some p) \<Rightarrow>
          (case split_scheme url of
             None \<Rightarrow> url
           | Some (scheme, rest) \<Rightarrow>
               if CHR ''@'' \<in> set rest then url
               else scheme @ ''://'' @ percent_encode_userinfo u @ '':'' @ percent_encode_userinfo p @ ''@'' @ rest)
      | _ \<Rightarrow> url)"

section \<open>Stores\<close>

record sql_pool_options =
  po_max_connections :: nat
  po_min_connections :: nat
  po_acquire_timeout :: nat
  po_idle_timeout :: "nat option"
  po_max_lifetime :: "nat option"
  po_keepalive :: "nat option"

definition default_pool_options :: sql_pool_options where
  "default_pool_options = \<lparr>po_max_connections = 10, po_min_connections = 0, po_acquire_timeout = 30, po_idle_timeout = None,
     po_max_lifetime = None, po_keepalive = None\<rparr>"

record file_store_options =
  fo_sync :: bool
  fo_max_cached_msgs :: nat
  fo_max_body_records :: nat

text \<open>The variants of \<^verbatim>\<open>StoreConfig\<close> that a settings file can select.\<close>

datatype store_config =
    MemoryStoreConfig
  | FileStoreConfig bytes file_store_options
  | CachedFileStoreConfig bytes file_store_options
  | SqlStoreConfig bytes "bytes option" "bytes option" "bytes option" "sql_pool_options option"
  | MssqlStoreConfig bytes "bytes option" "bytes option" "bytes option"

definition jdbc_table_name_keys :: "section_map \<Rightarrow> bytes option \<times> bytes option \<times> bytes option" where
  "jdbc_table_name_keys m =
     (bt_get m ''JdbcStoreSessionsTableName'', bt_get m ''JdbcStoreMessagesTableName'', bt_get m ''JdbcSessionIdDefaultPropertyValue'')"

definition pool_keys :: "bytes list" where
  "pool_keys = [''JdbcMaxActiveConnection'', ''JdbcMinIdleConnection'', ''JdbcConnectionTimeout'', ''JdbcConnectionIdleTimeout'',
     ''JdbcMaxConnectionLifeTime'', ''JdbcConnectionKeepaliveTime'']"

definition seconds_or :: "section_map \<Rightarrow> bytes \<Rightarrow> bytes \<Rightarrow> nat option \<Rightarrow> config_error + nat option" where
  "seconds_or m key session dflt =
     (case bt_get m key of None \<Rightarrow> Inr dflt | Some _ \<Rightarrow> map_sum id Some (u32_key m key session 0))"

definition jdbc_pool_options :: "section_map \<Rightarrow> bytes \<Rightarrow> config_error + sql_pool_options option" where
  "jdbc_pool_options m session =
     (if \<not> list_ex (\<lambda>k. bt_get m k \<noteq> None) pool_keys then Inr None
      else
        (let d = default_pool_options in
         try_then (u32_key m ''JdbcMaxActiveConnection'' session (po_max_connections d)) (\<lambda>max_connections.
         try_then (u32_key m ''JdbcMinIdleConnection'' session (po_min_connections d)) (\<lambda>min_connections.
         try_then (case bt_get m ''JdbcConnectionTimeout'' of None \<Rightarrow> Inr (po_acquire_timeout d)
                   | Some _ \<Rightarrow> u32_key m ''JdbcConnectionTimeout'' session 0) (\<lambda>acquire.
         try_then (seconds_or m ''JdbcConnectionIdleTimeout'' session (po_idle_timeout d)) (\<lambda>idle.
         try_then (seconds_or m ''JdbcMaxConnectionLifeTime'' session (po_max_lifetime d)) (\<lambda>lifetime.
         try_then (seconds_or m ''JdbcConnectionKeepaliveTime'' session (po_keepalive d)) (\<lambda>keepalive.
           Inr (Some \<lparr>po_max_connections = max_connections, po_min_connections = min_connections, po_acquire_timeout = acquire,
                      po_idle_timeout = idle, po_max_lifetime = lifetime, po_keepalive = keepalive\<rparr>)))))))))"

definition sql_store_config :: "builder_env \<Rightarrow> section_map \<Rightarrow> bytes \<Rightarrow> bytes \<Rightarrow> config_error + store_config" where
  "sql_store_config E m url session =
     (if \<not> be_sql E then Inl (UnsupportedBackend session (jdbc_scheme_of url))
      else
        (case jdbc_table_name_keys m of (sessions, messages, sid) \<Rightarrow>
           map_sum id (SqlStoreConfig url sessions messages sid) (jdbc_pool_options m session)))"

definition mssql_store_config :: "builder_env \<Rightarrow> section_map \<Rightarrow> bytes \<Rightarrow> bytes \<Rightarrow> config_error + store_config" where
  "mssql_store_config E m url session =
     (if \<not> be_mssql E then Inl (UnsupportedBackend session (jdbc_scheme_of url))
      else (case jdbc_table_name_keys m of (sessions, messages, sid) \<Rightarrow> Inr (MssqlStoreConfig url sessions messages sid)))"

definition jdbc_store_config ::
  "builder_env \<Rightarrow> section_map \<Rightarrow> bytes \<Rightarrow> bytes \<Rightarrow> bytes option \<Rightarrow> bytes option \<Rightarrow> config_error + store_config" where
  "jdbc_store_config E m url session user password =
     (if is_sql_scheme url then sql_store_config E m url session
      else if is_mssql_scheme url then mssql_store_config E m url session
      else if is_jdbc_sql_scheme url then sql_store_config E m (splice_credentials (strip_jdbc url) user password) session
      else if is_jdbc_mssql_scheme url then mssql_store_config E m (splice_credentials (strip_jdbc url) user password) session
      else Inl (UnsupportedBackend session (jdbc_scheme_of url)))"

definition the_default :: "nat option \<Rightarrow> nat" where
  "the_default v = (case v of None \<Rightarrow> 0 | Some n \<Rightarrow> n)"

definition resolve_store :: "builder_env \<Rightarrow> section_map \<Rightarrow> bytes \<Rightarrow> config_error + store_config" where
  "resolve_store E m session =
     (case bt_get m ''JdbcURL'' of
        Some url \<Rightarrow> jdbc_store_config E m url session (bt_get m ''JdbcUser'') (bt_get m ''JdbcPassword'')
      | None \<Rightarrow>
          (case bt_get m ''FileStorePath'' of
             None \<Rightarrow> Inr MemoryStoreConfig
           | Some dir \<Rightarrow>
               try_then (bool_key m ''FileStoreSync'' session True) (\<lambda>sync.
               try_then (usize_key m ''FileStoreMaxBodyRecords'' session (Some 0)) (\<lambda>records.
                 case bt_get m ''FileStoreMaxCachedMsgs'' of
                   None \<Rightarrow> Inr (FileStoreConfig dir \<lparr>fo_sync = sync, fo_max_cached_msgs = 0, fo_max_body_records = the_default records\<rparr>)
                 | Some _ \<Rightarrow>
                     map_sum id (\<lambda>cached. CachedFileStoreConfig dir
                         \<lparr>fo_sync = sync, fo_max_cached_msgs = the_default cached, fo_max_body_records = the_default records\<rparr>)
                       (usize_key m ''FileStoreMaxCachedMsgs'' session (Some 0))))))"

section \<open>Logs\<close>

record log_spec =
  lg_dir :: bytes
  lg_include_heartbeats :: bool
  lg_include_timestamp :: bool
  lg_include_milliseconds :: bool
  lg_max_size_bytes :: "nat option"
  lg_max_generations :: "nat option"
  lg_roll_interval_secs :: "nat option"

record sql_log_spec =
  sl_url :: bytes
  sl_incoming_table :: bytes
  sl_outgoing_table :: bytes
  sl_event_table :: bytes
  sl_include_heartbeats :: bool

definition or_else :: "bytes option \<Rightarrow> bytes \<Rightarrow> bytes" where
  "or_else v d = (case v of None \<Rightarrow> d | Some x \<Rightarrow> x)"

definition resolve_log :: "section_map \<Rightarrow> bytes \<Rightarrow> config_error + log_spec option \<times> sql_log_spec option" where
  "resolve_log m session =
     (case bt_get m ''JdbcURL'' of
        Some url \<Rightarrow>
          map_sum id (\<lambda>hb. (None, Some
              \<lparr>sl_url = splice_credentials (strip_jdbc url) (bt_get m ''JdbcUser'') (bt_get m ''JdbcPassword''),
               sl_incoming_table = or_else (bt_get m ''JdbcLogIncomingTable'') ''log_incoming'',
               sl_outgoing_table = or_else (bt_get m ''JdbcLogOutgoingTable'') ''log_outgoing'',
               sl_event_table = or_else (bt_get m ''JdbcLogEventTable'') ''log_event'', sl_include_heartbeats = hb\<rparr>))
            (bool_key m ''JdbcLogHeartBeats'' session True)
      | None \<Rightarrow>
          (case bt_get m ''FileLogPath'' of
             None \<Rightarrow> Inr (None, None)
           | Some dir \<Rightarrow>
               try_then (bool_key m ''FileLogHeartbeats'' session True) (\<lambda>hb.
               try_then (bool_key m ''FileIncludeTimeStampForMessages'' session False) (\<lambda>ts.
               try_then (bool_key m ''FileIncludeMilliseconds'' session False) (\<lambda>ms.
               try_then (seconds_or m ''MaxFileLogSize'' session None) (\<lambda>size.
               try_then (seconds_or m ''FileLogMaxGenerations'' session None) (\<lambda>generations.
               try_then (read_key (map_option Some \<circ> parse_unsigned u64_size) ''expected a whole number of seconds, got '' m
                           ''FileLogRollIntervalSecs'' session None) (\<lambda>roll.
                 Inr (Some \<lparr>lg_dir = dir, lg_include_heartbeats = hb, lg_include_timestamp = ts, lg_include_milliseconds = ms,
                            lg_max_size_bytes = size, lg_max_generations = generations, lg_roll_interval_secs = roll\<rparr>, None)))))))))"

datatype log_kind = Screen | Tracing | Composite

definition resolve_log_kind :: "section_map \<Rightarrow> bytes \<Rightarrow> config_error + log_kind option" where
  "resolve_log_kind m session =
     read_key (\<lambda>v. map_of [(''screen'', Some Screen), (''tracing'', Some Tracing), (''composite'', Some Composite), (''file'', None),
                (''sql'', None)] (to_ascii_lowercase v))
       ''expected Screen/Tracing/Composite/File/Sql, got '' m ''Log'' session None"

section \<open>Dictionaries\<close>

definition load_dictionary_value :: "builder_env \<Rightarrow> bytes \<Rightarrow> bytes \<Rightarrow> config_error + data_dictionary" where
  "load_dictionary_value E v session =
     (case map_of (be_dicts E) v of
        Some source \<Rightarrow> map_sum (\<lambda>e. InvalidValue ''DataDictionary'' session (NotParsed e)) id (parse_dictionary source)
      | None \<Rightarrow> map_sum (\<lambda>e. InvalidValue ''DataDictionary'' session (NotLoaded e)) id (load_from_file (be_read_to_string E) v))"

definition resolve_options :: "section_map \<Rightarrow> bytes \<Rightarrow> config_error + validation_options" where
  "resolve_options m session =
     try_then (bool_key m ''ValidateFieldsOutOfOrder'' session True) (\<lambda>order.
     try_then (bool_key m ''ValidateChecksum'' session True) (\<lambda>cks.
     try_then (bool_key m ''ValidateIncomingMessage'' session True) (\<lambda>incoming.
     try_then (bool_key m ''AllowPosDup'' session False) (\<lambda>pos_dup.
     try_then (bool_key m ''RequiresOrigSendingTime'' session False) (\<lambda>orig.
     try_then (bool_key m ''ValidateFieldsHaveValues'' session True) (\<lambda>have_values.
     try_then (bool_key m ''ValidateUnorderedGroupFields'' session True) (\<lambda>unordered.
     try_then (bool_key m ''ValidateUserDefinedFields'' session False) (\<lambda>user_defined.
     try_then (bool_key m ''AllowUnknownMsgFields'' session False) (\<lambda>unknown.
     try_then (bool_key m ''FirstFieldInGroupIsDelimiter'' session True) (\<lambda>delimiter.
       Inr (default_options\<lparr>vo_validate_fields_out_of_order := order, vo_validate_checksum := cks,
         vo_validate_incoming_message := incoming, vo_allow_pos_dup := pos_dup, vo_requires_orig_sending_time := orig,
         vo_validate_fields_have_values := have_values, vo_validate_unordered_group_fields := unordered,
         vo_validate_user_defined_fields := user_defined, vo_allow_unknown_msg_fields := unknown,
         vo_first_field_in_group_is_delimiter := delimiter\<rparr>)))))))))))"

definition dictionary_key :: "section_map \<Rightarrow> bytes option" where
  "dictionary_key m =
     (case bt_get m ''DataDictionary'' of
        Some v \<Rightarrow> Some v
      | None \<Rightarrow> (case bt_get m ''TransportDataDictionary'' of Some v \<Rightarrow> Some v | None \<Rightarrow> bt_get m ''AppDataDictionary''))"

definition resolve_validator :: "builder_env \<Rightarrow> section_map \<Rightarrow> bytes \<Rightarrow> config_error + (data_dictionary \<times> validation_options) option" where
  "resolve_validator E m session =
     try_then (bool_key m ''UseDataDictionary'' session False) (\<lambda>use.
       if \<not> use then Inr None
       else
         try_then (ok_or (dictionary_key m) (MissingRequired ''DataDictionary'' session)) (\<lambda>v.
         try_then (load_dictionary_value E v session) (\<lambda>d.
         try_then (resolve_options m session) (\<lambda>opts. Inr (Some (d, opts))))))"

definition resolve_fixt_dictionaries :: "builder_env \<Rightarrow> section_map \<Rightarrow> bytes \<Rightarrow> config_error + fixt_dictionaries option" where
  "resolve_fixt_dictionaries E m session =
     try_then (bool_key m ''UseDataDictionary'' session False) (\<lambda>use.
       if \<not> use then Inr None
       else
         (case (bt_get m ''AppDataDictionary'', bt_get m ''TransportDataDictionary'') of
            (Some app_value, Some transport_value) \<Rightarrow>
              try_then (load_dictionary_value E app_value session) (\<lambda>app.
              try_then (load_dictionary_value E transport_value session) (\<lambda>transport.
                let app_ver_id = or_else (bt_get m ''DefaultApplVerID'') (dd_version app)
                in Inr (Some (with_default_appl_ver_id app_ver_id (with_application app_ver_id app (fixt_new transport))))))
          | _ \<Rightarrow> Inr None))"

section \<open>Sessions\<close>

record resolved_session =
  rs_session :: full_config
  rs_connection :: connection_type
  rs_address :: socket_endpoint
  rs_store :: store_config
  rs_tls :: "tls_spec option"
  rs_socket_options :: socket_options_spec
  rs_failover_addresses :: "socket_endpoint list"
  rs_log :: "log_spec option"
  rs_sql_log :: "sql_log_spec option"
  rs_proxy :: "proxy_spec option"
  rs_trusted_proxy_addresses :: "ip_addr list"
  rs_sync_write_timeout :: "nat option"
  rs_validator :: "(data_dictionary \<times> validation_options) option"
  rs_acceptor_template :: bool
  rs_allowed_remote_addresses :: "ip_addr list"
  rs_log_kind :: "log_kind option"
  rs_fixt_dictionaries :: "fixt_dictionaries option"
  rs_log_message_when_session_not_found :: bool

definition connection_of :: "bytes \<Rightarrow> bytes \<Rightarrow> config_error + connection_type \<times> role" where
  "connection_of v session =
     (let other = to_ascii_lowercase v in
      if other = ''acceptor'' then Inr (CAcceptor, Acceptor)
      else if other = ''initiator'' then Inr (CInitiator, Initiator)
      else Inl (UnknownConnectionType session other))"

definition resolve_one :: "builder_env \<Rightarrow> section_map \<Rightarrow> nat \<Rightarrow> config_error + resolved_session" where
  "resolve_one E m i =
     (let session = session_label m i in
      try_then (required m ''BeginString'' session) (\<lambda>bstr.
      try_then (required m ''SenderCompID'' session) (\<lambda>sender.
      try_then (required m ''TargetCompID'' session) (\<lambda>target.
      try_then (required m ''ConnectionType'' session) (\<lambda>v.
      try_then (connection_of v session) (\<lambda>(connection, rl).
      try_then (resolve_config E m session (new_full_config bstr sender target rl)) (\<lambda>cfg.
      try_then (resolve_address m connection session) (\<lambda>address.
      try_then (resolve_store E m session) (\<lambda>store.
      try_then (resolve_tls m session) (\<lambda>tls.
      try_then (resolve_socket_options m session) (\<lambda>options.
      try_then (case connection of CInitiator \<Rightarrow> resolve_failover_addresses m session | CAcceptor \<Rightarrow> Inr []) (\<lambda>failover.
      try_then (resolve_log m session) (\<lambda>(log, sql_log).
      try_then (resolve_log_kind m session) (\<lambda>kind.
      try_then (resolve_proxy m session) (\<lambda>proxy.
      try_then (resolve_trusted_proxy_addresses m session) (\<lambda>trusted.
      try_then (resolve_sync_write_timeout m session) (\<lambda>sync.
      try_then (resolve_validator E m session) (\<lambda>validator.
      try_then (resolve_fixt_dictionaries E m session) (\<lambda>fixt.
      try_then (bool_key m ''DynamicSession'' session False) (\<lambda>dynamic.
      try_then (resolve_allowed_remote_addresses m session) (\<lambda>allowed.
      try_then (bool_key m ''LogMessageWhenSessionNotFound'' session False) (\<lambda>not_found.
        Inr \<lparr>rs_session = cfg, rs_connection = connection, rs_address = address, rs_store = store, rs_tls = tls,
             rs_socket_options = options, rs_failover_addresses = failover, rs_log = log, rs_sql_log = sql_log, rs_proxy = proxy,
             rs_trusted_proxy_addresses = trusted, rs_sync_write_timeout = sync, rs_validator = validator,
             rs_acceptor_template = (dynamic \<or> bt_get m ''AcceptorTemplate'' \<noteq> None), rs_allowed_remote_addresses = allowed,
             rs_log_kind = kind, rs_fixt_dictionaries = fixt, rs_log_message_when_session_not_found = not_found\<rparr>))))))))))))))))))))))"

fun resolve_from :: "builder_env \<Rightarrow> nat \<Rightarrow> section_map list \<Rightarrow> config_error + resolved_session list" where
  "resolve_from E i [] = Inr []"
| "resolve_from E i (m # ms) = try_then (resolve_one E m i) (\<lambda>rs. map_sum id (Cons rs) (resolve_from E (Suc i) ms))"

definition resolve :: "builder_env \<Rightarrow> session_settings \<Rightarrow> config_error + resolved_session list" where
  "resolve E s = resolve_from E 0 (set_sessions s)"

fun resolve_lenient_from ::
  "builder_env \<Rightarrow> nat \<Rightarrow> section_map list \<Rightarrow> config_error + resolved_session list \<times> (bytes \<times> config_error) list" where
  "resolve_lenient_from E i [] = Inr ([], [])"
| "resolve_lenient_from E i (m # ms) =
     (case resolve_one E m i of
        Inr rs \<Rightarrow> map_sum id (\<lambda>(ok, skipped). (rs # ok, skipped)) (resolve_lenient_from E (Suc i) ms)
      | Inl err \<Rightarrow>
          if lenient_bool_key m ''ContinueInitializationOnError'' False
          then map_sum id (\<lambda>(ok, skipped). (ok, (session_label m i, err) # skipped)) (resolve_lenient_from E (Suc i) ms)
          else Inl err)"

definition resolve_lenient :: "builder_env \<Rightarrow> session_settings \<Rightarrow> config_error + resolved_session list \<times> (bytes \<times> config_error) list" where
  "resolve_lenient E s = resolve_lenient_from E 0 (set_sessions s)"

end
