(* ===== verification/Fix_Dict_Parser_Props.thy ===== *)
theory Fix_Dict_Parser_Props
  imports Fix_Dict_Parser
begin

text \<open>
  What the dictionary parser guarantees: the tables of an accepted document are well formed, and its components are
  expanded to tags whatever the order they are declared in.
\<close>

section \<open>Tables built by the directives\<close>

lemma bt_insert_get: "bt_get (bt_insert k v m) k' = (if k' = k then Some v else bt_get m k')"
  by (rule map_of_bt_insert)

text \<open>Fields and their name index describe each other.\<close>

definition index_ok :: "(tag, field_def) btree \<Rightarrow> (bytes, tag) btree \<Rightarrow> bool" where
  "index_ok fs ns \<longleftrightarrow> bt_sorted fs \<and> bt_sorted ns
     \<and> (\<forall>t f. bt_get fs t = Some f \<longrightarrow> fd_tag f = t \<and> t < u32_size \<and> bt_get ns (fd_name f) = Some t)
     \<and> (\<forall>n t. bt_get ns n = Some t \<longrightarrow> (\<exists>f. bt_get fs t = Some f \<and> fd_name f = n))"

definition tag_set_ok :: "tag list \<Rightarrow> bool" where
  "tag_set_ok s \<longleftrightarrow> sorted s \<and> distinct s \<and> (\<forall>t\<in>set s. t < u32_size)"

definition dict_parser_ok :: "dict_parser \<Rightarrow> bool" where
  "dict_parser_ok p \<longleftrightarrow> index_ok (dp_fields p) (dp_field_by_name p) \<and> tag_set_ok (dp_header p) \<and> tag_set_ok (dp_trailer p)
     \<and> bt_sorted (dp_messages p) \<and> bt_sorted (dp_groups p) \<and> bt_sorted (dp_components p)"

lemma index_ok_insert:
  assumes "index_ok fs ns" "bt_get fs (fd_tag f) = None" "bt_get ns (fd_name f) = None" "fd_tag f < u32_size"
  shows "index_ok (bt_insert (fd_tag f) f fs) (bt_insert (fd_name f) (fd_tag f) ns)"
proof -
  have f: "fd_tag g = t \<and> t < u32_size \<and> bt_get ns (fd_name g) = Some t" if "bt_get fs t = Some g" for t g
    using assms(1) that by (simp add: index_ok_def)
  have n: "\<exists>g. bt_get fs t = Some g \<and> fd_name g = n" if "bt_get ns n = Some t" for t n
    using assms(1) that by (simp add: index_ok_def)
  have "fd_name g \<noteq> fd_name f" if "bt_get fs t = Some g" for t g using f [OF that] assms(3) by auto
  moreover have "t \<noteq> fd_tag f" if "bt_get ns n = Some t" for t n using n [OF that] assms(2) by auto
  ultimately show ?thesis using assms(1,4) f n unfolding index_ok_def by (simp add: bt_insert_get bt_sorted_insert)
qed

lemma parse_tag_bound: "parse_tag tk n = Inr t \<Longrightarrow> t < u32_size"
  using parse_unsigned_bound [of u32_size] by (auto simp: parse_tag_def ok_or_Inr bind_eq_Some_conv)

lemma set_insert_ok: "tag_set_ok s \<Longrightarrow> t < u32_size \<Longrightarrow> tag_set_ok (set_insert t s)"
  by (auto simp: tag_set_ok_def set_insert_def sorted_insort distinct_insort set_insort_key)

lemma fold_set_insert_ok: "tag_set_ok s \<Longrightarrow> \<forall>t\<in>set ts. t < u32_size \<Longrightarrow> tag_set_ok (fold set_insert ts s)"
  by (induction ts arbitrary: s) (simp_all add: set_insert_ok)

lemma section_tags_ok: "section_tags n ts s = Inr s' \<Longrightarrow> tag_set_ok s \<Longrightarrow> tag_set_ok s'"
proof -
  assume a: "section_tags n ts s = Inr s'" "tag_set_ok s"
  then obtain tags where t: "try_map (\<lambda>t. parse_tag (Some t) n) ts = Inr tags" "s' = fold set_insert tags s"
    by (auto simp: section_tags_def map_sum_def split: sum.splits)
  have "\<forall>t\<in>set tags. t < u32_size"
  proof
    fix t assume "t \<in> set tags"
    then obtain x where "parse_tag (Some x) n = Inr t" using t(1) by (auto simp: try_map_Inr list_all2_conv_all_nth in_set_conv_nth)
    then show "t < u32_size" by (rule parse_tag_bound)
  qed
  then show ?thesis using fold_set_insert_ok a(2) t(2) by blast
qed

lemma field_directive_inserts:
  assumes "field_directive n ts p = Inr p'"
  shows "\<exists>f. fd_tag f < u32_size \<and> bt_get (dp_fields p) (fd_tag f) = None \<and> bt_get (dp_field_by_name p) (fd_name f) = None
    \<and> p' = p\<lparr>dp_fields := bt_insert (fd_tag f) f (dp_fields p), dp_field_by_name := bt_insert (fd_name f) (fd_tag f) (dp_field_by_name p)\<rparr>"
proof -
  obtain t name tok ft where t: "parse_tag (next_token ts) n = Inr t" "next_token (drop 1 ts) = Some name"
    "next_token (drop 2 ts) = Some tok" "parse_field_type tok = Some ft"
    using assms by (auto simp: field_directive_def try_then_Inr ok_or_Inr)
  let ?vl = "field_values (if next_token (drop 3 ts) = Some ''open'' then tl (drop 3 ts) else drop 3 ts) ([], [])"
  let ?f = "\<lparr>fd_tag = t, fd_name = name, fd_type = ft, fd_values = fst ?vl,
              fd_open_enum = (next_token (drop 3 ts) = Some ''open''), fd_value_labels = snd ?vl\<rparr>"
  have "fd_tag ?f < u32_size \<and> bt_get (dp_fields p) (fd_tag ?f) = None \<and> bt_get (dp_field_by_name p) (fd_name ?f) = None
    \<and> p' = p\<lparr>dp_fields := bt_insert (fd_tag ?f) ?f (dp_fields p), dp_field_by_name := bt_insert (fd_name ?f) (fd_tag ?f) (dp_field_by_name p)\<rparr>"
    using assms parse_tag_bound [OF t(1)] unfolding field_directive_def t
    by (simp add: t(4) try_then_def ok_or_def Let_def split_def split: if_splits)
  then show ?thesis by blast
qed

lemma field_directive_ok: "field_directive n ts p = Inr p' \<Longrightarrow> dict_parser_ok p \<Longrightarrow> dict_parser_ok p'"
  using field_directive_inserts [of n ts p p'] index_ok_insert [of "dp_fields p" "dp_field_by_name p"]
  by (auto simp: dict_parser_ok_def)

lemma other_directives_ok:
  "version_meta_directive n ts p = Inr p' \<Longrightarrow> dict_parser_ok p \<Longrightarrow> dict_parser_ok p'"
  "message_directive n ts p = Inr p' \<Longrightarrow> dict_parser_ok p \<Longrightarrow> dict_parser_ok p'"
  "group_directive n ts p = Inr p' \<Longrightarrow> dict_parser_ok p \<Longrightarrow> dict_parser_ok p'"
  "component_directive n ts p = Inr p' \<Longrightarrow> dict_parser_ok p \<Longrightarrow> dict_parser_ok p'"
  by (auto simp: version_meta_directive_def message_directive_def group_directive_def component_directive_def try_then_Inr
      dict_parser_ok_def bt_sorted_insert split: if_splits prod.splits)

lemma dict_line_ok: "dict_line n l p = Inr p' \<Longrightarrow> dict_parser_ok p \<Longrightarrow> dict_parser_ok p'"
  by (auto simp: dict_line_def Let_def try_then_Inr split: if_splits dest: field_directive_ok other_directives_ok)
     (auto simp: dict_parser_ok_def dest: section_tags_ok)

lemma dict_lines_ok: "dict_lines n ls p = Inr p' \<Longrightarrow> dict_parser_ok p \<Longrightarrow> dict_parser_ok p'"
  by (induction ls arbitrary: n p) (auto simp: try_then_Inr dest: dict_line_ok)

lemma new_dict_parser_ok: "dict_parser_ok new_dict_parser"
  by (simp add: dict_parser_ok_def new_dict_parser_def index_ok_def tag_set_ok_def)

section \<open>Components\<close>

text \<open>Every component filed so far is the expansion of its raw members over the table itself.\<close>

definition expanded :: "(bytes, raw_member list) btree \<Rightarrow> (bytes, component_def) btree \<Rightarrow> bool" where
  "expanded raw r \<longleftrightarrow> bt_sorted r
     \<and> (\<forall>n d. bt_get r n = Some d \<longrightarrow> cd_name d = n \<and> (\<exists>ms. bt_get raw n = Some ms \<and> expand_members r ms = Inr (cd_members d)))"

lemma expand_members_Nil [simp]: "expand_members r [] = Inr []"
  by (simp add: expand_members_def)

lemma expand_members_Cons:
  "expand_members r (m # ms) = try_then (expand_member r m) (\<lambda>xs. map_sum id ((@) xs) (expand_members r ms))"
  by (auto simp: expand_members_def try_then_def map_sum_def split: sum.splits)

lemma expand_members_mono:
  assumes "map_of r \<subseteq>\<^sub>m map_of r'" "expand_members r ms = Inr xs"
  shows "expand_members r' ms = Inr xs"
  using assms(2)
proof (induction ms arbitrary: xs)
  case (Cons m ms)
  then obtain ys zs where y: "expand_member r m = Inr ys" "expand_members r ms = Inr zs" "xs = ys @ zs"
    by (auto simp: expand_members_Cons try_then_Inr map_sum_def split: sum.splits)
  have "expand_member r' m = Inr ys"
    using y(1) assms(1) by (auto simp: expand_member_def map_sum_def ok_or_def map_le_def split: raw_member.splits sum.splits option.splits) (metis domI option.inject option.distinct(1))+
  then show ?case using Cons.IH [OF y(2)] y(3) by (simp add: expand_members_Cons)
qed simp

lemma expanded_insert:
  assumes "expanded raw r" "bt_get r n = None" "bt_get raw n = Some ms" "expand_members r ms = Inr xs"
  shows "expanded raw (bt_insert n \<lparr>cd_name = n, cd_members = xs\<rparr> r) \<and> map_of r \<subseteq>\<^sub>m map_of (bt_insert n \<lparr>cd_name = n, cd_members = xs\<rparr> r)"
proof -
  let ?r = "bt_insert n \<lparr>cd_name = n, cd_members = xs\<rparr> r"
  have le: "map_of r \<subseteq>\<^sub>m map_of ?r" using assms(2) by (auto simp: map_le_def bt_insert_get)
  have "\<exists>ms'. bt_get raw k = Some ms' \<and> expand_members ?r ms' = Inr (cd_members d)" if d: "bt_get r k = Some d" for k d
    using assms(1) d expand_members_mono [OF le] unfolding expanded_def by blast
  then have "expanded raw ?r"
    using assms expand_members_mono [OF le assms(4)] unfolding expanded_def by (simp add: bt_insert_get bt_sorted_insert)
  then show ?thesis using le by simp
qed

lemma resolve_members_expands:
  "resolve_members raw ms resolving r acc = Inr (out, r') \<Longrightarrow> expanded raw r \<Longrightarrow>
     expanded raw r' \<and> map_of r \<subseteq>\<^sub>m map_of r' \<and> (\<exists>xs. expand_members r' ms = Inr xs \<and> out = acc @ xs)
     \<and> (\<forall>k\<in>set resolving. bt_get r' k = bt_get r k)"
proof (induction raw ms resolving r acc arbitrary: out r' rule: resolve_members.induct)
  case (1 raw resolving r acc)
  then show ?case by simp
next
  case (2 raw t ms resolving r acc)
  from 2(1) [OF 2(2) [simplified] 2(3)] obtain xs where "expanded raw r'" "map_of r \<subseteq>\<^sub>m map_of r'" "expand_members r' ms = Inr xs"
    "out = (acc @ [t]) @ xs" "\<forall>k\<in>set resolving. bt_get r' k = bt_get r k" by auto
  then show ?case by (simp add: expand_members_Cons expand_member_def)
next
  case (3 raw n ms resolving r acc)
  show ?case
  proof (cases "bt_get r n")
    case (Some d)
    then have "expanded raw r' \<and> map_of r \<subseteq>\<^sub>m map_of r' \<and> (\<exists>xs. expand_members r' ms = Inr xs \<and> out = (acc @ cd_members d) @ xs)
      \<and> (\<forall>k\<in>set resolving. bt_get r' k = bt_get r k)" using 3(3) [OF Some _ 3(5)] 3(4) Some by simp
    moreover from this have "bt_get r' n = Some d" using Some by (auto simp: map_le_def dom_def)
    ultimately show ?thesis by (auto simp: expand_members_Cons expand_member_def)
  next
    case None
    then obtain ns members r1 where n: "n \<notin> set resolving" "bt_get raw n = Some ns"
      "resolve_members raw ns (n # resolving) r [] = Inr (members, r1)"
      "resolve_members raw ms resolving (bt_insert n \<lparr>cd_name = n, cd_members = members\<rparr> r1) (acc @ members) = Inr (out, r')"
      using 3(4) by (auto simp: try_then_Inr split: if_splits option.splits)
    let ?r2 = "bt_insert n \<lparr>cd_name = n, cd_members = members\<rparr> r1"
    have i: "expanded raw r1" "map_of r \<subseteq>\<^sub>m map_of r1" "expand_members r1 ns = Inr members" "\<forall>k\<in>set (n # resolving). bt_get r1 k = bt_get r k"
      using 3(1) [OF None n(1,2,3) 3(5)] by auto
    have n1: "bt_get r1 n = None" using i(4) None by simp
    have r2: "expanded raw ?r2" "map_of r1 \<subseteq>\<^sub>m map_of ?r2" using expanded_insert [OF i(1) n1 n(2) i(3)] by auto
    have o: "expanded raw r'" "map_of ?r2 \<subseteq>\<^sub>m map_of r'" "\<exists>xs. expand_members r' ms = Inr xs \<and> out = (acc @ members) @ xs"
      "\<forall>k\<in>set resolving. bt_get r' k = bt_get ?r2 k"
      using 3(2) [OF None n(1,2,3) refl n(4) r2(1)] by auto
    have "bt_get r' n = Some \<lparr>cd_name = n, cd_members = members\<rparr>"
      using o(2) by (auto simp: map_le_def bt_insert_get dom_def)
    moreover have "map_of r \<subseteq>\<^sub>m map_of r'" using i(2) r2(2) o(2) by (meson map_le_trans)
    moreover have "\<forall>k\<in>set resolving. bt_get r' k = bt_get r k" using o(4) i(4) n(1) by (auto simp: bt_insert_get)
    ultimately show ?thesis using o(1,3) by (auto simp: expand_members_Cons expand_member_def)
  qed
qed

lemma resolve_component_expands:
  assumes "resolve_component n raw r = Inr r'" "expanded raw r"
  shows "expanded raw r' \<and> map_of r \<subseteq>\<^sub>m map_of r' \<and> bt_get r' n \<noteq> None"
proof -
  obtain out where "resolve_members raw [RComponent n] [] r [] = Inr (out, r')"
    using assms(1) by (auto simp: resolve_component_def map_sum_def split: sum.splits)
  then have m: "expanded raw r' \<and> map_of r \<subseteq>\<^sub>m map_of r' \<and> (\<exists>xs. expand_members r' [RComponent n] = Inr xs \<and> out = [] @ xs)"
    using resolve_members_expands assms(2) by blast
  then have "bt_get r' n \<noteq> None"
    by (auto simp: expand_members_Cons expand_member_def try_then_Inr ok_or_def map_sum_def split: sum.splits option.splits)
  then show ?thesis using m by blast
qed

lemma resolve_names_expands:
  "resolve_names raw ns r = Inr r' \<Longrightarrow> expanded raw r \<Longrightarrow>
     expanded raw r' \<and> map_of r \<subseteq>\<^sub>m map_of r' \<and> (\<forall>n\<in>set ns. bt_get r' n \<noteq> None)"
proof (induction raw ns r arbitrary: r' rule: resolve_names.induct)
  case (2 raw n ns r)
  show ?case
  proof (cases "bt_get r n")
    case None
    then obtain r1 where r1: "resolve_component n raw r = Inr r1" "resolve_names raw ns r1 = Inr r'"
      using 2(3) by (auto simp: try_then_Inr)
    note c = resolve_component_expands [OF r1(1) 2(4)]
    have "expanded raw r' \<and> map_of r1 \<subseteq>\<^sub>m map_of r' \<and> (\<forall>n\<in>set ns. bt_get r' n \<noteq> None)"
      using 2(2) None r1 c by simp
    then show ?thesis using c by (auto simp: map_le_def dom_def)
  next
    case (Some d)
    then have "expanded raw r' \<and> map_of r \<subseteq>\<^sub>m map_of r' \<and> (\<forall>n\<in>set ns. bt_get r' n \<noteq> None)"
      using 2 by simp
    moreover from this have "bt_get r' n = Some d" using Some by (auto simp: map_le_def dom_def)
    ultimately show ?thesis by simp
  qed
qed simp

lemma bt_get_None_iff: "bt_get m k = None \<longleftrightarrow> k \<notin> fst ` set m"
  by (simp add: map_of_eq_None_iff)

lemma resolve_all_components_expands:
  assumes "resolve_all_components raw = Inr r"
  shows "expanded raw r \<and> fst ` set r = fst ` set raw"
proof -
  have "expanded raw []" by (simp add: expanded_def)
  then have e: "expanded raw r" "\<forall>n\<in>fst ` set raw. bt_get r n \<noteq> None"
    using resolve_names_expands [of raw "map fst raw" "[]" r] assms by (auto simp: resolve_all_components_def)
  have "n \<in> fst ` set raw" if n: "n \<in> fst ` set r" for n
  proof -
    obtain d where "bt_get r n = Some d" using n by (metis bt_get_None_iff not_Some_eq)
    then have "bt_get raw n \<noteq> None" using e(1) unfolding expanded_def by fastforce
    then show ?thesis by (simp add: bt_get_None_iff)
  qed
  moreover have "fst ` set raw \<subseteq> fst ` set r" using e(2) by (auto simp: bt_get_None_iff)
  ultimately show ?thesis using e(1) by blast
qed


section \<open>Whole documents\<close>

lemma bt_sorted_map_keys: "(\<And>x. fst (f x) = fst x) \<Longrightarrow> bt_sorted (map f m) = bt_sorted m"
  by (simp add: bt_sorted_def comp_def)

lemma bt_sorted_of_list: "bt_sorted (bt_of_list xs)"
proof -
  have "bt_sorted (fold (\<lambda>(k, v). bt_insert k v) xs m)" if "bt_sorted m" for m
    using that by (induction xs arbitrary: m) (auto simp: bt_sorted_insert)
  then show ?thesis by (simp add: bt_of_list_def)
qed

lemma set_bt_of_list: "set (bt_of_list xs) \<subseteq> set xs"
proof -
  have "set (fold (\<lambda>(k, v). bt_insert k v) xs m) \<subseteq> set xs \<union> set m" for m
  proof (induction xs arbitrary: m)
    case (Cons x xs)
    have "set (bt_insert k v m) \<subseteq> insert (k, v) (set m)" for k v
      by (induction k v m rule: bt_insert.induct) auto
    then show ?case using Cons.IH [of "case x of (k, v) \<Rightarrow> bt_insert k v m"] by (cases x) fastforce
  qed simp
  from this [of "[]"] show ?thesis by (simp add: bt_of_list_def)
qed

definition dictionary_wf :: "data_dictionary \<Rightarrow> bool" where
  "dictionary_wf d \<longleftrightarrow> index_ok (dd_fields d) (dd_field_by_name d) \<and> tag_set_ok (dd_header d) \<and> tag_set_ok (dd_trailer d)
     \<and> bt_sorted (dd_messages d) \<and> bt_sorted (dd_groups d) \<and> bt_sorted (dd_components d)
     \<and> (\<forall>(mt, md)\<in>set (dd_messages d). md_msg_type md = mt \<and> md = expand_member_tags (dd_groups d) md)
     \<and> (\<forall>(t, g)\<in>set (dd_groups d). gd_count_tag g = t)
     \<and> (\<forall>(n, c)\<in>set (dd_components d). cd_name c = n)"

lemma expand_message_type: "expand_message cs x = Inr (mt, md) \<Longrightarrow> md_msg_type md = mt"
  by (auto simp: expand_message_def try_then_Inr split: prod.splits)

lemma expanded_names: "expanded raw r \<Longrightarrow> (n, c) \<in> set r \<Longrightarrow> cd_name c = n"
  by (auto simp: expanded_def bt_sorted_def strict_sorted_iff)

lemma parse_dictionary_wf: "parse_dictionary input = Inr d \<Longrightarrow> dictionary_wf d"
proof -
  assume "parse_dictionary input = Inr d"
  then obtain p version components gs ms where p: "dict_lines 1 (text_lines input) new_dict_parser = Inr p"
    "resolve_all_components (dp_components p) = Inr components" "try_map (expand_message components) (dp_messages p) = Inr ms"
    and d: "dd_fields d = dp_fields p" "dd_field_by_name d = dp_field_by_name p" "dd_header d = dp_header p" "dd_trailer d = dp_trailer p"
    "dd_components d = components" "dd_messages d = map (\<lambda>(mt, md). (mt, expand_member_tags (dd_groups d) md)) (bt_of_list ms)"
    "dd_groups d = bt_of_list (map (\<lambda>(t, dl, m, r). (t, GroupDef t dl m r
       (build_child m (dp_fields p) (map (\<lambda>(t, d, m, _). (t, d, m)) (bt_of_list gs)) 0))) (bt_of_list gs))"
    unfolding parse_dictionary_def Let_def try_then_Inr by auto
  have ok: "dict_parser_ok p" by (rule dict_lines_ok [OF p(1) new_dict_parser_ok])
  have e: "expanded (dp_components p) components" using resolve_all_components_expands [OF p(2)] by simp
  have "md_msg_type md = mt" if "(mt, md) \<in> set (bt_of_list ms)" for mt md
  proof -
    have "(mt, md) \<in> set ms" using that set_bt_of_list by blast
    then obtain i where "i < length ms" "ms ! i = (mt, md)" by (auto simp: in_set_conv_nth)
    then have "expand_message components (dp_messages p ! i) = Inr (mt, md)" using p(3) by (auto simp: try_map_Inr list_all2_conv_all_nth)
    then show ?thesis by (rule expand_message_type)
  qed
  then have m: "\<forall>(mt, md)\<in>set (dd_messages d). md_msg_type md = mt \<and> md = expand_member_tags (dd_groups d) md"
    by (auto simp: d(6) expand_member_tags_def)
  have g: "\<forall>(t, g)\<in>set (dd_groups d). gd_count_tag g = t"
    unfolding d(7) by (auto dest!: set_bt_of_list [THEN subsetD])
  have "bt_sorted (dd_messages d)" unfolding d(6) by (subst bt_sorted_map_keys) (auto simp: bt_sorted_of_list)
  then show ?thesis unfolding dictionary_wf_def
    using ok e expanded_names [OF e] m g by (auto simp: dict_parser_ok_def d(1-5) expanded_def) (simp add: d(7) bt_sorted_of_list)
qed

text \<open>
  C38. Every dictionary the parser returns is well formed: the field table and the name index are inverse to each other and
  all tags fit 32 bits, header and trailer tags are strictly increasing, the tables of messages, groups and components are
  sorted and file each entry under its own key, and every message carries the member tags its groups call for.
\<close>

theorem parsed_dictionary_wf: "parse_dictionary input = Inr d \<Longrightarrow> dictionary_wf d"
  by (rule parse_dictionary_wf)

definition sample_document :: bytes where
  "sample_document = concat (map (\<lambda>l. l @ [CHR 0x0A])
     [''version FIX.4.4'', ''# comment'', ''field 11 ClOrdID STRING'', ''field 54 Side CHAR 1=BUY 2=SELL'', ''field 453 NoPartyIDs NUMINGROUP'',
      ''field 448 PartyID STRING'', ''header 8 9 35'', ''trailer 10'', ''component Order 11,component:Parties'', ''component Parties 453'',
      ''group 453 Parties 448 448'', ''message D NewOrderSingle req:component:Order opt:54 ordered''])"

lemma parse_dictionary_accepts:
  "\<not> isl (parse_dictionary input) \<longleftrightarrow>
     (case dict_lines 1 (text_lines input) new_dict_parser of
        Inl _ \<Rightarrow> False
      | Inr p \<Rightarrow> dp_version p \<noteq> None
          \<and> (case resolve_all_components (dp_components p) of
                Inl _ \<Rightarrow> False
              | Inr cs \<Rightarrow> \<not> isl (try_map (expand_group cs) (dp_groups p)) \<and> \<not> isl (try_map (expand_message cs) (dp_messages p))))"
  by (auto simp: parse_dictionary_def try_then_def ok_or_def Let_def split: sum.splits option.splits)

theorem parsed_dictionary_wf_witness: "\<exists>d. parse_dictionary sample_document = Inr d \<and> dictionary_wf d"
proof -
  have "\<not> isl (parse_dictionary sample_document)" unfolding parse_dictionary_accepts by code_simp
  then obtain d where d: "parse_dictionary sample_document = Inr d" by (cases "parse_dictionary sample_document") auto
  show ?thesis using parsed_dictionary_wf [OF d] d by blast
qed

text \<open>
  C39. Component references resolve whatever the order of the declarations: when resolution succeeds, exactly the declared
  components are resolved, and the members of each are its declared members with every reference replaced by the resolved
  members of the component it names.
\<close>

theorem components_expanded:
  "resolve_all_components raw = Inr r \<Longrightarrow> fst ` set r = fst ` set raw
     \<and> (\<forall>n d. bt_get r n = Some d \<longrightarrow> (\<exists>ms. bt_get raw n = Some ms \<and> expand_members r ms = Inr (cd_members d)))"
  using resolve_all_components_expands [of raw r] by (auto simp: expanded_def)

theorem components_expanded_witness:
  "\<exists>r. resolve_all_components [(''A'', [RTag 11, RComponent ''B'']), (''B'', [RTag 453, RTag 54])] = Inr r
     \<and> map_option cd_members (bt_get r ''A'') = Some [11, 453, 54] \<and> fst ` set r = {''A'', ''B''}"
proof -
  let ?raw = "[(''A'', [RTag 11, RComponent ''B'']), (''B'', [RTag 453, RTag 54])]"
  have "case resolve_all_components ?raw of Inr r \<Rightarrow> map_option cd_members (bt_get r ''A'') = Some [11, 453, 54] | Inl _ \<Rightarrow> False"
    by code_simp
  then obtain r where r: "resolve_all_components ?raw = Inr r" "map_option cd_members (bt_get r ''A'') = Some [11, 453, 54]"
    by (auto split: sum.splits)
  show ?thesis using components_expanded [OF r(1)] r by auto
qed

end
