(* ===== verification/Fix_Builder_Props.thy ===== *)
theory Fix_Builder_Props
  imports Fix_Builder Fix_Dict_Parser_Props
begin

text \<open>
  Properties of the resolver of session sections: every error names its session, the defaults, what a resolved session
  satisfies, what lenient resolution keeps and skips, and how credentials enter a database address.
\<close>

section \<open>Errors name their session\<close>

fun error_session :: "config_error \<Rightarrow> bytes option" where
  "error_session (MissingRequired _ s) = Some s"
| "error_session (InvalidValue _ s _) = Some s"
| "error_session (UnsupportedBackend s _) = Some s"
| "error_session (UnknownConnectionType s _) = Some s"
| "error_session _ = None"

definition names :: "bytes \<Rightarrow> config_error + 'a \<Rightarrow> bool" where
  "names s r = (\<forall>e. r = Inl e \<longrightarrow> error_session e = Some s)"

lemma names_Inr [simp]: "names s (Inr x)"
  by (simp add: names_def)

lemma names_Inl: "error_session e = Some s \<Longrightarrow> names s (Inl e)"
  by (simp add: names_def)

lemma names_try: "names s r \<Longrightarrow> (\<And>x. names s (f x)) \<Longrightarrow> names s (try_then r f)"
  by (auto simp: names_def try_then_Inl)

lemma names_ok: "error_session e = Some s \<Longrightarrow> names s (ok_or v e)"
  by (simp add: names_def ok_or_def split: option.splits)

lemma names_map: "names s r \<Longrightarrow> names s (map_sum id f r)"
  by (auto simp: names_def map_sum_def split: sum.splits)

lemma names_map_error: "(\<And>e. error_session (g e) = Some s) \<Longrightarrow> names s (map_sum g f r)"
  by (auto simp: names_def map_sum_def split: sum.splits)

lemma names_if: "(c \<Longrightarrow> names s a) \<Longrightarrow> (\<not> c \<Longrightarrow> names s b) \<Longrightarrow> names s (if c then a else b)"
  by simp

lemma names_option: "names s a \<Longrightarrow> (\<And>x. names s (f x)) \<Longrightarrow> names s (case v of None \<Rightarrow> a | Some x \<Rightarrow> f x)"
  by (cases v) auto

lemma names_prod: "(\<And>a b. names s (f a b)) \<Longrightarrow> names s (case p of (a, b) \<Rightarrow> f a b)"
  by (cases p) auto

lemma names_try_map: "(\<And>x. names s (f x)) \<Longrightarrow> names s (try_map f xs)"
  by (induction xs) (auto intro!: names_try)

lemma names_read_key: "names s (read_key rd ex m k s d)"
  unfolding read_key_def by (intro names_option names_ok) auto

lemmas names_intros = names_Inl names_try names_ok names_map names_if names_option names_prod names_try_map names_read_key

lemma names_keys:
  "names s (required m k s)" "names s (u32_key m k s d)" "names s (bool_key m k s b)" "names s (f64_key m k s q)"
  "names s (usize_key m k s o')" "names s (opt_u32_key m k s)" "names s (linger_key m k s)" "names s (precision_key m k s pr)"
  "names s (protocol_key m k s pt)" "names s (port_value k s v)" "names s (ip_list k s v)" "names s (seconds_or m k s o')"
  unfolding required_def u32_key_def bool_key_def f64_key_def usize_key_def opt_u32_key_def linger_key_def precision_key_def
    protocol_key_def port_value_def ip_list_def seconds_or_def
  by (intro names_intros; simp)+

lemma names_logon_tag: "names s (parse_logon_tag k s raw)"
  unfolding parse_logon_tag_def by (intro names_intros; simp)

lemma names_logon_loop: "names s (logon_tag_loop m s n)"
proof (induction m s n rule: logon_tag_loop.induct)
  case (1 m s n)
  then show ?case
    by (subst logon_tag_loop.simps) (auto simp: names_def try_then_Inl map_sum_def names_logon_tag [unfolded names_def] split: option.splits sum.splits)
qed

lemma names_failover: "names s (failover_loop m s n)"
proof (induction m s n rule: failover_loop.induct)
  case (1 m s n)
  then show ?case
    by (subst failover_loop.simps) (auto simp: names_def try_then_Inl map_sum_def names_keys(10) [unfolded names_def] split: option.splits sum.splits)
qed

lemma names_schedule: "names s (resolve_schedule E m s)"
proof -
  have t: "names s (parse_time X v k s)" for X v k
    unfolding parse_time_def Let_def by (intro names_intros names_Inr; simp)
  have w: "names s (parse_weekday v k s)" for v k
    unfolding parse_weekday_def by (intro names_intros; simp)
  have u: "names s (parse_utc_offset v s)" for v
    unfolding parse_utc_offset_def Let_def by (cases v) (auto intro!: names_intros)
  have o: "names s (opt_key m k f)" if "\<And>v. names s (f v)" for k and f :: "bytes \<Rightarrow> config_error + 'x"
    unfolding opt_key_def by (intro names_intros names_Inr that)
  have z: "names s (schedule_zone E m s x)" for x
    unfolding schedule_zone_def using u by (auto simp: names_def split: option.splits sum.splits)
  have d: "names s (schedule_days m s x)" for x
    unfolding schedule_days_def by (intro names_intros names_Inr w)
  have win: "names s (schedule_window a b c e s)" for a b c e
    unfolding schedule_window_def by (auto simp: names_def split: option.splits)
  show ?thesis unfolding resolve_schedule_def
    by (intro names_intros names_Inr names_keys o t w z d win)
qed

lemma names_local_bind_addr: "names s (resolve_local_bind_addr E m s)"
  by (auto simp: resolve_local_bind_addr_def intro!: names_intros names_keys split: option.splits)

lemma names_protocol_paths: "names s (resolve_protocol_paths m s c)"
  by (simp add: resolve_protocol_paths_def Let_def names_def split: protocol.splits)

lemma names_address: "names s (resolve_address m ct s)"
  by (auto simp: resolve_address_def intro!: names_intros names_keys split: connection_type.splits)

lemma names_dictionary: "names s (load_dictionary_value E v s)"
  by (auto simp: load_dictionary_value_def intro!: names_map_error split: option.splits)

lemma names_resolvers:
  "names s (resolve_reconnect_interval m s)" "names s (resolve_logon_tags m s)" "names s (resolve_socket_options m s)"
  "names s (resolve_enabled_protocols m s)" "names s (resolve_proxy m s)" "names s (resolve_trusted_proxy_addresses m s)"
  "names s (resolve_allowed_remote_addresses m s)" "names s (resolve_sync_write_timeout m s)" "names s (jdbc_pool_options m s)"
  "names s (resolve_log m s)" "names s (resolve_log_kind m s)" "names s (resolve_options m s)" "names s (connection_of v s)"
  unfolding resolve_reconnect_interval_def resolve_logon_tags_def resolve_socket_options_def
    resolve_enabled_protocols_def resolve_proxy_def proxy_kind_of_def resolve_trusted_proxy_addresses_def resolve_allowed_remote_addresses_def
    resolve_sync_write_timeout_def jdbc_pool_options_def resolve_log_def resolve_log_kind_def resolve_options_def connection_of_def Let_def
  by (intro names_intros names_Inr names_keys names_logon_tag names_logon_loop; simp)+

lemma names_store: "names s (resolve_store E m s)"
proof -
  have "names s (sql_store_config E m url s)" "names s (mssql_store_config E m url s)" for url
    unfolding sql_store_config_def mssql_store_config_def
    by (intro names_intros names_Inr names_resolvers; simp)+
  then have "names s (jdbc_store_config E m url s u p)" for url u p
    unfolding jdbc_store_config_def by (auto intro!: names_intros)
  then show ?thesis unfolding resolve_store_def by (intro names_intros names_Inr names_keys)
qed

lemma names_tls: "names s (resolve_tls m s)"
  unfolding resolve_tls_def Let_def
  by (intro names_try names_if names_Inr names_keys names_resolvers) (simp add: names_def split: option.splits)

lemma names_dictionaries: "names s (resolve_validator E m s)" "names s (resolve_fixt_dictionaries E m s)"
  unfolding resolve_validator_def resolve_fixt_dictionaries_def Let_def
  by (intro names_intros names_Inr names_keys names_dictionary names_resolvers; simp)+

lemma names_run_steps: "list_all (\<lambda>f. \<forall>c. names s (f c)) fs \<Longrightarrow> names s (run_steps fs c)"
  by (induction fs arbitrary: c) (auto intro: names_try)

lemma names_assign: "(\<And>c. names s (rd c)) \<Longrightarrow> names s (assign put rd c)"
  by (simp add: assign_def names_map)

lemma names_run_Nil: "names s (run_steps [] c)"
  by simp

lemma names_run_Cons: "(\<And>c. names s (f c)) \<Longrightarrow> (\<And>c. names s (run_steps fs c)) \<Longrightarrow> names s (run_steps (f # fs) c)"
  by (simp add: names_try)

lemma run_steps_append: "run_steps (fs @ gs) c = try_then (run_steps fs c) (run_steps gs)"
  by (induction fs arbitrary: c) (auto simp: try_then_def split: sum.splits)

lemma names_config: "names s (resolve_config E m s c)"
  unfolding resolve_config_def run_steps_append timer_steps_def behaviour_steps_def bool_step_def u32_step_def text_step_def
  by (intro names_try names_run_Cons names_run_Nil names_assign names_keys names_resolvers
        names_schedule names_protocol_paths names_local_bind_addr names_Inr)

lemma names_connection: "names s a \<Longrightarrow> names s b \<Longrightarrow> names s (case ct of CAcceptor \<Rightarrow> a | CInitiator \<Rightarrow> b)"
  by (cases ct) auto

text \<open>
  C30. Whatever is wrong with a section, the error names the session by its label: the two comp ids, or the position of
  the section when one of them is missing.
\<close>

theorem resolve_errors_named: "resolve_one E m i = Inl e \<Longrightarrow> error_session e = Some (session_label m i)"
proof -
  have "names (session_label m i) (resolve_one E m i)"
    unfolding resolve_one_def Let_def resolve_failover_addresses_def
    by (intro names_try names_prod names_Inr names_keys names_resolvers names_config names_address names_store names_tls names_dictionaries names_connection names_failover)
  then show "resolve_one E m i = Inl e \<Longrightarrow> error_session e = Some (session_label m i)" by (simp add: names_def)
qed

theorem resolve_errors_named_witness: "\<forall>E. error_session (MissingRequired ''BeginString'' ''#7'') = Some (session_label [] 7)"
proof
  fix E
  have l: "session_label [] 7 = ''#7''" by code_simp
  then have "resolve_one E [] 7 = Inl (MissingRequired ''BeginString'' ''#7'')" by (simp add: resolve_one_def Let_def required_def)
  then show "error_session (MissingRequired ''BeginString'' ''#7'') = Some (session_label [] 7)" by (rule resolve_errors_named)
qed

section \<open>Lenient resolution\<close>

definition numbered_sections :: "session_settings \<Rightarrow> (nat \<times> section_map) list" where
  "numbered_sections s = enumerate 0 (set_sessions s)"

definition tolerated :: "section_map \<Rightarrow> bool" where
  "tolerated m = lenient_bool_key m ''ContinueInitializationOnError'' False"

lemma resolve_lenient_from_eq:
  "resolve_lenient_from E i ms =
     (case find (\<lambda>(j, m). isl (resolve_one E m j) \<and> \<not> tolerated m) (enumerate i ms) of
        Some (j, m) \<Rightarrow> Inl (projl (resolve_one E m j))
      | None \<Rightarrow> Inr (map (\<lambda>(j, m). projr (resolve_one E m j)) (filter (\<lambda>(j, m). \<not> isl (resolve_one E m j)) (enumerate i ms)),
                   map (\<lambda>(j, m). (session_label m j, projl (resolve_one E m j))) (filter (\<lambda>(j, m). isl (resolve_one E m j)) (enumerate i ms))))"
proof (induction E i ms rule: resolve_lenient_from.induct)
  case (2 E i m ms)
  then show ?case by (cases "resolve_one E m i") (auto simp: tolerated_def split: option.splits)
qed simp

text \<open>
  C31. Lenient resolution sorts the sections, in order, into resolved sessions and labelled errors, provided every section
  that fails asks for it with \<^verbatim>\<open>ContinueInitializationOnError=Y\<close>; otherwise it ends with the error of the first that does not.
\<close>

theorem resolve_lenient_partitions:
  "resolve_lenient E s =
     (case find (\<lambda>(i, m). isl (resolve_one E m i) \<and> \<not> tolerated m) (numbered_sections s) of
        Some (i, m) \<Rightarrow> Inl (projl (resolve_one E m i))
      | None \<Rightarrow> Inr (map (\<lambda>(i, m). projr (resolve_one E m i)) (filter (\<lambda>(i, m). \<not> isl (resolve_one E m i)) (numbered_sections s)),
                   map (\<lambda>(i, m). (session_label m i, projl (resolve_one E m i))) (filter (\<lambda>(i, m). isl (resolve_one E m i)) (numbered_sections s))))"
  unfolding resolve_lenient_def numbered_sections_def by (rule resolve_lenient_from_eq)

section \<open>Credentials\<close>

fun percent_decode :: "bytes \<Rightarrow> bytes" where
  "percent_decode (a # b # c # s) =
     (if a = CHR ''%'' then (case (hex_digit b, hex_digit c) of
          (Some x, Some y) \<Rightarrow> char_of (16 * x + y) # percent_decode s
        | _ \<Rightarrow> a # percent_decode (b # c # s))
      else a # percent_decode (b # c # s))"
| "percent_decode s = s"

lemma percent_decode_plain: "c \<noteq> CHR ''%'' \<Longrightarrow> percent_decode (c # s) = c # percent_decode s"
  by (cases s rule: percent_decode.cases) auto

lemma percent_decode_encode: "percent_decode (percent_encode_userinfo s) = s"
proof (induction s)
  case (Cons c s)
  have h: "hex_digit (CHR ''2'') = Some 2" "hex_digit (CHR ''5'') = Some 5" "hex_digit (CHR ''4'') = Some 4" "hex_digit (CHR ''0'') = Some 0"
    "hex_digit (CHR ''3'') = Some 3" "hex_digit (CHR ''A'') = Some 10" "hex_digit (CHR ''F'') = Some 15" by code_simp+
  have d: "char_of (37 :: nat) = CHR ''%''" "char_of (64 :: nat) = CHR ''@''" "char_of (58 :: nat) = CHR '':''" "char_of (47 :: nat) = CHR ''/''"
    by code_simp+
  consider "c = CHR ''%''" | "c = CHR ''@''" | "c = CHR '':''" | "c = CHR ''/''" | "c \<notin> set ''%@:/''" by auto
  then show ?case using Cons.IH by cases (simp_all add: h d percent_decode_plain)
qed simp

lemma percent_encode_safe: "set (percent_encode_userinfo s) \<inter> set ''@:/'' = {}"
  by (induction s) auto

lemma split_scheme_Some: "split_scheme url = Some (scheme, rest) \<Longrightarrow> url = scheme @ ''://'' @ rest"
proof (induction url arbitrary: scheme rest)
  case (Cons c cs)
  show ?case
  proof (cases "prefix ''://'' (c # cs)")
    case True
    then show ?thesis using Cons.prems by (auto simp: prefix_def)
  qed (use Cons in auto)
qed simp

text \<open>
  Spliced credentials can be read back: for an address with a scheme and no credentials of its own, the user and
  password stand between the scheme and the rest, contain no delimiter of the address, and percent-decode to what was
  configured.
\<close>

theorem splice_credentials_roundtrip:
  assumes "split_scheme url = Some (scheme, rest)" "CHR ''@'' \<notin> set rest"
  shows "\<exists>u p. splice_credentials url (Some user) (Some password) = scheme @ ''://'' @ u @ '':'' @ p @ ''@'' @ rest
     \<and> set (u @ p) \<inter> set ''@:/'' = {} \<and> percent_decode u = user \<and> percent_decode p = password"
  using assms percent_encode_safe [of user] percent_encode_safe [of password]
  by (intro exI [of _ "percent_encode_userinfo user"] exI [of _ "percent_encode_userinfo password"])
     (auto simp: splice_credentials_def percent_decode_encode)


theorem splice_credentials_roundtrip_witness:
  "\<exists>u p. splice_credentials ''mysql://db/fix'' (Some ''a@b'') (Some ''x:/%'') = ''mysql'' @ ''://'' @ u @ '':'' @ p @ ''@'' @ ''db/fix''
     \<and> set (u @ p) \<inter> set ''@:/'' = {} \<and> percent_decode u = ''a@b'' \<and> percent_decode p = ''x:/%''"
proof (rule splice_credentials_roundtrip)
  show "split_scheme ''mysql://db/fix'' = Some (''mysql'', ''db/fix'')" by code_simp
  show "CHR ''@'' \<notin> set ''db/fix''" by simp
qed

section \<open>Defaults\<close>

lemma read_key_absent: "bt_get m k = None \<Longrightarrow> read_key rd ex m k s d = Inr d"
  by (simp add: read_key_def)

lemmas key_defs = u32_key_def bool_key_def f64_key_def usize_key_def opt_u32_key_def linger_key_def precision_key_def protocol_key_def
  seconds_or_def opt_key_def required_def

lemma config_defaults:
  assumes "\<And>k. k \<notin> {''BeginString'', ''SenderCompID'', ''TargetCompID'', ''ConnectionType'', ''SocketAcceptPort''} \<Longrightarrow> bt_get m k = None"
  shows "resolve_config E m session (new_full_config b s t r) = Inr ((new_full_config b s t r)\<lparr>cfg_logout_timeout := 2\<rparr>)"
proof -
  have l: "logon_tag_loop m session n = Inr []" for n using assms by (subst logon_tag_loop.simps) simp
  show ?thesis
    using assms by (simp add: resolve_config_def timer_steps_def behaviour_steps_def bool_step_def u32_step_def text_step_def assign_def key_defs
      read_key_absent resolve_reconnect_interval_def resolve_schedule_def schedule_window_def resolve_logon_tags_def l resolve_local_bind_addr_def resolve_protocol_paths_def
      new_full_config_def new_config_def session_config.defs full_config.defs)
qed

definition acceptor_section :: "bytes \<Rightarrow> bytes \<Rightarrow> bytes \<Rightarrow> nat \<Rightarrow> section_map" where
  "acceptor_section b s t port = bt_of_list [(''BeginString'', b), (''SenderCompID'', s), (''TargetCompID'', t),
     (''ConnectionType'', ''acceptor''), (''SocketAcceptPort'', show_nat port)]"

lemma map_of_bt_of_list: "map_of (bt_of_list xs) = map_of (rev xs)"
proof -
  have "map_of (fold (\<lambda>(k, v). bt_insert k v) xs m) = map_of m ++ map_of (rev xs)" for m :: "('a, 'b) btree"
    by (induction xs arbitrary: m) (auto simp: map_of_bt_insert map_add_def fun_eq_iff split: option.splits prod.splits)
  from this [of "[]"] show ?thesis by (simp add: bt_of_list_def)
qed

lemma acceptor_section_get:
  "bt_get (acceptor_section b s t port) ''BeginString'' = Some b"
  "bt_get (acceptor_section b s t port) ''SenderCompID'' = Some s"
  "bt_get (acceptor_section b s t port) ''TargetCompID'' = Some t"
  "bt_get (acceptor_section b s t port) ''ConnectionType'' = Some ''acceptor''"
  "bt_get (acceptor_section b s t port) ''SocketAcceptPort'' = Some (show_nat port)"
  "k \<notin> {''BeginString'', ''SenderCompID'', ''TargetCompID'', ''ConnectionType'', ''SocketAcceptPort''} \<Longrightarrow>
     bt_get (acceptor_section b s t port) k = None"
  unfolding acceptor_section_def map_of_bt_of_list by simp_all

lemma acceptor_defaults:
  assumes "port < 65536"
  shows "resolve_one E (acceptor_section b s t port) i =
     Inr \<lparr>rs_session = (new_full_config b s t Acceptor)\<lparr>cfg_logout_timeout := 2\<rparr>, rs_connection = CAcceptor,
          rs_address = \<lparr>ep_host = ''0.0.0.0'', ep_port = port\<rparr>, rs_store = MemoryStoreConfig, rs_tls = None,
          rs_socket_options = default_socket_options, rs_failover_addresses = [], rs_log = None, rs_sql_log = None, rs_proxy = None,
          rs_trusted_proxy_addresses = [], rs_sync_write_timeout = None, rs_validator = None, rs_acceptor_template = False,
          rs_allowed_remote_addresses = [], rs_log_kind = None, rs_fixt_dictionaries = None,
          rs_log_message_when_session_not_found = False\<rparr>"
proof -
  let ?m = "acceptor_section b s t port"
  have c: "connection_of ''acceptor'' session = Inr (CAcceptor, Acceptor)" for session
    unfolding connection_of_def by code_simp
  have r: "resolve_config E ?m session (new_full_config b s t Acceptor) = Inr ((new_full_config b s t Acceptor)\<lparr>cfg_logout_timeout := 2\<rparr>)" for session
    by (rule config_defaults) (rule acceptor_section_get)
  show ?thesis
    using assms by (simp add: resolve_one_def Let_def key_defs c r acceptor_section_get read_key_absent resolve_address_def port_value_def resolve_store_def
      resolve_tls_def resolve_socket_options_def default_socket_options_def resolve_log_def resolve_log_kind_def resolve_proxy_def
      resolve_trusted_proxy_addresses_def resolve_sync_write_timeout_def resolve_validator_def resolve_fixt_dictionaries_def
      resolve_allowed_remote_addresses_def)
qed

text \<open>
  A section with only the required keys of an acceptor resolves to the documented defaults: the configuration of
  \<^verbatim>\<open>SessionConfig::new\<close> but for a logout timeout of two seconds, listening on all interfaces, a memory store, and nothing else.
\<close>

theorem minimal_acceptor:
  assumes "port < 65536"
  shows "resolve_one E (acceptor_section b s t port) i =
     Inr \<lparr>rs_session = (new_full_config b s t Acceptor)\<lparr>cfg_logout_timeout := 2\<rparr>, rs_connection = CAcceptor,
          rs_address = \<lparr>ep_host = ''0.0.0.0'', ep_port = port\<rparr>, rs_store = MemoryStoreConfig, rs_tls = None,
          rs_socket_options = default_socket_options, rs_failover_addresses = [], rs_log = None, rs_sql_log = None, rs_proxy = None,
          rs_trusted_proxy_addresses = [], rs_sync_write_timeout = None, rs_validator = None, rs_acceptor_template = False,
          rs_allowed_remote_addresses = [], rs_log_kind = None, rs_fixt_dictionaries = None,
          rs_log_message_when_session_not_found = False\<rparr>"
  using assms by (rule acceptor_defaults)

theorem minimal_acceptor_witness:
  "\<forall>E. map_sum id (\<lambda>rs. (ep_port (rs_address rs), cfg_logout_timeout (rs_session rs)))
     (resolve_one E (acceptor_section ''FIX.4.4'' ''A'' ''B'' 9876) 0) = Inr (9876, 2)"
  using minimal_acceptor [of 9876 _ "''FIX.4.4''" "''A''" "''B''" 0] by simp

section \<open>Well-formed sessions\<close>

definition schedule_ok :: "schedule \<Rightarrow> bool" where
  "schedule_ok s \<longleftrightarrow> sch_non_stop s \<or>
     (sch_start_time s \<noteq> None \<and> sch_end_time s \<noteq> None \<and> (sch_start_day s = None) = (sch_end_day s = None)
      \<and> (case sch_weekdays s of None \<Rightarrow> True | Some ds \<Rightarrow> ds \<noteq> [] \<and> (\<forall>d\<in>set ds. d < 7)))"

definition endpoint_ok :: "socket_endpoint \<Rightarrow> bool" where
  "endpoint_ok e \<longleftrightarrow> ep_port e < 65536"

definition resolved_ok :: "resolved_session \<Rightarrow> bool" where
  "resolved_ok rs \<longleftrightarrow>
     (cfg_role (rs_session rs) = Initiator \<longleftrightarrow> rs_connection rs = CInitiator)
     \<and> (cfg_protocol (rs_session rs) = Fast \<longrightarrow> cfg_fast_template_path (rs_session rs) \<noteq> None)
     \<and> (cfg_protocol (rs_session rs) = Sbe \<longrightarrow> cfg_sbe_schema_path (rs_session rs) \<noteq> None)
     \<and> (\<forall>s. cfg_schedule (rs_session rs) = Some s \<longrightarrow> schedule_ok s)
     \<and> endpoint_ok (rs_address rs) \<and> list_all endpoint_ok (rs_failover_addresses rs)
     \<and> (rs_connection rs = CAcceptor \<longrightarrow> rs_failover_addresses rs = [])
     \<and> (\<forall>t. rs_tls rs = Some t \<longrightarrow> tls_key_store_path t \<noteq> None \<or> tls_key_store_bytes t \<noteq> None)
     \<and> (rs_log rs = None \<or> rs_sql_log rs = None)
     \<and> list_all ip_addr_ok (rs_trusted_proxy_addresses rs) \<and> list_all ip_addr_ok (rs_allowed_remote_addresses rs)
     \<and> (\<forall>d o'. rs_validator rs = Some (d, o') \<longrightarrow> dictionary_wf d)
     \<and> (\<forall>fx. rs_fixt_dictionaries rs = Some fx \<longrightarrow> dictionary_wf (fx_transport fx) \<and> list_all (dictionary_wf \<circ> snd) (fx_applications fx)
          \<and> application_for fx None \<noteq> None)"


lemma map_sum_id_Inr: "map_sum id f r = Inr y \<longleftrightarrow> (\<exists>x. r = Inr x \<and> y = f x)"
  by (cases r) auto

lemma port_value_bound: "port_value k s v = Inr p \<Longrightarrow> p < 65536"
  using parse_unsigned_bound [of 65536] by (auto simp: port_value_def ok_or_Inr)

lemma ip_list_ok: "ip_list k s v = Inr as \<Longrightarrow> list_all ip_addr_ok as"
proof -
  assume "ip_list k s v = Inr as"
  then have "list_all2 (\<lambda>x a. parse_ip_addr x = Some a) (filter (\<lambda>s. s \<noteq> []) (map trim (split_all (CHR '','') v))) as"
    by (auto simp: ip_list_def try_map_Inr ok_or_Inr)
  then show ?thesis by (induction rule: list_all2_induct) (auto dest: parse_ip_addr_ok)
qed

lemma failover_cases:
  assumes "failover_loop m s n = Inr es"
  obtains (stop) "es = []" "bt_get m (''SocketConnectHost'' @ show_nat n) = None" "bt_get m (''SocketConnectPort'' @ show_nat n) = None"
  | (endpoint) host v port es' where "bt_get m (''SocketConnectHost'' @ show_nat n) = Some host"
      "bt_get m (''SocketConnectPort'' @ show_nat n) = Some v" "port_value (''SocketConnectPort'' @ show_nat n) s v = Inr port"
      "failover_loop m s (Suc n) = Inr es'" "es = \<lparr>ep_host = host, ep_port = port\<rparr> # es'"
  using assms by (subst (asm) failover_loop.simps)
     (auto simp: try_then_Inr map_sum_id_Inr split: option.splits if_splits simp del: append_Cons)

lemma failover_ok: "failover_loop m s n = Inr es \<Longrightarrow> list_all endpoint_ok es"
proof (induction es arbitrary: n)
  case (Cons e es)
  from Cons.prems show ?case
    using Cons.IH by (cases rule: failover_cases) (auto simp: endpoint_ok_def dest: port_value_bound)
qed simp

lemma parse_weekday_bound: "parse_weekday v k s = Inr d \<Longrightarrow> d < 7"
  by (auto simp: parse_weekday_def ok_or_Inr split: if_splits)

lemma split_all_nonempty: "split_all c s \<noteq> []"
  by (induction c s rule: split_all.induct) (auto split: list.splits)

lemma schedule_days_ok:
  assumes "schedule_days m s x = Inr y" "schedule_ok x"  "sch_weekdays x = None"
  shows "schedule_ok y"
proof (cases "bt_get m ''Weekdays''")
  case (Some lst)
  then obtain days where d: "try_map (\<lambda>d. parse_weekday (trim d) ''Weekdays'' s) (split_all (CHR '','') lst) = Inr days" "y = with_weekdays days x"
    using assms(1) by (auto simp: schedule_days_def map_sum_id_Inr)
  then have l: "list_all2 (\<lambda>x d. parse_weekday (trim x) ''Weekdays'' s = Inr d) (split_all (CHR '','') lst) days" by (simp add: try_map_Inr)
  have "days \<noteq> []" using l split_all_nonempty by (metis list_all2_Nil2)
  moreover have "\<forall>d\<in>set days. d < 7" using l by (induction rule: list_all2_induct) (auto dest: parse_weekday_bound)
  ultimately show ?thesis using assms(2) d(2) by (auto simp: schedule_ok_def with_weekdays_def)
qed (use assms in \<open>simp add: schedule_days_def\<close>)

lemma schedule_zone_ok: "schedule_zone E m s x = Inr y \<Longrightarrow> schedule_ok x \<Longrightarrow> schedule_ok y"
  by (auto simp: schedule_zone_def schedule_ok_def split: option.splits sum.splits if_splits)

lemma schedule_window_ok: "schedule_window a b c d s = Inr (Some x) \<Longrightarrow> schedule_ok x \<and> sch_weekdays x = None"
  by (auto simp: schedule_window_def schedule_ok_def weekly_def daily_def default_schedule_def split: option.splits)

lemma schedule_chain_ok:
  "schedule_window a b c d s = Inr (Some w) \<Longrightarrow> schedule_days m s w = Inr y \<Longrightarrow> schedule_zone E m s y = Inr x \<Longrightarrow> schedule_ok x"
  using schedule_window_ok schedule_days_ok schedule_zone_ok by blast

lemma resolve_schedule_ok: "resolve_schedule E m s = Inr (Some x) \<Longrightarrow> schedule_ok x"
  by (auto simp: resolve_schedule_def try_then_Inr map_sum_id_Inr split: if_splits option.splits intro: schedule_chain_ok)
     (simp add: schedule_ok_def non_stop_def)

lemma resolve_schedule_value: "resolve_schedule E m s = Inr v \<Longrightarrow> \<forall>x. v = Some x \<longrightarrow> schedule_ok x"
  using resolve_schedule_ok by blast

definition keeps :: "(full_config \<Rightarrow> bool) \<Rightarrow> config_step \<Rightarrow> bool" where
  "keeps P f \<longleftrightarrow> (\<forall>c c'. P c \<longrightarrow> f c = Inr c' \<longrightarrow> P c')"

lemma keeps_assign: "(\<And>v c. rd c = Inr v \<Longrightarrow> P c \<Longrightarrow> P (put v c)) \<Longrightarrow> keeps P (assign put rd)"
  by (auto simp: keeps_def assign_def map_sum_id_Inr)

lemma keeps_run_Nil: "keeps P (run_steps [])"
  by (simp add: keeps_def)

lemma keeps_run_Cons: "keeps P f \<Longrightarrow> keeps P (run_steps fs) \<Longrightarrow> keeps P (run_steps (f # fs))"
  unfolding keeps_def run_steps.simps try_then_Inr by blast

definition config_ok :: "role \<Rightarrow> full_config \<Rightarrow> bool" where
  "config_ok r c \<longleftrightarrow> cfg_role c = r
     \<and> (cfg_protocol c = Fast \<longrightarrow> cfg_fast_template_path c \<noteq> None) \<and> (cfg_protocol c = Sbe \<longrightarrow> cfg_sbe_schema_path c \<noteq> None)
     \<and> (\<forall>s. cfg_schedule c = Some s \<longrightarrow> schedule_ok s)"

lemma keeps_config: "keeps (config_ok r) (run_steps (timer_steps m s))"
  unfolding timer_steps_def bool_step_def u32_step_def
  by (intro keeps_run_Cons keeps_run_Nil keeps_assign; simp add: config_ok_def case_prod_beta)

lemma protocol_paths_ok:
  "config_ok r c \<Longrightarrow> resolve_protocol_paths m s (c\<lparr>cfg_protocol := v\<rparr>) = Inr c' \<Longrightarrow> config_ok r c'"
  by (cases v) (auto simp: resolve_protocol_paths_def Let_def config_ok_def split: if_splits)

lemma keeps_protocol:
  assumes "keeps (config_ok r) (run_steps fs)"
  shows "keeps (config_ok r) (run_steps (assign (\<lambda>v c. c\<lparr>cfg_protocol := v\<rparr>) rd # resolve_protocol_paths m s # fs))"
  unfolding keeps_def
proof (intro allI impI)
  fix c c'
  assume c: "config_ok r c" and "run_steps (assign (\<lambda>v c. c\<lparr>cfg_protocol := v\<rparr>) rd # resolve_protocol_paths m s # fs) c = Inr c'"
  then obtain v c1 where "resolve_protocol_paths m s (c\<lparr>cfg_protocol := v\<rparr>) = Inr c1" "run_steps fs c1 = Inr c'"
    by (auto simp: assign_def try_then_Inr map_sum_id_Inr)
  then show "config_ok r c'" using protocol_paths_ok [OF c] assms unfolding keeps_def by blast
qed

lemma keeps_behaviour: "keeps (config_ok r) (run_steps (behaviour_steps E m s))"
  unfolding behaviour_steps_def bool_step_def text_step_def
  by (intro keeps_protocol keeps_run_Cons keeps_run_Nil keeps_assign; simp add: config_ok_def resolve_schedule_value)

lemma resolve_config_ok:
  assumes "resolve_config E m s (new_full_config b sd t r) = Inr c"
  shows "config_ok r c"
proof -
  have "config_ok r (new_full_config b sd t r)"
    by (simp add: config_ok_def new_full_config_def new_config_def session_config.defs full_config.defs)
  then show ?thesis using assms keeps_config keeps_behaviour unfolding resolve_config_def run_steps_append try_then_Inr keeps_def by blast
qed

lemma load_dictionary_wf: "load_dictionary_value E v s = Inr d \<Longrightarrow> dictionary_wf d"
  using parse_dictionary_wf
  by (auto simp: load_dictionary_value_def load_from_file_def map_sum_def split: option.splits sum.splits)

lemma address_ok: "resolve_address m ct s = Inr a \<Longrightarrow> endpoint_ok a"
  by (auto simp: resolve_address_def try_then_Inr endpoint_ok_def dest: port_value_bound split: prod.splits)

lemma tls_ok: "resolve_tls m s = Inr (Some t) \<Longrightarrow> tls_key_store_path t \<noteq> None \<or> tls_key_store_bytes t \<noteq> None"
  by (auto simp: resolve_tls_def Let_def try_then_Inr split: if_splits option.splits)

lemma log_ok: "resolve_log m s = Inr (l, q) \<Longrightarrow> l = None \<or> q = None"
  by (auto simp: resolve_log_def try_then_Inr map_sum_id_Inr split: option.splits)

lemma validator_ok: "resolve_validator E m s = Inr (Some (d, o')) \<Longrightarrow> dictionary_wf d"
  by (auto simp: resolve_validator_def try_then_Inr split: if_splits dest: load_dictionary_wf)

lemma fixt_ok: "resolve_fixt_dictionaries E m s = Inr (Some fx) \<Longrightarrow>
    dictionary_wf (fx_transport fx) \<and> list_all (dictionary_wf \<circ> snd) (fx_applications fx) \<and> application_for fx None \<noteq> None"
  by (auto simp: resolve_fixt_dictionaries_def try_then_Inr Let_def with_default_appl_ver_id_def with_application_def fixt_new_def
      application_for_def split: if_splits option.splits dest: load_dictionary_wf)

lemma addresses_ok:
  "resolve_trusted_proxy_addresses m s = Inr as \<Longrightarrow> list_all ip_addr_ok as"
  "resolve_allowed_remote_addresses m s = Inr as \<Longrightarrow> list_all ip_addr_ok as"
  by (auto simp: resolve_trusted_proxy_addresses_def resolve_allowed_remote_addresses_def try_then_Inr split: if_splits option.splits dest: ip_list_ok)

lemma connection_role: "connection_of v s = Inr (ct, r) \<Longrightarrow> r = Initiator \<longleftrightarrow> ct = CInitiator"
  by (auto simp: connection_of_def Let_def split: if_splits)

text \<open>
  C29. Every resolved session is coherent: role and connection type agree, a binary protocol has its template or schema,
  a schedule is complete, ports fit 16 bits, acceptors have no failover addresses, TLS has a key store, at most one of
  the two logs is set, addresses are valid, and every dictionary, also the pair of a FIXT session, is well formed.
\<close>

theorem resolved_sessions_ok: "resolve_one E m i = Inr rs \<Longrightarrow> resolved_ok rs"
proof -
  let ?s = "session_label m i"
  assume "resolve_one E m i = Inr rs"
  then obtain b sd t v r where
    "connection_of v ?s = Inr (rs_connection rs, r)"
    "resolve_config E m ?s (new_full_config b sd t r) = Inr (rs_session rs)"
    "resolve_address m (rs_connection rs) ?s = Inr (rs_address rs)"
    "resolve_tls m ?s = Inr (rs_tls rs)"
    "(case rs_connection rs of CInitiator \<Rightarrow> resolve_failover_addresses m ?s | CAcceptor \<Rightarrow> Inr []) = Inr (rs_failover_addresses rs)"
    "resolve_log m ?s = Inr (rs_log rs, rs_sql_log rs)"
    "resolve_trusted_proxy_addresses m ?s = Inr (rs_trusted_proxy_addresses rs)"
    "resolve_validator E m ?s = Inr (rs_validator rs)"
    "resolve_fixt_dictionaries E m ?s = Inr (rs_fixt_dictionaries rs)"
    "resolve_allowed_remote_addresses m ?s = Inr (rs_allowed_remote_addresses rs)"
    unfolding resolve_one_def Let_def try_then_Inr by (auto simp: try_then_Inr)
  then show "resolved_ok rs"
    unfolding resolved_ok_def
    by (auto simp: resolve_failover_addresses_def config_ok_def dest!: resolve_config_ok connection_role address_ok tls_ok log_ok failover_ok validator_ok
       fixt_ok addresses_ok split: connection_type.splits)
qed

theorem resolved_sessions_ok_witness:
  "\<forall>E. \<exists>rs. resolve_one E (acceptor_section ''FIX.4.4'' ''A'' ''B'' 9876) 0 = Inr rs \<and> resolved_ok rs"
proof
  fix E
  obtain rs where "resolve_one E (acceptor_section ''FIX.4.4'' ''A'' ''B'' 9876) 0 = Inr rs"
    using acceptor_defaults [of 9876 E "''FIX.4.4''" "''A''" "''B''" 0] by simp
  then show "\<exists>rs. resolve_one E (acceptor_section ''FIX.4.4'' ''A'' ''B'' 9876) 0 = Inr rs \<and> resolved_ok rs"
    using resolved_sessions_ok by blast
qed

section \<open>Backup addresses\<close>

text \<open>The backup addresses are the numbered keys in order, without a gap and without one left over.\<close>

lemma failover_numbered:
  "failover_loop m s n = Inr es \<Longrightarrow>
     (\<forall>i < length es. bt_get m (''SocketConnectHost'' @ show_nat (n + i)) = Some (ep_host (es ! i)))
     \<and> bt_get m (''SocketConnectHost'' @ show_nat (n + length es)) = None"
proof (induction es arbitrary: n)
  case Nil
  then show ?case by (cases rule: failover_cases) auto
next
  case (Cons e es)
  from Cons.prems show ?case
  proof (cases rule: failover_cases)
    case (endpoint host v port es')
    then have "(\<forall>i < length es. bt_get m (''SocketConnectHost'' @ show_nat (Suc n + i)) = Some (ep_host (es ! i)))
      \<and> bt_get m (''SocketConnectHost'' @ show_nat (Suc n + length es)) = None" by (intro Cons.IH) simp
    then show ?thesis using endpoint by (auto simp: nth_Cons simp del: append_Cons split: nat.splits)
  qed simp
qed

end
