(* ===== verification/Fix_Inbound.thy ===== *)
theory Fix_Inbound
  imports Fix_Codec_Props Fix_Engine Fix_Builder_Keys Fix_Fast Fix_Sbe
begin

text \<open>
  The reader of a connection (\<^verbatim>\<open>transport/lib.rs\<close>): bytes from the socket are cut into frames, decoded, and forwarded on
  the administrative or the application channel. What the channels have carried so far is part of the reader's state.
\<close>

section \<open>State\<close>

datatype inbound = IMessage message | IGarbled

text \<open>
  The settings of a connection the reader looks at. A loaded template or schema set stands for the path it was loaded
  from, \<open>None\<close> for a missing path or a file that does not load.
\<close>

record wire_services =
  ws_protocol :: protocol
  ws_fast_templates :: "(nat, fast_template) btree option"
  ws_sbe_schemas :: "sbe_schema_set option"
  ws_validator :: "(data_dictionary \<times> validation_options) option"
  ws_fixt_dictionaries :: "(fixt_dictionaries \<times> validation_options) option"

record reader =
  rd_buf :: bytes
  rd_pending :: "inbound list"
  rd_admin :: "inbound list"
  rd_app :: "inbound list"
  rd_open :: bool

definition new_reader :: "bytes \<Rightarrow> reader" where
  "new_reader buf = \<lparr>rd_buf = buf, rd_pending = [], rd_admin = [], rd_app = [], rd_open = True\<rparr>"

section \<open>Frames\<close>

definition is_admin :: "message \<Rightarrow> bool" where
  "is_admin msg = is_admin_type (msg_type msg)"

text \<open>The next plausible start of a message beyond the first byte.\<close>

definition next_frame_start :: "bytes \<Rightarrow> nat option" where
  "next_frame_start buf = find (\<lambda>i. get_range buf i (i + 2) = Some ''8='') [1..<length buf - 1]"

definition decode_frame :: "wire_services \<Rightarrow> bytes \<Rightarrow> decode_error + message" where
  "decode_frame sv raw =
     (case ws_validator sv of
        Some (d, _) \<Rightarrow> decode_with_groups raw (group_of d)
      | None \<Rightarrow>
          (case ws_fixt_dictionaries sv of
             Some (ds, _) \<Rightarrow> decode_with_groups raw (group_of (fx_transport ds))
           | None \<Rightarrow> decode raw))"

definition forward :: "bool \<Rightarrow> inbound \<Rightarrow> reader \<Rightarrow> reader" where
  "forward has_app i r =
     (case i of
        IMessage msg \<Rightarrow> if \<not> has_app \<or> is_admin msg then r\<lparr>rd_admin := rd_admin r @ [i]\<rparr> else r\<lparr>rd_pending := rd_pending r @ [i]\<rparr>
      | IGarbled \<Rightarrow> r\<lparr>rd_admin := rd_admin r @ [i]\<rparr>)"

definition classify_frame :: "wire_services \<Rightarrow> bytes \<Rightarrow> inbound" where
  "classify_frame sv raw = (case decode_frame sv raw of Inr msg \<Rightarrow> IMessage msg | Inl _ \<Rightarrow> IGarbled)"

lemma frame_length_pos: "frame_length buf = Inr (Some n) \<Longrightarrow> 0 < n \<and> n \<le> length buf"
  by (auto simp: frame_length_def Let_def split: option.splits if_splits)

lemma next_frame_start_bound: "next_frame_start buf = Some i \<Longrightarrow> 0 < i \<and> i < length buf"
  by (auto simp: next_frame_start_def find_Some_iff)

text \<open>The two framing errors that end the connection.\<close>

fun closes_connection :: "decode_error \<Rightarrow> bool" where
  "closes_connection (BodyLengthTooLarge _ _) = True"
| "closes_connection ZeroBodyLength = True"
| "closes_connection _ = False"

text \<open>\<^verbatim>\<open>classify_buffered\<close>: every complete message in the buffer; a buffer that cannot be framed is skipped to the next start.\<close>

function classify_soh :: "wire_services \<Rightarrow> bool \<Rightarrow> reader \<Rightarrow> reader" where
  "classify_soh sv has_app r =
     (case frame_length (rd_buf r) of
        Inr (Some n) \<Rightarrow>
          classify_soh sv has_app
            (forward has_app (classify_frame sv (take n (rd_buf r))) (r\<lparr>rd_buf := drop n (rd_buf r)\<rparr>))
      | Inr None \<Rightarrow> r
      | Inl e \<Rightarrow>
          if closes_connection e then r\<lparr>rd_open := False\<rparr>
          else
            (case next_frame_start (rd_buf r) of
               None \<Rightarrow> r\<lparr>rd_buf := []\<rparr>
             | Some i \<Rightarrow> classify_soh sv has_app (r\<lparr>rd_buf := drop i (rd_buf r)\<rparr>)))"
  by pat_completeness auto
termination
  by (relation "measure (\<lambda>(sv, has_app, r). length (rd_buf r))")
     (auto simp: forward_def split: inbound.splits dest!: frame_length_pos next_frame_start_bound)

declare classify_soh.simps [simp del]

section \<open>Binary messages\<close>

definition decode_binary :: "wire_services \<Rightarrow> bytes \<Rightarrow> message option" where
  "decode_binary sv buf =
     (case ws_protocol sv of
        Soh \<Rightarrow> None
      | Fast \<Rightarrow>
          (case ws_fast_templates sv of
             None \<Rightarrow> None
           | Some ts \<Rightarrow> (case fst (fast_decode buf (new_fast_codec ts)) of Inr (m, _) \<Rightarrow> Some m | Inl _ \<Rightarrow> None))
      | Sbe \<Rightarrow>
          (case ws_sbe_schemas sv of
             None \<Rightarrow> None
           | Some schemas \<Rightarrow> (case sbe_decode schemas buf of Inr (m, _) \<Rightarrow> Some m | Inl _ \<Rightarrow> None)))"

definition classify_binary_buffered :: "wire_services \<Rightarrow> bool \<Rightarrow> reader \<Rightarrow> reader" where
  "classify_binary_buffered sv has_app r =
     (if rd_buf r = [] \<or> ws_protocol sv = Soh then r
      else
        (case decode_binary sv (rd_buf r) of
           None \<Rightarrow> r\<lparr>rd_open := False\<rparr>
         | Some msg \<Rightarrow> forward has_app (IMessage msg) (r\<lparr>rd_buf := []\<rparr>)))"

definition classify_buffered :: "wire_services \<Rightarrow> bool \<Rightarrow> reader \<Rightarrow> reader" where
  "classify_buffered sv has_app r =
     (if ws_protocol sv \<noteq> Soh then classify_binary_buffered sv has_app r else classify_soh sv has_app r)"

section \<open>Reading\<close>

text \<open>The bytes of one read; an empty read is the end of the stream.\<close>

definition read_chunk :: "wire_services \<Rightarrow> bool \<Rightarrow> bytes \<Rightarrow> reader \<Rightarrow> reader" where
  "read_chunk sv has_app chunk r =
     (if \<not> rd_open r then r
      else if chunk = [] then r\<lparr>rd_open := False\<rparr>
      else classify_buffered sv has_app (r\<lparr>rd_buf := rd_buf r @ chunk\<rparr>))"

text \<open>One staged message goes out on the application channel.\<close>

definition deliver_pending :: "reader \<Rightarrow> reader" where
  "deliver_pending r = (case rd_pending r of [] \<Rightarrow> r | i # is \<Rightarrow> r\<lparr>rd_pending := is, rd_app := rd_app r @ [i]\<rparr>)"

text \<open>
  The loop of \<^verbatim>\<open>read_loop\<close> for an application channel of capacity \<open>n\<close>: a read is possible only while fewer messages than the
  capacity are staged, a delivery whenever one is staged. Without the channel (\<open>None\<close>) there are only reads.
\<close>

datatype read_event = Chunk bytes | Deliver

definition read_step :: "wire_services \<Rightarrow> nat option \<Rightarrow> read_event \<Rightarrow> reader \<Rightarrow> reader" where
  "read_step sv cap e r =
     (case e of
        Chunk c \<Rightarrow>
          (case cap of
             None \<Rightarrow> read_chunk sv False c r
           | Some n \<Rightarrow> if length (rd_pending r) < max n 1 then read_chunk sv True c r else r)
      | Deliver \<Rightarrow> if rd_open r then deliver_pending r else r)"

definition read_loop :: "wire_services \<Rightarrow> nat option \<Rightarrow> bytes \<Rightarrow> read_event list \<Rightarrow> reader" where
  "read_loop sv cap buf es = fold (read_step sv cap) es (classify_buffered sv (cap \<noteq> None) (new_reader buf))"

end
