(* ===== verification/Fix_Inbound_Props.thy ===== *)
theory Fix_Inbound_Props
  imports Fix_Inbound
begin

text \<open>
  The reader turns any chunking of a byte stream into the messages that were sent, and what happens to a message whose
  start is split across two reads while the reader is skipping garbage.
\<close>

section \<open>Reassembly\<close>

definition framed :: "bytes \<Rightarrow> bool" where
  "framed f \<longleftrightarrow> frame_length f = Inr (Some (length f))"

lemma framed_append: "framed f \<Longrightarrow> frame_length (f @ xs) = Inr (Some (length f))"
  by (simp add: framed_def frame_length_append)

lemma framed_prefix: "framed f \<Longrightarrow> strict_prefix p f \<Longrightarrow> frame_length p = Inr None"
proof -
  assume f: "framed f" "strict_prefix p f"
  then have "p = take (length p) f" "length p < length f"
    by (auto simp: strict_prefix_def prefix_def)
  then show ?thesis using frame_length_prefix [of f "length f" "length p"] f(1) by (metis framed_def)
qed

lemma classify_soh_none: "frame_length (rd_buf r) = Inr None \<Longrightarrow> classify_soh sv a r = r"
  by (subst classify_soh.simps) simp

lemma forward_frames [simp]: "rd_buf (forward a i r) = rd_buf r" "rd_open (forward a i r) = rd_open r"
  by (auto simp: forward_def split: inbound.splits)

lemma forward_all: "forward False i r = r\<lparr>rd_admin := rd_admin r @ [i]\<rparr>"
  by (simp add: forward_def split: inbound.splits)

lemma classify_soh_frames:
  assumes "\<forall>f\<in>set fs. framed f" "frame_length tail = Inr None" "rd_buf r = concat fs @ tail"
  shows "classify_soh sv False r = r\<lparr>rd_buf := tail, rd_admin := rd_admin r @ map (classify_frame sv) fs\<rparr>"
  using assms
proof (induction fs arbitrary: r)
  case Nil
  then show ?case using classify_soh_none [of r sv False] by simp
next
  case (Cons f fs)
  have l: "frame_length (rd_buf r) = Inr (Some (length f))" using Cons.prems by (simp add: framed_append)
  have "classify_soh sv False r = classify_soh sv False (r\<lparr>rd_buf := concat fs @ tail, rd_admin := rd_admin r @ [classify_frame sv f]\<rparr>)"
    using Cons.prems(3) l by (subst classify_soh.simps) (simp add: forward_all)
  also have "\<dots> = r\<lparr>rd_buf := tail, rd_admin := rd_admin r @ map (classify_frame sv) (f # fs)\<rparr>"
    using Cons.prems by (subst Cons.IH) simp_all
  finally show ?case .
qed

text \<open>A prefix of a sequence of frames is some whole frames and the beginning of the next.\<close>

lemma prefix_of_frames:
  assumes "\<forall>f\<in>set fs. framed f" "prefix p (concat fs)"
  shows "\<exists>gs hs tail. fs = gs @ hs \<and> p = concat gs @ tail \<and> frame_length tail = Inr None \<and> prefix tail (concat hs)"
  using assms
proof (induction fs arbitrary: p)
  case Nil
  then show ?case by (auto simp: frame_length_def)
next
  case (Cons f fs)
  show ?case
  proof (cases "prefix f p")
    case True
    then obtain q where q: "p = f @ q" by (auto simp: prefix_def)
    then have "prefix q (concat fs)" using Cons.prems(2) by simp
    moreover have "\<forall>f\<in>set fs. framed f" using Cons.prems(1) by simp
    ultimately obtain gs hs tail where "fs = gs @ hs \<and> q = concat gs @ tail \<and> frame_length tail = Inr None \<and> prefix tail (concat hs)"
      using Cons.IH by meson
    then show ?thesis using q by (intro exI [of _ "f # gs"] exI [of _ hs] exI [of _ tail]) simp
  next
    case False
    then have "strict_prefix p f" using Cons.prems(2) by (auto simp: prefix_append)
    then have "frame_length p = Inr None" using framed_prefix [of f p] Cons.prems(1) by simp
    then show ?thesis using Cons.prems(2) by (intro exI [of _ "[]"] exI [of _ "f # fs"] exI [of _ p]) simp
  qed
qed

lemma drop_drop_concat: "drop (length xs + n) (xs @ ys) = drop n ys"
  by simp

lemma read_chunks_frames:
  assumes "ws_protocol sv = Soh" "\<forall>f\<in>set fs. framed f" "\<forall>c\<in>set cs. c \<noteq> []" "rd_open r"
    "frame_length (rd_buf r) = Inr None" "prefix (rd_buf r @ concat cs) (concat fs)"
  shows "\<exists>gs hs. fs = gs @ hs \<and> fold (\<lambda>c. read_chunk sv False c) cs r =
    r\<lparr>rd_buf := drop (length (concat gs)) (rd_buf r @ concat cs), rd_admin := rd_admin r @ map (classify_frame sv) gs\<rparr>
    \<and> frame_length (drop (length (concat gs)) (rd_buf r @ concat cs)) = Inr None \<and> length (concat gs) \<le> length (rd_buf r @ concat cs)"
  using assms(2-)
proof (induction cs arbitrary: r fs)
  case Nil
  then show ?case by (intro exI [of _ "[]"] exI [of _ fs]) simp
next
  case (Cons c cs)
  have "prefix (rd_buf r @ c) (concat fs)" using Cons.prems(5) by (auto simp: prefix_def)
  then obtain gs hs tail where g: "fs = gs @ hs" "rd_buf r @ c = concat gs @ tail" "frame_length tail = Inr None" "prefix tail (concat hs)"
    using prefix_of_frames Cons.prems(1) by blast
  let ?r = "r\<lparr>rd_buf := tail, rd_admin := rd_admin r @ map (classify_frame sv) gs\<rparr>"
  have s: "read_chunk sv False c r = ?r"
    using Cons.prems(1,2,3) g classify_soh_frames [of gs tail "r\<lparr>rd_buf := rd_buf r @ c\<rparr>" sv]
    by (simp add: read_chunk_def classify_buffered_def assms(1))
  have "prefix (tail @ concat cs) (concat hs)"
    using Cons.prems(5) g by (metis append.assoc concat.simps(2) concat_append same_prefix_prefix)
  then obtain gs' hs' where h: "hs = gs' @ hs'" "fold (\<lambda>c. read_chunk sv False c) cs ?r =
    ?r\<lparr>rd_buf := drop (length (concat gs')) (tail @ concat cs), rd_admin := rd_admin ?r @ map (classify_frame sv) gs'\<rparr>"
    "frame_length (drop (length (concat gs')) (tail @ concat cs)) = Inr None" "length (concat gs') \<le> length (tail @ concat cs)"
    using Cons.IH [of hs ?r] Cons.prems(1-3) g(1,3) by auto
  have d: "drop (length (concat (gs @ gs'))) (rd_buf r @ concat (c # cs)) = drop (length (concat gs')) (tail @ concat cs)"
  proof -
    have "rd_buf r @ concat (c # cs) = concat gs @ tail @ concat cs" using g(2) by (metis append.assoc concat.simps(2))
    then show ?thesis by (simp only: concat_append length_append drop_drop_concat)
  qed
  have "length (concat (gs @ gs')) \<le> length (rd_buf r @ concat (c # cs))"
    using h(4) arg_cong [OF g(2), of length] by simp
  then show ?case using g(1) h s d by (intro exI [of _ "gs @ gs'"] exI [of _ hs']) simp
qed

lemma frame_nonempty: "framed f \<Longrightarrow> f \<noteq> []"
  by (auto simp: framed_def dest: frame_length_pos)

lemma incomplete_frames: "\<forall>f\<in>set hs. framed f \<Longrightarrow> frame_length (concat hs) = Inr None \<Longrightarrow> hs = []"
  by (cases hs) (auto simp: framed_append)

lemma new_reader_sel [simp]: "rd_buf (new_reader b) = b" "rd_admin (new_reader b) = []" "rd_open (new_reader b)"
  by (simp_all add: new_reader_def)

lemma read_loop_frames:
  assumes "ws_protocol sv = Soh" "\<forall>m\<in>set ms. wire_ready m \<and> looks_like_fix_begin_string (value_or_default (m_header m) BEGIN_STRING)"
    "\<forall>c\<in>set cs. c \<noteq> []" "concat cs = concat (map encode ms)"
  shows "read_loop sv None [] (map Chunk cs) =
    (new_reader [])\<lparr>rd_admin := map (\<lambda>m. classify_frame sv (encode m)) ms\<rparr>"
proof -
  let ?fs = "map encode ms"
  have f: "\<forall>f\<in>set ?fs. framed f" using assms(2) frame_length_encode by (auto simp: framed_def)
  have z: "frame_length [] = Inr None" by (simp add: frame_length_def)
  then have n: "classify_buffered sv False (new_reader []) = new_reader []"
    by (simp add: classify_buffered_def assms(1) classify_soh_none new_reader_def)
  have "(\<lambda>c. read_step sv None (Chunk c)) = read_chunk sv False"
    by (simp add: read_step_def fun_eq_iff)
  then have r: "read_loop sv None [] (map Chunk cs) = fold (\<lambda>c. read_chunk sv False c) cs (new_reader [])"
    by (simp add: read_loop_def n fold_map comp_def)
  obtain gs hs where g: "?fs = gs @ hs" "fold (\<lambda>c. read_chunk sv False c) cs (new_reader []) =
    (new_reader [])\<lparr>rd_buf := drop (length (concat gs)) (concat cs), rd_admin := map (classify_frame sv) gs\<rparr>"
    "frame_length (drop (length (concat gs)) (concat cs)) = Inr None"
    using read_chunks_frames [OF assms(1) f assms(3), of "new_reader []"] assms(4) z new_reader_sel by auto
  have "concat cs = concat gs @ concat hs" using assms(4) g(1) by simp
  then have "hs = []" using incomplete_frames [of hs] f g(1,3) by simp
  then show ?thesis using g r assms(4) by (auto simp: new_reader_def comp_def)
qed

definition plain_services :: wire_services where
  "plain_services = \<lparr>ws_protocol = Soh, ws_fast_templates = None, ws_sbe_schemas = None, ws_validator = None,
     ws_fixt_dictionaries = None\<rparr>"


section \<open>Skipping garbage\<close>

text \<open>
  Garbage before a message in the same read is skipped. When the garbage and the first byte of the message end one read, the
  first byte is discarded with the garbage and the message is lost.
\<close>

definition garbage :: bytes where "garbage = ''junk'' @ [SOH]"

theorem resync_same_read:
  "rd_admin (read_loop plain_services None [] [Chunk (garbage @ encode sample_order)]) = [IMessage (normal_form sample_order)]"
  by code_simp

theorem resync_split_loses_message:
  "rd_admin (read_loop plain_services None [] [Chunk (garbage @ take 1 (encode sample_order)), Chunk (drop 1 (encode sample_order))]) = []"
  by code_simp

text \<open>Messages staged for the application channel are not delivered once the peer has closed the stream.\<close>

theorem staged_lost_at_end:
  "let r = read_loop plain_services (Some 8) [] [Chunk (encode sample_order), Chunk [], Deliver]
   in rd_app r = [] \<and> rd_pending r = [IMessage (normal_form sample_order)] \<and> \<not> rd_open r"
  by code_simp

end
