(* ===== verification/Fix_Connection.thy ===== *)
theory Fix_Connection
  imports Fix_Inbound Fix_File_Store
begin

text \<open>
  One connection of a session (\<^verbatim>\<open>transport/lib.rs\<close>, \<^verbatim>\<open>run_connection\<close>): what the engine answers is written to the peer
  and kept in the store, the application is called back, and the session is seeded from the store at the start. The
  application (\<^verbatim>\<open>session/application.rs\<close>) and the store are interfaces, records of operations on a state of their own.
  Logs, metrics and the monitor observe a connection without changing it and are left out; the clock stands still within one step.
  \<open>None\<close> is a task that does not go on: a panic in the store or a dictionary search that does not return.
\<close>

section \<open>Interfaces\<close>

text \<open>The callbacks. \<^verbatim>\<open>to_app\<close> may change the message also when it refuses it; the flag says whether it is to be sent.\<close>

record 'a app_ops =
  ao_create :: "session_id \<Rightarrow> 'a \<Rightarrow> 'a"
  ao_logon :: "session_id \<Rightarrow> 'a \<Rightarrow> 'a"
  ao_logout :: "session_id \<Rightarrow> 'a \<Rightarrow> 'a"
  ao_cancel :: "session_id \<Rightarrow> 'a \<Rightarrow> 'a"
  ao_before_reset :: "session_id \<Rightarrow> 'a \<Rightarrow> 'a"
  ao_to_admin :: "message \<Rightarrow> session_id \<Rightarrow> 'a \<Rightarrow> message \<times> 'a"
  ao_from_admin :: "message \<Rightarrow> session_id \<Rightarrow> 'a \<Rightarrow> reject option \<times> 'a"
  ao_to_app :: "message \<Rightarrow> session_id \<Rightarrow> 'a \<Rightarrow> (message \<times> bool) \<times> 'a"
  ao_from_app :: "message \<Rightarrow> session_id \<Rightarrow> 'a \<Rightarrow> business_reject option \<times> 'a"

text \<open>The application that overrides nothing.\<close>

definition default_app :: "'a app_ops" where
  "default_app =
     \<lparr>ao_create = (\<lambda>_ a. a), ao_logon = (\<lambda>_ a. a), ao_logout = (\<lambda>_ a. a), ao_cancel = (\<lambda>_ a. a), ao_before_reset = (\<lambda>_ a. a),
      ao_to_admin = (\<lambda>m _ a. (m, a)), ao_from_admin = (\<lambda>m _ a. (None, a)), ao_to_app = (\<lambda>m _ a. ((m, True), a)),
      ao_from_app = (\<lambda>m _ a. (None, a))\<rparr>"

record 's store_ops =
  so_next_sender :: "'s \<Rightarrow> store_error + nat"
  so_next_target :: "'s \<Rightarrow> store_error + nat"
  so_set_sender :: "nat \<Rightarrow> 's \<Rightarrow> (store_error + unit) \<times> 's"
  so_set_target :: "nat \<Rightarrow> 's \<Rightarrow> (store_error + unit) \<times> 's"
  so_get :: "nat \<Rightarrow> nat \<Rightarrow> 's \<Rightarrow> ((store_error + (nat \<times> bytes) list) \<times> 's) option"
  so_reset :: "'s \<Rightarrow> (store_error + unit) \<times> 's"
  so_save_and_advance :: "nat \<Rightarrow> bytes \<Rightarrow> 's \<Rightarrow> ((store_error + unit) \<times> 's) option"
  so_was_corrupted :: "'s \<Rightarrow> bool"

definition mem_ops :: "mem_store store_ops" where
  "mem_ops =
     \<lparr>so_next_sender = (\<lambda>s. Inr (ms_sender s)), so_next_target = (\<lambda>s. Inr (ms_target s)),
      so_set_sender = (\<lambda>n s. (Inr (), mem_set_sender n s)), so_set_target = (\<lambda>n s. (Inr (), mem_set_target n s)),
      so_get = (\<lambda>b e s. map_option (\<lambda>r. (Inr r, s)) (mem_get b e s)), so_reset = (\<lambda>s. (Inr (), mem_reset s)),
      so_save_and_advance = (\<lambda>q m s. map_option (\<lambda>s'. (Inr (), s')) (mem_save_and_advance q m s)),
      so_was_corrupted = (\<lambda>s. False)\<rparr>"

text \<open>The file store; its clock, read at a reset, is the argument.\<close>

definition file_ops :: "int \<Rightarrow> file_store store_ops" where
  "file_ops now =
     \<lparr>so_next_sender = (\<lambda>s. Inr (fs_sender s)), so_next_target = (\<lambda>s. Inr (fs_target s)),
      so_set_sender = (\<lambda>n s. (Inr (), file_set_sender n s)), so_set_target = (\<lambda>n s. (Inr (), file_set_target n s)),
      so_get = (\<lambda>b e s. map_option (\<lambda>r. (r, s)) (file_get b e s)), so_reset = (\<lambda>s. (Inr (), file_reset now s)),
      so_save_and_advance = file_save_and_advance, so_was_corrupted = fs_corrupted\<rparr>"

section \<open>State\<close>

record ('a, 's) services =
  sv_ext :: ext
  sv_app :: "'a app_ops"
  sv_store :: "'s store_ops option"
  sv_wire :: wire_services

text \<open>
  What has been written so far, newest last, and the outcomes of the writes to come (\<^verbatim>\<open>write_with_timeout\<close>): a write past
  the end of the list succeeds.
\<close>

record ('a, 's) connection =
  cn_session :: session
  cn_app :: 'a
  cn_store :: 's
  cn_wire :: "bytes list"
  cn_writes :: "bool list"
  cn_logged_on :: bool

definition write_with_timeout :: "bytes \<Rightarrow> ('a, 's) connection \<Rightarrow> bool \<times> ('a, 's) connection" where
  "write_with_timeout bs c =
     (case cn_writes c of
        [] \<Rightarrow> (True, c\<lparr>cn_wire := cn_wire c @ [bs]\<rparr>)
      | w # ws \<Rightarrow> if w then (True, c\<lparr>cn_wire := cn_wire c @ [bs], cn_writes := ws\<rparr>) else (False, c\<lparr>cn_writes := ws\<rparr>))"

definition call_app :: "(session_id \<Rightarrow> 'a \<Rightarrow> 'a) \<Rightarrow> ('a, 's) connection \<Rightarrow> ('a, 's) connection" where
  "call_app f c = c\<lparr>cn_app := f (s_id (cn_session c)) (cn_app c)\<rparr>"

definition store_reset :: "('a, 's) services \<Rightarrow> ('a, 's) connection \<Rightarrow> ('a, 's) connection" where
  "store_reset sv c = (case sv_store sv of None \<Rightarrow> c | Some S \<Rightarrow> c\<lparr>cn_store := snd (so_reset S (cn_store c))\<rparr>)"

section \<open>Performing actions\<close>

definition persist_sent :: "('a, 's) services \<Rightarrow> message \<Rightarrow> bytes \<Rightarrow> ('a, 's) connection \<Rightarrow> ('a, 's) connection option" where
  "persist_sent sv msg bs c =
     (if \<not> cfg_persist_messages (s_config (cn_session c)) then Some c
      else
        (case sv_store sv of
           None \<Rightarrow> Some c
         | Some S \<Rightarrow>
             if get_str (m_header msg) 43 = Some ''Y'' then Some c
             else
               (case seq_num msg of
                  None \<Rightarrow> Some c
                | Some q \<Rightarrow> map_option (\<lambda>(_, st). c\<lparr>cn_store := st\<rparr>) (so_save_and_advance S q bs (cn_store c)))))"

definition write_log_persist :: "('a, 's) services \<Rightarrow> message \<Rightarrow> ('a, 's) connection \<Rightarrow> (bool \<times> ('a, 's) connection) option" where
  "write_log_persist sv msg c =
     (let bs = encode msg; (written, c1) = write_with_timeout bs c
      in if written then map_option (\<lambda>c2. (True, c2)) (persist_sent sv msg bs c1) else Some (False, c1))"

definition to_admin :: "('a, 's) services \<Rightarrow> message \<Rightarrow> ('a, 's) connection \<Rightarrow> message \<times> ('a, 's) connection" where
  "to_admin sv msg c = (case ao_to_admin (sv_app sv) msg (s_id (cn_session c)) (cn_app c) of (m, a) \<Rightarrow> (m, c\<lparr>cn_app := a\<rparr>))"

definition to_app :: "('a, 's) services \<Rightarrow> message \<Rightarrow> ('a, 's) connection \<Rightarrow> (message \<times> bool) \<times> ('a, 's) connection" where
  "to_app sv msg c = (case ao_to_app (sv_app sv) msg (s_id (cn_session c)) (cn_app c) of (r, a) \<Rightarrow> (r, c\<lparr>cn_app := a\<rparr>))"

text \<open>\<^verbatim>\<open>Action::Send\<close>, \<^verbatim>\<open>Action::Resend\<close> and \<^verbatim>\<open>Action::ResetStore\<close>; a refused resend is replaced by a gap fill.\<close>

definition perform_send :: "('a, 's) services \<Rightarrow> message \<Rightarrow> ('a, 's) connection \<Rightarrow> (bool \<times> ('a, 's) connection) option" where
  "perform_send sv msg c =
     (if is_admin msg then (let (m, c1) = to_admin sv msg c in write_log_persist sv m c1)
      else
        (let ((m, send), c1) = to_app sv msg c in
         if send then write_log_persist sv m c1
         else Some (True, case seq_num m of None \<Rightarrow> c1 | Some q \<Rightarrow> c1\<lparr>cn_session := discard_sent q (cn_session c1)\<rparr>)))"

definition perform_resend ::
  "('a, 's) services \<Rightarrow> datetime \<Rightarrow> message \<Rightarrow> nat \<Rightarrow> ('a, 's) connection \<Rightarrow> (bool \<times> ('a, 's) connection) option" where
  "perform_resend sv now msg q c =
     (let ((m, send), c1) = to_app sv msg c in
      if send then write_log_persist sv m c1
      else
        (case gap_fill_after_veto now q (discard_sent q (cn_session c1)) of
           (a, s) \<Rightarrow>
             let c2 = c1\<lparr>cn_session := s\<rparr> in
             (case a of
                Send fill \<Rightarrow> (let (m', c3) = to_admin sv fill c2 in write_log_persist sv m' c3)
              | _ \<Rightarrow> Some (True, c2))))"

definition perform_reset :: "('a, 's) services \<Rightarrow> ('a, 's) connection \<Rightarrow> ('a, 's) connection" where
  "perform_reset sv c = store_reset sv (call_app (ao_before_reset (sv_app sv)) c)"

definition perform_one :: "('a, 's) services \<Rightarrow> datetime \<Rightarrow> action \<Rightarrow> ('a, 's) connection \<Rightarrow> (bool \<times> ('a, 's) connection) option" where
  "perform_one sv now a c =
     (case a of
        Send msg \<Rightarrow> perform_send sv msg c
      | Resend msg q \<Rightarrow> perform_resend sv now msg q c
      | Disconnect \<Rightarrow> Some (True, c)
      | ResetStore \<Rightarrow> Some (True, perform_reset sv c))"

text \<open>The batch: a failed write ends it. The result is \<open>None\<close> then, otherwise whether a disconnect was asked for.\<close>

fun perform_actions ::
  "('a, 's) services \<Rightarrow> datetime \<Rightarrow> action list \<Rightarrow> ('a, 's) connection \<Rightarrow> (bool option \<times> ('a, 's) connection) option" where
  "perform_actions sv now [] c = Some (Some False, c)"
| "perform_actions sv now (a # as) c =
     (case perform_one sv now a c of
        None \<Rightarrow> None
      | Some (False, c1) \<Rightarrow> Some (None, c1)
      | Some (True, c1) \<Rightarrow>
          map_option (\<lambda>(r, c2). (map_option (\<lambda>d. a = Disconnect \<or> d) r, c2)) (perform_actions sv now as c1))"

section \<open>Events\<close>

definition refresh_on_logon :: "('a, 's) services \<Rightarrow> ('a, 's) connection \<Rightarrow> ('a, 's) connection" where
  "refresh_on_logon sv c =
     (let s = cn_session c in
      case sv_store sv of
        None \<Rightarrow> c
      | Some S \<Rightarrow>
          if cfg_refresh_on_logon (s_config s)
          then c\<lparr>cn_session := refresh_sequences
                  (case so_next_sender S (cn_store c) of Inr n \<Rightarrow> n | Inl _ \<Rightarrow> s_next_out_seq s)
                  (case so_next_target S (cn_store c) of Inr n \<Rightarrow> n | Inl _ \<Rightarrow> s_next_in_seq s) s\<rparr>
          else c)"

text \<open>\<^verbatim>\<open>on_logon\<close>, once the session has become logged on.\<close>

definition note_logon :: "('a, 's) services \<Rightarrow> ('a, 's) connection \<Rightarrow> ('a, 's) connection" where
  "note_logon sv c =
     (if \<not> cn_logged_on c \<and> is_logged_on (cn_session c)
      then call_app (ao_logon (sv_app sv)) (refresh_on_logon sv (c\<lparr>cn_logged_on := True\<rparr>))
      else c)"

definition persist_sender :: "('a, 's) services \<Rightarrow> ('a, 's) connection \<Rightarrow> ('a, 's) connection" where
  "persist_sender sv c =
     (case sv_store sv of None \<Rightarrow> c
      | Some S \<Rightarrow> c\<lparr>cn_store := snd (so_set_sender S (s_next_out_seq (cn_session c)) (cn_store c))\<rparr>)"

definition persist_target :: "('a, 's) services \<Rightarrow> ('a, 's) connection \<Rightarrow> ('a, 's) connection" where
  "persist_target sv c =
     (case sv_store sv of None \<Rightarrow> c
      | Some S \<Rightarrow> c\<lparr>cn_store := snd (so_set_target S (s_next_in_seq (cn_session c)) (cn_store c))\<rparr>)"

text \<open>\<^verbatim>\<open>dispatch\<close>: the flag of the result says whether the connection goes on.\<close>

definition dispatch_event ::
  "('a, 's) services \<Rightarrow> datetime \<Rightarrow> event \<Rightarrow> ('a, 's) connection \<Rightarrow> (bool \<times> ('a, 's) connection) option" where
  "dispatch_event sv now e c =
     (case handle (sv_ext sv) now e (cn_session c) of
        None \<Rightarrow> None
      | Some (as, s) \<Rightarrow>
          (case perform_actions sv now as (note_logon sv (c\<lparr>cn_session := s\<rparr>)) of
             None \<Rightarrow> None
           | Some (None, c1) \<Rightarrow> Some (False, c1)
           | Some (Some disconnect, c1) \<Rightarrow>
               let c2 = persist_target sv (persist_sender sv c1)
               in Some (\<not> (disconnect \<or> s_state (cn_session c2) = Disconnected), c2)))"

section \<open>Inbound items\<close>

text \<open>The application refused an administrative message: a Logout, and the connection ends.\<close>

definition refuse_admin ::
  "('a, 's) services \<Rightarrow> datetime \<Rightarrow> reject \<Rightarrow> ('a, 's) connection \<Rightarrow> (bool \<times> ('a, 's) connection) option" where
  "refuse_admin sv now rj c =
     (case reject_logon now rj (cn_session c) of
        (as, s) \<Rightarrow> map_option (\<lambda>(_, c1). (False, c1)) (perform_actions sv now as (c\<lparr>cn_session := s\<rparr>)))"

text \<open>The application refused an application message: a business reject, and the message is processed all the same.\<close>

definition refuse_app ::
  "('a, 's) services \<Rightarrow> datetime \<Rightarrow> message \<Rightarrow> business_reject \<Rightarrow> ('a, 's) connection \<Rightarrow> ('a, 's) connection option" where
  "refuse_app sv now msg rj c =
     (case business_reject_app now msg rj (cn_session c) of
        (a, s) \<Rightarrow> map_option snd (perform_actions sv now [a] (c\<lparr>cn_session := s\<rparr>)))"

definition handle_message ::
  "('a, 's) services \<Rightarrow> datetime \<Rightarrow> message \<Rightarrow> ('a, 's) connection \<Rightarrow> (bool \<times> ('a, 's) connection) option" where
  "handle_message sv now msg0 c =
     (if would_reject_before_processing (sv_ext sv) now msg0 (cn_session c) then dispatch_event sv now (Received msg0) c
      else
        (let msg = restructure_fixt_application_body msg0 (cn_session c); i = s_id (cn_session c) in
         if is_admin msg then
           (case ao_from_admin (sv_app sv) msg i (cn_app c) of
              (Some rj, a) \<Rightarrow> refuse_admin sv now rj (c\<lparr>cn_app := a\<rparr>)
            | (None, a) \<Rightarrow> dispatch_event sv now (Received msg) (c\<lparr>cn_app := a\<rparr>))
         else
           (case ao_from_app (sv_app sv) msg i (cn_app c) of
              (Some rj, a) \<Rightarrow> Option.bind (refuse_app sv now msg rj (c\<lparr>cn_app := a\<rparr>)) (dispatch_event sv now (Received msg))
            | (None, a) \<Rightarrow> dispatch_event sv now (Received msg) (c\<lparr>cn_app := a\<rparr>))))"

definition handle_inbound ::
  "('a, 's) services \<Rightarrow> datetime \<Rightarrow> inbound \<Rightarrow> ('a, 's) connection \<Rightarrow> (bool \<times> ('a, 's) connection) option" where
  "handle_inbound sv now i c =
     (case i of IMessage msg \<Rightarrow> handle_message sv now msg c | IGarbled \<Rightarrow> dispatch_event sv now Garbled c)"

section \<open>The connection\<close>

text \<open>\<^verbatim>\<open>send_app\<close>: a message handed in by the application.\<close>

definition send_app_message ::
  "('a, 's) services \<Rightarrow> datetime \<Rightarrow> message \<Rightarrow> ('a, 's) connection \<Rightarrow> (bool \<times> ('a, 's) connection) option" where
  "send_app_message sv now msg c =
     (case send_app now msg (cn_session c) of
        (as, s) \<Rightarrow>
          (case perform_actions sv now as (c\<lparr>cn_session := s\<rparr>) of
             None \<Rightarrow> None
           | Some (None, c1) \<Rightarrow> Some (False, c1)
           | Some (Some _, c1) \<Rightarrow> Some (True, persist_sender sv c1)))"

definition control_reset :: "('a, 's) services \<Rightarrow> ('a, 's) connection \<Rightarrow> ('a, 's) connection" where
  "control_reset sv c =
     (let c1 = call_app (ao_before_reset (sv_app sv)) c in store_reset sv (c1\<lparr>cn_session := reset (cn_session c1)\<rparr>))"

text \<open>What the processing loop selects: an item from the reader, the ticker, or a control message.\<close>

datatype turn = FromReader inbound | Ticker | ControlLogout | ControlReset | ControlSend message

definition take_turn ::
  "('a, 's) services \<Rightarrow> datetime \<Rightarrow> turn \<Rightarrow> ('a, 's) connection \<Rightarrow> (bool \<times> ('a, 's) connection) option" where
  "take_turn sv now t c =
     (case t of
        FromReader i \<Rightarrow> handle_inbound sv now i c
      | Ticker \<Rightarrow> dispatch_event sv now Tick c
      | ControlLogout \<Rightarrow> dispatch_event sv now StartLogout c
      | ControlReset \<Rightarrow> Some (True, control_reset sv c)
      | ControlSend msg \<Rightarrow> send_app_message sv now msg c)"

text \<open>The loop ends when a turn says so, or when the reader has ended and both channels are drained: the end of the list.\<close>

fun run_turns ::
  "('a, 's) services \<Rightarrow> (datetime \<times> turn) list \<Rightarrow> ('a, 's) connection \<Rightarrow> ('a, 's) connection option" where
  "run_turns sv [] c = Some c"
| "run_turns sv ((now, t) # ts) c =
     (case take_turn sv now t c of
        None \<Rightarrow> None
      | Some (False, c1) \<Rightarrow> Some c1
      | Some (True, c1) \<Rightarrow> run_turns sv ts c1)"

text \<open>The session of a new connection, with its dictionaries.\<close>

definition connection_session :: "('a, 's) services \<Rightarrow> session_config \<Rightarrow> session" where
  "connection_session sv cfg =
     (case ws_fixt_dictionaries (sv_wire sv) of
        Some (ds, opts) \<Rightarrow> set_fixt_dictionaries ds opts (new_session cfg)
      | None \<Rightarrow>
          (case ws_validator (sv_wire sv) of
             Some (d, opts) \<Rightarrow> set_dictionary d opts (new_session cfg)
           | None \<Rightarrow> new_session cfg))"

text \<open>The counters, then the messages sent earlier, then the reset of a corrupted store.\<close>

definition decode_stored :: "(nat \<times> bytes) list \<Rightarrow> (nat \<times> message) list" where
  "decode_stored r = List.map_filter (\<lambda>(q, bs). case decode bs of Inr m \<Rightarrow> Some (q, m) | Inl _ \<Rightarrow> None) r"

definition seed_messages :: "'s store_ops \<Rightarrow> nat \<Rightarrow> ('a, 's) connection \<Rightarrow> ('a, 's) connection option" where
  "seed_messages S out c =
     (if out \<le> 1 then Some c
      else
        map_option (\<lambda>(r, st).
            case r of
              Inl _ \<Rightarrow> c\<lparr>cn_store := st\<rparr>
            | Inr stored \<Rightarrow> c\<lparr>cn_store := st, cn_session := seed_sent_messages (decode_stored stored) (cn_session c)\<rparr>)
          (so_get S 1 (out - 1) (cn_store c)))"

definition restore_session :: "('a, 's) services \<Rightarrow> ('a, 's) connection \<Rightarrow> ('a, 's) connection option" where
  "restore_session sv c =
     (case sv_store sv of
        None \<Rightarrow> Some c
      | Some S \<Rightarrow>
          (let out = (case so_next_sender S (cn_store c) of Inr n \<Rightarrow> n | Inl _ \<Rightarrow> 1);
               inn = (case so_next_target S (cn_store c) of Inr n \<Rightarrow> n | Inl _ \<Rightarrow> 1)
           in map_option
                (\<lambda>c1. if so_was_corrupted S (cn_store c1) \<and> cfg_force_resend_when_corrupted_store (s_config (cn_session c1))
                      then control_reset sv c1 else c1)
                (seed_messages S out (c\<lparr>cn_session := seed_sequences out inn (cn_session c)\<rparr>))))"

definition open_connection ::
  "('a, 's) services \<Rightarrow> session_config \<Rightarrow> bool list \<Rightarrow> 'a \<Rightarrow> 's \<Rightarrow> ('a, 's) connection option" where
  "open_connection sv cfg writes a st =
     restore_session sv (call_app (ao_create (sv_app sv))
       \<lparr>cn_session = connection_session sv cfg, cn_app = a, cn_store = st, cn_wire = [], cn_writes = writes, cn_logged_on = False\<rparr>)"

text \<open>The teardown after the loop.\<close>

definition close_connection :: "('a, 's) services \<Rightarrow> datetime \<Rightarrow> ('a, 's) connection \<Rightarrow> ('a, 's) connection option" where
  "close_connection sv now c =
     map_option
       (\<lambda>(_, c1).
          let c2 = (if cn_logged_on c1 then call_app (ao_cancel (sv_app sv)) c1 else c1)
          in if cn_logged_on c2 \<or> s_logon_sent (cn_session c2) \<or> s_logon_received (cn_session c2)
             then call_app (ao_logout (sv_app sv)) c2 else c2)
       (dispatch_event sv now
          (ConnectionLost (case s_last_disconnect_reason (cn_session c) of None \<Rightarrow> OtherReason | Some r \<Rightarrow> r)) c)"

text \<open>Everything up to the teardown, and the whole connection.\<close>

definition serve_connection ::
  "('a, 's) services \<Rightarrow> session_config \<Rightarrow> bool list \<Rightarrow> datetime \<Rightarrow> (datetime \<times> turn) list \<Rightarrow> 'a \<Rightarrow> 's
     \<Rightarrow> ('a, 's) connection option" where
  "serve_connection sv cfg writes start turns a st =
     (case open_connection sv cfg writes a st of
        None \<Rightarrow> None
      | Some c0 \<Rightarrow>
          (case dispatch_event sv start Connected c0 of
             None \<Rightarrow> None
           | Some (go_on, c1) \<Rightarrow> if go_on then run_turns sv turns c1 else Some c1))"

definition run_connection ::
  "('a, 's) services \<Rightarrow> session_config \<Rightarrow> bool list \<Rightarrow> datetime \<Rightarrow> (datetime \<times> turn) list \<Rightarrow> datetime \<Rightarrow> 'a \<Rightarrow> 's
     \<Rightarrow> ('a, 's) connection option" where
  "run_connection sv cfg writes start turns finish a st =
     Option.bind (serve_connection sv cfg writes start turns a st) (close_connection sv finish)"

end
