(* ===== verification/Fix_Connection_Inv.thy ===== *)
theory Fix_Connection_Inv
  imports Fix_Connection Fix_Session_Props Fix_File_Props
begin

text \<open>
  Facts about connections: what every turn keeps (the locale \<open>connection_invariant\<close>, interpreted for the sessions the engine
  can reach, for acyclic dictionaries and for the order of the callbacks), what opening seeds, which counters closing leaves
  in the store, and that a connection returns.
\<close>

section \<open>Invariants of a connection\<close>

text \<open>
  A predicate on the session, the state of the application and the logon flag that every call of the engine and every
  callback keeps is kept by a whole connection, whatever the store and the writes do.
\<close>

locale connection_invariant =
  fixes sv :: "('a, 's) services" and P :: "session \<Rightarrow> 'a \<Rightarrow> bool \<Rightarrow> bool"
  assumes called: "P s a l \<Longrightarrow> allowed k s \<Longrightarrow> call_session (sv_ext sv) now k s = Some (as, s') \<Longrightarrow> P s' a l"
    and to_admin_hook: "P s a l \<Longrightarrow> P s (snd (ao_to_admin (sv_app sv) m i a)) l"
    and to_app_hook: "P s a l \<Longrightarrow> P s (snd (ao_to_app (sv_app sv) m i a)) l"
    and from_admin_hook: "P s a l \<Longrightarrow> P s (snd (ao_from_admin (sv_app sv) m i a)) l"
    and from_app_hook: "P s a l \<Longrightarrow> P s (snd (ao_from_app (sv_app sv) m i a)) l"
    and reset_hook: "P s a l \<Longrightarrow> P s (ao_before_reset (sv_app sv) i a) l"
    and logon_hook: "P s a False \<Longrightarrow> is_logged_on s \<Longrightarrow> P s (ao_logon (sv_app sv) i a) True"
    and no_refresh: "P s a l \<Longrightarrow> \<not> cfg_refresh_on_logon (s_config s)"
begin

definition Q :: "('a, 's) connection \<Rightarrow> bool" where
  "Q c \<longleftrightarrow> P (cn_session c) (cn_app c) (cn_logged_on c)"

lemma Q_call:
  assumes "Q c" "allowed k (cn_session c)" "call_session (sv_ext sv) now k (cn_session c) = Some (as, s')"
  shows "Q (c\<lparr>cn_session := s'\<rparr>)"
  using called [OF _ assms(2,3)] assms(1) by (simp add: Q_def)

lemma Q_write: "Q c \<Longrightarrow> write_with_timeout bs c = (w, c') \<Longrightarrow> Q c'"
  by (auto simp: Q_def write_with_timeout_def split: list.splits if_splits)

lemma Q_persist_sent: "Q c \<Longrightarrow> persist_sent sv m bs c = Some c' \<Longrightarrow> Q c'"
  by (auto simp: Q_def persist_sent_def split: if_splits option.splits)

lemma Q_write_log_persist: "Q c \<Longrightarrow> write_log_persist sv m c = Some (w, c') \<Longrightarrow> Q c'"
  by (auto simp: write_log_persist_def Let_def split: prod.splits if_splits intro: Q_write Q_persist_sent)

lemma Q_to_admin: "Q c \<Longrightarrow> to_admin sv m c = (m', c') \<Longrightarrow> Q c'"
  using to_admin_hook [of "cn_session c" "cn_app c" "cn_logged_on c" m "s_id (cn_session c)"]
  by (auto simp: Q_def to_admin_def split: prod.splits)

lemma Q_to_app: "Q c \<Longrightarrow> to_app sv m c = (r, c') \<Longrightarrow> Q c'"
  using to_app_hook [of "cn_session c" "cn_app c" "cn_logged_on c" m "s_id (cn_session c)"]
  by (auto simp: Q_def to_app_def split: prod.splits)

lemma Q_discard: "Q c \<Longrightarrow> Q (c\<lparr>cn_session := discard_sent q (cn_session c)\<rparr>)"
  using Q_call [of c "DiscardSent q" undefined] by (simp add: call_session_def)

lemma Q_perform_send: "Q c \<Longrightarrow> perform_send sv m c = Some (w, c') \<Longrightarrow> Q c'"
  by (auto simp: perform_send_def Let_def split: prod.splits if_splits option.splits
      dest: Q_to_admin Q_to_app Q_write_log_persist intro: Q_discard)

lemma Q_perform_resend:
  assumes "Q c" "perform_resend sv now m q c = Some (w, c')"
  shows "Q c'"
proof -
  obtain m' send c1 where t: "to_app sv m c = ((m', send), c1)" by (metis prod.exhaust_sel)
  then have c1: "Q c1" using Q_to_app assms(1) by blast
  obtain x s where g: "gap_fill_after_veto now q (discard_sent q (cn_session c1)) = (x, s)" by fastforce
  have "Q (c1\<lparr>cn_session := s\<rparr>)"
    using Q_call [OF Q_discard [OF c1, of q], where now = now and k = "GapFillAfterVeto q" and as = "[x]" and s' = s] g
    by (simp add: call_session_def)
  then show ?thesis
    using assms(2) t g c1
    by (auto simp: perform_resend_def Let_def split: if_splits action.splits prod.splits
        dest: Q_write_log_persist Q_to_admin)
qed

lemma Q_store_reset: "Q c \<Longrightarrow> Q (store_reset sv c)"
  by (simp add: store_reset_def Q_def split: option.split)

lemma Q_perform_reset: "Q c \<Longrightarrow> Q (perform_reset sv c)"
  unfolding perform_reset_def by (rule Q_store_reset) (simp add: call_app_def Q_def reset_hook)

lemma Q_perform_actions: "Q c \<Longrightarrow> perform_actions sv now as c = Some (r, c') \<Longrightarrow> Q c'"
proof (induction as arbitrary: c r)
  case (Cons a as)
  then obtain w c1 where w: "perform_one sv now a c = Some (w, c1)" by (auto split: option.splits)
  then have "Q c1"
    using Cons.prems(1) by (auto simp: perform_one_def split: action.splits intro: Q_perform_send Q_perform_resend Q_perform_reset)
  then show ?case using Cons w by (auto split: bool.splits)
qed simp

lemma Q_note_logon: "Q c \<Longrightarrow> Q (note_logon sv c)"
  using no_refresh logon_hook by (auto simp: Q_def note_logon_def refresh_on_logon_def call_app_def Let_def split: option.splits)

lemma Q_persist: "Q c \<Longrightarrow> Q (persist_sender sv c)" "Q c \<Longrightarrow> Q (persist_target sv c)"
  by (simp_all add: Q_def persist_sender_def persist_target_def split: option.split)

lemma Q_dispatch:
  assumes "Q c" "dispatch_event sv now e c = Some (b, c')"
  shows "Q c'"
proof -
  obtain as s where h: "handle (sv_ext sv) now e (cn_session c) = Some (as, s)"
    using assms(2) by (auto simp: dispatch_event_def split: option.splits)
  have "Q (c\<lparr>cn_session := s\<rparr>)" using Q_call [OF assms(1), of "Handle e"] h by (simp add: call_session_def)
  then have n: "Q (note_logon sv (c\<lparr>cn_session := s\<rparr>))" by (rule Q_note_logon)
  obtain r c1 where r: "perform_actions sv now as (note_logon sv (c\<lparr>cn_session := s\<rparr>)) = Some (r, c1)"
    using assms(2) h by (auto simp: dispatch_event_def split: option.splits)
  then have "Q c1" by (rule Q_perform_actions [OF n])
  then show ?thesis using assms(2) h r by (cases r) (auto simp: dispatch_event_def Let_def intro: Q_persist)
qed

lemma Q_app: "Q c \<Longrightarrow> P (cn_session c) a (cn_logged_on c) \<Longrightarrow> Q (c\<lparr>cn_app := a\<rparr>)"
  by (simp add: Q_def)

lemma Q_refuse_admin:
  assumes "Q c" "refuse_admin sv now rj c = Some (b, c')"
  shows "Q c'"
proof -
  obtain as s where r: "reject_logon now rj (cn_session c) = (as, s)" by fastforce
  have "Q (c\<lparr>cn_session := s\<rparr>)" using Q_call [OF assms(1), of "RejectLogon rj"] r by (simp add: call_session_def)
  then show ?thesis using assms(2) r by (auto simp: refuse_admin_def dest: Q_perform_actions)
qed

lemma Q_refuse_app:
  assumes "Q c" "refuse_app sv now m rj c = Some c'"
  shows "Q c'"
proof -
  obtain x s where r: "business_reject_app now m rj (cn_session c) = (x, s)" by fastforce
  have "Q (c\<lparr>cn_session := s\<rparr>)" using Q_call [OF assms(1), of "BusinessReject m rj" now "[x]" s] r by (simp add: call_session_def)
  then show ?thesis using assms(2) r by (auto simp del: perform_actions.simps simp: refuse_app_def dest: Q_perform_actions)
qed

lemma Q_handle_inbound:
  assumes "Q c" "handle_inbound sv now i c = Some (b, c')"
  shows "Q c'"
proof (cases i)
  case (IMessage m0)
  let ?m = "restructure_fixt_application_body m0 (cn_session c)"
  have a: "Q (c\<lparr>cn_app := snd (ao_from_admin (sv_app sv) ?m j (cn_app c))\<rparr>)" for j
    using assms(1) from_admin_hook by (simp add: Q_def)
  have p: "Q (c\<lparr>cn_app := snd (ao_from_app (sv_app sv) ?m j (cn_app c))\<rparr>)" for j
    using assms(1) from_app_hook by (simp add: Q_def)
  show ?thesis
    using assms a [of "s_id (cn_session c)"] p [of "s_id (cn_session c)"] IMessage
    by (auto simp: handle_inbound_def handle_message_def Let_def bind_eq_Some_conv split: if_splits prod.splits option.splits
        dest: Q_dispatch Q_refuse_admin Q_refuse_app)
qed (use assms Q_dispatch in \<open>auto simp: handle_inbound_def\<close>)

lemma Q_control_reset: "Q c \<Longrightarrow> Q (control_reset sv c)"
proof -
  assume "Q c"
  then have q: "Q (call_app (ao_before_reset (sv_app sv)) c)" by (simp add: call_app_def Q_def reset_hook)
  show ?thesis
    unfolding control_reset_def Let_def
    by (rule Q_store_reset) (use Q_call [OF q, of OpReset] in \<open>simp add: call_session_def\<close>)
qed

lemma Q_take_turn:
  assumes "Q c" "take_turn sv now t c = Some (b, c')"
  shows "Q c'"
proof (cases t)
  case (ControlSend m)
  obtain as s where r: "send_app now m (cn_session c) = (as, s)" by fastforce
  have "Q (c\<lparr>cn_session := s\<rparr>)" using Q_call [OF assms(1), of "SendApp m"] r by (simp add: call_session_def)
  then have "Q c1" if "perform_actions sv now as (c\<lparr>cn_session := s\<rparr>) = Some (x, c1)" for x c1
    using that by (rule Q_perform_actions)
  then show ?thesis
    using assms(2) r ControlSend by (auto simp: take_turn_def send_app_message_def split: option.splits intro!: Q_persist)
next
  case (FromReader i)
  then show ?thesis using assms Q_handle_inbound by (simp add: take_turn_def)
qed (use assms Q_dispatch [of c] Q_control_reset [of c] in \<open>simp_all add: take_turn_def\<close>)

lemma Q_run_turns: "Q c \<Longrightarrow> run_turns sv ts c = Some c' \<Longrightarrow> Q c'"
proof (induction ts arbitrary: c)
  case (Cons t ts)
  obtain now u where t: "t = (now, u)" by fastforce
  then obtain b c1 where "take_turn sv now u c = Some (b, c1)" using Cons.prems(2) by (auto split: option.splits)
  then show ?case using Cons.prems Cons.IH [of c1] t Q_take_turn [of c now u b c1] by (cases b) auto
qed simp

lemma Q_serve:
  assumes "\<And>c. open_connection sv cfg writes a st = Some c \<Longrightarrow> Q c" "serve_connection sv cfg writes start turns a st = Some c"
  shows "Q c"
proof -
  obtain c0 b c1 where "open_connection sv cfg writes a st = Some c0" "dispatch_event sv start Connected c0 = Some (b, c1)"
    "(if b then run_turns sv turns c1 else Some c1) = Some c"
    using assms(2) by (auto simp: serve_connection_def split: option.splits)
  then show ?thesis using assms(1) Q_dispatch [of c0 start Connected b c1] Q_run_turns [of c1 turns c] by (auto split: if_splits)
qed

end
section \<open>Opening a connection\<close>

definition stored_sender :: "'s store_ops \<Rightarrow> 's \<Rightarrow> nat" where
  "stored_sender S st = (case so_next_sender S st of Inr n \<Rightarrow> n | Inl _ \<Rightarrow> 1)"

definition stored_target :: "'s store_ops \<Rightarrow> 's \<Rightarrow> nat" where
  "stored_target S st = (case so_next_target S st of Inr n \<Rightarrow> n | Inl _ \<Rightarrow> 1)"

text \<open>The messages a session is seeded with, and the session itself.\<close>

definition seeds :: "'s store_ops \<Rightarrow> 's \<Rightarrow> (nat \<times> message) list" where
  "seeds S st =
     (if stored_sender S st \<le> 1 then []
      else (case so_get S 1 (stored_sender S st - 1) st of Some (Inr r, _) \<Rightarrow> decode_stored r | _ \<Rightarrow> []))"

definition seeded :: "('a, 's) services \<Rightarrow> session_config \<Rightarrow> 's \<Rightarrow> session" where
  "seeded sv cfg st =
     (case sv_store sv of
        None \<Rightarrow> connection_session sv cfg
      | Some S \<Rightarrow> seed_sent_messages (seeds S st) (seed_sequences (stored_sender S st) (stored_target S st) (connection_session sv cfg)))"

lemma connection_session_fields [simp]:
  "s_config (connection_session sv cfg) = cfg" "s_id (connection_session sv cfg) = config_session_id cfg"
  "s_logon_sent (connection_session sv cfg) = False" "s_store (connection_session sv cfg) = []"
  by (auto simp: connection_session_def set_dictionary_def set_fixt_dictionaries_def new_session_def split: option.splits)

lemma seeded_fields [simp]:
  "s_config (seeded sv cfg st) = cfg" "s_id (seeded sv cfg st) = config_session_id cfg"
  by (auto simp: seeded_def seed_sent_messages_def seed_sequences_def split: option.splits)

lemma seed_sent_nil [simp]: "seed_sent_messages [] s = s"
  by (simp add: seed_sent_messages_def)

lemma open_cases:
  assumes "open_connection sv cfg writes a st = Some c"
  obtains (plain) st' where "c = \<lparr>cn_session = seeded sv cfg st, cn_app = ao_create (sv_app sv) (config_session_id cfg) a, cn_store = st',
      cn_wire = [], cn_writes = writes, cn_logged_on = False\<rparr>"
      "\<And>S. sv_store sv = Some S \<Longrightarrow> \<not> (so_was_corrupted S st' \<and> cfg_force_resend_when_corrupted_store cfg)"
    | (forced) st' S where "c = control_reset sv \<lparr>cn_session = seeded sv cfg st, cn_app = ao_create (sv_app sv) (config_session_id cfg) a,
      cn_store = st', cn_wire = [], cn_writes = writes, cn_logged_on = False\<rparr>"
      "sv_store sv = Some S" "so_was_corrupted S st'" "cfg_force_resend_when_corrupted_store cfg"
      "st' = st \<or> (\<exists>r. so_get S 1 (stored_sender S st - 1) st = Some (r, st'))"
proof (cases "sv_store sv")
  case None
  then show ?thesis using assms plain [of st] by (simp add: open_connection_def restore_session_def call_app_def seeded_def)
next
  case (Some S)
  let ?c = "\<lambda>st'. \<lparr>cn_session = seeded sv cfg st, cn_app = ao_create (sv_app sv) (config_session_id cfg) a, cn_store = st',
      cn_wire = [], cn_writes = writes, cn_logged_on = False\<rparr>"
  let ?b = "\<lparr>cn_session = seed_sequences (stored_sender S st) (stored_target S st) (connection_session sv cfg),
      cn_app = ao_create (sv_app sv) (config_session_id cfg) a, cn_store = st, cn_wire = [], cn_writes = writes, cn_logged_on = False\<rparr>"
  obtain c1 where c1: "seed_messages S (stored_sender S st) ?b = Some c1"
      "c = (if so_was_corrupted S (cn_store c1) \<and> cfg_force_resend_when_corrupted_store (s_config (cn_session c1)) then control_reset sv c1 else c1)"
    using assms Some
    by (auto simp: open_connection_def restore_session_def call_app_def Let_def stored_sender_def [symmetric] stored_target_def [symmetric])
  have c: "c1 = ?c (cn_store c1) \<and> (cn_store c1 = st \<or> (\<exists>r. so_get S 1 (stored_sender S st - 1) st = Some (r, cn_store c1)))"
  proof (cases "stored_sender S st \<le> 1")
    case False
    then obtain r st'' where "so_get S 1 (stored_sender S st - 1) st = Some (r, st'')"
      using c1(1) by (auto simp: seed_messages_def)
    then show ?thesis using c1(1) Some False by (cases r) (auto simp: seed_messages_def seeded_def seeds_def)
  qed (use c1(1) Some in \<open>auto simp: seed_messages_def seeded_def seeds_def\<close>)
  obtain st' where st': "st' = cn_store c1" by simp
  then have s: "c = (if so_was_corrupted S st' \<and> cfg_force_resend_when_corrupted_store cfg then control_reset sv (?c st') else ?c st')"
    using c1(2) c by (metis (no_types, lifting) seeded_fields(1) connection.select_convs(1))
  show ?thesis
  proof (cases "so_was_corrupted S st' \<and> cfg_force_resend_when_corrupted_store cfg")
    case True
    then show ?thesis using s Some c st' forced [of st' S] by simp
  next
    case False
    then show ?thesis using s Some plain [of st'] by auto
  qed
qed

context connection_invariant
begin

lemma Q_open:
  assumes "P (seeded sv cfg st) (ao_create (sv_app sv) (config_session_id cfg) a) False" "open_connection sv cfg writes a st = Some c"
  shows "Q c"
  using assms(2)
proof (cases rule: open_cases)
  case (plain st')
  then show ?thesis using assms(1) by (simp add: Q_def)
next
  case (forced st' S)
  show ?thesis unfolding forced(1) by (rule Q_control_reset) (simp add: Q_def assms(1))
qed

lemma P_serve:
  assumes "P (seeded sv cfg st) (ao_create (sv_app sv) (config_session_id cfg) a) False"
    "serve_connection sv cfg writes start turns a st = Some c"
  shows "P (cn_session c) (cn_app c) (cn_logged_on c)"
  using Q_serve [OF _ assms(2)] Q_open [OF assms(1)] by (auto simp: Q_def)

end

section \<open>The sessions of a connection\<close>

definition engine_session :: "ext \<Rightarrow> session \<Rightarrow> bool" where
  "engine_session E s \<longleftrightarrow> (\<exists>s0 as. started s0 \<and> steps E s0 as s \<and> \<not> cfg_refresh_on_logon (s_config s0))"

lemma engine_session_refresh: "engine_session E s \<Longrightarrow> \<not> cfg_refresh_on_logon (s_config s)"
  using steps_setup session_setup_config(1) unfolding engine_session_def by metis

lemma engine_session_call:
  assumes "engine_session E s" "allowed k s" "call_session E now k s = Some (as, s')"
  shows "engine_session E s'"
proof -
  have "step E s as s'" using assms(2,3) by (rule step.intros)
  then show ?thesis using assms(1) steps_snoc unfolding engine_session_def by meson
qed

interpretation sessions: connection_invariant sv "\<lambda>s a l. engine_session (sv_ext sv) s" for sv
  by unfold_locales (auto intro: engine_session_call dest: engine_session_refresh)

text \<open>A store whose counters fit and whose messages are filed under the numbers they carry, all below the counter.\<close>

definition store_ok :: "'s store_ops \<Rightarrow> 's \<Rightarrow> bool" where
  "store_ok S st \<longleftrightarrow> stored_sender S st < u64_size \<and> stored_target S st < u64_size
     \<and> (\<forall>(q, m)\<in>set (seeds S st). seq_num m = Some q \<and> q < stored_sender S st)"

lemma started_seeded:
  assumes "case sv_store sv of None \<Rightarrow> True | Some S \<Rightarrow> store_ok S st"
  shows "started (seeded sv cfg st)"
proof -
  have s: "started (connection_session sv cfg)"
    by (auto simp: connection_session_def intro: started.intros split: option.splits)
  show ?thesis
  proof (cases "sv_store sv")
    case (Some S)
    let ?s = "seed_sequences (stored_sender S st) (stored_target S st) (connection_session sv cfg)"
    have k: "store_ok S st" using assms Some by simp
    have "started ?s" using k by (intro started_seed [OF s]) (simp_all add: store_ok_def)
    moreover have "s_next_out_seq ?s = max (stored_sender S st) 1" by (simp add: seed_sequences_def)
    ultimately show ?thesis using started_sent [of ?s "seeds S st"] k Some by (fastforce simp: seeded_def store_ok_def)
  qed (simp add: seeded_def s)
qed

lemma served_sessions:
  assumes "case sv_store sv of None \<Rightarrow> True | Some S \<Rightarrow> store_ok S st" "\<not> cfg_refresh_on_logon cfg"
    "serve_connection sv cfg writes start turns a st = Some c"
  shows "engine_session (sv_ext sv) (cn_session c)"
proof -
  have "engine_session (sv_ext sv) (seeded sv cfg st)"
    unfolding engine_session_def using started_seeded [OF assms(1)] assms(2) steps_nil by fastforce
  then show ?thesis using assms(3) by (rule sessions.P_serve)
qed

section \<open>Counters that outlive a connection\<close>

text \<open>What a connection needs of its store: the counters read back as set, and saving or reading a valid range returns.\<close>

locale counter_store =
  fixes S :: "'s store_ops"
  assumes sender_set: "so_next_sender S (snd (so_set_sender S n st)) = Inr n"
    and target_set: "so_next_target S (snd (so_set_target S n st)) = Inr n"
    and sender_set_target: "so_next_sender S (snd (so_set_target S n st)) = so_next_sender S st"
    and get_returns: "b \<le> e \<Longrightarrow> so_get S b e st \<noteq> None"
    and save_returns: "q + 1 < u64_size \<Longrightarrow> so_save_and_advance S q m st \<noteq> None"
begin

lemma persisted:
  assumes "sv_store sv = Some S"
  shows "so_next_sender S (cn_store (persist_target sv (persist_sender sv c))) = Inr (s_next_out_seq (cn_session c))
    \<and> so_next_target S (cn_store (persist_target sv (persist_sender sv c))) = Inr (s_next_in_seq (cn_session c))"
  by (simp add: persist_target_def persist_sender_def assms sender_set target_set sender_set_target)

end

interpretation mem_counters: counter_store mem_ops
  by unfold_locales (auto simp: mem_ops_def mem_defs mem_save_and_advance_def bt_range_def)

interpretation file_counters: counter_store "file_ops t" for t
  by unfold_locales
     (auto simp: file_ops_def file_set_sender_def file_set_target_def run_on_def file_get_def body_range_def bt_range_def file_save_and_advance_def
      split: list.split)

text \<open>The last event of a connection sends nothing, so its counters always reach the store.\<close>

lemma connection_lost_actions:
  "handle E now (ConnectionLost r) s = Some (as, s') \<Longrightarrow> as = [] \<or> as = [ResetStore]"
  by (auto simp: handle_def enter_disconnected_def Let_def split: if_splits)

lemma close_persists:
  assumes "close_connection sv now c = Some c'"
  obtains c1 where "cn_store c' = cn_store (persist_target sv (persist_sender sv c1))" "cn_session c' = cn_session c1"
    "\<exists>b r. dispatch_event sv now (ConnectionLost r) c = Some (b, persist_target sv (persist_sender sv c1))"
proof -
  let ?r = "case s_last_disconnect_reason (cn_session c) of None \<Rightarrow> OtherReason | Some r \<Rightarrow> r"
  obtain b c2 where d: "dispatch_event sv now (ConnectionLost ?r) c = Some (b, c2)"
    and c': "cn_store c' = cn_store c2" "cn_session c' = cn_session c2"
    using assms by (auto simp: close_connection_def call_app_def Let_def split: if_splits)
  obtain as s where h: "handle (sv_ext sv) now (ConnectionLost ?r) (cn_session c) = Some (as, s)"
    using d by (auto simp: dispatch_event_def split: option.splits)
  let ?n = "note_logon sv (c\<lparr>cn_session := s\<rparr>)"
  have "\<exists>c1. perform_actions sv now as ?n = Some (Some False, c1)"
    using connection_lost_actions [OF h] by (auto simp: perform_one_def)
  then obtain c1 where "perform_actions sv now as ?n = Some (Some False, c1)" ..
  then have "c2 = persist_target sv (persist_sender sv c1)" using d h by (simp add: dispatch_event_def Let_def)
  moreover have "cn_session (persist_target sv (persist_sender sv c1)) = cn_session c1"
    by (simp add: persist_target_def persist_sender_def split: option.split)
  ultimately show ?thesis using that c' d by metis
qed

lemma run_connection_parts:
  "run_connection sv cfg writes start turns finish a st = Some c \<longleftrightarrow>
   (\<exists>c0. serve_connection sv cfg writes start turns a st = Some c0 \<and> close_connection sv finish c0 = Some c)"
  by (simp add: run_connection_def bind_eq_Some_conv)

lemma file_written_reopens:
  assumes "fs_disk st = fs_disk (file_set_target i (file_set_sender o1 st0))" "o1 < u64_size" "i < u64_size"
    "file_open valid now max_records (fs_disk st) = (Inr st', ops)"
  shows "fs_sender st' = o1 \<and> fs_target st' = i"
proof -
  have s: "dk_seq (fs_disk st) SenderFile = Some (show_nat o1 @ [CHR 0x0A])" "dk_seq (fs_disk st) TargetFile = Some (show_nat i @ [CHR 0x0A])"
    using assms(1) by (simp_all add: file_set_sender_def file_set_target_def run_on_def)
  then have "seq_open (fs_disk st) = (Inr (o1, i), [])"
    using assms(2,3) load_written by (intro seq_open_settled) (auto simp: settled_def)
  then show ?thesis using assms(4) by (auto simp: file_open_def split: prod.splits sum.splits)
qed

lemma finished_session:
  assumes "case sv_store sv of None \<Rightarrow> True | Some S \<Rightarrow> store_ok S st" "\<not> cfg_refresh_on_logon cfg"
    "run_connection sv cfg writes start turns finish a st = Some c"
  shows "engine_session (sv_ext sv) (cn_session c)"
proof -
  obtain c0 where c0: "serve_connection sv cfg writes start turns a st = Some c0" "close_connection sv finish c0 = Some c"
    using assms(3) by (auto simp: run_connection_parts)
  obtain c1 b r where "cn_session c = cn_session c1"
      "dispatch_event sv finish (ConnectionLost r) c0 = Some (b, persist_target sv (persist_sender sv c1))"
    using close_persists [OF c0(2)] by metis
  moreover have "sessions.Q sv c0" unfolding sessions.Q_def by (rule served_sessions [OF assms(1,2) c0(1)])
  ultimately have "sessions.Q sv (persist_target sv (persist_sender sv c1))" using sessions.Q_dispatch by blast
  then show ?thesis
    using \<open>cn_session c = cn_session c1\<close> unfolding sessions.Q_def
    by (simp add: persist_target_def persist_sender_def split: option.splits)
qed

lemma engine_session_wf: "engine_session E s \<Longrightarrow> session_wf s"
  unfolding engine_session_def using steps_wf started_wf by blast

lemma restart_counters:
  assumes "sv_store sv = Some (file_ops t)" "store_ok (file_ops t) st" "\<not> cfg_refresh_on_logon cfg"
    and "run_connection sv cfg writes start turns finish a st = Some c"
    and "file_open valid now max_records (fs_disk (cn_store c)) = (Inr st', ops)"
    and "open_connection sv cfg' writes' a' st' = Some c'"
    and "\<not> (fs_corrupted st' \<and> cfg_force_resend_when_corrupted_store cfg')"
  shows "s_next_out_seq (cn_session c') = s_next_out_seq (cn_session c) \<and> s_next_in_seq (cn_session c') = s_next_in_seq (cn_session c)"
proof -
  let ?s = "cn_session c"
  have "session_wf ?s" using finished_session [OF _ assms(3,4)] assms(1,2) engine_session_wf by simp
  then have w: "s_next_out_seq ?s < u64_size" "s_next_in_seq ?s < u64_size" "0 < s_next_out_seq ?s" "0 < s_next_in_seq ?s"
    by (auto simp: session_wf_def)
  obtain c0 where "close_connection sv finish c0 = Some c" using assms(4) by (auto simp: run_connection_parts)
  then obtain c1 where "cn_store c = cn_store (persist_target sv (persist_sender sv c1))" "?s = cn_session c1"
    using close_persists by metis
  then have "fs_sender st' = s_next_out_seq ?s \<and> fs_target st' = s_next_in_seq ?s"
    using file_written_reopens [OF _ w(1,2) assms(5), of "cn_store c1"] assms(1)
    by (simp add: persist_target_def persist_sender_def file_ops_def)
  moreover have "cn_session c' = seeded sv cfg' st'"
    using assms(6)
  proof (cases rule: open_cases)
    case (forced st'' S)
    then show ?thesis using assms(1,7) by (auto simp: file_ops_def)
  qed simp
  ultimately show ?thesis
    using w assms(1) by (simp add: seeded_def seed_sent_messages_def seed_sequences_def stored_sender_def stored_target_def file_ops_def)
qed

section \<open>Connections return\<close>

definition store_returns :: "('a, 's) services \<Rightarrow> bool" where
  "store_returns sv \<longleftrightarrow> (case sv_store sv of None \<Rightarrow> True | Some S \<Rightarrow> counter_store S)"

lemma seq_num_bound: "seq_num m = Some q \<Longrightarrow> q + 1 < u64_size"
proof -
  assume "seq_num m = Some q"
  then obtain f i where "fm_get (m_header m) MSG_SEQ_NUM = Some f" "as_int f = Inr i" "q = nat i"
    by (auto simp: seq_num_def get_int_def ok_def bind_eq_Some_conv split: option.splits if_splits sum.splits)
  moreover from this(2) have "i < 2 ^ 63" using parse_i64_range [of _ i] by (auto simp: as_int_def split: sum.splits option.splits)
  ultimately show "q + 1 < u64_size" by simp
qed

lemma write_log_persist_returns: "store_returns sv \<Longrightarrow> write_log_persist sv m c \<noteq> None"
  using counter_store.save_returns seq_num_bound
  by (fastforce simp: write_log_persist_def persist_sent_def store_returns_def Let_def split: prod.splits option.splits if_splits)

lemma perform_actions_returns: "store_returns sv \<Longrightarrow> perform_actions sv now as c \<noteq> None"
proof (induction as arbitrary: c)
  case (Cons a as)
  note w = write_log_persist_returns [OF Cons.prems]
  have "perform_send sv m c \<noteq> None" for m using w by (auto simp: perform_send_def Let_def simp del: not_None_eq split: prod.splits)
  moreover have "perform_resend sv now m q c \<noteq> None" for m q
    using w by (auto simp: perform_resend_def Let_def simp del: not_None_eq split: prod.splits action.splits)
  ultimately have "perform_one sv now a c \<noteq> None" by (cases a) (auto simp: perform_one_def simp del: not_None_eq)
  then obtain b c1 where "perform_one sv now a c = Some (b, c1)" by fast
  then show ?case using Cons.IH [OF Cons.prems, of c1] by (cases b) (auto simp del: not_None_eq)
qed simp

lemma handle_returns: "dictionaries_acyclic s \<Longrightarrow> handle E now e s \<noteq> None"
  using on_received_returns [of s E now] by (cases e) (auto simp: handle_def)

lemma dispatch_returns: "store_returns sv \<Longrightarrow> dictionaries_acyclic (cn_session c) \<Longrightarrow> dispatch_event sv now e c \<noteq> None"
proof -
  assume a: "store_returns sv" "dictionaries_acyclic (cn_session c)"
  obtain as s where h: "handle (sv_ext sv) now e (cn_session c) = Some (as, s)" using handle_returns [OF a(2)] by fast
  obtain r c1 where "perform_actions sv now as (note_logon sv (c\<lparr>cn_session := s\<rparr>)) = Some (r, c1)"
    using perform_actions_returns [OF a(1)] by fast
  then show "dispatch_event sv now e c \<noteq> None" using h by (cases r) (simp_all add: dispatch_event_def Let_def)
qed

lemma acyclic_call:
  assumes "dictionaries_acyclic s \<and> \<not> cfg_refresh_on_logon (s_config s)" "allowed k s" "call_session E now k s = Some (as, s')"
  shows "dictionaries_acyclic s' \<and> \<not> cfg_refresh_on_logon (s_config s')"
proof -
  have "session_setup s' = session_setup s" using kept.effect_call assms by blast
  then show ?thesis using assms(1) dictionaries_acyclic_setup session_setup_config(1) by metis
qed

interpretation acyclic: connection_invariant sv "\<lambda>s a l. dictionaries_acyclic s \<and> \<not> cfg_refresh_on_logon (s_config s)" for sv
  by unfold_locales (rule acyclic_call, assumption+, simp_all)

lemma take_turn_returns:
  assumes "store_returns sv" "acyclic.Q c"
  shows "take_turn sv now t c \<noteq> None"
proof -
  note p = perform_actions_returns [OF assms(1), of now]
  have d: "acyclic.Q c' \<Longrightarrow> dispatch_event sv now e c' \<noteq> None" for c' e
    unfolding acyclic.Q_def using dispatch_returns [OF assms(1)] by blast
  have a: "acyclic.Q (c\<lparr>cn_app := x\<rparr>)" for x using assms(2) by (simp add: acyclic.Q_def)
  have r: "refuse_admin sv now rj c' \<noteq> None" "refuse_app sv now m br c' \<noteq> None" for rj br m c'
    using p by (auto simp del: perform_actions.simps not_None_eq simp: refuse_admin_def refuse_app_def split: prod.split)
  have "handle_message sv now m c \<noteq> None" for m
    using d [OF assms(2)] d [OF a] d [OF acyclic.Q_refuse_app [OF a]] r
    by (auto simp: handle_message_def Let_def simp del: not_None_eq split: prod.splits option.splits bind_splits)
  moreover have "send_app_message sv now m c \<noteq> None" for m
    using p by (auto simp: send_app_message_def simp del: not_None_eq split: prod.splits option.splits)
  ultimately show ?thesis using d [OF assms(2)] by (cases t) (auto simp: take_turn_def handle_inbound_def split: inbound.split)
qed

lemma run_turns_returns: "store_returns sv \<Longrightarrow> acyclic.Q c \<Longrightarrow> run_turns sv ts c \<noteq> None"
proof (induction ts arbitrary: c)
  case (Cons t ts)
  obtain now u where t: "t = (now, u)" by fastforce
  obtain b c1 where b: "take_turn sv now u c = Some (b, c1)" using take_turn_returns [OF Cons.prems] by fast
  show ?case using Cons.IH [OF Cons.prems(1) acyclic.Q_take_turn [OF Cons.prems(2) b]] b t by (cases b) simp_all
qed simp

lemma open_returns: "store_returns sv \<Longrightarrow> open_connection sv cfg writes a st \<noteq> None"
proof (cases "sv_store sv")
  case (Some S)
  assume "store_returns sv"
  then have "seed_messages S n c \<noteq> None" for n c
    using counter_store.get_returns [of S 1 "n - 1" "cn_store c"] Some
    by (simp add: store_returns_def seed_messages_def del: not_None_eq)
  then show ?thesis
    using Some by (simp add: open_connection_def restore_session_def Let_def del: not_None_eq)
qed (simp add: open_connection_def restore_session_def)

lemma close_returns: "store_returns sv \<Longrightarrow> acyclic.Q c \<Longrightarrow> close_connection sv now c \<noteq> None"
  unfolding acyclic.Q_def using dispatch_returns [of sv c now] by (auto simp: close_connection_def simp del: not_None_eq)

lemma seeded_acyclic: "dictionaries_acyclic (connection_session sv cfg) \<Longrightarrow> dictionaries_acyclic (seeded sv cfg st)"
  by (auto simp: seeded_def seed_sent_messages_def seed_sequences_def dictionaries_acyclic_def split: option.splits)

lemma run_connection_returns:
  assumes "store_returns sv" "dictionaries_acyclic (connection_session sv cfg)" "\<not> cfg_refresh_on_logon cfg"
  shows "run_connection sv cfg writes start turns finish a st \<noteq> None"
proof -
  have s: "dictionaries_acyclic (seeded sv cfg st) \<and> \<not> cfg_refresh_on_logon (s_config (seeded sv cfg st))"
    using seeded_acyclic [OF assms(2)] assms(3) by simp
  obtain c0 where o: "open_connection sv cfg writes a st = Some c0" using open_returns [OF assms(1)] by fast
  then have q0: "acyclic.Q c0" using acyclic.Q_open [OF s] by blast
  then obtain b c1 where d: "dispatch_event sv start Connected c0 = Some (b, c1)"
    using dispatch_returns [OF assms(1), of c0 start Connected] unfolding acyclic.Q_def by fast
  then have "acyclic.Q c1" using acyclic.Q_dispatch [OF q0] by blast
  then have "serve_connection sv cfg writes start turns a st \<noteq> None"
    using run_turns_returns [OF assms(1)] o d by (simp add: serve_connection_def del: not_None_eq)
  then obtain c2 where c2: "serve_connection sv cfg writes start turns a st = Some c2" by fast
  then have "acyclic.Q c2" using acyclic.Q_serve [OF _ c2] acyclic.Q_open [OF s] by blast
  then show ?thesis using c2 close_returns [OF assms(1)] by (simp add: run_connection_def del: not_None_eq)
qed

section \<open>The order of the callbacks\<close>

text \<open>An application that also notes the callbacks of its life cycle; \<^verbatim>\<open>on_before_reset\<close> may come at any time and is not noted.\<close>

datatype callback = OnCreate | OnLogon | OnCancel | OnLogout

definition noting :: "'a app_ops \<Rightarrow> ('a \<times> callback list) app_ops" where
  "noting A =
     \<lparr>ao_create = (\<lambda>i (a, t). (ao_create A i a, t @ [OnCreate])), ao_logon = (\<lambda>i (a, t). (ao_logon A i a, t @ [OnLogon])),
      ao_logout = (\<lambda>i (a, t). (ao_logout A i a, t @ [OnLogout])), ao_cancel = (\<lambda>i (a, t). (ao_cancel A i a, t @ [OnCancel])),
      ao_before_reset = (\<lambda>i (a, t). (ao_before_reset A i a, t)),
      ao_to_admin = (\<lambda>m i (a, t). case ao_to_admin A m i a of (m', a') \<Rightarrow> (m', a', t)),
      ao_from_admin = (\<lambda>m i (a, t). case ao_from_admin A m i a of (r, a') \<Rightarrow> (r, a', t)),
      ao_to_app = (\<lambda>m i (a, t). case ao_to_app A m i a of (r, a') \<Rightarrow> (r, a', t)),
      ao_from_app = (\<lambda>m i (a, t). case ao_from_app A m i a of (r, a') \<Rightarrow> (r, a', t))\<rparr>"

definition noted :: "bool \<Rightarrow> callback list" where
  "noted l = (if l then [OnCreate, OnLogon] else [OnCreate])"

interpretation callbacks: connection_invariant "sv\<lparr>sv_app := noting A\<rparr>"
  "\<lambda>s a l. snd a = noted l \<and> engine_session (sv_ext sv) s" for sv A
  by unfold_locales (auto simp: noting_def noted_def intro: engine_session_call dest: engine_session_refresh split: prod.splits)

lemma served_callbacks:
  assumes "case sv_store sv of None \<Rightarrow> True | Some S \<Rightarrow> store_ok S st" "\<not> cfg_refresh_on_logon cfg"
    "run_connection (sv\<lparr>sv_app := noting A\<rparr>) cfg writes start turns finish (a, []) st = Some c"
  shows "snd (cn_app c) \<in> {[OnCreate], [OnCreate, OnLogout], [OnCreate, OnLogon, OnCancel, OnLogout]}"
proof -
  let ?sv = "sv\<lparr>sv_app := noting A\<rparr>"
  obtain c0 where c0: "serve_connection ?sv cfg writes start turns (a, []) st = Some c0" "close_connection ?sv finish c0 = Some c"
    using assms(3) by (auto simp: run_connection_parts)
  have "engine_session (sv_ext sv) (seeded ?sv cfg st)"
    unfolding engine_session_def using started_seeded [where sv = ?sv and st = st and cfg = cfg] assms(1,2) steps_nil by fastforce
  then have "callbacks.Q sv c0"
    using callbacks.P_serve [OF _ c0(1)] by (simp add: callbacks.Q_def) (simp add: noting_def noted_def)
  moreover obtain b c1 where d: "dispatch_event ?sv finish
      (ConnectionLost (case s_last_disconnect_reason (cn_session c0) of None \<Rightarrow> OtherReason | Some r \<Rightarrow> r)) c0 = Some (b, c1)"
    using c0(2) by (auto simp: close_connection_def)
  ultimately have "callbacks.Q sv c1" using callbacks.Q_dispatch by blast
  then have "snd (cn_app c1) = noted (cn_logged_on c1)" by (simp add: callbacks.Q_def)
  then show ?thesis
    using c0(2) d by (auto simp: close_connection_def noted_def call_app_def noting_def Let_def split: prod.splits if_splits)
qed

section \<open>A refused logon\<close>

lemma write_log_persist_kept:
  "write_log_persist sv m c = Some (b, c') \<Longrightarrow> cn_session c' = cn_session c \<and> cn_logged_on c' = cn_logged_on c
   \<and> (\<exists>ws. length ws \<le> 1 \<and> cn_wire c' = cn_wire c @ ws)"
  by (auto simp: write_log_persist_def write_with_timeout_def persist_sent_def Let_def split: list.splits if_splits option.splits)

lemma gap_fill_after_veto_kept:
  "gap_fill_after_veto now q s = (a, s') \<Longrightarrow> s_state s' = s_state s \<and> s_next_in_seq s' = s_next_in_seq s"
  by (auto simp: gap_fill_after_veto_def gap_fill_def send_raw_def Let_def)

lemma perform_one_kept:
  assumes "perform_one sv now a c = Some (b, c')"
  shows "s_state (cn_session c') = s_state (cn_session c) \<and> s_next_in_seq (cn_session c') = s_next_in_seq (cn_session c)
    \<and> cn_logged_on c' = cn_logged_on c \<and> (\<exists>ws. length ws \<le> 1 \<and> cn_wire c' = cn_wire c @ ws)"
proof (cases a)
  case (Send m)
  then show ?thesis
    using assms
    by (auto simp: perform_one_def perform_send_def to_admin_def to_app_def discard_sent_def Let_def
        split: if_splits prod.splits option.splits dest!: write_log_persist_kept)
next
  case (Resend m q)
  then show ?thesis
    using assms
    by (auto simp: perform_one_def perform_resend_def to_admin_def to_app_def discard_sent_def Let_def
        split: if_splits prod.splits action.splits dest!: write_log_persist_kept gap_fill_after_veto_kept)
qed (use assms in \<open>auto simp: perform_one_def perform_reset_def store_reset_def call_app_def split: option.splits\<close>)

end
