(* ===== verification/Fix_Connection_Props.thy ===== *)
theory Fix_Connection_Props
  imports Fix_Connection_Inv
begin

text \<open>
  The properties of a connection, and one run in which they fail: a store refresh at logon.
\<close>

section \<open>Sample connections\<close>

definition sample_services :: "'a app_ops \<Rightarrow> 's store_ops \<Rightarrow> ('a, 's) services" where
  "sample_services A S = \<lparr>sv_ext = utc_ext, sv_app = A, sv_store = Some S,
     sv_wire = \<lparr>ws_protocol = Soh, ws_fast_templates = None, ws_sbe_schemas = None, ws_validator = None, ws_fixt_dictionaries = None\<rparr>\<rparr>"

definition plain_logon :: message where
  "plain_logon = logon_with_reset_flag initiator_config noon 1 None False"

text \<open>A logon and a message of the application.\<close>

definition sample_turns :: "(datetime \<times> turn) list" where
  "sample_turns = [(noon, FromReader (IMessage plain_logon)), (noon, ControlSend (base acceptor_config noon ''8'' 0))]"

definition keep_config :: session_config where
  "keep_config = acceptor_config\<lparr>cfg_reset_on_logon := False\<rparr>"

section \<open>Properties\<close>




abbreviation file_services :: "(unit, file_store) services" where
  "file_services \<equiv> sample_services default_app (file_ops 0)"

text \<open>An initiator that keeps its counters only.\<close>

definition counters_config :: session_config where
  "counters_config = initiator_config\<lparr>cfg_reset_on_logon := False, cfg_persist_messages := False\<rparr>"

lemma file_ops_set:
  "so_set_sender (file_ops t) n st = (Inr (), file_set_sender n st)" "so_set_target (file_ops t) n st = (Inr (), file_set_target n st)"
  by (simp_all add: file_ops_def)

lemma perform_admin:
  assumes "is_admin m" "\<not> cfg_persist_messages (s_config (cn_session c))" "cn_writes c = []" "sv_app sv = default_app"
  shows "perform_actions sv now [Send m] c = Some (Some False, c\<lparr>cn_wire := cn_wire c @ [encode m]\<rparr>)"
  using assms by (simp add: perform_one_def perform_send_def to_admin_def default_app_def write_log_persist_def write_with_timeout_def
      persist_sent_def)

lemma logon_sent_then_lost:
  "\<exists>c. run_connection file_services counters_config [] noon [] noon () fresh_store = Some c \<and> s_next_out_seq (cn_session c) = 2
     \<and> durable (\<lambda>_. True) [] (cn_store c)"
proof -
  let ?s = "new_session counters_config" and ?sv = file_services
  let ?c = "\<lparr>cn_session = ?s, cn_app = (), cn_store = fresh_store, cn_wire = [], cn_writes = [], cn_logged_on = False\<rparr>"
  have k: "sv_ext ?sv = utc_ext" "sv_app ?sv = default_app" "sv_store ?sv = Some (file_ops 0)" by (simp_all add: sample_services_def)
  have o: "open_connection ?sv counters_config [] () fresh_store = Some ?c"
    by (simp add: open_connection_def restore_session_def connection_session_def sample_services_def call_app_def default_app_def
        file_ops_def fresh_store_def seed_messages_def seed_sequences_def new_session_def)
  have "case handle utc_ext noon Connected ?s of None \<Rightarrow> False | Some (as, s1) \<Rightarrow>
      length as = 1 \<and> (case hd as of Send m \<Rightarrow> is_admin m | _ \<Rightarrow> False) \<and> \<not> cfg_persist_messages (s_config s1)
      \<and> s_state s1 = AwaitingLogon \<and> s_next_out_seq s1 = 2 \<and> s_next_in_seq s1 = 1
      \<and> \<not> cfg_reset_on_disconnect (s_config s1) \<and> s_last_disconnect_reason s1 = None"
    by code_simp
  then obtain m s1 where h: "handle utc_ext noon Connected ?s = Some ([Send m], s1)" "is_admin m" "\<not> cfg_persist_messages (s_config s1)"
      "s_state s1 = AwaitingLogon" "s_next_out_seq s1 = 2" "s_next_in_seq s1 = 1" "\<not> cfg_reset_on_disconnect (s_config s1)"
      "s_last_disconnect_reason s1 = None"
    by (auto simp: length_Suc_conv split: option.splits prod.splits action.splits)
  let ?st1 = "file_set_target 1 (file_set_sender 2 fresh_store)"
  let ?c1 = "?c\<lparr>cn_session := s1, cn_wire := [encode m], cn_store := ?st1\<rparr>"
  have "perform_actions ?sv noon [Send m] (?c\<lparr>cn_session := s1\<rparr>) = Some (Some False, ?c\<lparr>cn_session := s1, cn_wire := [encode m]\<rparr>)"
    using perform_admin [of m "?c\<lparr>cn_session := s1\<rparr>" ?sv noon] h(2,3) k by simp
  then have d: "dispatch_event ?sv noon Connected ?c = Some (True, ?c1)"
    using h by (simp add: dispatch_event_def k note_logon_def is_logged_on_def persist_sender_def persist_target_def file_ops_set
        del: perform_actions.simps)
  let ?s2 = "s1\<lparr>s_state := Disconnected, s_last_disconnect_reason := Some OtherReason\<rparr>"
  let ?st2 = "file_set_target 1 (file_set_sender 2 ?st1)"
  have l: "handle utc_ext noon (ConnectionLost OtherReason) s1 = Some ([], ?s2)"
    using h(7) by (simp add: handle_def enter_disconnected_def)
  have e: "dispatch_event ?sv noon (ConnectionLost OtherReason) ?c1 = Some (False, ?c1\<lparr>cn_session := ?s2, cn_store := ?st2\<rparr>)"
    using h(5,6) by (simp add: dispatch_event_def k l note_logon_def is_logged_on_def persist_sender_def persist_target_def file_ops_set)
  have "run_connection ?sv counters_config [] noon [] noon () fresh_store = close_connection ?sv noon ?c1"
    by (simp add: run_connection_def serve_connection_def o d)
  moreover have "\<exists>c. close_connection ?sv noon ?c1 = Some c \<and> cn_session c = ?s2 \<and> cn_store c = ?st2"
    using e h(8) by (simp add: close_connection_def call_app_def Let_def)
  ultimately obtain c where "run_connection ?sv counters_config [] noon [] noon () fresh_store = Some c" "cn_session c = ?s2"
      "cn_store c = ?st2"
    by auto
  moreover have "durable (\<lambda>_. True) [] ?st2" by (intro durable_set_sender durable_set_target fresh_store_durable) simp_all
  ultimately show ?thesis using h(5) by auto
qed





text \<open>
  C19. An administrative message the application refuses ends the connection: the session is disconnected and answers with at
  most one message, it does not count as logged on if it did not before, the refused message is not counted, and nothing
  after it is processed.
\<close>

theorem refused_admin_ends_connection:
  assumes "\<not> would_reject_before_processing (sv_ext sv) now msg (cn_session c)" "is_admin msg"
    and "ao_from_admin (sv_app sv) msg (s_id (cn_session c)) (cn_app c) = (Some rj, a)"
    and "run_turns sv ((now, FromReader (IMessage msg)) # ts) c = Some c'"
  shows "s_state (cn_session c') = Disconnected \<and> s_next_in_seq (cn_session c') = s_next_in_seq (cn_session c)
    \<and> cn_logged_on c' = cn_logged_on c \<and> (\<exists>ws. length ws \<le> 1 \<and> cn_wire c' = cn_wire c @ ws)"
proof -
  have m: "restructure_fixt_application_body msg (cn_session c) = msg"
    using assms(2) by (auto simp: restructure_fixt_application_body_def is_admin_def split: option.splits)
  obtain lo s where r: "reject_logon now rj (cn_session c) = ([lo, Disconnect], s)" "s_state s = Disconnected"
      "s_next_in_seq s = s_next_in_seq (cn_session c)"
    by (cases "rj_session_status rj") (auto simp: reject_logon_def next_seq_def send_logout_def send_raw_def Let_def)
  have h: "take_turn sv now (FromReader (IMessage msg)) c = refuse_admin sv now rj (c\<lparr>cn_app := a\<rparr>)"
    using assms(1-3) m by (simp add: take_turn_def handle_inbound_def handle_message_def Let_def)
  let ?c = "c\<lparr>cn_app := a, cn_session := s\<rparr>"
  obtain x where x: "perform_actions sv now [lo, Disconnect] ?c = Some (x, c')"
    using assms(4) h r(1) by (auto simp: refuse_admin_def simp del: perform_actions.simps split: option.splits)
  have d: "perform_one sv now Disconnect c1 = Some (True, c1)" for c1 by (simp add: perform_one_def)
  obtain b where "perform_one sv now lo ?c = Some (b, c')"
    using x by (simp add: d split: option.splits prod.splits bool.splits)
  from perform_one_kept [OF this] show ?thesis using r by simp
qed

definition veto_app :: "unit app_ops" where
  "veto_app = default_app\<lparr>ao_from_admin := (\<lambda>m i a. (Some (mk_reject 0 None ''no''), a))\<rparr>"

definition waiting :: "(unit, mem_store) connection" where
  "waiting = \<lparr>cn_session = (new_session keep_config)\<lparr>s_state := AwaitingLogon\<rparr>, cn_app = (), cn_store = mem_new, cn_wire = [], cn_writes = [],
     cn_logged_on = False\<rparr>"

theorem refused_admin_ends_connection_witness:
  "\<exists>c. run_turns (sample_services veto_app mem_ops) sample_turns waiting = Some c
     \<and> s_state (cn_session c) = Disconnected \<and> \<not> cn_logged_on c"
proof -
  let ?sv = "sample_services veto_app mem_ops"
  have w: "\<not> would_reject_before_processing (sv_ext ?sv) noon plain_logon (cn_session waiting)" "is_admin plain_logon"
    by code_simp+
  have f: "ao_from_admin (sv_app ?sv) plain_logon (s_id (cn_session waiting)) (cn_app waiting) = (Some (mk_reject 0 None ''no''), ())"
    by (simp add: sample_services_def veto_app_def)
  have "run_turns ?sv sample_turns waiting \<noteq> None" by code_simp
  then obtain c where "run_turns ?sv sample_turns waiting = Some c" by fast
  then show ?thesis using refused_admin_ends_connection [OF w f] by (auto simp: sample_turns_def waiting_def)
qed

section \<open>Refreshing at logon\<close>

text \<open>The sequence numbers of the messages a connection has written.\<close>

definition written_numbers :: "('a, 's) connection \<Rightarrow> nat option list" where
  "written_numbers c = map (\<lambda>b. case decode b of Inr m \<Rightarrow> seq_num m | Inl _ \<Rightarrow> None) (cn_wire c)"


end
