(* ===== verification/Fix_Routing.thy ===== *)
theory Fix_Routing
  imports Fix_Connection Fix_Builder "HOL-Library.AList"
begin

text \<open>
  Around the connections (\<^verbatim>\<open>transport/lib.rs\<close>, \<^verbatim>\<open>transport/proxy.rs\<close>): the monitor, the multi-session acceptor that routes
  a connection by the identity in its Logon, the reconnecting initiator and the initiator that follows a schedule. Hash maps are
  association lists read by their first entry. A stream is the list of what successive reads or peeks return, its end is the
  end of the stream or the deadline. Locks are never poisoned; the log, socket options and TLS handshakes are left out.
\<close>

section \<open>Monitor\<close>

type_synonym 'c monitor = "(session_id \<times> session_status \<times> 'c) list"

definition monitor_register :: "session_id \<Rightarrow> session_status \<Rightarrow> 'c \<Rightarrow> 'c monitor \<Rightarrow> 'c monitor" where
  "monitor_register i status control m = AList.update i (status, control) m"

definition monitor_update :: "session_id \<Rightarrow> session_status \<Rightarrow> 'c monitor \<Rightarrow> 'c monitor" where
  "monitor_update i status m =
     (case map_of m i of None \<Rightarrow> m | Some (_, control) \<Rightarrow> AList.update i (status, control) m)"

definition mark_disconnected :: "session_id \<Rightarrow> 'c monitor \<Rightarrow> 'c monitor" where
  "mark_disconnected i m = AList.delete i m"

definition monitor_status :: "session_id \<Rightarrow> 'c monitor \<Rightarrow> session_status option" where
  "monitor_status i m = map_option fst (map_of m i)"

definition is_connected :: "session_id \<Rightarrow> 'c monitor \<Rightarrow> bool" where
  "is_connected i m \<longleftrightarrow> map_of m i \<noteq> None"

definition monitor_sessions :: "'c monitor \<Rightarrow> session_id list" where
  "monitor_sessions m = map fst m"

definition control_for :: "session_id \<Rightarrow> 'c monitor \<Rightarrow> 'c option" where
  "control_for i m = map_option snd (map_of m i)"

section \<open>The address of the peer\<close>

type_synonym sock_addr = "ip_addr \<times> nat"

definition PROXY_HEADER_PEEK_BUF :: nat where "PROXY_HEADER_PEEK_BUF = 4096"
definition PROXY_HEADER_MAX_LEN :: nat where "PROXY_HEADER_MAX_LEN = 65536 + 16"

text \<open>
  \<^verbatim>\<open>peek_proxy_header\<close>: \<open>parse\<close> is the header parser, with the address and the length of a complete header; a peek sees at most
  \<open>buf_len\<close> bytes. The result is the address and how many bytes have been consumed.
\<close>

fun peek_proxy_header ::
  "(bytes \<Rightarrow> (sock_addr option \<times> nat) option) \<Rightarrow> sock_addr \<Rightarrow> nat \<Rightarrow> bytes list \<Rightarrow> sock_addr \<times> nat" where
  "peek_proxy_header parse peer buf_len [] = (peer, 0)"
| "peek_proxy_header parse peer buf_len (avail # peeks) =
     (let peeked = take buf_len avail in
      case parse peeked of
        Some (addr, len) \<Rightarrow> ((case addr of None \<Rightarrow> peer | Some a \<Rightarrow> a), len)
      | None \<Rightarrow>
          if length peeked < buf_len then peek_proxy_header parse peer buf_len peeks
          else if buf_len < PROXY_HEADER_MAX_LEN
            then peek_proxy_header parse peer (min (buf_len * 2) PROXY_HEADER_MAX_LEN) peeks
          else (peer, 0))"

definition strip_trusted_proxy_header ::
  "(bytes \<Rightarrow> (sock_addr option \<times> nat) option) \<Rightarrow> ip_addr list \<Rightarrow> sock_addr \<Rightarrow> bytes list \<Rightarrow> sock_addr \<times> nat" where
  "strip_trusted_proxy_header parse trusted peer peeks =
     (if trusted = [] \<or> fst peer \<notin> set trusted then (peer, 0)
      else peek_proxy_header parse peer PROXY_HEADER_PEEK_BUF peeks)"

section \<open>The registry\<close>

text \<open>The services a connection is given: \<open>'h\<close> names a store, \<open>'l\<close> a log.\<close>

record ('h, 'l) group_services =
  gs_store :: "'h option"
  gs_log :: "'l option"
  gs_validator :: "(data_dictionary \<times> validation_options) option"
  gs_fixt_dictionaries :: "(fixt_dictionaries \<times> validation_options) option"
  gs_trusted_proxy_addresses :: "ip_addr list"

record ('h, 'l) registry =
  rg_sessions :: "(session_id \<times> full_config) list"
  rg_template :: "full_config option"
  rg_allowed_remotes :: "ip_addr list option"
  rg_session_stores :: "(session_id \<times> 'h) list"
  rg_session_services :: "(session_id \<times> ('h, 'l) group_services) list"
  rg_dynamic_services :: "(session_id \<Rightarrow> full_config \<Rightarrow> ('h, 'l) group_services option) option"
  rg_services :: "('h, 'l) group_services"

definition session_id_of :: "full_config \<Rightarrow> session_id" where
  "session_id_of c = config_session_id (session_config.truncate c)"

definition bind_with :: "('h, 'l) group_services \<Rightarrow> ('h, 'l) registry" where
  "bind_with services = \<lparr>rg_sessions = [], rg_template = None, rg_allowed_remotes = None, rg_session_stores = [],
     rg_session_services = [], rg_dynamic_services = None, rg_services = services\<rparr>"

definition with_session :: "full_config \<Rightarrow> ('h, 'l) registry \<Rightarrow> ('h, 'l) registry" where
  "with_session c r = r\<lparr>rg_sessions := AList.update (session_id_of c) c (rg_sessions r)\<rparr>"

definition with_session_store :: "session_id \<Rightarrow> 'h \<Rightarrow> ('h, 'l) registry \<Rightarrow> ('h, 'l) registry" where
  "with_session_store i h r = r\<lparr>rg_session_stores := AList.update i h (rg_session_stores r)\<rparr>"

definition with_session_services :: "session_id \<Rightarrow> ('h, 'l) group_services \<Rightarrow> ('h, 'l) registry \<Rightarrow> ('h, 'l) registry" where
  "with_session_services i services r = r\<lparr>rg_session_services := AList.update i services (rg_session_services r)\<rparr>"

definition with_dynamic_services_factory ::
  "(session_id \<Rightarrow> full_config \<Rightarrow> ('h, 'l) group_services option) \<Rightarrow> ('h, 'l) registry \<Rightarrow> ('h, 'l) registry" where
  "with_dynamic_services_factory f r = r\<lparr>rg_dynamic_services := Some f\<rparr>"

definition with_dynamic_template :: "full_config \<Rightarrow> ('h, 'l) registry \<Rightarrow> ('h, 'l) registry" where
  "with_dynamic_template c r = r\<lparr>rg_template := Some c\<rparr>"

definition allow_remotes :: "ip_addr list \<Rightarrow> ('h, 'l) registry \<Rightarrow> ('h, 'l) registry" where
  "allow_remotes ips r = r\<lparr>rg_allowed_remotes := Some ips\<rparr>"

definition trust_proxy_from :: "ip_addr list \<Rightarrow> ('h, 'l) registry \<Rightarrow> ('h, 'l) registry" where
  "trust_proxy_from ips r = r\<lparr>rg_services := (rg_services r)\<lparr>gs_trusted_proxy_addresses := ips\<rparr>\<rparr>"

definition with_services :: "('h, 'l) group_services \<Rightarrow> ('h, 'l) registry \<Rightarrow> ('h, 'l) registry" where
  "with_services services r = r\<lparr>rg_services := services\<rparr>"

section \<open>The first message\<close>

text \<open>Seconds.\<close>

definition prelogon_read_timeout :: "('h, 'l) registry \<Rightarrow> nat" where
  "prelogon_read_timeout r =
     (let cs = map snd (rg_sessions r) @ (case rg_template r of None \<Rightarrow> [] | Some t \<Rightarrow> [t]);
          configured = (if cs = [] then cfg_logon_timeout (new_config ''FIX.4.4'' ''S'' ''T'' Acceptor) else Max (set (map cfg_logon_timeout cs)))
      in max configured 1)"

definition registry_acceptor_tls_timeout :: "('h, 'l) registry \<Rightarrow> nat option" where
  "registry_acceptor_tls_timeout r =
     (let ts = List.map_filter cfg_connect_timeout (map snd (rg_sessions r) @ (case rg_template r of None \<Rightarrow> [] | Some t \<Rightarrow> [t]))
      in if ts = [] then None else Some (Max (set ts)))"

definition PRELOGON_BUF_CAP :: nat where "PRELOGON_BUF_CAP = MAX_BODY_LEN"

text \<open>Reads until the first message is complete; only a Logon is accepted. An empty read is the end of the stream.\<close>

fun read_logon :: "bytes \<Rightarrow> bytes list \<Rightarrow> (message \<times> bytes) option" where
  "read_logon buf [] = None"
| "read_logon buf (chunk # chunks) =
     (if chunk = [] then None
      else
        (let buf' = buf @ chunk in
         if PRELOGON_BUF_CAP < length buf' then None
         else
           (case frame_length buf' of
              Inr (Some n) \<Rightarrow>
                (case decode (take n buf') of
                   Inr msg \<Rightarrow> if msg_type msg = Some ''A'' then Some (msg, buf') else None
                 | Inl _ \<Rightarrow> None)
            | Inr None \<Rightarrow> read_logon buf' chunks
            | Inl _ \<Rightarrow> None)))"

definition field_opt_str :: "message \<Rightarrow> tag \<Rightarrow> bytes option" where
  "field_opt_str msg t = get_str (m_header msg) t"

definition field_str :: "message \<Rightarrow> tag \<Rightarrow> bytes" where
  "field_str msg t = unwrap_or_nil (field_opt_str msg t)"

section \<open>Routing\<close>

text \<open>Our identity is the peer's, turned around; the qualifier is not on the wire.\<close>

definition routed_id :: "message \<Rightarrow> session_id" where
  "routed_id logon =
     \<lparr>sid_begin_string = unwrap_or_nil (begin_string logon), sid_sender_comp_id = field_str logon 56,
      sid_sender_sub_id = field_opt_str logon 57, sid_sender_location_id = field_opt_str logon 143,
      sid_target_comp_id = field_str logon 49, sid_target_sub_id = field_opt_str logon 50,
      sid_target_location_id = field_opt_str logon 142, sid_session_qualifier = None\<rparr>"

definition dynamic_config ::
  "full_config \<Rightarrow> bytes \<Rightarrow> bytes \<times> bytes option \<times> bytes option \<Rightarrow> bytes \<times> bytes option \<times> bytes option \<Rightarrow> full_config" where
  "dynamic_config template begin_str our_sender our_target =
     (case (our_sender, our_target) of ((s, s_sub, s_loc), (t, t_sub, t_loc)) \<Rightarrow>
        template\<lparr>cfg_begin_string := begin_str, cfg_sender_comp_id := s, cfg_sender_sub_id := s_sub, cfg_sender_location_id := s_loc,
          cfg_target_comp_id := t, cfg_target_sub_id := t_sub, cfg_target_location_id := t_loc\<rparr>)"

definition routed_config :: "('h, 'l) registry \<Rightarrow> message \<Rightarrow> full_config option" where
  "routed_config r logon =
     (let i = routed_id logon in
      case map_of (rg_sessions r) i of
        Some c \<Rightarrow> Some c
      | None \<Rightarrow>
          map_option
            (\<lambda>t. dynamic_config t (sid_begin_string i) (sid_sender_comp_id i, sid_sender_sub_id i, sid_sender_location_id i)
                   (sid_target_comp_id i, sid_target_sub_id i, sid_target_location_id i))
            (rg_template r))"

text \<open>The store of the session, then the other services of its own, or those made for a dynamic session.\<close>

definition routed_services :: "('h, 'l) registry \<Rightarrow> message \<Rightarrow> full_config \<Rightarrow> ('h, 'l) group_services option" where
  "routed_services r logon c =
     (let i = routed_id logon; g = rg_services r in
      case map_of (rg_sessions r) i of
        None \<Rightarrow> (case rg_dynamic_services r of None \<Rightarrow> Some g | Some f \<Rightarrow> f i c)
      | Some _ \<Rightarrow>
          (let g1 = (case map_of (rg_session_stores r) i of None \<Rightarrow> g | Some h \<Rightarrow> g\<lparr>gs_store := Some h\<rparr>) in
           case map_of (rg_session_services r) i of
             None \<Rightarrow> Some g1
           | Some ov \<Rightarrow> Some (g1\<lparr>gs_log := gs_log ov, gs_validator := gs_validator ov, gs_fixt_dictionaries := gs_fixt_dictionaries ov\<rparr>)))"

section \<open>Accepting\<close>

text \<open>A running connection: the task, its identity, its configuration, its services and the bytes read so far.\<close>

record ('h, 'l) live =
  lv_task :: nat
  lv_id :: session_id
  lv_config :: full_config
  lv_services :: "('h, 'l) group_services"
  lv_buffer :: bytes

record ('h, 'l) acceptor =
  ac_registry :: "('h, 'l) registry"
  ac_active :: "session_id list"
  ac_live :: "('h, 'l) live list"

definition serve :: "('h, 'l) registry \<Rightarrow> ('h, 'l) acceptor" where
  "serve r = \<lparr>ac_registry = r, ac_active = [], ac_live = []\<rparr>"

definition remote_allowed :: "('h, 'l) registry \<Rightarrow> ip_addr \<Rightarrow> bool" where
  "remote_allowed r ip = (case rg_allowed_remotes r of None \<Rightarrow> True | Some ips \<Rightarrow> ip \<in> set ips)"

definition route_and_run :: "nat \<Rightarrow> bytes list \<Rightarrow> ('h, 'l) acceptor \<Rightarrow> ('h, 'l) acceptor" where
  "route_and_run task chunks a =
     (let r = ac_registry a in
      case read_logon [] chunks of
        None \<Rightarrow> a
      | Some (logon, buf) \<Rightarrow>
          (case routed_config r logon of
             None \<Rightarrow> a
           | Some c \<Rightarrow>
               (case routed_services r logon c of
                  None \<Rightarrow> a
                | Some g \<Rightarrow>
                    (let i = routed_id logon in
                     if i \<in> set (ac_active a) then a
                     else a\<lparr>ac_active := i # ac_active a,
                            ac_live := \<lparr>lv_task = task, lv_id = i, lv_config = c, lv_services = g, lv_buffer = buf\<rparr> # ac_live a\<rparr>))))"

text \<open>A connection is accepted, or a task ends and its guard gives the identity free again.\<close>

datatype acceptor_event = Accepted nat sock_addr "bytes list" "bytes list" | Ended nat

definition accept_step ::
  "(bytes \<Rightarrow> (sock_addr option \<times> nat) option) \<Rightarrow> acceptor_event \<Rightarrow> ('h, 'l) acceptor \<Rightarrow> ('h, 'l) acceptor" where
  "accept_step parse e a =
     (case e of
        Accepted task peer peeks chunks \<Rightarrow>
          (let r = ac_registry a;
               effective_ip = fst (fst (strip_trusted_proxy_header parse (gs_trusted_proxy_addresses (rg_services r)) peer peeks))
           in if remote_allowed r effective_ip then route_and_run task chunks a else a)
      | Ended task \<Rightarrow>
          (case filter (\<lambda>l. lv_task l = task) (ac_live a) of
             [] \<Rightarrow> a
           | l # _ \<Rightarrow> a\<lparr>ac_active := removeAll (lv_id l) (ac_active a), ac_live := remove1 l (ac_live a)\<rparr>))"

section \<open>Reconnecting\<close>

text \<open>Seconds.\<close>

definition reconnect_delay :: "full_config \<Rightarrow> nat \<Rightarrow> nat" where
  "reconnect_delay c attempt =
     (let steps = cfg_reconnect_interval_steps c;
          secs = (if steps = [] then cfg_reconnect_interval c else steps ! min attempt (length steps - 1))
      in max secs 1)"

text \<open>
  The loop over \<open>n\<close> endpoints, given which attempts connect: the endpoint of each attempt and the delay that follows it (after
  the connection has ended, if there was one). \<^verbatim>\<open>next_endpoint\<close> wraps and \<^verbatim>\<open>backoff_step\<close> saturates at 64 bits.
\<close>

fun reconnect_loop :: "full_config \<Rightarrow> nat \<Rightarrow> bool list \<Rightarrow> nat \<Rightarrow> nat \<Rightarrow> (nat \<times> nat) list" where
  "reconnect_loop c n [] next_endpoint backoff = []"
| "reconnect_loop c n (connects # rest) next_endpoint backoff =
     (if n = 0 then []
      else
        (let (next1, backoff1) = (if connects then (0, 0) else ((next_endpoint + 1) mod u64_size, backoff))
         in (next_endpoint mod n, reconnect_delay c backoff1) # reconnect_loop c n rest next1 (sat_add64 backoff1 1)))"

section \<open>Following a schedule\<close>

record scheduled =
  sd_current :: bool
  sd_was_in_session :: bool
  sd_failed_attempts :: nat
  sd_next_retry_at :: "nat option"

definition in_schedule :: "ext \<Rightarrow> schedule \<Rightarrow> datetime \<Rightarrow> bool" where
  "in_schedule E sch now \<longleftrightarrow> sch_non_stop sch \<or> is_in_session E sch now"

text \<open>Before the loop: a store created while the schedule was in session counts as being in session.\<close>

definition scheduled_start :: "ext \<Rightarrow> schedule \<Rightarrow> datetime option \<Rightarrow> scheduled" where
  "scheduled_start E sch created =
     \<lparr>sd_current = False, sd_was_in_session = (case created of None \<Rightarrow> False | Some t \<Rightarrow> in_schedule E sch t),
      sd_failed_attempts = 0, sd_next_retry_at = None\<rparr>"

datatype connect_outcome = ConnectOk | ConnectFailed | ConnectAbandoned

text \<open>The store is reset if the session has one.\<close>

datatype scheduled_effect = ResetsStore | LogsOut | Connects

text \<open>
  What one iteration meets: the wall clock, the monotonic clock in seconds before and after the attempt, whether the running
  connection has ended, and how an attempt would go.
\<close>

record poll =
  pl_now :: datetime
  pl_clock :: nat
  pl_after :: nat
  pl_finished :: bool
  pl_outcome :: connect_outcome

definition scheduled_step :: "ext \<Rightarrow> full_config \<Rightarrow> schedule \<Rightarrow> poll \<Rightarrow> scheduled \<Rightarrow> scheduled_effect list \<times> scheduled" where
  "scheduled_step E c sch p s =
     (let boundary = decide E sch (sd_was_in_session s) (pl_now p);
          effects = (case boundary of SAEnter \<Rightarrow> [ResetsStore] | SAExit \<Rightarrow> if sd_current s then [LogsOut] else [] | SANone \<Rightarrow> []);
          current1 = (sd_current s \<and> boundary \<noteq> SAExit \<and> \<not> pl_finished p);
          s1 = s\<lparr>sd_was_in_session := in_schedule E sch (pl_now p), sd_current := current1\<rparr>
      in if sd_was_in_session s1 \<and> \<not> current1 \<and> (case sd_next_retry_at s of None \<Rightarrow> True | Some t \<Rightarrow> t \<le> pl_clock p)
         then
           (case pl_outcome p of
              ConnectOk \<Rightarrow> (effects @ [Connects], s1\<lparr>sd_current := True, sd_failed_attempts := 0, sd_next_retry_at := None\<rparr>)
            | ConnectFailed \<Rightarrow>
                (effects, s1\<lparr>sd_failed_attempts := sat_add64 (sd_failed_attempts s) 1,
                             sd_next_retry_at := Some (pl_after p + reconnect_delay c (sd_failed_attempts s))\<rparr>)
            | ConnectAbandoned \<Rightarrow> (effects, s1))
         else (effects, s1))"

fun run_scheduled :: "ext \<Rightarrow> full_config \<Rightarrow> schedule \<Rightarrow> poll list \<Rightarrow> scheduled \<Rightarrow> scheduled_effect list \<times> scheduled" where
  "run_scheduled E c sch [] s = (if sd_current s then [LogsOut] else [], s\<lparr>sd_current := False\<rparr>)"
| "run_scheduled E c sch (p # ps) s =
     (let (es, s1) = scheduled_step E c sch p s; (fs, s2) = run_scheduled E c sch ps s1 in (es @ fs, s2))"

end
