(* ===== verification/Fix_Routing_Props.thy ===== *)
theory Fix_Routing_Props
  imports Fix_Routing Fix_Session_Props
begin

text \<open>
  What routing guarantees: one running connection for each session, a session whose identity is that of the Logon, stores that are
  not shared; the order in which a reconnecting initiator tries its endpoints; when a scheduled initiator resets its store.
\<close>

section \<open>One connection for each session\<close>

definition acceptor_ok :: "('h, 'l) acceptor \<Rightarrow> bool" where
  "acceptor_ok a \<longleftrightarrow> distinct (map lv_id (ac_live a)) \<and> set (ac_active a) = lv_id ` set (ac_live a)
     \<and> (\<forall>l\<in>set (ac_live a). \<exists>logon. routed_id logon = lv_id l \<and> routed_config (ac_registry a) logon = Some (lv_config l)
          \<and> routed_services (ac_registry a) logon (lv_config l) = Some (lv_services l))"

lemma route_and_run_ok: "acceptor_ok a \<Longrightarrow> acceptor_ok (route_and_run t cs a)"
  by (auto simp: route_and_run_def acceptor_ok_def Let_def split: option.splits)

lemma distinct_map_remove1: "distinct (map f xs) \<Longrightarrow> x \<in> set xs \<Longrightarrow> f ` set (remove1 x xs) = f ` set xs - {f x}"
  by (induction xs) (auto simp: image_iff)

lemma accept_step_ok:
  assumes "acceptor_ok a"
  shows "acceptor_ok (accept_step parse e a)"
proof (cases e)
  case (Ended t)
  show ?thesis
  proof (cases "filter (\<lambda>l. lv_task l = t) (ac_live a)")
    case (Cons l ls)
    then have l: "l \<in> set (ac_live a)" by (metis filter_eq_ConsD in_set_conv_decomp)
    show ?thesis using assms Ended Cons l distinct_map_remove1 [of lv_id "ac_live a" l] by (auto simp: accept_step_def acceptor_ok_def distinct_map distinct_remove1 inj_on_def dest: notin_set_remove1 set_remove1_subset [THEN subsetD])
  qed (use assms Ended in \<open>simp add: accept_step_def\<close>)
qed (use assms in \<open>auto simp: accept_step_def Let_def route_and_run_ok\<close>)

lemma accept_steps_ok: "acceptor_ok a \<Longrightarrow> acceptor_ok (fold (accept_step parse) es a)"
  by (induction es arbitrary: a) (simp_all add: accept_step_ok)

lemma accept_step_registry [simp]: "ac_registry (accept_step parse e a) = ac_registry a"
  by (auto simp: accept_step_def route_and_run_def Let_def split: acceptor_event.split option.split list.split)

lemma accept_steps_registry: "ac_registry (fold (accept_step parse) es a) = ac_registry a"
  by (induction es arbitrary: a) simp_all

lemma served_ok: "acceptor_ok (fold (accept_step parse) es (serve r)) \<and> ac_registry (fold (accept_step parse) es (serve r)) = r"
  using accept_steps_ok [of "serve r" parse es] by (simp add: accept_steps_registry) (simp add: serve_def acceptor_ok_def)

text \<open>
  C15. At any moment at most one connection runs for a session identity, and the identities marked as active are exactly those of the
  running connections: a second connection is refused while the first runs and accepted again once it has ended.
\<close>

theorem one_connection_per_session:
  "distinct (map lv_id (ac_live (fold (accept_step parse) es (serve r))))
   \<and> set (ac_active (fold (accept_step parse) es (serve r))) = lv_id ` set (ac_live (fold (accept_step parse) es (serve r)))"
  using served_ok [of parse es r] by (simp add: acceptor_ok_def)

section \<open>The identity of a routed session\<close>

text \<open>The static sessions are filed under their own identity, as \<open>with_session\<close> does.\<close>

definition registry_ok :: "('h, 'l) registry \<Rightarrow> bool" where
  "registry_ok r \<longleftrightarrow> (\<forall>i c. map_of (rg_sessions r) i = Some c \<longrightarrow> i = session_id_of c)"

lemma registry_ok_with_session: "registry_ok r \<Longrightarrow> registry_ok (with_session c r)"
  by (auto simp: registry_ok_def with_session_def update_conv' split: if_splits)

lemma registry_ok_bind: "registry_ok (bind_with g)"
  by (simp add: registry_ok_def bind_with_def)

lemma routed_identity:
  assumes "registry_ok r" "routed_config r logon = Some c"
  shows "(session_id_of c)\<lparr>sid_session_qualifier := None\<rparr> = routed_id logon"
proof (cases "map_of (rg_sessions r) (routed_id logon)")
  case (Some c')
  then have "routed_id logon = session_id_of c" using assms by (auto simp: registry_ok_def routed_config_def Let_def)
  then show ?thesis by (metis (no_types, lifting) routed_id_def session_id.update_convs(8))
next
  case None
  then show ?thesis
    using assms(2) by (auto simp: routed_config_def dynamic_config_def routed_id_def session_id_of_def config_session_id_def
        session_config.truncate_def Let_def)
qed

lemma identity_accepted:
  assumes "(session_id_of c)\<lparr>sid_session_qualifier := None\<rparr> = routed_id logon"
  shows "identity_problem_of logon (new_session (session_config.truncate c)) = None"
proof -
  have "cfg_begin_string c = unwrap_or_nil (begin_string logon)" "cfg_sender_comp_id c = field_str logon 56"
    "cfg_target_comp_id c = field_str logon 49"
    using assms by (auto simp: session_id_of_def config_session_id_def routed_id_def session_config.truncate_def)
  then show ?thesis
    by (auto simp: identity_problem_of_def new_session_def session_config.truncate_def begin_string_def field_str_def field_opt_str_def
        unwrap_or_nil_def BEGIN_STRING_def Let_def split: option.splits)
qed

text \<open>
  C16. A connection is only ever given to a session that is the counterpart of its Logon: the session, static or made from
  the template, has the identity of the Logon turned around, and its engine finds no fault with the identity in that Logon.
\<close>

theorem routed_session_matches:
  assumes "registry_ok r" "routed_config r logon = Some c"
  shows "(session_id_of c)\<lparr>sid_session_qualifier := None\<rparr> = routed_id logon
    \<and> identity_problem_of logon (new_session (session_config.truncate c)) = None"
  using routed_identity [OF assms] identity_accepted [OF routed_identity [OF assms]] by simp

definition seller :: full_config where
  "seller = new_full_config ''FIX.4.4'' ''SELL'' ''BUY'' Acceptor"

definition no_services :: "(nat, nat) group_services" where
  "no_services = \<lparr>gs_store = Some 0, gs_log = None, gs_validator = None, gs_fixt_dictionaries = None, gs_trusted_proxy_addresses = []\<rparr>"

lemma seller_id: "session_id_of seller = routed_id logon_msg"
proof -
  have "routed_id logon_msg = \<lparr>sid_begin_string = ''FIX.4.4'', sid_sender_comp_id = ''SELL'', sid_sender_sub_id = None,
     sid_sender_location_id = None, sid_target_comp_id = ''BUY'', sid_target_sub_id = None, sid_target_location_id = None,
     sid_session_qualifier = None\<rparr>" by code_simp
  then show ?thesis
    by (simp add: seller_def session_id_of_def new_full_config_def new_config_def session_config.extend_def session_config.truncate_def
        config_session_id_def)
qed

theorem routed_session_matches_witness:
  "routed_config (with_session seller (bind_with no_services)) logon_msg = Some seller
   \<and> identity_problem_of logon_msg (new_session (session_config.truncate seller)) = None"
proof -
  have "routed_config (with_session seller (bind_with no_services)) logon_msg = Some seller"
    by (simp add: routed_config_def with_session_def bind_with_def seller_id)
  then show ?thesis
    using routed_session_matches [OF registry_ok_with_session [OF registry_ok_bind]] by blast
qed

text \<open>A session registered with a qualifier is never found: the identity read from a Logon has none.\<close>

theorem qualified_session_unroutable:
  assumes "cfg_session_qualifier c = Some q"
  shows "routed_config (with_session c (bind_with g)) logon = None"
proof -
  have "session_id_of c \<noteq> routed_id logon"
    using assms by (auto simp: session_id_of_def config_session_id_def routed_id_def session_config.truncate_def)
  then show ?thesis by (simp add: routed_config_def with_session_def bind_with_def)
qed

section \<open>Stores\<close>

text \<open>
  Stores are not shared: when every static session has a store of its own, no two of them the same, and there is no template, two
  connections that run at the same time never write to the same store.
\<close>

theorem running_stores_distinct:
  assumes "rg_template r = None" "inj_on snd (set (rg_session_stores r))"
    and "\<forall>i. map_of (rg_sessions r) i \<noteq> None \<longrightarrow> map_of (rg_session_stores r) i \<noteq> None"
  shows "distinct (map (\<lambda>l. gs_store (lv_services l)) (ac_live (fold (accept_step parse) es (serve r))))"
proof -
  let ?a = "fold (accept_step parse) es (serve r)"
  have ok: "acceptor_ok ?a" "ac_registry ?a = r" using served_ok [of parse es r] by simp_all
  have s: "\<exists>h. gs_store (lv_services l) = Some h \<and> (lv_id l, h) \<in> set (rg_session_stores r)" if l: "l \<in> set (ac_live ?a)" for l
  proof -
    obtain logon where g: "routed_id logon = lv_id l" "routed_config r logon = Some (lv_config l)"
        "routed_services r logon (lv_config l) = Some (lv_services l)"
      using ok l by (auto simp: acceptor_ok_def)
    obtain c where c: "map_of (rg_sessions r) (lv_id l) = Some c"
      using g(1,2) assms(1) by (auto simp: routed_config_def Let_def split: option.splits)
    then obtain h where h: "map_of (rg_session_stores r) (lv_id l) = Some h" using assms(3) by blast
    then have "Some h = gs_store (lv_services l)"
      using g(1,3) c by (auto simp: routed_services_def Let_def dest!: arg_cong [where f = gs_store] split: option.splits)
    then show ?thesis using map_of_SomeD [OF h] by metis
  qed
  have "inj_on (\<lambda>l. gs_store (lv_services l)) (set (ac_live ?a))"
  proof (rule inj_onI)
    fix l l' assume l: "l \<in> set (ac_live ?a)" "l' \<in> set (ac_live ?a)" "gs_store (lv_services l) = gs_store (lv_services l')"
    then have "lv_id l = lv_id l'" using s [OF l(1)] s [OF l(2)] assms(2) by (fastforce simp: inj_on_def)
    then show "l = l'" using ok(1) l(1,2) by (auto simp: acceptor_ok_def distinct_map inj_on_def)
  qed
  moreover have "distinct (ac_live ?a)" using ok(1) by (auto simp: acceptor_ok_def distinct_map)
  ultimately show ?thesis by (simp add: distinct_map)
qed

definition two_sessions :: "(nat, nat) registry" where
  "two_sessions = with_session_store (session_id_of seller) 1 (with_session seller (bind_with no_services))"

theorem running_stores_distinct_witness:
  "distinct (map (\<lambda>l. gs_store (lv_services l)) (ac_live (fold (accept_step (\<lambda>_. None)) [Accepted 0 (V4 [10, 0, 0, 1], 9) [] [encode logon_msg]]
     (serve two_sessions))))"
  by (rule running_stores_distinct) (simp_all add: two_sessions_def with_session_store_def with_session_def bind_with_def)

section \<open>Reconnecting\<close>

lemma reconnect_delay_pos: "1 \<le> reconnect_delay c k"
  by (simp add: reconnect_delay_def Let_def)

lemma reconnect_failures:
  assumes "0 < n" "e + k < u64_size" "b + k < u64_size"
  shows "reconnect_loop c n (replicate k False @ rest) e b =
    map (\<lambda>i. ((e + i) mod n, reconnect_delay c (b + i))) [0..<k] @ reconnect_loop c n rest (e + k) (b + k)"
  using assms
proof (induction k arbitrary: e b)
  case (Suc k)
  have "reconnect_loop c n (replicate (Suc k) False @ rest) e b =
      (e mod n, reconnect_delay c b) # reconnect_loop c n (replicate k False @ rest) (e + 1) (b + 1)"
    using Suc.prems by (simp add: sat_add64_small)
  also have "\<dots> = (e mod n, reconnect_delay c b) # map (\<lambda>i. ((Suc e + i) mod n, reconnect_delay c (Suc b + i))) [0..<k]
      @ reconnect_loop c n rest (e + Suc k) (b + Suc k)"
    using Suc.IH [of "e + 1" "b + 1"] Suc.prems by simp
  also have "\<dots> = map (\<lambda>i. ((e + i) mod n, reconnect_delay c (b + i))) [0..<Suc k] @ reconnect_loop c n rest (e + Suc k) (b + Suc k)"
    by (simp add: map_upt_Suc del: upt_Suc)
  finally show ?case .
qed simp

text \<open>
  The endpoints are tried in turn, starting again from the first one after a connection: before it the delays follow the configured
  steps from the first; after it the delay before the next attempt is the first step, and each failure from then on is followed by the step
  after it, so the first failure waits the second step.
\<close>

theorem reconnect_rotation:
  assumes "0 < n" "k < u64_size" "j + 1 < u64_size"
  shows "reconnect_loop c n (replicate k False @ True # replicate j False) 0 0 =
     map (\<lambda>i. (i mod n, reconnect_delay c i)) [0..<k] @ (k mod n, reconnect_delay c 0)
       # map (\<lambda>i. (i mod n, reconnect_delay c (i + 1))) [0..<j]"
proof -
  have "reconnect_loop c n (True # replicate j False) k k = (k mod n, reconnect_delay c 0) # reconnect_loop c n (replicate j False) 0 1"
    using assms(1) by (simp add: sat_add64_small)
  moreover have "reconnect_loop c n (replicate j False) 0 1 = map (\<lambda>i. (i mod n, reconnect_delay c (i + 1))) [0..<j]"
    using reconnect_failures [of n 0 j 1 c "[]"] assms by simp
  ultimately show ?thesis using reconnect_failures [of n 0 k 0 c "True # replicate j False"] assms by simp
qed

theorem reconnect_rotation_witness:
  "reconnect_loop (seller\<lparr>cfg_reconnect_interval_steps := [1, 5, 60]\<rparr>) 2 [False, False, False, True, False] 0 0
     = [(0, 1), (1, 5), (0, 60), (1, 1), (0, 5)]"
proof -
  have l: "[0..<3] = [0, 1, 2::nat]" "[0..<1] = [0::nat]" "replicate 3 False = [False, False, False]" "replicate 1 False = [False]"
    by code_simp+
  have "reconnect_delay (seller\<lparr>cfg_reconnect_interval_steps := [1, 5, 60]\<rparr>) k = (if k = 0 then 1 else if k = 1 then 5 else 60)" for k
    by (auto simp: reconnect_delay_def min_def nth_Cons')
  then show ?thesis
    using reconnect_rotation [of 2 3 1 "seller\<lparr>cfg_reconnect_interval_steps := [1, 5, 60]\<rparr>"] unfolding l by simp
qed

section \<open>The schedule\<close>

text \<open>A running connection was opened in session.\<close>

definition scheduled_ok :: "scheduled \<Rightarrow> bool" where
  "scheduled_ok s \<longleftrightarrow> (sd_current s \<longrightarrow> sd_was_in_session s)"

lemma scheduled_step_effects:
  assumes "scheduled_step E c sch p s = (es, s')"
  shows "sd_was_in_session s' = in_schedule E sch (pl_now p)"
    "count_list es ResetsStore = (if decide E sch (sd_was_in_session s) (pl_now p) = SAEnter then 1 else 0)"
    "Connects \<in> set es \<Longrightarrow> in_schedule E sch (pl_now p)"
    "scheduled_ok s \<Longrightarrow> scheduled_ok s'"
  using assms
  by (auto simp: scheduled_step_def scheduled_ok_def Let_def decide_def in_schedule_def
      split: if_splits schedule_action.splits connect_outcome.splits bool.splits)

lemma run_scheduled_resets:
  assumes "\<not> sch_non_stop sch" "run_scheduled E c sch ps s = (es, s')"
  shows "count_list es ResetsStore = count_list (poll_boundary E sch (sd_was_in_session s) (map pl_now ps)) SAEnter"
  using assms(2)
proof (induction ps arbitrary: s es)
  case (Cons p ps)
  obtain e1 s1 e2 where e: "scheduled_step E c sch p s = (e1, s1)" "run_scheduled E c sch ps s1 = (e2, s')" "es = e1 @ e2"
    using Cons.prems by (auto simp: Let_def split: prod.splits)
  have "sd_was_in_session s1 = is_in_session E sch (pl_now p)"
    using scheduled_step_effects(1) [OF e(1)] assms(1) by (simp add: in_schedule_def)
  then show ?case using Cons.IH [OF e(2)] scheduled_step_effects(2) [OF e(1)] e(3) by simp
qed (auto split: if_splits)


definition office_hours :: schedule where
  "office_hours = default_schedule\<lparr>sch_start_time := Some \<lparr>t_hour = 9, t_min = 0, t_sec = 0, t_nano = 0\<rparr>,
     sch_end_time := Some \<lparr>t_hour = 17, t_min = 0, t_sec = 0, t_nano = 0\<rparr>\<rparr>"

definition poll_at :: "nat \<Rightarrow> nat \<Rightarrow> poll" where
  "poll_at day hour = \<lparr>pl_now = mk_datetime 2026 6 day hour 0 0 0, pl_clock = 0, pl_after = 0, pl_finished = False, pl_outcome = ConnectOk\<rparr>"


text \<open>
  A process started again on the next day: the store was created in the hours of the day before, so the first poll of the new
  day does not count as entering and the numbers of the day before stay in use.
\<close>

theorem scheduled_restart_keeps_numbers:
  "count_list (fst (run_scheduled utc_ext seller office_hours [poll_at 30 12]
       (scheduled_start utc_ext office_hours (Some (mk_datetime 2026 6 29 12 0 0 0))))) ResetsStore = 0
   \<and> \<not> is_in_session utc_ext office_hours (mk_datetime 2026 6 29 20 0 0 0)"
proof -
  let ?r = "run_scheduled utc_ext seller office_hours [poll_at 30 12]
       (scheduled_start utc_ext office_hours (Some (mk_datetime 2026 6 29 12 0 0 0)))"
  have n: "\<not> sch_non_stop office_hours" "\<not> is_in_session utc_ext office_hours (mk_datetime 2026 6 29 20 0 0 0)" by code_simp+
  have "count_list (poll_boundary utc_ext office_hours (is_in_session utc_ext office_hours (mk_datetime 2026 6 29 12 0 0 0))
      (map pl_now [poll_at 30 12])) SAEnter = 0"
    by code_simp
  then show ?thesis using run_scheduled_resets [OF n(1) prod.collapse [of ?r, symmetric]] n(2)
    by (simp add: scheduled_start_def in_schedule_def n(1))
qed

end
