(* ===== verification/Spec2Isabelle.thy ===== *)
theory Spec2Isabelle
  imports Fix_Text Fix_Codec_Props Fix_Dict_Props Fix_Schedule Fix_Engine_Props Fix_File_Props Fix_Settings_Props Fix_Fast_Props Fix_Schema_Props Fix_Builder_Props
    Fix_Inbound_Props Fix_Connection_Props Fix_Routing_Props
begin

text \<open>
  A verification development for TrueFix, a FIX protocol engine in Rust. Paths are relative to \<^verbatim>\<open>src/crates/\<close>.

  \<^bold>\<open>The program.\<close> Bytes arrive from a peer (\<^verbatim>\<open>truefix-transport\<close>), are cut into frames and decoded into messages
  (\<^verbatim>\<open>truefix-core\<close>), handed to the session engine (\<^verbatim>\<open>truefix-session\<close>), which keeps the two sequence numbers, the gap queue, the timers and
  the connection state, validates messages against a data dictionary (\<^verbatim>\<open>truefix-dict\<close>), and answers with actions: messages to
  send, messages for the application, a reset, a disconnect. Sent messages and counters are kept in a store (\<^verbatim>\<open>truefix-store\<close>).
  Sessions are described by settings files (\<^verbatim>\<open>truefix-config\<close>). A session may carry its messages in a binary encoding
  (\<^verbatim>\<open>truefix-binary\<close>) whose templates and schemas are loaded from XML.

  \<^bold>\<open>Common ground.\<close> \<open>Fix_Prelude\<close>: bytes as \<open>char list\<close>, fixed-width integers as \<open>nat\<close> or \<open>int\<close> with the saturation and the range
  checks of the source written out, decimal printing and parsing, UTF-8, the proof collections. \<open>Fix_Maps\<close>: \<^verbatim>\<open>BTreeMap\<close> as a sorted
  association list, an instance of the locale \<open>key_map\<close>. \<open>Fix_Text\<close>: the string functions of the standard library and the
  \<open>?\<close> operator on results (\<open>try_then\<close>, \<open>try_map\<close>).

  \<^bold>\<open>Messages and codec\<close> (\<^verbatim>\<open>truefix-core\<close>). \<open>Fix_Message\<close> has the tags, fields, field maps and groups; \<open>Fix_Time\<close> the typed field
  values; \<open>Fix_Encode\<close>, \<open>Fix_Decode\<close> and \<open>Fix_Framing\<close> are \<^verbatim>\<open>codec/encode.rs\<close>, \<^verbatim>\<open>codec/decode.rs\<close> and \<^verbatim>\<open>framing.rs\<close>. \<open>Fix_Codec\<close> and \<open>Fix_Wire\<close> relate them, and
  \<open>Fix_Codec_Props\<close> states the round trips in both directions, the integrity of accepted frames, that structuring groups
  keeps the bytes, and that a stream is cut exactly at an encoded message.

  \<^bold>\<open>Dictionary\<close> (\<^verbatim>\<open>truefix-dict\<close>). \<open>Fix_Dict\<close> is \<^verbatim>\<open>model.rs\<close> with the merge of extensions and the FIXT split, \<open>Fix_Validate\<close> is \<^verbatim>\<open>validate.rs\<close>.
  \<open>Fix_Dict_Parser\<close> is \<^verbatim>\<open>parser.rs\<close>: documents line by line into a parser state, then component resolution and group children.
  \<open>Fix_Dict_Props\<close>, \<open>Fix_Validate_Props\<close> and \<open>Fix_Dict_Parser_Props\<close> show what a merge keeps, what validation accepts, that it
  returns on dictionaries without cyclic groups, and that every parsed dictionary is well formed.

  \<^bold>\<open>Session engine\<close> (\<^verbatim>\<open>truefix-session\<close>). \<open>Fix_Config\<close> has the configuration and identity, \<open>Fix_Schedule\<close> the session windows, \<open>Fix_Admin\<close>
  the session messages. \<open>Fix_Session\<close> and \<open>Fix_Engine\<close> are \<^verbatim>\<open>state.rs\<close>: the record \<open>session\<close> is the struct, each method is a function
  on it that returns the actions and the new session, and \<open>call\<close> lists the public calls. A dictionary search that does not
  return is the value \<open>None\<close> of the handlers, so returning is a statement of its own. \<open>Fix_Effects\<close> states as locales what a
  relation between sessions has to satisfy to be kept by all handlers; \<open>Fix_Invariants\<close>, \<open>Fix_Gap_Queue\<close> and \<open>Fix_Lifecycle\<close>
  interpret them: counters stay in 64 bits, messages are numbered without gaps, the inbound counter only moves forward,
  queued messages lie ahead of it, the connection follows an abstract machine. \<open>Fix_Session_Props\<close> and \<open>Fix_Engine_Props\<close> state
  these with the answers to resend requests, the timers, and the treatment of old messages.

  \<^bold>\<open>Stores\<close> (\<^verbatim>\<open>truefix-store\<close>). \<open>Fix_Store\<close> has the interface as the locale \<open>message_store\<close> and the in-memory stores, \<open>Fix_File_Store\<close> the
  file store and its cached variant over an explicit disk whose operations can be cut short at any byte. \<open>Fix_File_Props\<close>: the
  interface is met, a reopened directory gives back what was saved, a crash loses at most the interrupted save.

  \<^bold>\<open>Settings\<close> (\<^verbatim>\<open>truefix-config\<close>). \<open>Fix_Settings\<close> is the parser of settings files, \<open>Fix_Settings_Props\<close> its meaning on printed documents.
  \<open>Fix_Builder_Keys\<close> and \<open>Fix_Builder\<close> are \<^verbatim>\<open>builder.rs\<close>, the resolution of a section into a session with its store, log, TLS, proxy and address
  settings (\<open>Fix_Net\<close> parses the addresses). \<open>Fix_Builder_Props\<close>: a resolved session is coherent, every error names its section, and
  lenient resolution splits the sections into resolved and refused ones.

  \<^bold>\<open>Transport\<close> (\<^verbatim>\<open>truefix-transport\<close>). \<open>Fix_Inbound\<close> is the reader: chunks of bytes into frames, messages and the two channels;
  \<open>Fix_Inbound_Props\<close> shows that every chunking of a stream gives the messages that were sent. \<open>Fix_Connection\<close> is \<^verbatim>\<open>run_connection\<close> with
  \<^verbatim>\<open>dispatch\<close>, \<^verbatim>\<open>perform_actions\<close> and \<^verbatim>\<open>handle_inbound\<close>: the session is seeded from the store, each turn of the loop (an inbound item, a tick, a
  control message) calls the engine and performs its actions. The application and the store are records of operations, the outcome of
  each write is an input, and the order of turns is an arbitrary list. \<open>Fix_Connection_Inv\<close> states as the locale \<open>connection_invariant\<close> what a
  predicate has to satisfy to be kept by every turn and interprets it; the locale \<open>counter_store\<close> is what a connection needs of its
  store, interpreted for the memory and the file store. \<open>Fix_Connection_Props\<close>: the sessions of a connection are sessions of the engine, the
  counters survive a restart, callbacks come in order, a refused Logon ends the connection, a connection returns, and \<^verbatim>\<open>RefreshOnLogon\<close>
  repeats a number. \<open>Fix_Routing\<close> is the monitor, the acceptor that routes by the Logon, the reconnecting and the scheduled
  initiator; \<open>Fix_Routing_Props\<close>: one connection for each session, the right session, stores not shared, rotation of endpoints, resets.

  \<^bold>\<open>Binary encodings\<close> (\<^verbatim>\<open>truefix-binary\<close>). \<open>Fix_Fast_Wire\<close> and \<open>Fix_Fast\<close> are the FAST codec, \<open>Fix_Sbe\<close> the SBE codec, \<open>Fix_Schema\<close> the loaders of
  their templates and schemas (\<^verbatim>\<open>fast_template.rs\<close>, \<^verbatim>\<open>sbe_schema.rs\<close>) over the events of the XML reader. Their \<open>_Props\<close> theories have the round
  trips, the shape of loaded schemas, and the inputs on which a codec does not give back what it was given.

  \<^bold>\<open>Parameters.\<close> Calendar arithmetic, decimal parsing, time zones, the process environment, XML tokenizing and
  UTF-8 transcoding of third-party crates are arguments of the definitions; what a theorem needs of them is a named
  hypothesis with a witness. Time is an argument of every handler.

  \<^bold>\<open>Bounds and fuel.\<close> Loops are structural or have a termination measure; the only partial function is the search through
  groups, which is \<open>option\<close>-valued because a cyclic dictionary makes it run forever. Group nesting is limited by the constants
  of the source (\<open>MAX_GROUP_NESTING_DEPTH\<close>, \<open>MAX_DEPTH\<close>), the presence map by its seventeen bytes.

  \<^bold>\<open>Not modelled.\<close> Sockets, TLS handshakes and forward proxies of the transport, the start-up of the facade (\<^verbatim>\<open>truefix\<close>), the logs, the
  database-backed stores, the dictionary importers and the code generator, the acceptance-test runner and the broker clients: they are
  input and output around third-party libraries. Tracing, logging and metrics calls are left out everywhere; so are infinite and
  NaN values of the two multipliers of the configuration, which are rational numbers here.
\<close>

end
